(* ===== verification/Prelude.thy ===== *)
theory Prelude
  imports Main "HOL-Library.Word" "HOL-Library.Char_ord" "HOL-Library.List_Lexorder"
begin

text \<open>
  Shared vocabulary of the development: the machine types of the Rust code, fallible
  computations over an explicit state (Rust's \<open>Result\<close> together with the state an
  \<open>async fn\<close> reads and writes), the string routines of the standard library that the
  code calls, and bulk updates of rows.  The locale \<open>step_order\<close> carries the
  compositional reasoning about what a computation may do to the state.
\<close>

section \<open>Types\<close>

type_synonym bytes = "8 word list"      \<comment> \<open>\<open>Vec<u8>\<close>, \<open>&[u8]\<close>\<close>
type_synonym u32 = "32 word"
type_synonym u64 = "64 word"
type_synonym uuid = "128 word"
type_synonym timestamp = nat            \<comment> \<open>microseconds of one monotonic clock\<close>
type_synonym headers = "string \<Rightarrow> string option"
  \<comment> \<open>\<open>headers.get(name).and_then(|v| v.to_str().ok())\<close>\<close>

text \<open>A Rust \<open>String\<close> is its list of UTF-8 bytes, so \<open>length\<close> is \<open>len()\<close>.\<close>

named_theorems comp_simps \<open>evaluation and inversion of fallible computations\<close>
named_theorems row_simps \<open>bulk updates of rows\<close>

section \<open>Fallible computations over a state\<close>

type_synonym ('s, 'e, 'a) comp = "'s \<Rightarrow> ('e + 'a) \<times> 's"

definition returnS :: "'a \<Rightarrow> ('s, 'e, 'a) comp" where
  "returnS x = (\<lambda>s. (Inr x, s))"

definition failS :: "'e \<Rightarrow> ('s, 'e, 'a) comp" where
  "failS e = (\<lambda>s. (Inl e, s))"

text \<open>Rust's \<open>?\<close>: an error leaves the function, keeping the state changes made so far.\<close>

definition bindS :: "('s, 'e, 'a) comp \<Rightarrow> ('a \<Rightarrow> ('s, 'e, 'b) comp) \<Rightarrow> ('s, 'e, 'b) comp" where
  "bindS m f = (\<lambda>s. case m s of (Inl e, s') \<Rightarrow> (Inl e, s') | (Inr x, s') \<Rightarrow> f x s')"

definition ok_or :: "'a option \<Rightarrow> 'e \<Rightarrow> ('s, 'e, 'a) comp" where
  "ok_or opt e = (case opt of None \<Rightarrow> failS e | Some x \<Rightarrow> returnS x)"

definition reject_if :: "bool \<Rightarrow> 'e \<Rightarrow> ('s, 'e, unit) comp" where
  "reject_if b e = (if b then failS e else returnS ())"

definition lift_result :: "'e + 'a \<Rightarrow> ('s, 'e, 'a) comp" where
  "lift_result r = (\<lambda>s. (r, s))"

definition readS :: "('s \<Rightarrow> 'a) \<Rightarrow> ('s, 'e, 'a) comp" where
  "readS g = (\<lambda>s. (Inr (g s), s))"

definition modifyS :: "('s \<Rightarrow> 's) \<Rightarrow> ('s, 'e, unit) comp" where
  "modifyS g = (\<lambda>s. (Inr (), g s))"

lemma returnS_apply [simp]: "returnS x s = (Inr x, s)"
  by (simp add: returnS_def)

lemma failS_apply [simp]: "failS e s = (Inl e, s)"
  by (simp add: failS_def)

lemma lift_result_apply [simp]: "lift_result r s = (r, s)"
  by (simp add: lift_result_def)

lemma readS_apply [simp]: "readS g s = (Inr (g s), s)"
  by (simp add: readS_def)

lemma modifyS_apply [simp]: "modifyS g s = (Inr (), g s)"
  by (simp add: modifyS_def)

lemma ok_or_simps [simp]:
  "ok_or None e = failS e"
  "ok_or (Some x) e = returnS x"
  by (simp_all add: ok_or_def)

lemma reject_if_simps [simp]:
  "reject_if True e = failS e"
  "reject_if False e = returnS ()"
  by (simp_all add: reject_if_def)

lemma bindS_returnS [simp]: "bindS (returnS x) f = f x"
  by (simp add: bindS_def fun_eq_iff)

lemma bindS_failS [simp]: "bindS (failS e) f = failS e"
  by (simp add: bindS_def fun_eq_iff)

lemma bindS_lift_result [simp]:
  "bindS (lift_result (Inr x)) f = f x"
  "bindS (lift_result (Inl e)) f = failS e"
  by (simp_all add: bindS_def fun_eq_iff)

lemma bindS_apply: "bindS m f s =
    (case m s of (Inl e, s') \<Rightarrow> (Inl e, s') | (Inr x, s') \<Rightarrow> f x s')"
  by (simp add: bindS_def)

lemma bindS_readS [simp]: "bindS (readS g) f s = f (g s) s"
  by (simp add: bindS_apply)

lemma bindS_modifyS [simp]: "bindS (modifyS g) f s = f () (g s)"
  by (simp add: bindS_apply)

lemma bindS_assoc: "bindS (bindS m f) g = bindS m (\<lambda>x. bindS (f x) g)"
  by (auto simp: bindS_def fun_eq_iff split: prod.splits sum.splits)

lemma bindS_Inr_iff [comp_simps]:
  "bindS m f s = (Inr y, s'') \<longleftrightarrow> (\<exists>x s'. m s = (Inr x, s') \<and> f x s' = (Inr y, s''))"
  by (auto simp: bindS_def split: prod.splits sum.splits)

lemma ok_or_Inr_iff [comp_simps]:
  "ok_or opt e s = (Inr x, s') \<longleftrightarrow> opt = Some x \<and> s' = s"
  by (cases opt) auto

lemma reject_if_Inr_iff [comp_simps]:
  "reject_if b e s = (Inr u, s') \<longleftrightarrow> \<not> b \<and> s' = s"
  by (cases b) auto

lemma lift_result_Inr_iff [comp_simps]:
  "lift_result r s = (Inr x, s') \<longleftrightarrow> r = Inr x \<and> s' = s"
  by auto

subsection \<open>What a computation may do to the state\<close>

definition moves :: "('s \<Rightarrow> 's \<Rightarrow> bool) \<Rightarrow> ('s, 'e, 'a) comp \<Rightarrow> bool" where
  "moves R m \<longleftrightarrow> (\<forall>s. R s (snd (m s)))"

lemma movesI: "(\<And>s. R s (snd (m s))) \<Longrightarrow> moves R m"
  by (simp add: moves_def)

lemma movesD: "moves R m \<Longrightarrow> m s = (r, s') \<Longrightarrow> R s s'"
  unfolding moves_def by (metis snd_conv)

text \<open>
  The contract between the primitive operations and the handlers composed of them: a
  preorder \<open>R\<close> on states ("the invariant is kept", "no message is lost") that every
  primitive respects is respected by everything \<open>?\<close>-composed of them.
\<close>

locale step_order =
  fixes R :: "'s \<Rightarrow> 's \<Rightarrow> bool"
  assumes step_refl: "R s s"
    and step_trans: "R s t \<Longrightarrow> R t u \<Longrightarrow> R s u"
begin

lemma moves_returnS: "moves R (returnS x)"
  by (simp add: moves_def step_refl)

lemma moves_failS: "moves R (failS e)"
  by (simp add: moves_def step_refl)

lemma moves_lift_result: "moves R (lift_result r)"
  by (simp add: moves_def step_refl)

lemma moves_readS: "moves R (readS g)"
  by (simp add: moves_def step_refl)

lemma moves_ok_or: "moves R (ok_or opt e)"
  by (cases opt) (simp_all add: moves_returnS moves_failS)

lemma moves_reject_if: "moves R (reject_if b e)"
  by (cases b) (simp_all add: moves_returnS moves_failS)

lemma moves_bindS:
  assumes "moves R m" "\<And>x. moves R (f x)"
  shows "moves R (bindS m f)"
proof (rule movesI)
  fix s
  obtain r s' where m: "m s = (r, s')" by (cases "m s")
  then have "R s s'" using assms(1) by (blast dest: movesD)
  moreover have "R s' (snd (f x s'))" for x
    using assms(2) by (simp add: moves_def)
  ultimately show "R s (snd (bindS m f s))"
    using m by (cases r) (auto simp: bindS_apply intro: step_trans)
qed

lemma moves_if: "(b \<Longrightarrow> moves R m) \<Longrightarrow> (\<not> b \<Longrightarrow> moves R n) \<Longrightarrow> moves R (if b then m else n)"
  by simp

lemma moves_case_option:
  "moves R m \<Longrightarrow> (\<And>x. moves R (f x)) \<Longrightarrow> moves R (case opt of None \<Rightarrow> m | Some x \<Rightarrow> f x)"
  by (cases opt) simp_all

lemmas moves_rules =
  moves_returnS moves_failS moves_lift_result moves_readS moves_ok_or moves_reject_if
  moves_bindS moves_if moves_case_option

end

section \<open>Bulk updates of rows\<close>

definition update_where :: "('a \<Rightarrow> bool) \<Rightarrow> ('a \<Rightarrow> 'a) \<Rightarrow> 'a list \<Rightarrow> 'a list" where
  "update_where p f xs = map (\<lambda>x. if p x then f x else x) xs"

definition affected :: "('a \<Rightarrow> bool) \<Rightarrow> 'a list \<Rightarrow> nat" where
  "affected p xs = length (filter p xs)"

lemma update_where_simps [simp]:
  "update_where p f [] = []"
  "update_where p f (x # xs) = (if p x then f x else x) # update_where p f xs"
  "update_where p f (xs @ ys) = update_where p f xs @ update_where p f ys"
  by (simp_all add: update_where_def)

lemma length_update_where [simp]: "length (update_where p f xs) = length xs"
  by (simp add: update_where_def)

lemma set_update_where:
  "set (update_where p f xs) = (\<lambda>x. if p x then f x else x) ` set xs"
  by (simp add: update_where_def)

lemma bex_update_where [simp]:
  "(\<exists>y\<in>set (update_where p f xs). Q y) \<longleftrightarrow> (\<exists>x\<in>set xs. if p x then Q (f x) else Q x)"
  by (auto simp: set_update_where)

lemma ball_update_where [simp]:
  "(\<forall>y\<in>set (update_where p f xs). Q y) \<longleftrightarrow> (\<forall>x\<in>set xs. if p x then Q (f x) else Q x)"
  by (auto simp: set_update_where)

lemma map_update_where [row_simps]:
  "(\<And>x. g (f x) = g x) \<Longrightarrow> map g (update_where p f xs) = map g xs"
  by (induction xs) simp_all

lemma affected_simps [simp]:
  "affected p [] = 0"
  "affected p (x # xs) = (if p x then Suc (affected p xs) else affected p xs)"
  "affected p (xs @ ys) = affected p xs + affected p ys"
  by (simp_all add: affected_def)

lemma affected_eq_0_iff: "affected p xs = 0 \<longleftrightarrow> (\<forall>x\<in>set xs. \<not> p x)"
  by (auto simp: affected_def filter_empty_conv)

lemma update_where_id: "(\<And>x. x \<in> set xs \<Longrightarrow> \<not> p x) \<Longrightarrow> update_where p f xs = xs"
  by (induction xs) simp_all

lemma affected_unique:
  "distinct (map k xs) \<Longrightarrow> (\<And>x y. p x \<Longrightarrow> p y \<Longrightarrow> k x = k y) \<Longrightarrow> affected p xs \<le> 1"
proof (induction xs)
  case (Cons x xs)
  show ?case
  proof (cases "p x")
    case True
    have "\<not> p y" if "y \<in> set xs" for y
      using that Cons.prems True by (metis distinct.simps(2) image_eqI image_set list.simps(9))
    then have "affected p xs = 0" by (simp add: affected_eq_0_iff)
    with True show ?thesis by simp
  next
    case False
    from Cons.prems(1) have "distinct (map k xs)" by simp
    from Cons.IH [OF this Cons.prems(2)] False show ?thesis by simp
  qed
qed simp

text \<open>The first row satisfying a condition: the single row of a lookup on a unique key.\<close>

lemma find_Some_iff_unique:
  assumes "distinct (map k xs)"
  shows "find (\<lambda>x. k x = a) xs = Some r \<longleftrightarrow> r \<in> set xs \<and> k r = a"
  using assms by (induction xs) auto

lemma find_append: "find p (xs @ ys) = (case find p xs of None \<Rightarrow> find p ys | Some x \<Rightarrow> Some x)"
  by (induction xs) simp_all

lemma find_update_where_other:
  "(\<And>x. p (f x) = p x) \<Longrightarrow>
   find p (update_where q f xs) = map_option (\<lambda>x. if q x then f x else x) (find p xs)"
  by (induction xs) auto

lemma find_SomeD: "find p xs = Some x \<Longrightarrow> x \<in> set xs \<and> p x"
  by (induction xs) (auto split: if_splits)

section \<open>Strings\<close>

text \<open>
  \<open>char::is_whitespace\<close> on UTF-8 bytes: U+0009 to U+000D and U+0020 (one byte), U+0085
  and U+00A0 (two), U+1680, U+2000 to U+200A, U+2028, U+2029, U+202F, U+205F, U+3000 (three).
\<close>

definition ws1 :: "char \<Rightarrow> bool" where
  "ws1 a \<longleftrightarrow> (let n = of_char a :: nat in 9 \<le> n \<and> n \<le> 13 \<or> n = 32)"

definition ws2 :: "char \<Rightarrow> char \<Rightarrow> bool" where
  "ws2 a b \<longleftrightarrow> (of_char a :: nat) = 0xC2 \<and> (of_char b :: nat) \<in> {0x85, 0xA0}"

definition ws3 :: "char \<Rightarrow> char \<Rightarrow> char \<Rightarrow> bool" where
  "ws3 a b c \<longleftrightarrow> (let x = of_char a :: nat; y = of_char b :: nat; z = of_char c :: nat in
     x = 0xE1 \<and> y = 0x9A \<and> z = 0x80 \<or>
     x = 0xE2 \<and> y = 0x80 \<and> (0x80 \<le> z \<and> z \<le> 0x8A \<or> z \<in> {0xA8, 0xA9, 0xAF}) \<or>
     x = 0xE2 \<and> y = 0x81 \<and> z = 0x9F \<or>
     x = 0xE3 \<and> y = 0x80 \<and> z = 0x80)"

fun trim_start :: "string \<Rightarrow> string" where
  "trim_start (a # b # c # s) =
     (if ws1 a then trim_start (b # c # s) else if ws2 a b then trim_start (c # s)
      else if ws3 a b c then trim_start s else a # b # c # s)"
| "trim_start [a, b] = (if ws1 a then trim_start [b] else if ws2 a b then [] else [a, b])"
| "trim_start [a] = (if ws1 a then [] else [a])"
| "trim_start [] = []"

fun trim_rev :: "string \<Rightarrow> string" where
  "trim_rev (c # b # a # s) =
     (if ws1 c then trim_rev (b # a # s) else if ws2 b c then trim_rev (a # s)
      else if ws3 a b c then trim_rev s else c # b # a # s)"
| "trim_rev [b, a] = (if ws1 b then trim_rev [a] else if ws2 a b then [] else [b, a])"
| "trim_rev [a] = (if ws1 a then [] else [a])"
| "trim_rev [] = []"

definition trim :: "string \<Rightarrow> string" where
  "trim s = rev (trim_rev (rev (trim_start s)))"

definition strip_prefix :: "string \<Rightarrow> string \<Rightarrow> string option" where
  "strip_prefix p s = (if take (length p) s = p then Some (drop (length p) s) else None)"

fun split_once :: "char \<Rightarrow> string \<Rightarrow> (string \<times> string) option" where
  "split_once c [] = None"
| "split_once c (x # xs) =
     (if x = c then Some ([], xs)
      else map_option (\<lambda>(a, b). (x # a, b)) (split_once c xs))"

definition clamp :: "'a::linorder \<Rightarrow> 'a \<Rightarrow> 'a \<Rightarrow> 'a" where
  "clamp lo hi x = (if x < lo then lo else if hi < x then hi else x)"

lemma clamp_range: "lo \<le> hi \<Longrightarrow> lo \<le> clamp lo hi x \<and> clamp lo hi x \<le> hi"
  by (auto simp: clamp_def)

lemma strip_prefix_append [simp]: "strip_prefix p (p @ s) = Some s"
  by (simp add: strip_prefix_def)

lemma strip_prefix_Some: "strip_prefix p s = Some r \<Longrightarrow> s = p @ r"
  unfolding strip_prefix_def by (metis append_take_drop_id option.distinct(1) option.inject)

lemma split_once_append: "c \<notin> set a \<Longrightarrow> split_once c (a @ c # b) = Some (a, b)"
  by (induction a) auto

lemma split_once_Some: "split_once c s = Some (a, b) \<Longrightarrow> s = a @ c # b \<and> c \<notin> set a"
  by (induction s arbitrary: a) (auto split: if_splits)

lemma trim_start_id: "s \<noteq> [] \<Longrightarrow> (\<forall>c\<in>set s. of_char c < (128::nat)) \<Longrightarrow> \<not> ws1 (hd s) \<Longrightarrow> trim_start s = s"
  by (cases s rule: trim_start.cases) (auto simp: ws2_def ws3_def)

lemma trim_rev_id: "s \<noteq> [] \<Longrightarrow> (\<forall>c\<in>set s. of_char c < (128::nat)) \<Longrightarrow> \<not> ws1 (hd s) \<Longrightarrow> trim_rev s = s"
  by (cases s rule: trim_rev.cases) (auto simp: ws2_def ws3_def)

text \<open>ASCII text that neither starts nor ends with white space is its own trimming.\<close>

lemma trim_id:
  assumes "s \<noteq> []" "\<forall>c\<in>set s. of_char c < (128::nat)" "\<not> ws1 (hd s)" "\<not> ws1 (last s)"
  shows "trim s = s"
proof -
  have "trim_start s = s" using assms by (intro trim_start_id) auto
  moreover have "trim_rev (rev s) = rev s"
    using assms by (intro trim_rev_id) (auto simp: hd_rev)
  ultimately show ?thesis by (simp add: trim_def)
qed

lemma trim_Nil [simp]: "trim [] = []"
  by (simp add: trim_def)

end
