(* ===== verification/Shared_Api.thy ===== *)
theory Shared_Api
  imports Prelude
begin

text \<open>
  The wire types of \<open>crates/shared/src/lib.rs\<close>, one record per DTO, in the order of the
  file.  Fields carry a short prefix of the record's name, because Isabelle's field
  selectors share one name space.  \<open>i64\<close> times and limits are \<open>int\<close>, row counts and
  \<open>usize\<close> limits \<open>nat\<close>, the \<open>i32\<close> key id \<open>int\<close>.  At the end, the sums over all
  request and response bodies that travel between the client's transport and the router.
\<close>

section \<open>Devices and prekeys\<close>

record register_device_request =
  rd_user_id :: string
  rd_device_id :: string
  rd_identity_key_b64 :: string
  rd_signing_identity_key_b64 :: string
  rd_signed_prekey_b64 :: string
  rd_signed_prekey_signature_b64 :: string

record register_device_response =
  rdr_device_uuid :: string

record prekey_upload_item =
  pu_key_id :: int
  pu_pubkey_b64 :: string

record upload_prekeys_request =
  up_device_uuid :: string
  up_prekeys :: "prekey_upload_item list"

record upload_prekeys_response =
  upr_inserted :: nat

record fetch_prekey_bundle_request =
  fb_user_id :: string
  fb_device_id :: string

record fetch_prekey_bundle_response =
  pb_device_uuid :: string
  pb_identity_key_b64 :: string
  pb_signing_identity_key_b64 :: string
  pb_signed_prekey_b64 :: string
  pb_signed_prekey_signature_b64 :: string
  pb_one_time_prekey :: "prekey_upload_item option"

section \<open>Messages\<close>

record send_message_request =
  sm_message_id :: string
  sm_from_device_uuid :: string
  sm_to_device_uuid :: string
  sm_envelope_b64 :: string

record send_message_response =
  smr_accepted :: bool

record fetch_pending_request =
  fp_device_uuid :: string
  fp_limit :: "int option"

record pending_message_item =
  pm_message_id :: string
  pm_from_device_uuid :: string
  pm_envelope_b64 :: string
  pm_created_at_unix_ms :: int

record fetch_pending_response =
  fpr_messages :: "pending_message_item list"

section \<open>Device login, acknowledgements and statuses\<close>

record device_login_request =
  dl_user_id :: string
  dl_device_id :: string

record device_login_response =
  dlr_device_uuid :: string
  dlr_auth_token :: string

record ack_message_request =
  am_device_uuid :: string
  am_message_ids :: "string list"

record ack_message_response =
  amr_acked :: nat

record message_status_request =
  ms_message_ids :: "string list"

record message_status_item =
  msi_message_id :: string
  msi_delivered :: bool
  msi_read :: bool

record message_status_response =
  msr_messages :: "message_status_item list"

section \<open>Blobs\<close>

record upload_blob_request =
  ub_data_b64 :: string

record upload_blob_response =
  ubr_blob_id :: string

record create_blob_response =
  cbr_blob_id :: string

record append_blob_chunk_request =
  ab_blob_id :: string
  ab_chunk_b64 :: string

record append_blob_chunk_response =
  abr_size :: nat

record fetch_blob_request =
  fbl_blob_id :: string

record fetch_blob_response =
  fblr_data_b64 :: string

section \<open>Sessions and users\<close>

record device_logout_request =
  do_device_uuid :: string

record device_logout_response =
  dor_revoked :: bool

record user_register_request =
  ureg_user_id :: string
  ureg_password :: string
  ureg_invite_code :: string

record user_register_response =
  uregr_created :: bool

record user_login_request =
  ul_user_id :: string
  ul_password :: string

record user_login_response =
  ulr_ok :: bool

record resolve_user_request =
  ru_user_id :: string
  ru_device_id :: string

record resolve_user_response =
  rur_device_uuid :: string

record resolve_device_request =
  rdev_device_uuid :: string

record resolve_device_response =
  rdevr_user_id :: string

record user_search_request =
  us_query :: string

record user_search_response =
  usr_users :: "string list"

record block_user_request =
  bu_user_id :: string

record block_user_response =
  bur_blocked :: bool

record unblock_user_request =
  uu_user_id :: string

record unblock_user_response =
  uur_unblocked :: bool

record blocked_users_response =
  bus_users :: "string list"

record user_online_request =
  uo_user_id :: string
  uo_device_id :: string

record user_online_response =
  uor_online :: bool

section \<open>Call signalling\<close>

record send_call_signal_request =
  sc_call_id :: string
  sc_from_device_uuid :: string
  sc_to_device_uuid :: string
  sc_kind :: string
  sc_payload :: string

record send_call_signal_response =
  scr_accepted :: bool

record fetch_call_signals_request =
  fc_device_uuid :: string
  fc_call_id :: "string option"
  fc_limit :: "nat option"

record call_signal_item =
  cs_call_id :: string
  cs_from_device_uuid :: string
  cs_kind :: string
  cs_payload :: string
  cs_created_at_unix_ms :: int

record fetch_call_signals_response =
  fcr_signals :: "call_signal_item list"

section \<open>All bodies\<close>

datatype request_body =
    QNone
  | QRegisterDevice register_device_request
  | QUploadPrekeys upload_prekeys_request
  | QFetchPrekeyBundle fetch_prekey_bundle_request
  | QSendMessage send_message_request
  | QFetchPending fetch_pending_request
  | QDeviceLogin device_login_request
  | QAckMessage ack_message_request
  | QMessageStatus message_status_request
  | QUploadBlob upload_blob_request
  | QBytes bytes
  | QAppendBlobChunk append_blob_chunk_request
  | QFetchBlob fetch_blob_request
  | QDeviceLogout device_logout_request
  | QUserRegister user_register_request
  | QUserLogin user_login_request
  | QResolveUser resolve_user_request
  | QResolveDevice resolve_device_request
  | QUserSearch user_search_request
  | QBlockUser block_user_request
  | QUnblockUser unblock_user_request
  | QUserOnline user_online_request
  | QSendCallSignal send_call_signal_request
  | QFetchCallSignals fetch_call_signals_request

datatype response_body =
    PEmpty
  | PUpgrade
  | PRegisterDevice register_device_response
  | PUploadPrekeys upload_prekeys_response
  | PFetchPrekeyBundle fetch_prekey_bundle_response
  | PSendMessage send_message_response
  | PFetchPending fetch_pending_response
  | PDeviceLogin device_login_response
  | PAckMessage ack_message_response
  | PMessageStatus message_status_response
  | PUploadBlob upload_blob_response
  | PCreateBlob create_blob_response
  | PAppendBlobChunk append_blob_chunk_response
  | PFetchBlob fetch_blob_response
  | PBytes bytes
  | PDeviceLogout device_logout_response
  | PUserRegister user_register_response
  | PUserLogin user_login_response
  | PResolveUser resolve_user_response
  | PResolveDevice resolve_device_response
  | PUserSearch user_search_response
  | PBlockUser block_user_response
  | PUnblockUser unblock_user_response
  | PBlockedUsers blocked_users_response
  | PUserOnline user_online_response
  | PSendCallSignal send_call_signal_response
  | PFetchCallSignals fetch_call_signals_response

end
