(* ===== verification/Api_Core.thy ===== *)
theory Api_Core
  imports Shared_Api
begin

text \<open>
  The state of the server process and the way its handlers touch it: \<open>ApiError\<close>
  (\<open>api_error.rs\<close>), \<open>AppState\<close> with the process-wide statics of \<open>domain/realtime.rs\<close> and
  \<open>domain/call_signaling.rs\<close>, the PostgreSQL schema of \<open>crates/server/migrations\<close>, single
  statements and transactions.  Third-party code (the crates \<open>uuid\<close>, \<open>base64\<close>, \<open>sha2\<close>,
  \<open>argon2\<close> and the database's collation and \<open>ILIKE\<close>) is the record \<open>env\<close>, an argument of
  every definition that uses it; random values are drawn from an argument of type \<open>draws\<close>.
\<close>

section \<open>Errors\<close>

record api_error =
  ae_status :: nat
  ae_message :: string

definition api_error :: "nat \<Rightarrow> string \<Rightarrow> api_error" where
  "api_error st msg = \<lparr>ae_status = st, ae_message = msg\<rparr>"

definition api_error_database :: api_error where
  "api_error_database = api_error 500 ''database error''"

text \<open>The status codes of \<open>axum::http::StatusCode\<close> that the handlers use.\<close>

abbreviation "BAD_REQUEST \<equiv> (400::nat)"
abbreviation "UNAUTHORIZED \<equiv> (401::nat)"
abbreviation "FORBIDDEN \<equiv> (403::nat)"
abbreviation "NOT_FOUND \<equiv> (404::nat)"
abbreviation "CONFLICT \<equiv> (409::nat)"
abbreviation "PAYLOAD_TOO_LARGE \<equiv> (413::nat)"
abbreviation "UPGRADE_REQUIRED \<equiv> (426::nat)"
abbreviation "TOO_MANY_REQUESTS \<equiv> (429::nat)"
abbreviation "INTERNAL_SERVER_ERROR \<equiv> (500::nat)"
abbreviation "SERVICE_UNAVAILABLE \<equiv> (503::nat)"

section \<open>Third-party code\<close>

record env =
  parse_uuid :: "string \<Rightarrow> uuid option"        \<comment> \<open>\<open>Uuid::parse_str\<close>\<close>
  show_uuid :: "uuid \<Rightarrow> string"                \<comment> \<open>\<open>Uuid::to_string\<close>, hyphenated\<close>
  simple_uuid :: "uuid \<Rightarrow> string"              \<comment> \<open>\<open>Uuid::simple\<close>\<close>
  b64_encode :: "bytes \<Rightarrow> string"              \<comment> \<open>\<open>STANDARD.encode\<close>\<close>
  b64_decode :: "string \<Rightarrow> bytes option"       \<comment> \<open>\<open>STANDARD.decode\<close>\<close>
  b64url_encode :: "bytes \<Rightarrow> string"           \<comment> \<open>\<open>URL_SAFE_NO_PAD.encode\<close>\<close>
  sha256_hex :: "string \<Rightarrow> string"             \<comment> \<open>\<open>Sha256::digest\<close>, printed with \<open>{:x}\<close>\<close>
  argon2_hash :: "string \<Rightarrow> 128 word \<Rightarrow> string option"
    \<comment> \<open>\<open>Argon2::default().hash_password(password, salt)\<close> as a PHC string\<close>
  phc_parse :: "string \<Rightarrow> string option"       \<comment> \<open>\<open>PasswordHash::new\<close>\<close>
  argon2_verify :: "string \<Rightarrow> string \<Rightarrow> bool"  \<comment> \<open>\<open>verify_password(password, parsed).is_ok()\<close>\<close>
  collate_le :: "string \<Rightarrow> string \<Rightarrow> bool"     \<comment> \<open>the order of \<open>ORDER BY user_id\<close>\<close>
  ilike :: "string \<Rightarrow> string \<Rightarrow> bool"          \<comment> \<open>text \<open>ILIKE\<close> pattern\<close>
  ws_handshake :: "headers \<Rightarrow> bool"           \<comment> \<open>the extractor \<open>WebSocketUpgrade\<close> accepts the headers\<close>

type_synonym draws = "nat \<Rightarrow> 128 word"
  \<comment> \<open>the values one request draws from \<open>OsRng\<close>, \<open>Uuid::new_v4\<close> and \<open>gen_random_uuid()\<close>\<close>

text \<open>The documented laws of the crates, as named hypotheses for the properties that need them.\<close>

definition uuid_laws :: "env \<Rightarrow> bool" where
  "uuid_laws E \<longleftrightarrow> (\<forall>u. parse_uuid E (show_uuid E u) = Some u)"

definition b64_laws :: "env \<Rightarrow> bool" where
  "b64_laws E \<longleftrightarrow> (\<forall>bs. b64_decode E (b64_encode E bs) = Some bs)"

section \<open>The tables\<close>

record user_row =
  ur_id :: nat
  ur_user_id :: string
  ur_password_hash :: string
  ur_created_at :: timestamp

record device_row =
  dr_id :: uuid
  dr_user_id :: string
  dr_device_id :: string
  dr_identity_key :: bytes
  dr_signing_identity_key :: "bytes option"
  dr_signed_prekey :: bytes
  dr_signed_prekey_signature :: "bytes option"
  dr_created_at :: timestamp

record prekey_row =
  pk_id :: nat
  pk_device_ref :: uuid
  pk_key_id :: int
  pk_pubkey :: bytes
  pk_consumed_at :: "timestamp option"
  pk_created_at :: timestamp

record message_row =
  mr_id :: uuid
  mr_message_id :: string
  mr_from_device :: uuid
  mr_to_device :: uuid
  mr_envelope_bytes :: bytes
  mr_created_at :: timestamp
  mr_delivered_at :: "timestamp option"
  mr_acked_at :: "timestamp option"

record token_row =
  tk_id :: nat
  tk_device_ref :: uuid
  tk_token_hash :: string
  tk_created_at :: timestamp
  tk_expires_at :: timestamp
  tk_revoked_at :: "timestamp option"

record blob_row =
  bl_id :: uuid
  bl_owner_device :: uuid
  bl_data :: bytes
  bl_created_at :: timestamp

record invite_row =
  iv_id :: uuid
  iv_secret_hash :: string
  iv_created_at :: timestamp
  iv_expires_at :: timestamp
  iv_used_at :: "timestamp option"
  iv_used_by_user_id :: "nat option"

record block_row =
  bk_blocker_user_id :: string
  bk_blocked_user_id :: string
  bk_created_at :: timestamp

text \<open>
  A table is the list of its rows, in insertion order (the order in which the model answers a
  \<open>SELECT\<close> without \<open>ORDER BY\<close>).  The three \<open>BIGSERIAL\<close> sequences are part of the state: they
  advance on every attempted insert and a rollback does not set them back.
\<close>

record tables =
  t_users :: "user_row list"
  t_devices :: "device_row list"
  t_prekeys :: "prekey_row list"
  t_messages :: "message_row list"
  t_tokens :: "token_row list"
  t_blobs :: "blob_row list"
  t_invites :: "invite_row list"
  t_blocks :: "block_row list"
  t_users_seq :: nat
  t_prekeys_seq :: nat
  t_tokens_seq :: nat

definition empty_tables :: tables where
  "empty_tables = \<lparr>t_users = [], t_devices = [], t_prekeys = [], t_messages = [], t_tokens = [],
     t_blobs = [], t_invites = [], t_blocks = [], t_users_seq = 0, t_prekeys_seq = 0,
     t_tokens_seq = 0\<rparr>"

definition rollback_to :: "tables \<Rightarrow> tables \<Rightarrow> tables" where
  "rollback_to old new = old\<lparr>t_users_seq := t_users_seq new, t_prekeys_seq := t_prekeys_seq new,
     t_tokens_seq := t_tokens_seq new\<rparr>"

section \<open>The process state\<close>

record limiter_entry =
  le_attempts :: u32
  le_window_started :: timestamp
  le_blocked_until :: "timestamp option"

record queued_call_signal =
  qs_to_device_uuid :: uuid
  qs_item :: call_signal_item

record server =
  tables :: tables
  faults :: "bool list"       \<comment> \<open>outcomes of the coming database calls; \<open>True\<close> fails\<close>
  clock :: timestamp          \<comment> \<open>\<open>NOW()\<close>, \<open>Instant::now()\<close> and \<open>SystemTime::now()\<close>\<close>
  limiter :: "string \<rightharpoonup> limiter_entry"
  min_client_version :: string
  online_devices :: "uuid set"
  device_last_seen :: "uuid \<rightharpoonup> timestamp"
  call_signals :: "queued_call_signal list"

section \<open>Statements and transactions\<close>

datatype sql_error = SqlError

type_synonym 'a query = "timestamp \<Rightarrow> tables \<Rightarrow> (sql_error + 'a) \<times> tables"
type_synonym 'a handler = "(server, api_error, 'a) comp"

text \<open>
  Every call to the database may fail whatever the statement (connection, pool timeout);
  \<open>db_ok\<close> takes the outcome of the next call from \<open>faults\<close>.  Handlers turn any
  \<open>sqlx::Error\<close> into \<open>ApiError::database\<close>.
\<close>

definition db_ok :: "server \<Rightarrow> bool \<times> server" where
  "db_ok s = (case faults s of [] \<Rightarrow> (True, s) | b # bs \<Rightarrow> (\<not> b, s\<lparr>faults := bs\<rparr>))"

definition run_sql :: "'a query \<Rightarrow> 'a handler" where
  "run_sql q s =
     (let (ok, s1) = db_ok s in
      if \<not> ok then (Inl api_error_database, s1)
      else case q (clock s1) (tables s1) of
        (Inl e, t) \<Rightarrow> (Inl api_error_database, s1\<lparr>tables := rollback_to (tables s1) t\<rparr>)
      | (Inr x, t) \<Rightarrow> (Inr x, s1\<lparr>tables := t\<rparr>))"

text \<open>
  \<open>db.begin()\<close>, a body, \<open>tx.commit()\<close>.  Leaving the body with an error drops the
  transaction, which rolls it back; so does a commit that fails.
\<close>

definition transaction :: "'a handler \<Rightarrow> 'a handler" where
  "transaction body s =
     (let (ok, s1) = db_ok s in
      if \<not> ok then (Inl api_error_database, s1)
      else case body s1 of
        (Inl e, s2) \<Rightarrow> (Inl e, s2\<lparr>tables := rollback_to (tables s1) (tables s2)\<rparr>)
      | (Inr x, s2) \<Rightarrow>
          (let (ok2, s3) = db_ok s2 in
           if ok2 then (Inr x, s3)
           else (Inl api_error_database, s3\<lparr>tables := rollback_to (tables s1) (tables s3)\<rparr>)))"

lemma db_ok_frame:
  assumes "db_ok s = (b, s')"
  shows "tables s' = tables s" "clock s' = clock s" "limiter s' = limiter s"
    "online_devices s' = online_devices s" "device_last_seen s' = device_last_seen s"
    "call_signals s' = call_signals s" "min_client_version s' = min_client_version s"
  using assms by (auto simp: db_ok_def split: list.splits)

lemma db_ok_no_faults: "faults s = [] \<Longrightarrow> db_ok s = (True, s)"
  by (simp add: db_ok_def)

lemma db_ok_eq: "db_ok s = (b, s') \<Longrightarrow> \<exists>fs. s' = s\<lparr>faults := fs\<rparr>"
  by (cases s) (auto simp: db_ok_def split: list.splits)

text \<open>Without database failures a statement is its query and a transaction its body.\<close>

lemma run_sql_no_faults:
  "faults s = [] \<Longrightarrow> run_sql q s =
     (case q (clock s) (tables s) of
        (Inl e, t) \<Rightarrow> (Inl api_error_database, s\<lparr>tables := rollback_to (tables s) t\<rparr>)
      | (Inr x, t) \<Rightarrow> (Inr x, s\<lparr>tables := t\<rparr>))"
  by (simp add: run_sql_def db_ok_no_faults)

lemma run_sql_Inr [comp_simps]:
  "run_sql q s = (Inr x, s') \<longleftrightarrow>
     (\<exists>s1 t. db_ok s = (True, s1) \<and> q (clock s) (tables s) = (Inr x, t) \<and> s' = s1\<lparr>tables := t\<rparr>)"
proof -
  obtain ok s1 where d: "db_ok s = (ok, s1)" by (cases "db_ok s")
  show ?thesis
    using db_ok_frame [OF d] d by (auto simp: run_sql_def split: prod.splits sum.splits)
qed

lemma run_sql_Inl:
  assumes "run_sql q s = (Inl e, s')"
  shows "e = api_error_database \<and> (\<exists>t. tables s' = rollback_to (tables s) t)"
proof -
  obtain ok s1 where d: "db_ok s = (ok, s1)" by (cases "db_ok s")
  have id: "tables s1 = tables s" using db_ok_frame(1) [OF d] .
  have same: "t = rollback_to t t" for t by (simp add: rollback_to_def)
  from assms d id show ?thesis
    using same [of "tables s"]
    by (auto simp: run_sql_def split: prod.splits sum.splits if_splits)
qed

lemma transaction_Inr [comp_simps]:
  "transaction m s = (Inr x, s') \<longleftrightarrow>
     (\<exists>s1 s2. db_ok s = (True, s1) \<and> m s1 = (Inr x, s2) \<and> db_ok s2 = (True, s'))"
proof -
  obtain ok s1 where d: "db_ok s = (ok, s1)" by (cases "db_ok s")
  obtain r s2 where m: "m s1 = (r, s2)" by (cases "m s1")
  obtain ok2 s3 where d2: "db_ok s2 = (ok2, s3)" by (cases "db_ok s2")
  show ?thesis using d m d2 by (cases ok; cases r; cases ok2) (auto simp: transaction_def)
qed

lemma transaction_Inl_tables:
  assumes "transaction m s = (Inl e, s')"
  shows "\<exists>t. tables s' = rollback_to (tables s) t"
proof -
  obtain ok s1 where d: "db_ok s = (ok, s1)" by (cases "db_ok s")
  obtain r s2 where m: "m s1 = (r, s2)" by (cases "m s1")
  obtain ok2 s3 where d2: "db_ok s2 = (ok2, s3)" by (cases "db_ok s2")
  have id: "tables s1 = tables s" using db_ok_frame(1) [OF d] .
  have same: "t = rollback_to t t" for t by (simp add: rollback_to_def)
  show ?thesis
  proof (cases ok)
    case False
    with assms d id show ?thesis using same [of "tables s"] by (auto simp: transaction_def)
  next
    case True
    with assms d m d2 id show ?thesis
      by (cases r; cases ok2) (auto simp: transaction_def)
  qed
qed

lemma transaction_no_faults:
  assumes "faults s = []"
  shows "transaction m s =
     (case m s of
        (Inl e, s2) \<Rightarrow> (Inl e, s2\<lparr>tables := rollback_to (tables s) (tables s2)\<rparr>)
      | (Inr x, s2) \<Rightarrow>
          (if fst (db_ok s2) then (Inr x, snd (db_ok s2))
           else (Inl api_error_database,
                 (snd (db_ok s2))\<lparr>tables := rollback_to (tables s) (tables (snd (db_ok s2)))\<rparr>)))"
  using assms by (auto simp: transaction_def db_ok_no_faults split: prod.splits sum.splits)

lemma rollback_to_fields [simp]:
  "t_users (rollback_to a b) = t_users a"
  "t_devices (rollback_to a b) = t_devices a"
  "t_prekeys (rollback_to a b) = t_prekeys a"
  "t_messages (rollback_to a b) = t_messages a"
  "t_tokens (rollback_to a b) = t_tokens a"
  "t_blobs (rollback_to a b) = t_blobs a"
  "t_invites (rollback_to a b) = t_invites a"
  "t_blocks (rollback_to a b) = t_blocks a"
  "t_users_seq (rollback_to a b) = t_users_seq b"
  "t_prekeys_seq (rollback_to a b) = t_prekeys_seq b"
  "t_tokens_seq (rollback_to a b) = t_tokens_seq b"
  by (simp_all add: rollback_to_def)

end
