(* ===== verification/Repo_Accounts.thy ===== *)
theory Repo_Accounts
  imports Api_Core
begin

text \<open>
  The repositories behind accounts and devices: \<open>repository/users.rs\<close>,
  \<open>registration_invites.rs\<close>, \<open>devices.rs\<close>, \<open>prekeys.rs\<close>, \<open>auth_tokens.rs\<close> and
  \<open>user_blocks.rs\<close>.  Each function is one SQL statement, written as the change it makes to
  the tables under the constraints of the migrations (primary keys, \<open>UNIQUE\<close>, \<open>CHECK\<close>,
  foreign keys); a violated constraint is \<open>Inl SqlError\<close>.
\<close>

section \<open>Interval arithmetic and ordering\<close>

definition days :: "nat \<Rightarrow> nat" where
  "days n = n * 86400000000"

definition minutes :: "nat \<Rightarrow> nat" where
  "minutes n = n * 60000000"

text \<open>\<open>ORDER BY\<close> under a collation: a stable insertion sort.\<close>

fun insert_by :: "('a \<Rightarrow> 'a \<Rightarrow> bool) \<Rightarrow> 'a \<Rightarrow> 'a list \<Rightarrow> 'a list" where
  "insert_by le x [] = [x]"
| "insert_by le x (y # ys) = (if le x y then x # y # ys else y # insert_by le x ys)"

fun order_by :: "('a \<Rightarrow> 'a \<Rightarrow> bool) \<Rightarrow> 'a list \<Rightarrow> 'a list" where
  "order_by le [] = []"
| "order_by le (x # xs) = insert_by le x (order_by le xs)"

lemma set_insert_by [simp]: "set (insert_by le x xs) = insert x (set xs)"
  by (induction xs) auto

lemma set_order_by [simp]: "set (order_by le xs) = set xs"
  by (induction xs) auto

section \<open>users.rs\<close>

definition create_user :: "string \<Rightarrow> string \<Rightarrow> bool query" where
  "create_user user_id password_hash now t =
     (let t1 = t\<lparr>t_users_seq := t_users_seq t + 1\<rparr> in
      if \<exists>u\<in>set (t_users t). ur_user_id u = user_id then (Inr False, t1)
      else (Inr True, t1\<lparr>t_users := t_users t @
        [\<lparr>ur_id = t_users_seq t1, ur_user_id = user_id, ur_password_hash = password_hash,
          ur_created_at = now\<rparr>]\<rparr>))"

definition create_user_tx :: "string \<Rightarrow> string \<Rightarrow> nat option query" where
  "create_user_tx user_id password_hash now t =
     (let t1 = t\<lparr>t_users_seq := t_users_seq t + 1\<rparr> in
      if \<exists>u\<in>set (t_users t). ur_user_id u = user_id then (Inr None, t1)
      else (Inr (Some (t_users_seq t1)), t1\<lparr>t_users := t_users t @
        [\<lparr>ur_id = t_users_seq t1, ur_user_id = user_id, ur_password_hash = password_hash,
          ur_created_at = now\<rparr>]\<rparr>))"

definition get_password_hash :: "string \<Rightarrow> string option query" where
  "get_password_hash user_id now t =
     (Inr (map_option ur_password_hash (find (\<lambda>u. ur_user_id u = user_id) (t_users t))), t)"

definition user_exists :: "string \<Rightarrow> bool query" where
  "user_exists user_id now t = (Inr (\<exists>u\<in>set (t_users t). ur_user_id u = user_id), t)"

definition search_users :: "env \<Rightarrow> string \<Rightarrow> string list query" where
  "search_users E qu now t =
     (let pattern = qu @ ''%'' in
      (Inr (take 20 (order_by (collate_le E)
         (filter (\<lambda>u. ilike E u pattern) (map ur_user_id (t_users t))))), t))"

section \<open>registration_invites.rs\<close>

record registration_invite =
  ri_secret_hash :: string
  ri_used_at_exists :: bool
  ri_expired :: bool

definition insert_invite :: "uuid \<Rightarrow> string \<Rightarrow> unit query" where
  "insert_invite i secret_hash now t =
     (if \<exists>v\<in>set (t_invites t). iv_id v = i then (Inl SqlError, t)
      else (Inr (), t\<lparr>t_invites := t_invites t @
        [\<lparr>iv_id = i, iv_secret_hash = secret_hash, iv_created_at = now,
          iv_expires_at = now + days 2, iv_used_at = None, iv_used_by_user_id = None\<rparr>]\<rparr>))"

definition find_invite :: "uuid \<Rightarrow> registration_invite option query" where
  "find_invite i now t =
     (Inr (map_option
        (\<lambda>v. \<lparr>ri_secret_hash = iv_secret_hash v, ri_used_at_exists = (iv_used_at v \<noteq> None),
              ri_expired = (iv_expires_at v \<le> now)\<rparr>)
        (find (\<lambda>v. iv_id v = i) (t_invites t))), t)"

definition mark_used :: "uuid \<Rightarrow> nat \<Rightarrow> unit query" where
  "mark_used i user_db_id now t =
     (if \<exists>v\<in>set (t_invites t). iv_id v = i \<and> iv_used_at v = None \<and>
           \<not> (\<exists>u\<in>set (t_users t). ur_id u = user_db_id)
      then (Inl SqlError, t)
      else (Inr (), t\<lparr>t_invites :=
        update_where (\<lambda>v. iv_id v = i \<and> iv_used_at v = None)
          (\<lambda>v. v\<lparr>iv_used_at := Some now, iv_used_by_user_id := Some user_db_id\<rparr>)
          (t_invites t)\<rparr>))"

section \<open>devices.rs\<close>

definition upsert_device ::
  "uuid \<Rightarrow> string \<Rightarrow> string \<Rightarrow> bytes \<Rightarrow> bytes \<Rightarrow> bytes \<Rightarrow> bytes \<Rightarrow> uuid query" where
  "upsert_device fresh user_id device_id identity signing prekey sig now t =
     (let same = (\<lambda>d. dr_user_id d = user_id \<and> dr_device_id d = device_id) in
      case find same (t_devices t) of
        Some d \<Rightarrow> (Inr (dr_id d), t\<lparr>t_devices := update_where same
          (\<lambda>d. d\<lparr>dr_identity_key := identity, dr_signing_identity_key := Some signing,
                 dr_signed_prekey := prekey, dr_signed_prekey_signature := Some sig\<rparr>)
          (t_devices t)\<rparr>)
      | None \<Rightarrow>
          if \<exists>d\<in>set (t_devices t). dr_id d = fresh then (Inl SqlError, t)
          else (Inr fresh, t\<lparr>t_devices := t_devices t @
            [\<lparr>dr_id = fresh, dr_user_id = user_id, dr_device_id = device_id,
              dr_identity_key = identity, dr_signing_identity_key = Some signing,
              dr_signed_prekey = prekey, dr_signed_prekey_signature = Some sig,
              dr_created_at = now\<rparr>]\<rparr>))"

definition find_device_uuid :: "string \<Rightarrow> string \<Rightarrow> uuid option query" where
  "find_device_uuid user_id device_id now t =
     (Inr (map_option dr_id
        (find (\<lambda>d. dr_user_id d = user_id \<and> dr_device_id d = device_id) (t_devices t))), t)"

type_synonym device_bundle = "uuid \<times> bytes \<times> bytes \<times> bytes \<times> bytes"

text \<open>The two key columns added by migration 4 may be \<open>NULL\<close>; decoding \<open>NULL\<close> as \<open>Vec<u8>\<close> fails.\<close>

definition find_device_bundle :: "string \<Rightarrow> string \<Rightarrow> device_bundle option query" where
  "find_device_bundle user_id device_id now t =
     (case find (\<lambda>d. dr_user_id d = user_id \<and> dr_device_id d = device_id) (t_devices t) of
        None \<Rightarrow> (Inr None, t)
      | Some d \<Rightarrow>
          (case (dr_signing_identity_key d, dr_signed_prekey_signature d) of
             (Some signing, Some sig) \<Rightarrow>
               (Inr (Some (dr_id d, dr_identity_key d, signing, dr_signed_prekey d, sig)), t)
           | _ \<Rightarrow> (Inl SqlError, t)))"

definition device_exists :: "uuid \<Rightarrow> bool query" where
  "device_exists device_uuid now t = (Inr (\<exists>d\<in>set (t_devices t). dr_id d = device_uuid), t)"

definition find_user_id_by_device_uuid :: "uuid \<Rightarrow> string option query" where
  "find_user_id_by_device_uuid device_uuid now t =
     (Inr (map_option dr_user_id (find (\<lambda>d. dr_id d = device_uuid) (t_devices t))), t)"

section \<open>prekeys.rs\<close>

definition insert_one_time_prekey :: "uuid \<Rightarrow> int \<Rightarrow> bytes \<Rightarrow> nat query" where
  "insert_one_time_prekey device_uuid key_id pubkey now t =
     (let t1 = t\<lparr>t_prekeys_seq := t_prekeys_seq t + 1\<rparr> in
      if \<exists>k\<in>set (t_prekeys t). pk_device_ref k = device_uuid \<and> pk_key_id k = key_id
      then (Inr 0, t1)
      else if \<not> (\<exists>d\<in>set (t_devices t). dr_id d = device_uuid) then (Inl SqlError, t1)
      else (Inr 1, t1\<lparr>t_prekeys := t_prekeys t @
        [\<lparr>pk_id = t_prekeys_seq t1, pk_device_ref = device_uuid, pk_key_id = key_id,
          pk_pubkey = pubkey, pk_consumed_at = None, pk_created_at = now\<rparr>]\<rparr>))"

definition available_prekeys :: "uuid \<Rightarrow> tables \<Rightarrow> prekey_row list" where
  "available_prekeys device_uuid t = sort_key pk_id
     (filter (\<lambda>k. pk_device_ref k = device_uuid \<and> pk_consumed_at k = None) (t_prekeys t))"

definition consume_one_time_prekey :: "uuid \<Rightarrow> (int \<times> bytes) option query" where
  "consume_one_time_prekey device_uuid now t =
     (case available_prekeys device_uuid t of
        [] \<Rightarrow> (Inr None, t)
      | picked # _ \<Rightarrow> (Inr (Some (pk_key_id picked, pk_pubkey picked)),
          t\<lparr>t_prekeys := update_where (\<lambda>k. pk_id k = pk_id picked)
             (\<lambda>k. k\<lparr>pk_consumed_at := Some now\<rparr>) (t_prekeys t)\<rparr>))"

section \<open>auth_tokens.rs\<close>

definition token_active :: "timestamp \<Rightarrow> uuid \<Rightarrow> string \<Rightarrow> token_row \<Rightarrow> bool" where
  "token_active now device_uuid token_hash k \<longleftrightarrow>
     tk_device_ref k = device_uuid \<and> tk_token_hash k = token_hash \<and>
     tk_revoked_at k = None \<and> now < tk_expires_at k"

definition is_token_active :: "uuid \<Rightarrow> string \<Rightarrow> bool query" where
  "is_token_active device_uuid token_hash now t =
     (Inr (\<exists>k\<in>set (t_tokens t). token_active now device_uuid token_hash k), t)"

definition create_token :: "uuid \<Rightarrow> string \<Rightarrow> unit query" where
  "create_token device_uuid token_hash now t =
     (let t1 = t\<lparr>t_tokens_seq := t_tokens_seq t + 1\<rparr> in
      if (\<exists>k\<in>set (t_tokens t). tk_token_hash k = token_hash) \<or>
         \<not> (\<exists>d\<in>set (t_devices t). dr_id d = device_uuid)
      then (Inl SqlError, t1)
      else (Inr (), t1\<lparr>t_tokens := t_tokens t @
        [\<lparr>tk_id = t_tokens_seq t1, tk_device_ref = device_uuid, tk_token_hash = token_hash,
          tk_created_at = now, tk_expires_at = now + days 30, tk_revoked_at = None\<rparr>]\<rparr>))"

definition revoke_token :: "uuid \<Rightarrow> string \<Rightarrow> nat query" where
  "revoke_token device_uuid token_hash now t =
     (let hit = (\<lambda>k. tk_device_ref k = device_uuid \<and> tk_token_hash k = token_hash \<and>
                     tk_revoked_at k = None) in
      (Inr (affected hit (t_tokens t)),
       t\<lparr>t_tokens := update_where hit (\<lambda>k. k\<lparr>tk_revoked_at := Some now\<rparr>) (t_tokens t)\<rparr>))"

section \<open>user_blocks.rs\<close>

definition blocked_pair :: "string \<Rightarrow> string \<Rightarrow> block_row \<Rightarrow> bool" where
  "blocked_pair a b r \<longleftrightarrow> bk_blocker_user_id r = a \<and> bk_blocked_user_id r = b"

definition has_user :: "string \<Rightarrow> tables \<Rightarrow> bool" where
  "has_user u t \<longleftrightarrow> (\<exists>r\<in>set (t_users t). ur_user_id r = u)"

definition insert_block :: "string \<Rightarrow> string \<Rightarrow> bool query" where
  "insert_block blocker blocked now t =
     (if blocker = blocked then (Inl SqlError, t)
      else if \<exists>r\<in>set (t_blocks t). blocked_pair blocker blocked r then (Inr False, t)
      else if \<not> has_user blocker t \<or> \<not> has_user blocked t then (Inl SqlError, t)
      else (Inr True, t\<lparr>t_blocks := t_blocks t @
        [\<lparr>bk_blocker_user_id = blocker, bk_blocked_user_id = blocked, bk_created_at = now\<rparr>]\<rparr>))"

definition delete_block :: "string \<Rightarrow> string \<Rightarrow> bool query" where
  "delete_block blocker blocked now t =
     (Inr (affected (blocked_pair blocker blocked) (t_blocks t) = 1),
      t\<lparr>t_blocks := filter (\<lambda>r. \<not> blocked_pair blocker blocked r) (t_blocks t)\<rparr>)"

definition list_blocked_users :: "env \<Rightarrow> string \<Rightarrow> string list query" where
  "list_blocked_users E blocker now t =
     (Inr (order_by (collate_le E)
        (map bk_blocked_user_id (filter (\<lambda>r. bk_blocker_user_id r = blocker) (t_blocks t)))), t)"

definition block_direction :: "string \<Rightarrow> string \<Rightarrow> string option query" where
  "block_direction sender recipient now t =
     (Inr (case sort_key (\<lambda>r. if bk_blocker_user_id r = recipient then 0 else 1 :: nat)
             (filter (\<lambda>r. blocked_pair sender recipient r \<or> blocked_pair recipient sender r)
               (t_blocks t)) of
        [] \<Rightarrow> None
      | r # _ \<Rightarrow> Some (bk_blocker_user_id r)), t)"

section \<open>Blocking as an interface\<close>

text \<open>
  What messaging and call signalling rely on: a relation \<open>blocks\<close> between users, how block and
  unblock change it, and the answer of \<open>direction\<close> for a sender and a recipient.
\<close>

definition blocks_rel :: "tables \<Rightarrow> string \<Rightarrow> string \<Rightarrow> bool" where
  "blocks_rel t a b \<longleftrightarrow> (\<exists>r\<in>set (t_blocks t). blocked_pair a b r)"

definition direction :: "tables \<Rightarrow> string \<Rightarrow> string \<Rightarrow> string option" where
  "direction t sender recipient = projr (fst (block_direction sender recipient 0 t))"

locale block_policy =
  fixes blocks :: "'t \<Rightarrow> 'u \<Rightarrow> 'u \<Rightarrow> bool"
    and dir :: "'t \<Rightarrow> 'u \<Rightarrow> 'u \<Rightarrow> 'u option"
    and add :: "'u \<Rightarrow> 'u \<Rightarrow> 't \<Rightarrow> 't"
    and remove :: "'u \<Rightarrow> 'u \<Rightarrow> 't \<Rightarrow> 't"
    and known :: "'t \<Rightarrow> 'u \<Rightarrow> bool"
  assumes dir_None: "dir t s r = None \<longleftrightarrow> \<not> blocks t s r \<and> \<not> blocks t r s"
    and dir_recipient: "blocks t r s \<Longrightarrow> dir t s r = Some r"
    and dir_sender: "\<not> blocks t r s \<Longrightarrow> blocks t s r \<Longrightarrow> dir t s r = Some s"
    and add_blocks: "a \<noteq> b \<Longrightarrow> known t a \<Longrightarrow> known t b \<Longrightarrow>
      blocks (add a b t) x y \<longleftrightarrow> blocks t x y \<or> x = a \<and> y = b"
    and remove_blocks: "blocks (remove a b t) x y \<longleftrightarrow> blocks t x y \<and> \<not> (x = a \<and> y = b)"
begin

definition gate :: "'t \<Rightarrow> 'u \<Rightarrow> 'u \<Rightarrow> bool" where
  "gate t s r \<longleftrightarrow> dir t s r = None"

lemma gate_iff: "gate t s r \<longleftrightarrow> \<not> blocks t s r \<and> \<not> blocks t r s"
  by (simp add: gate_def dir_None)

lemma gate_sym: "gate t s r \<longleftrightarrow> gate t r s"
  by (auto simp: gate_iff)

lemma block_closes: "a \<noteq> b \<Longrightarrow> known t a \<Longrightarrow> known t b \<Longrightarrow> \<not> gate (add a b t) a b"
  by (simp add: gate_iff add_blocks)

lemma unblock_opens: "\<not> blocks t b a \<Longrightarrow> gate (remove a b t) a b"
  by (auto simp: gate_iff remove_blocks)

lemma dir_blocker: "dir t s r = Some u \<Longrightarrow> u = s \<and> blocks t s r \<or> u = r \<and> blocks t r s"
  by (metis dir_None dir_recipient dir_sender option.distinct(1) option.inject)

lemma dir_recipient_iff: "s \<noteq> r \<Longrightarrow> dir t s r = Some r \<longleftrightarrow> blocks t r s"
  by (metis dir_None dir_recipient dir_sender option.distinct(1) option.inject)

end

definition add_block :: "string \<Rightarrow> string \<Rightarrow> tables \<Rightarrow> tables" where
  "add_block a b t = snd (insert_block a b 0 t)"

definition remove_block :: "string \<Rightarrow> string \<Rightarrow> tables \<Rightarrow> tables" where
  "remove_block a b t = snd (delete_block a b 0 t)"

lemma sort_key01_hd:
  fixes k :: "'a \<Rightarrow> nat"
  assumes "sort_key k xs = y # ys"
  shows "y \<in> set xs" "x \<in> set xs \<Longrightarrow> k y \<le> k x"
proof -
  have s: "set (y # ys) = set xs" by (metis assms set_sort)
  then show "y \<in> set xs" by auto
  have "sorted (map k (y # ys))" by (metis assms sorted_sort_key)
  then show "x \<in> set xs \<Longrightarrow> k y \<le> k x" using s by (auto simp: image_iff)
qed

lemma sort_key_Nil_iff: "sort_key k xs = [] \<longleftrightarrow> xs = []"
proof -
  have "length (sort_key k xs) = 0 \<longleftrightarrow> length xs = 0" by simp
  then show ?thesis by (simp only: length_0_conv)
qed

lemma direction_None: "direction t s r = None \<longleftrightarrow> \<not> blocks_rel t s r \<and> \<not> blocks_rel t r s"
proof -
  let ?k = "\<lambda>b. if bk_blocker_user_id b = r then 0 else 1 :: nat"
  let ?xs = "filter (\<lambda>b. blocked_pair s r b \<or> blocked_pair r s b) (t_blocks t)"
  have "direction t s r = None \<longleftrightarrow> sort_key ?k ?xs = []"
    by (simp add: direction_def block_direction_def split: list.splits)
  also have "\<dots> \<longleftrightarrow> ?xs = []"
    by (rule sort_key_Nil_iff)
  also have "\<dots> \<longleftrightarrow> \<not> blocks_rel t s r \<and> \<not> blocks_rel t r s"
    by (auto simp: blocks_rel_def filter_empty_conv)
  finally show ?thesis .
qed

lemma direction_Some:
  assumes "direction t s r = Some u"
  shows "u = s \<and> blocks_rel t s r \<or> u = r \<and> blocks_rel t r s"
    and "blocks_rel t r s \<Longrightarrow> u = r"
proof -
  let ?k = "\<lambda>b. if bk_blocker_user_id b = r then 0 else 1 :: nat"
  let ?xs = "filter (\<lambda>b. blocked_pair s r b \<or> blocked_pair r s b) (t_blocks t)"
  obtain y ys where y: "sort_key ?k ?xs = y # ys" "u = bk_blocker_user_id y"
    using assms by (auto simp: direction_def block_direction_def split: list.splits)
  have mem: "y \<in> set ?xs" by (rule sort_key01_hd(1) [OF y(1)])
  then show "u = s \<and> blocks_rel t s r \<or> u = r \<and> blocks_rel t r s"
    using y(2) by (auto simp: blocks_rel_def blocked_pair_def)
  assume "blocks_rel t r s"
  then obtain b where b: "b \<in> set ?xs" "bk_blocker_user_id b = r"
    by (auto simp: blocks_rel_def blocked_pair_def)
  have "?k y \<le> ?k b" by (rule sort_key01_hd(2) [OF y(1) b(1)])
  then show "u = r" using b(2) y(2) by (simp split: if_splits)
qed

interpretation blk: block_policy blocks_rel direction add_block remove_block "\<lambda>t u. has_user u t"
proof unfold_locales
  fix t and s r a b x y :: string
  show "direction t s r = None \<longleftrightarrow> \<not> blocks_rel t s r \<and> \<not> blocks_rel t r s"
    by (rule direction_None)
  show "blocks_rel t r s \<Longrightarrow> direction t s r = Some r"
    by (metis direction_None direction_Some(2) not_Some_eq)
  show "\<not> blocks_rel t r s \<Longrightarrow> blocks_rel t s r \<Longrightarrow> direction t s r = Some s"
    by (metis direction_None direction_Some(1) not_Some_eq)
  show "a \<noteq> b \<Longrightarrow> has_user a t \<Longrightarrow> has_user b t \<Longrightarrow>
      blocks_rel (add_block a b t) x y \<longleftrightarrow> blocks_rel t x y \<or> x = a \<and> y = b"
    by (auto simp: add_block_def insert_block_def blocks_rel_def blocked_pair_def)
  show "blocks_rel (remove_block a b t) x y \<longleftrightarrow> blocks_rel t x y \<and> \<not> (x = a \<and> y = b)"
    by (auto simp: remove_block_def delete_block_def blocks_rel_def blocked_pair_def)
qed

section \<open>Device credentials as an interface\<close>

text \<open>
  What \<open>auth.rs\<close> relies on: a token is valid from the moment it is issued until it expires or
  is revoked, for its device only, and issuing or revoking one token leaves the others alone.
\<close>

definition token_valid :: "timestamp \<Rightarrow> tables \<Rightarrow> uuid \<Rightarrow> string \<Rightarrow> bool" where
  "token_valid now t device token_hash \<longleftrightarrow> (\<exists>k\<in>set (t_tokens t). token_active now device token_hash k)"

definition issue_token :: "timestamp \<Rightarrow> uuid \<Rightarrow> string \<Rightarrow> tables \<Rightarrow> tables" where
  "issue_token now device token_hash t = snd (create_token device token_hash now t)"

definition drop_token :: "timestamp \<Rightarrow> uuid \<Rightarrow> string \<Rightarrow> tables \<Rightarrow> tables" where
  "drop_token now device token_hash t = snd (revoke_token device token_hash now t)"

definition can_issue :: "tables \<Rightarrow> uuid \<Rightarrow> string \<Rightarrow> bool" where
  "can_issue t device token_hash \<longleftrightarrow>
     (\<forall>k\<in>set (t_tokens t). tk_token_hash k \<noteq> token_hash) \<and>
     (\<exists>d\<in>set (t_devices t). dr_id d = device)"

locale credential_store =
  fixes valid :: "timestamp \<Rightarrow> 't \<Rightarrow> 'd \<Rightarrow> 'h \<Rightarrow> bool"
    and issue :: "timestamp \<Rightarrow> 'd \<Rightarrow> 'h \<Rightarrow> 't \<Rightarrow> 't"
    and revoke :: "timestamp \<Rightarrow> 'd \<Rightarrow> 'h \<Rightarrow> 't \<Rightarrow> 't"
    and issuable :: "'t \<Rightarrow> 'd \<Rightarrow> 'h \<Rightarrow> bool"
    and lifetime :: nat
  assumes issue_valid: "issuable t d h \<Longrightarrow> valid n (issue now d h t) d h \<longleftrightarrow> n < now + lifetime"
    and issue_other: "d' \<noteq> d \<or> h' \<noteq> h \<Longrightarrow> valid n (issue now d h t) d' h' \<longleftrightarrow> valid n t d' h'"
    and revoke_gone: "\<not> valid n (revoke now d h t) d h"
    and revoke_other: "d' \<noteq> d \<or> h' \<noteq> h \<Longrightarrow> valid n (revoke now d h t) d' h' \<longleftrightarrow> valid n t d' h'"
    and valid_earlier: "valid n t d h \<Longrightarrow> m \<le> n \<Longrightarrow> valid m t d h"
begin

lemma login_then_logout: "\<not> valid n (revoke m d h (issue now d h t)) d h"
  by (rule revoke_gone)

lemma expired_stays_expired: "\<not> valid m t d h \<Longrightarrow> m \<le> n \<Longrightarrow> \<not> valid n t d h"
  using valid_earlier by blast

lemma second_login_keeps_first:
  "issuable t d h \<Longrightarrow> h' \<noteq> h \<Longrightarrow> n < now + lifetime \<Longrightarrow>
   valid n (issue now' d h' (issue now d h t)) d h"
  using issue_other issue_valid by metis

lemma logout_is_per_token:
  "h' \<noteq> h \<Longrightarrow> valid n t d h' \<Longrightarrow> valid n (revoke m d h t) d h'"
  by (simp add: revoke_other)

end

interpretation creds: credential_store token_valid issue_token drop_token can_issue "days 30"
proof unfold_locales
  fix t and d d' :: uuid and h h' :: string and n m now :: nat
  show "can_issue t d h \<Longrightarrow> token_valid n (issue_token now d h t) d h \<longleftrightarrow> n < now + days 30"
    by (auto simp: can_issue_def token_valid_def issue_token_def create_token_def token_active_def
        Let_def)
  show "d' \<noteq> d \<or> h' \<noteq> h \<Longrightarrow> token_valid n (issue_token now d h t) d' h' \<longleftrightarrow> token_valid n t d' h'"
    by (auto simp: token_valid_def issue_token_def create_token_def token_active_def Let_def)
  show "\<not> token_valid n (drop_token now d h t) d h"
    by (auto simp: token_valid_def drop_token_def revoke_token_def token_active_def
        Let_def cong: if_cong)
  show "d' \<noteq> d \<or> h' \<noteq> h \<Longrightarrow> token_valid n (drop_token now d h t) d' h' \<longleftrightarrow> token_valid n t d' h'"
    by (auto simp: token_valid_def drop_token_def revoke_token_def token_active_def
        Let_def cong: if_cong)
  show "token_valid n t d h \<Longrightarrow> m \<le> n \<Longrightarrow> token_valid m t d h"
    by (fastforce simp: token_valid_def token_active_def)
qed

end
