(* ===== verification/Repo_Content.thy ===== *)
theory Repo_Content
  imports Repo_Accounts
begin

text \<open>
  The repositories behind messages and files, \<open>repository/messages.rs\<close>, \<open>blobs.rs\<close> and
  \<open>stats.rs\<close>, in the style of \<open>Repo_Accounts\<close>, and the mailbox contract that
  \<open>services/messages.rs\<close> and \<open>domain/messaging.rs\<close> rely on.
\<close>

section \<open>messages.rs\<close>

definition insert_message :: "uuid \<Rightarrow> string \<Rightarrow> uuid \<Rightarrow> uuid \<Rightarrow> bytes \<Rightarrow> nat query" where
  "insert_message fresh message_id from_device to_device envelope now t =
     (if \<exists>m\<in>set (t_messages t). mr_message_id m = message_id then (Inr 0, t)
      else if (\<exists>m\<in>set (t_messages t). mr_id m = fresh) \<or>
              \<not> (\<exists>d\<in>set (t_devices t). dr_id d = from_device) \<or>
              \<not> (\<exists>d\<in>set (t_devices t). dr_id d = to_device)
      then (Inl SqlError, t)
      else (Inr 1, t\<lparr>t_messages := t_messages t @
        [\<lparr>mr_id = fresh, mr_message_id = message_id, mr_from_device = from_device,
          mr_to_device = to_device, mr_envelope_bytes = envelope, mr_created_at = now,
          mr_delivered_at = None, mr_acked_at = None\<rparr>]\<rparr>))"

text \<open>
  \<open>EXTRACT(EPOCH FROM created_at)::BIGINT * 1000\<close>: seconds, rounded half up, times 1000.
\<close>

definition epoch_ms :: "timestamp \<Rightarrow> int" where
  "epoch_ms t = int ((t + 500000) div 1000000) * 1000"

type_synonym pending_row = "uuid \<times> string \<times> uuid \<times> bytes \<times> int"

definition pending_rows :: "tables \<Rightarrow> uuid \<Rightarrow> message_row list" where
  "pending_rows t to_device = sort_key mr_created_at
     (filter (\<lambda>m. mr_to_device m = to_device \<and> mr_acked_at m = None) (t_messages t))"

definition fetch_pending_locked :: "uuid \<Rightarrow> int \<Rightarrow> pending_row list query" where
  "fetch_pending_locked to_device limit now t =
     (Inr (map (\<lambda>m. (mr_id m, mr_message_id m, mr_from_device m, mr_envelope_bytes m,
                     epoch_ms (mr_created_at m)))
        (take (nat limit) (pending_rows t to_device))), t)"

definition mark_delivered :: "uuid \<Rightarrow> unit query" where
  "mark_delivered i now t =
     (Inr (), t\<lparr>t_messages := update_where (\<lambda>m. mr_id m = i)
        (\<lambda>m. m\<lparr>mr_delivered_at := (case mr_delivered_at m of Some d \<Rightarrow> Some d | None \<Rightarrow> Some now)\<rparr>)
        (t_messages t)\<rparr>)"

definition ack_messages :: "uuid \<Rightarrow> string list \<Rightarrow> nat query" where
  "ack_messages to_device message_ids now t =
     (let hit = (\<lambda>m. mr_to_device m = to_device \<and> mr_message_id m \<in> set message_ids \<and>
                     mr_acked_at m = None) in
      (Inr (affected hit (t_messages t)),
       t\<lparr>t_messages := update_where hit (\<lambda>m. m\<lparr>mr_acked_at := Some now\<rparr>) (t_messages t)\<rparr>))"

definition fetch_statuses :: "uuid \<Rightarrow> string list \<Rightarrow> (string \<times> bool \<times> bool) list query" where
  "fetch_statuses from_device message_ids now t =
     (Inr (map (\<lambda>m. (mr_message_id m, mr_delivered_at m \<noteq> None, mr_acked_at m \<noteq> None))
        (filter (\<lambda>m. mr_from_device m = from_device \<and> mr_message_id m \<in> set message_ids)
          (t_messages t))), t)"

section \<open>blobs.rs\<close>

definition insert_blob :: "uuid \<Rightarrow> uuid \<Rightarrow> bytes \<Rightarrow> uuid query" where
  "insert_blob fresh owner_device data now t =
     (if (\<exists>b\<in>set (t_blobs t). bl_id b = fresh) \<or>
         \<not> (\<exists>d\<in>set (t_devices t). dr_id d = owner_device)
      then (Inl SqlError, t)
      else (Inr fresh, t\<lparr>t_blobs := t_blobs t @
        [\<lparr>bl_id = fresh, bl_owner_device = owner_device, bl_data = data, bl_created_at = now\<rparr>]\<rparr>))"

definition insert_empty_blob :: "uuid \<Rightarrow> uuid \<Rightarrow> uuid query" where
  "insert_empty_blob fresh owner_device = insert_blob fresh owner_device []"

definition append_blob :: "uuid \<Rightarrow> uuid \<Rightarrow> bytes \<Rightarrow> nat option query" where
  "append_blob owner_device blob_id chunk now t =
     (let hit = (\<lambda>b. bl_id b = blob_id \<and> bl_owner_device b = owner_device) in
      (Inr (map_option (\<lambda>b. length (bl_data b @ chunk)) (find hit (t_blobs t))),
       t\<lparr>t_blobs := update_where hit (\<lambda>b. b\<lparr>bl_data := bl_data b @ chunk\<rparr>) (t_blobs t)\<rparr>))"

definition select_blob :: "uuid \<Rightarrow> bytes option query" where
  "select_blob blob_id now t =
     (Inr (map_option bl_data (find (\<lambda>b. bl_id b = blob_id) (t_blobs t))), t)"

section \<open>stats.rs\<close>

record server_stats =
  st_users_total :: nat
  st_devices_total :: nat
  st_active_tokens_total :: nat
  st_messages_sent_total :: nat
  st_messages_delivered_total :: nat
  st_messages_read_total :: nat
  st_messages_pending_total :: nat
  st_messages_sent_last_10m :: nat
  st_blobs_total :: nat
  st_blobs_bytes_total :: nat
  st_blobs_created_last_10m :: nat
  st_blobs_bytes_last_10m :: nat

definition fetch_server_stats :: "server_stats query" where
  "fetch_server_stats now t =
     (let recent = (\<lambda>c. now \<le> c + minutes 10) in
      (Inr \<lparr>st_users_total = length (t_users t),
            st_devices_total = length (t_devices t),
            st_active_tokens_total =
              affected (\<lambda>k. tk_revoked_at k = None \<and> now < tk_expires_at k) (t_tokens t),
            st_messages_sent_total = length (t_messages t),
            st_messages_delivered_total = affected (\<lambda>m. mr_delivered_at m \<noteq> None) (t_messages t),
            st_messages_read_total = affected (\<lambda>m. mr_acked_at m \<noteq> None) (t_messages t),
            st_messages_pending_total = affected (\<lambda>m. mr_delivered_at m = None) (t_messages t),
            st_messages_sent_last_10m = affected (\<lambda>m. recent (mr_created_at m)) (t_messages t),
            st_blobs_total = length (t_blobs t),
            st_blobs_bytes_total = sum_list (map (\<lambda>b. length (bl_data b)) (t_blobs t)),
            st_blobs_created_last_10m = affected (\<lambda>b. recent (bl_created_at b)) (t_blobs t),
            st_blobs_bytes_last_10m = sum_list (map (\<lambda>b. length (bl_data b))
              (filter (\<lambda>b. recent (bl_created_at b)) (t_blobs t)))\<rparr>, t))"

section \<open>The mailbox of a device\<close>

text \<open>
  The contract of the message table towards its clients: the pending messages of a device, in
  the order they are handed out, and how posting, acknowledging and marking as delivered
  change it.  \<open>post\<close> needs a fresh message id and a clock that has not gone back.
\<close>

definition post_message ::
  "timestamp \<Rightarrow> uuid \<Rightarrow> string \<Rightarrow> uuid \<Rightarrow> uuid \<Rightarrow> bytes \<Rightarrow> tables \<Rightarrow> tables" where
  "post_message now fresh i from to env t = snd (insert_message fresh i from to env now t)"

definition ack_ids :: "timestamp \<Rightarrow> uuid \<Rightarrow> string list \<Rightarrow> tables \<Rightarrow> tables" where
  "ack_ids now d ids t = snd (ack_messages d ids now t)"

definition deliver_row :: "timestamp \<Rightarrow> uuid \<Rightarrow> tables \<Rightarrow> tables" where
  "deliver_row now i t = snd (mark_delivered i now t)"

definition pending_ids :: "tables \<Rightarrow> uuid \<Rightarrow> string list" where
  "pending_ids t d = map mr_message_id (pending_rows t d)"

definition can_post :: "timestamp \<Rightarrow> uuid \<Rightarrow> string \<Rightarrow> uuid \<Rightarrow> uuid \<Rightarrow> tables \<Rightarrow> bool" where
  "can_post now fresh i from to t \<longleftrightarrow>
     (\<forall>m\<in>set (t_messages t). mr_message_id m \<noteq> i \<and> mr_id m \<noteq> fresh \<and> mr_created_at m \<le> now) \<and>
     (\<exists>d\<in>set (t_devices t). dr_id d = from) \<and> (\<exists>d\<in>set (t_devices t). dr_id d = to)"

locale mailbox =
  fixes pending :: "'t \<Rightarrow> 'd \<Rightarrow> 'i list"
    and postable :: "timestamp \<Rightarrow> 'k \<Rightarrow> 'i \<Rightarrow> 'd \<Rightarrow> 'd \<Rightarrow> 't \<Rightarrow> bool"
    and post :: "timestamp \<Rightarrow> 'k \<Rightarrow> 'i \<Rightarrow> 'd \<Rightarrow> 'd \<Rightarrow> 'm \<Rightarrow> 't \<Rightarrow> 't"
    and ack :: "timestamp \<Rightarrow> 'd \<Rightarrow> 'i list \<Rightarrow> 't \<Rightarrow> 't"
    and deliver :: "timestamp \<Rightarrow> 'k \<Rightarrow> 't \<Rightarrow> 't"
  assumes pending_post: "postable now k i from to t \<Longrightarrow>
      pending (post now k i from to m t) d = pending t d @ (if d = to then [i] else [])"
    and pending_ack: "pending (ack now d ids t) d' =
      (if d' = d then filter (\<lambda>i. i \<notin> set ids) (pending t d') else pending t d')"
    and pending_deliver: "pending (deliver now k t) d = pending t d"
begin

lemma posted_is_pending: "postable now k i from to t \<Longrightarrow> i \<in> set (pending (post now k i from to m t) to)"
  by (simp add: pending_post)

lemma post_is_last: "postable now k i from to t \<Longrightarrow> last (pending (post now k i from to m t) to) = i"
  by (simp add: pending_post)

lemma acked_is_gone: "i \<in> set ids \<Longrightarrow> i \<notin> set (pending (ack now d ids t) d)"
  by (simp add: pending_ack)

lemma ack_keeps_others: "i \<in> set (pending t d) \<Longrightarrow> i \<notin> set ids \<Longrightarrow> i \<in> set (pending (ack now d ids t) d)"
  by (simp add: pending_ack)

lemma ack_idem: "pending (ack n2 d ids (ack n1 d ids t)) d = pending (ack n1 d ids t) d"
  by (simp add: pending_ack)

text \<open>
  The window effect: a page of the \<open>n\<close> oldest pending messages does not change when a message
  is posted behind \<open>n\<close> others.
\<close>

lemma window_is_full:
  assumes "postable now k i from to t" "n \<le> length (pending t to)"
  shows "take n (pending (post now k i from to m t) to) = take n (pending t to)"
  using assms by (simp add: pending_post)

lemma window_not_full:
  assumes "postable now k i from to t" "length (pending t to) < n"
  shows "i \<in> set (take n (pending (post now k i from to m t) to))"
  using assms by (simp add: pending_post take_Cons')

end

lemma insort_key_snoc_max: "k a \<le> k x \<Longrightarrow> insort_key k a (ys @ [x]) = insort_key k a ys @ [x]"
  by (induction ys) auto

lemma sort_key_snoc_max:
  "(\<And>y. y \<in> set xs \<Longrightarrow> k y \<le> k x) \<Longrightarrow> sort_key k (xs @ [x]) = sort_key k xs @ [x]"
  by (induction xs) (simp_all add: insort_key_snoc_max)

lemma sort_key_update_where:
  fixes k :: "'a \<Rightarrow> 'b::linorder"
  assumes "\<And>x. k (f x) = k x"
  shows "sort_key k (update_where p f xs) = update_where p f (sort_key k xs)"
proof -
  let ?g = "\<lambda>x. if p x then f x else x"
  have k: "k (?g x) = k x" for x using assms by simp
  have ins: "insort_key k (?g x) (map ?g ys) = map ?g (insort_key k x ys)" for x ys
    by (induction ys) (simp_all add: k)
  show ?thesis unfolding update_where_def
    by (induction xs) (simp_all only: list.map sort_key_simps ins)
qed

lemma filter_sort_key:
  fixes k :: "'a \<Rightarrow> 'b::linorder"
  shows "filter p (sort_key k xs) = sort_key k (filter p xs)"
  by (simp add: filter_sort)

interpretation mbox: mailbox pending_ids can_post post_message ack_ids deliver_row
proof unfold_locales
  fix now :: nat and k src dst d d' :: uuid and i :: string and m :: bytes and t ids
  show "pending_ids (post_message now k i src dst m t) d =
    pending_ids t d @ (if d = dst then [i] else [])" if ok: "can_post now k i src dst t"
  proof -
    let ?r = "\<lparr>mr_id = k, mr_message_id = i, mr_from_device = src, mr_to_device = dst,
      mr_envelope_bytes = m, mr_created_at = now, mr_delivered_at = None, mr_acked_at = None\<rparr>"
    have tab: "t_messages (post_message now k i src dst m t) = t_messages t @ [?r]"
      using ok by (auto simp: can_post_def post_message_def insert_message_def)
    have "sort_key mr_created_at (filter q (t_messages t) @ [?r]) =
        sort_key mr_created_at (filter q (t_messages t)) @ [?r]" for q
      using ok by (intro sort_key_snoc_max) (auto simp: can_post_def)
    then show ?thesis by (simp add: pending_ids_def pending_rows_def tab)
  qed
  let ?p = "\<lambda>m. mr_to_device m = d' \<and> mr_acked_at m = None"
  let ?h = "\<lambda>m. mr_to_device m = d \<and> mr_message_id m \<in> set ids \<and> mr_acked_at m = None"
  have f: "filter ?p (update_where ?h (\<lambda>m. m\<lparr>mr_acked_at := Some now\<rparr>) xs) =
      filter (\<lambda>m. \<not> ?h m) (filter ?p xs)" for xs
    by (induction xs) auto
  have g: "d' = d \<Longrightarrow> filter (\<lambda>m. \<not> ?h m) (filter ?p xs) =
      filter (\<lambda>m. mr_message_id m \<notin> set ids) (filter ?p xs)" for xs
    by (induction xs) auto
  have h: "d' \<noteq> d \<Longrightarrow> filter (\<lambda>m. \<not> ?h m) (filter ?p xs) = filter ?p xs" for xs
    by (induction xs) auto
  show "pending_ids (ack_ids now d ids t) d' =
    (if d' = d then filter (\<lambda>i. i \<notin> set ids) (pending_ids t d') else pending_ids t d')"
  proof -
    have tab: "t_messages (ack_ids now d ids t) =
        update_where ?h (\<lambda>m. m\<lparr>mr_acked_at := Some now\<rparr>) (t_messages t)"
      by (simp add: ack_ids_def ack_messages_def Let_def)
    show ?thesis
    proof (cases "d' = d")
      case True
      then show ?thesis
        unfolding pending_ids_def pending_rows_def tab f g [OF True]
        by (simp add: filter_map comp_def filter_sort_key)
    next
      case False
      then show ?thesis unfolding pending_ids_def pending_rows_def tab f h [OF False] by simp
    qed
  qed
  have e: "filter ?p (update_where (\<lambda>m. mr_id m = k) (\<lambda>m. m\<lparr>mr_delivered_at := q m\<rparr>) xs) =
      update_where (\<lambda>m. mr_id m = k) (\<lambda>m. m\<lparr>mr_delivered_at := q m\<rparr>) (filter ?p xs)" for q xs
    by (induction xs) auto
  show "pending_ids (deliver_row now k t) d' = pending_ids t d'"
    unfolding pending_ids_def pending_rows_def deliver_row_def mark_delivered_def
    by (simp add: e sort_key_update_where map_update_where)
qed

end
