(* ===== verification/Example_Env.thy ===== *)
theory Example_Env
  imports Repo_Content
begin

text \<open>
  A concrete instance of the third-party parameters and a small server state, on which the
  worked examples evaluate the handlers.  The codings are the simplest ones with the
  documented laws: a uuid prints as that many letters, base64 maps bytes to characters, the
  hash functions are the identity.
\<close>

named_theorems eval_simps \<open>definitions the worked examples unfold\<close>

lemmas [eval_simps] = bindS_apply run_sql_def db_ok_no_faults transaction_def rollback_to_def
  is_token_active_def token_active_def create_token_def revoke_token_def find_device_uuid_def
  Let_def

definition env0 :: env where
  "env0 = \<lparr>parse_uuid = (\<lambda>s. Some (of_nat (length s))),
     show_uuid = (\<lambda>u. replicate (unat u) CHR ''x''),
     simple_uuid = (\<lambda>u. replicate (unat u) CHR ''t''),
     b64_encode = map (\<lambda>b. char_of (unat b)),
     b64_decode = (\<lambda>s. Some (map (\<lambda>c. of_nat (of_char c)) s)),
     b64url_encode = map (\<lambda>b. CHR ''s''),
     sha256_hex = (\<lambda>s. s),
     argon2_hash = (\<lambda>p salt. Some p),
     phc_parse = Some,
     argon2_verify = (\<lambda>p h. p = h),
     collate_le = (\<lambda>a b. a \<le> b),
     ilike = (\<lambda>s p. take (length p - 1) s = butlast p),
     ws_handshake = (\<lambda>h. h ''upgrade'' = Some ''websocket'')\<rparr>"

lemma env0_simps [simp]:
  "parse_uuid env0 s = Some (of_nat (length s))"
  "show_uuid env0 u = replicate (unat u) CHR ''x''"
  "simple_uuid env0 u = replicate (unat u) CHR ''t''"
  "b64_encode env0 bs = map (\<lambda>b. char_of (unat b)) bs"
  "b64_decode env0 s = Some (map (\<lambda>c. of_nat (of_char c)) s)"
  "sha256_hex env0 s = s"
  "argon2_hash env0 s salt = Some s"
  "phc_parse env0 s = Some s"
  "argon2_verify env0 s p \<longleftrightarrow> s = p"
  "b64url_encode env0 bs = map (\<lambda>b. CHR ''s'') bs"
  "collate_le env0 s p \<longleftrightarrow> s \<le> p"
  "ilike env0 s p \<longleftrightarrow> take (length p - 1) s = butlast p"
  by (simp_all add: env0_def)

lemma env0_uuid_laws [simp]: "uuid_laws env0"
  by (simp add: uuid_laws_def)

lemma byte_mod_id [simp]: "unat (b :: 8 word) mod 256 = unat b"
  using unsigned_less [of b, where 'a = nat] by simp

lemma env0_b64_laws [simp]: "b64_laws env0"
  by (simp add: b64_laws_def comp_def)

definition user0 :: "nat \<Rightarrow> string \<Rightarrow> user_row" where
  "user0 i name = \<lparr>ur_id = i, ur_user_id = name, ur_password_hash = ''secret'', ur_created_at = 0\<rparr>"

definition device0 :: "uuid \<Rightarrow> string \<Rightarrow> device_row" where
  "device0 d name = \<lparr>dr_id = d, dr_user_id = name, dr_device_id = ''main'', dr_identity_key = [1],
     dr_signing_identity_key = Some [2], dr_signed_prekey = [3],
     dr_signed_prekey_signature = Some [4], dr_created_at = 0\<rparr>"

definition token0 :: "uuid \<Rightarrow> string \<Rightarrow> token_row" where
  "token0 d h = \<lparr>tk_id = unat d, tk_device_ref = d, tk_token_hash = h, tk_created_at = 0,
     tk_expires_at = 2592000000000, tk_revoked_at = None\<rparr>"

text \<open>Users \<open>ann\<close> and \<open>bob\<close>, with the devices 1 and 2; they are logged in with the
  tokens \<open>T\<close> and \<open>U\<close>.\<close>

definition tables0 :: tables where
  "tables0 = empty_tables\<lparr>t_users := [user0 1 ''ann'', user0 2 ''bob''],
     t_devices := [device0 1 ''ann'', device0 2 ''bob''],
     t_tokens := [token0 1 ''T'', token0 2 ''U''], t_users_seq := 2, t_tokens_seq := 2\<rparr>"

definition server0 :: server where
  "server0 = \<lparr>tables = tables0, faults = [], clock = 0, limiter = (\<lambda>_. None),
     min_client_version = ''0.0.0'', online_devices = {}, device_last_seen = (\<lambda>_. None),
     call_signals = []\<rparr>"

definition headers0 :: headers where
  "headers0 = [''x-device-uuid'' \<mapsto> ''x'', ''x-device-token'' \<mapsto> ''T'']"

definition headers1 :: headers where
  "headers1 = [''x-device-uuid'' \<mapsto> ''xx'', ''x-device-token'' \<mapsto> ''U'']"

lemma headers0_simps [simp]:
  "headers0 ''x-device-uuid'' = Some ''x''" "headers0 ''x-device-token'' = Some ''T''"
  "headers1 ''x-device-uuid'' = Some ''xx''" "headers1 ''x-device-token'' = Some ''U''"
  by (simp_all add: headers0_def headers1_def)

lemma server0_simps [simp]:
  "tables server0 = tables0" "faults server0 = []" "clock server0 = 0"
  "limiter server0 = (\<lambda>_. None)" "min_client_version server0 = ''0.0.0''"
  "online_devices server0 = {}" "device_last_seen server0 = (\<lambda>_. None)"
  "call_signals server0 = []"
  by (simp_all add: server0_def)

lemma tables0_simps [simp]:
  "t_users tables0 = [user0 1 ''ann'', user0 2 ''bob'']"
  "t_devices tables0 = [device0 1 ''ann'', device0 2 ''bob'']"
  "t_prekeys tables0 = []" "t_messages tables0 = []" "t_tokens tables0 = [token0 1 ''T'', token0 2 ''U'']"
  "t_blobs tables0 = []" "t_invites tables0 = []" "t_blocks tables0 = []"
  "t_users_seq tables0 = 2" "t_prekeys_seq tables0 = 0" "t_tokens_seq tables0 = 2"
  by (simp_all add: tables0_def empty_tables_def)

lemma rows0_simps [simp]:
  "ur_id (user0 i n) = i" "ur_user_id (user0 i n) = n" "ur_password_hash (user0 i n) = ''secret''"
  "dr_id (device0 d n) = d" "dr_user_id (device0 d n) = n" "dr_device_id (device0 d n) = ''main''"
  "dr_identity_key (device0 d n) = [1]" "dr_signing_identity_key (device0 d n) = Some [2]"
  "dr_signed_prekey (device0 d n) = [3]" "dr_signed_prekey_signature (device0 d n) = Some [4]"
  "tk_device_ref (token0 d h) = d" "tk_token_hash (token0 d h) = h"
  "tk_revoked_at (token0 d h) = None" "tk_expires_at (token0 d h) = 2592000000000"
  by (simp_all add: user0_def device0_def token0_def)

end
