(* ===== verification/Table_Invariants.thy ===== *)
theory Table_Invariants
  imports Repo_Content Example_Env
begin

text \<open>
  The invariant of the database (keys are unique, references point somewhere, nobody blocks
  himself) and the order in which it may change (rows are never lost, what has been
  delivered, acknowledged, used, consumed or revoked stays so, blobs only grow).  Every
  statement of the repositories respects both; \<open>step_order\<close> lifts this to the handlers.
\<close>

section \<open>Tables that only grow\<close>

definition grows :: "('a \<Rightarrow> 'a \<Rightarrow> bool) \<Rightarrow> 'a list \<Rightarrow> 'a list \<Rightarrow> bool" where
  "grows le xs ys \<longleftrightarrow> length xs \<le> length ys \<and> (\<forall>i<length xs. le (xs ! i) (ys ! i))"

lemma grows_refl: "(\<And>x. le x x) \<Longrightarrow> grows le xs xs"
  by (simp add: grows_def)

lemma grows_trans: "transp le \<Longrightarrow> grows le xs ys \<Longrightarrow> grows le ys zs \<Longrightarrow> grows le xs zs"
  unfolding grows_def transp_def by (meson order_trans order_less_le_trans)

lemma grows_append: "(\<And>x. le x x) \<Longrightarrow> grows le xs (xs @ ys)"
  by (simp add: grows_def nth_append)

lemma grows_update_where:
  "(\<And>x. le x x) \<Longrightarrow> (\<And>x. x \<in> set xs \<Longrightarrow> p x \<Longrightarrow> le x (f x)) \<Longrightarrow> grows le xs (update_where p f xs)"
  by (auto simp: grows_def update_where_def)

lemma grows_mem: "grows le xs ys \<Longrightarrow> x \<in> set xs \<Longrightarrow> \<exists>y\<in>set ys. le x y"
  unfolding grows_def by (metis in_set_conv_nth order_less_le_trans)

text \<open>With unique keys, the row of a later table that has the key of a former row continues it.\<close>

lemma grows_same_key:
  assumes "grows le xs ys" "distinct (map key ys)" "\<And>x y. le x y \<Longrightarrow> key y = key x"
    "x \<in> set xs" "y \<in> set ys" "key y = key x"
  shows "le x y"
proof -
  obtain y' where y': "y' \<in> set ys" "le x y'" using grows_mem [OF assms(1,4)] by blast
  then have "key y' = key y" using assms(3,6) by metis
  then have "y' = y" using assms(2,5) y'(1) by (auto simp: distinct_map dest: inj_onD)
  with y'(2) show ?thesis by simp
qed

definition user_le :: "user_row \<Rightarrow> user_row \<Rightarrow> bool" where
  "user_le u u' \<longleftrightarrow> u' = u"

definition device_le :: "device_row \<Rightarrow> device_row \<Rightarrow> bool" where
  "device_le d d' \<longleftrightarrow> dr_id d' = dr_id d \<and> dr_user_id d' = dr_user_id d \<and>
     dr_device_id d' = dr_device_id d \<and> dr_created_at d' = dr_created_at d"

definition stays :: "'a option \<Rightarrow> 'a option \<Rightarrow> bool" where
  "stays a b \<longleftrightarrow> a = None \<or> b = a"

definition prekey_le :: "prekey_row \<Rightarrow> prekey_row \<Rightarrow> bool" where
  "prekey_le k k' \<longleftrightarrow> k' = k\<lparr>pk_consumed_at := pk_consumed_at k'\<rparr> \<and>
     stays (pk_consumed_at k) (pk_consumed_at k')"

definition message_le :: "message_row \<Rightarrow> message_row \<Rightarrow> bool" where
  "message_le m m' \<longleftrightarrow>
     m' = m\<lparr>mr_delivered_at := mr_delivered_at m', mr_acked_at := mr_acked_at m'\<rparr> \<and>
     stays (mr_delivered_at m) (mr_delivered_at m') \<and> stays (mr_acked_at m) (mr_acked_at m')"

definition token_le :: "token_row \<Rightarrow> token_row \<Rightarrow> bool" where
  "token_le k k' \<longleftrightarrow> k' = k\<lparr>tk_revoked_at := tk_revoked_at k'\<rparr> \<and>
     stays (tk_revoked_at k) (tk_revoked_at k')"

definition blob_le :: "blob_row \<Rightarrow> blob_row \<Rightarrow> bool" where
  "blob_le b b' \<longleftrightarrow> b' = b\<lparr>bl_data := bl_data b'\<rparr> \<and> (\<exists>rest. bl_data b' = bl_data b @ rest)"

definition invite_le :: "invite_row \<Rightarrow> invite_row \<Rightarrow> bool" where
  "invite_le v v' \<longleftrightarrow> (iv_used_at v \<noteq> None \<longrightarrow> v' = v) \<and>
     v' = v\<lparr>iv_used_at := iv_used_at v', iv_used_by_user_id := iv_used_by_user_id v'\<rparr>"

lemmas row_le_defs = user_le_def device_le_def prekey_le_def message_le_def token_le_def
  blob_le_def invite_le_def stays_def

lemma row_le_refl [simp]:
  "user_le u u" "device_le d d" "prekey_le k k" "message_le m m" "token_le tk tk"
  "blob_le b b" "invite_le v v"
  by (simp_all add: row_le_defs)

lemma user_le_trans: "user_le a b \<Longrightarrow> user_le b c \<Longrightarrow> user_le a c"
  by (simp add: user_le_def)

lemma device_le_trans: "device_le a b \<Longrightarrow> device_le b c \<Longrightarrow> device_le a c"
  by (simp add: device_le_def)

lemma stays_trans: "stays a b \<Longrightarrow> stays b c \<Longrightarrow> stays a c"
  by (auto simp: stays_def)

lemma prekey_le_trans: "prekey_le a b \<Longrightarrow> prekey_le b c \<Longrightarrow> prekey_le a c"
  unfolding prekey_le_def by (cases a; cases b; cases c) (auto intro: stays_trans)

lemma message_le_trans: "message_le a b \<Longrightarrow> message_le b c \<Longrightarrow> message_le a c"
  unfolding message_le_def by (cases a; cases b; cases c) (auto intro: stays_trans)

lemma token_le_trans: "token_le a b \<Longrightarrow> token_le b c \<Longrightarrow> token_le a c"
  unfolding token_le_def by (cases a; cases b; cases c) (auto intro: stays_trans)

lemma blob_le_trans: "blob_le a b \<Longrightarrow> blob_le b c \<Longrightarrow> blob_le a c"
  unfolding blob_le_def by (cases a; cases b; cases c) auto

lemma invite_le_trans: "invite_le a b \<Longrightarrow> invite_le b c \<Longrightarrow> invite_le a c"
  unfolding invite_le_def by (cases a; cases b; cases c) auto

definition tables_grow :: "tables \<Rightarrow> tables \<Rightarrow> bool" where
  "tables_grow t t' \<longleftrightarrow>
     grows user_le (t_users t) (t_users t') \<and>
     grows device_le (t_devices t) (t_devices t') \<and>
     grows prekey_le (t_prekeys t) (t_prekeys t') \<and>
     grows message_le (t_messages t) (t_messages t') \<and>
     grows token_le (t_tokens t) (t_tokens t') \<and>
     grows blob_le (t_blobs t) (t_blobs t') \<and>
     grows invite_le (t_invites t) (t_invites t') \<and>
     t_users_seq t \<le> t_users_seq t' \<and> t_prekeys_seq t \<le> t_prekeys_seq t' \<and>
     t_tokens_seq t \<le> t_tokens_seq t'"

lemma tables_grow_refl: "tables_grow t t"
  by (simp add: tables_grow_def grows_refl)

lemma rows_transp:
  "transp user_le" "transp device_le" "transp prekey_le" "transp message_le" "transp token_le"
  "transp blob_le" "transp invite_le"
  by (auto intro!: transpI
      intro: user_le_trans device_le_trans prekey_le_trans message_le_trans token_le_trans
        blob_le_trans invite_le_trans)

lemmas rows_trans = rows_transp [THEN grows_trans]

lemma tables_grow_trans: "tables_grow a b \<Longrightarrow> tables_grow b c \<Longrightarrow> tables_grow a c"
  unfolding tables_grow_def
  by (elim conjE, intro conjI; (erule (1) rows_trans | erule (1) order_trans))

section \<open>The invariant\<close>

text \<open>One predicate per table, over its rows and what they refer to.\<close>

definition device_ids :: "device_row list \<Rightarrow> uuid set" where
  "device_ids ds = dr_id ` set ds"

definition user_names :: "user_row list \<Rightarrow> string set" where
  "user_names us = ur_user_id ` set us"

definition user_db_ids :: "user_row list \<Rightarrow> nat set" where
  "user_db_ids us = ur_id ` set us"

definition users_wf :: "user_row list \<Rightarrow> nat \<Rightarrow> bool" where
  "users_wf us hi \<longleftrightarrow> distinct (map ur_user_id us) \<and> distinct (map ur_id us) \<and>
     (\<forall>u\<in>set us. ur_id u \<le> hi)"

definition devices_wf :: "device_row list \<Rightarrow> bool" where
  "devices_wf ds \<longleftrightarrow> distinct (map dr_id ds) \<and>
     distinct (map (\<lambda>d. (dr_user_id d, dr_device_id d)) ds)"

definition prekeys_wf :: "prekey_row list \<Rightarrow> nat \<Rightarrow> uuid set \<Rightarrow> bool" where
  "prekeys_wf ks hi D \<longleftrightarrow> distinct (map pk_id ks) \<and>
     distinct (map (\<lambda>k. (pk_device_ref k, pk_key_id k)) ks) \<and>
     (\<forall>k\<in>set ks. pk_id k \<le> hi \<and> pk_device_ref k \<in> D)"

definition messages_wf :: "message_row list \<Rightarrow> uuid set \<Rightarrow> bool" where
  "messages_wf ms D \<longleftrightarrow> distinct (map mr_id ms) \<and> distinct (map mr_message_id ms) \<and>
     (\<forall>m\<in>set ms. mr_from_device m \<in> D \<and> mr_to_device m \<in> D)"

definition tokens_wf :: "token_row list \<Rightarrow> uuid set \<Rightarrow> bool" where
  "tokens_wf ks D \<longleftrightarrow> distinct (map tk_token_hash ks) \<and> (\<forall>k\<in>set ks. tk_device_ref k \<in> D)"

definition blobs_wf :: "blob_row list \<Rightarrow> uuid set \<Rightarrow> bool" where
  "blobs_wf bs D \<longleftrightarrow> distinct (map bl_id bs) \<and> (\<forall>b\<in>set bs. bl_owner_device b \<in> D)"

definition invites_wf :: "invite_row list \<Rightarrow> nat set \<Rightarrow> bool" where
  "invites_wf vs U \<longleftrightarrow> distinct (map iv_id vs) \<and>
     (\<forall>v\<in>set vs. (iv_used_at v = None \<longleftrightarrow> iv_used_by_user_id v = None) \<and>
        (\<forall>u. iv_used_by_user_id v = Some u \<longrightarrow> u \<in> U))"

definition blocks_wf :: "block_row list \<Rightarrow> string set \<Rightarrow> bool" where
  "blocks_wf rs N \<longleftrightarrow> distinct (map (\<lambda>r. (bk_blocker_user_id r, bk_blocked_user_id r)) rs) \<and>
     (\<forall>r\<in>set rs. bk_blocker_user_id r \<noteq> bk_blocked_user_id r \<and>
        bk_blocker_user_id r \<in> N \<and> bk_blocked_user_id r \<in> N)"

definition tables_wf :: "tables \<Rightarrow> bool" where
  "tables_wf t \<longleftrightarrow> users_wf (t_users t) (t_users_seq t) \<and> devices_wf (t_devices t) \<and>
     prekeys_wf (t_prekeys t) (t_prekeys_seq t) (device_ids (t_devices t)) \<and>
     messages_wf (t_messages t) (device_ids (t_devices t)) \<and>
     tokens_wf (t_tokens t) (device_ids (t_devices t)) \<and>
     blobs_wf (t_blobs t) (device_ids (t_devices t)) \<and>
     invites_wf (t_invites t) (user_db_ids (t_users t)) \<and>
     blocks_wf (t_blocks t) (user_names (t_users t))"

lemmas wf_defs = users_wf_def devices_wf_def prekeys_wf_def messages_wf_def tokens_wf_def
  blobs_wf_def invites_wf_def blocks_wf_def

lemma tables_wf_empty: "tables_wf empty_tables"
  by (simp add: tables_wf_def wf_defs empty_tables_def)

text \<open>References stay good when the tables they point to grow.\<close>

lemma wf_mono:
  "users_wf us n \<Longrightarrow> n \<le> m \<Longrightarrow> users_wf us m"
  "prekeys_wf ks n D \<Longrightarrow> n \<le> m \<Longrightarrow> D \<subseteq> D' \<Longrightarrow> prekeys_wf ks m D'"
  "messages_wf ms D \<Longrightarrow> D \<subseteq> D' \<Longrightarrow> messages_wf ms D'"
  "tokens_wf tks D \<Longrightarrow> D \<subseteq> D' \<Longrightarrow> tokens_wf tks D'"
  "blobs_wf bs D \<Longrightarrow> D \<subseteq> D' \<Longrightarrow> blobs_wf bs D'"
  "invites_wf vs U \<Longrightarrow> U \<subseteq> U' \<Longrightarrow> invites_wf vs U'"
  "blocks_wf rs N \<Longrightarrow> N \<subseteq> N' \<Longrightarrow> blocks_wf rs N'"
  by (fastforce simp: wf_defs)+

lemma tables_wfD:
  assumes "tables_wf t"
  shows "users_wf (t_users t) (t_users_seq t)" "devices_wf (t_devices t)"
    "prekeys_wf (t_prekeys t) (t_prekeys_seq t) (device_ids (t_devices t))"
    "messages_wf (t_messages t) (device_ids (t_devices t))"
    "tokens_wf (t_tokens t) (device_ids (t_devices t))"
    "blobs_wf (t_blobs t) (device_ids (t_devices t))"
    "invites_wf (t_invites t) (user_db_ids (t_users t))"
    "blocks_wf (t_blocks t) (user_names (t_users t))"
  using assms by (simp_all add: tables_wf_def)

text \<open>A statement keeps the invariant and only lets the tables grow.\<close>

definition tables_step :: "tables \<Rightarrow> tables \<Rightarrow> bool" where
  "tables_step t t' \<longleftrightarrow> (tables_wf t \<longrightarrow> tables_wf t' \<and> tables_grow t t')"

lemma tables_step_refl: "tables_step t t"
  by (simp add: tables_step_def tables_grow_refl)

lemma tables_step_trans: "tables_step a b \<Longrightarrow> tables_step b c \<Longrightarrow> tables_step a c"
  unfolding tables_step_def by (blast intro: tables_grow_trans)

definition query_ok :: "'a query \<Rightarrow> bool" where
  "query_ok q \<longleftrightarrow> (\<forall>now t. tables_step t (snd (q now t)))"

named_theorems queries_ok \<open>statements respect the invariant\<close>

section \<open>The statements respect it\<close>

lemma query_okI: "(\<And>now t. tables_wf t \<Longrightarrow> tables_wf (snd (q now t)) \<and> tables_grow t (snd (q now t))) \<Longrightarrow> query_ok q"
  by (simp add: query_ok_def tables_step_def)

text \<open>Reading statements leave the tables alone.\<close>

lemma query_ok_read: "(\<And>now t. snd (q now t) = t) \<Longrightarrow> query_ok q"
  by (simp add: query_ok_def tables_step_refl)

lemma reads_ok [queries_ok]:
  "query_ok (get_password_hash u)" "query_ok (user_exists u)" "query_ok (search_users E u)"
  "query_ok (find_invite i)" "query_ok (find_device_uuid u d)" "query_ok (device_exists dev)"
  "query_ok (find_user_id_by_device_uuid dev)" "query_ok (is_token_active dev h)"
  "query_ok (list_blocked_users E u)" "query_ok (block_direction a b)"
  "query_ok (fetch_pending_locked dev n)" "query_ok (fetch_statuses dev ids)"
  "query_ok (select_blob bid)" "query_ok fetch_server_stats"
  by (rule query_ok_read, simp add: get_password_hash_def user_exists_def search_users_def
      find_invite_def find_device_uuid_def device_exists_def find_user_id_by_device_uuid_def
      is_token_active_def list_blocked_users_def block_direction_def fetch_pending_locked_def
      fetch_statuses_def select_blob_def fetch_server_stats_def Let_def)+

lemma find_device_bundle_ok [queries_ok]: "query_ok (find_device_bundle u d)"
  by (rule query_ok_read) (simp add: find_device_bundle_def split: option.splits)

lemma known_sets [simp]:
  "(\<exists>d\<in>set ds. dr_id d = x) \<longleftrightarrow> x \<in> device_ids ds"
  "(\<exists>u\<in>set us. ur_user_id u = n) \<longleftrightarrow> n \<in> user_names us"
  "(\<exists>u\<in>set us. ur_id u = i) \<longleftrightarrow> i \<in> user_db_ids us"
  "has_user n t \<longleftrightarrow> n \<in> user_names (t_users t)"
  by (auto simp: device_ids_def user_names_def user_db_ids_def has_user_def)

lemma known_sets_append [simp]:
  "device_ids (ds @ [d]) = insert (dr_id d) (device_ids ds)"
  "user_names (us @ [u]) = insert (ur_user_id u) (user_names us)"
  "user_db_ids (us @ [u]) = insert (ur_id u) (user_db_ids us)"
  by (auto simp: device_ids_def user_names_def user_db_ids_def)

text \<open>Appending a row with fresh keys and good references keeps a table well formed.\<close>

lemma wf_append:
  "users_wf us n \<Longrightarrow> ur_user_id u \<notin> user_names us \<Longrightarrow> ur_id u = Suc n \<Longrightarrow> users_wf (us @ [u]) (Suc n)"
  "devices_wf ds \<Longrightarrow> dr_id d \<notin> device_ids ds \<Longrightarrow>
    \<forall>x\<in>set ds. \<not> (dr_user_id x = dr_user_id d \<and> dr_device_id x = dr_device_id d) \<Longrightarrow>
    devices_wf (ds @ [d])"
  "prekeys_wf ks n D \<Longrightarrow> pk_id k = Suc n \<Longrightarrow> pk_device_ref k \<in> D \<Longrightarrow>
    \<forall>x\<in>set ks. \<not> (pk_device_ref x = pk_device_ref k \<and> pk_key_id x = pk_key_id k) \<Longrightarrow>
    prekeys_wf (ks @ [k]) (Suc n) D"
  "messages_wf ms D \<Longrightarrow> \<forall>x\<in>set ms. mr_id x \<noteq> mr_id m \<and> mr_message_id x \<noteq> mr_message_id m \<Longrightarrow>
    mr_from_device m \<in> D \<Longrightarrow> mr_to_device m \<in> D \<Longrightarrow> messages_wf (ms @ [m]) D"
  "tokens_wf tks D \<Longrightarrow> \<forall>x\<in>set tks. tk_token_hash x \<noteq> tk_token_hash tk \<Longrightarrow>
    tk_device_ref tk \<in> D \<Longrightarrow> tokens_wf (tks @ [tk]) D"
  "blobs_wf bs D \<Longrightarrow> \<forall>x\<in>set bs. bl_id x \<noteq> bl_id b \<Longrightarrow> bl_owner_device b \<in> D \<Longrightarrow>
    blobs_wf (bs @ [b]) D"
  by (auto simp: wf_defs user_names_def device_ids_def image_iff) (force+)?

text \<open>So does an update that leaves keys and references alone.\<close>

lemma ids_update [simp]:
  "(\<And>x. dr_id (f x) = dr_id x) \<Longrightarrow> device_ids (update_where p f ds) = device_ids ds"
  unfolding device_ids_def by (metis map_update_where set_map)

lemma wf_update:
  "devices_wf ds \<Longrightarrow> (\<And>x. dr_id (f1 x) = dr_id x) \<Longrightarrow> (\<And>x. dr_user_id (f1 x) = dr_user_id x) \<Longrightarrow>
    (\<And>x. dr_device_id (f1 x) = dr_device_id x) \<Longrightarrow> devices_wf (update_where p1 f1 ds)"
  "prekeys_wf ks n D \<Longrightarrow> (\<And>x. pk_id (f2 x) = pk_id x) \<Longrightarrow>
    (\<And>x. pk_device_ref (f2 x) = pk_device_ref x) \<Longrightarrow> (\<And>x. pk_key_id (f2 x) = pk_key_id x) \<Longrightarrow>
    prekeys_wf (update_where p2 f2 ks) n D"
  "messages_wf ms D \<Longrightarrow> (\<And>x. mr_id (f3 x) = mr_id x) \<Longrightarrow>
    (\<And>x. mr_message_id (f3 x) = mr_message_id x) \<Longrightarrow>
    (\<And>x. mr_from_device (f3 x) = mr_from_device x) \<Longrightarrow>
    (\<And>x. mr_to_device (f3 x) = mr_to_device x) \<Longrightarrow> messages_wf (update_where p3 f3 ms) D"
  "tokens_wf tks D \<Longrightarrow> (\<And>x. tk_token_hash (f4 x) = tk_token_hash x) \<Longrightarrow>
    (\<And>x. tk_device_ref (f4 x) = tk_device_ref x) \<Longrightarrow> tokens_wf (update_where p4 f4 tks) D"
  "blobs_wf bs D \<Longrightarrow> (\<And>x. bl_id (f5 x) = bl_id x) \<Longrightarrow>
    (\<And>x. bl_owner_device (f5 x) = bl_owner_device x) \<Longrightarrow> blobs_wf (update_where p5 f5 bs) D"
  by (simp_all add: wf_defs map_update_where)

text \<open>A statement changes one table; the others are untouched.\<close>

lemma create_user_tx_ok [queries_ok]: "query_ok (create_user_tx u h)"
proof (rule query_okI)
  fix now and t :: tables
  assume wf: "tables_wf t"
  have n: "t_users_seq t \<le> Suc (t_users_seq t)" by simp
  show "tables_wf (snd (create_user_tx u h now t)) \<and> tables_grow t (snd (create_user_tx u h now t))"
    using tables_wfD [OF wf] wf_mono(1) [OF _ n] wf_mono(6) [OF _ subset_insertI]
      wf_mono(7) [OF _ subset_insertI]
    by (simp add: create_user_tx_def Let_def tables_wf_def tables_grow_def grows_refl grows_append
        wf_append)
qed

lemma create_user_ok [queries_ok]: "query_ok (create_user u h)"
proof (rule query_okI)
  fix now and t :: tables
  assume wf: "tables_wf t"
  have n: "t_users_seq t \<le> Suc (t_users_seq t)" by simp
  show "tables_wf (snd (create_user u h now t)) \<and> tables_grow t (snd (create_user u h now t))"
    using tables_wfD [OF wf] wf_mono(1) [OF _ n] wf_mono(6) [OF _ subset_insertI]
      wf_mono(7) [OF _ subset_insertI]
    by (simp add: create_user_def Let_def tables_wf_def tables_grow_def grows_refl grows_append
        wf_append)
qed

lemma invites_wf_insert:
  "invites_wf vs U \<Longrightarrow> \<forall>x\<in>set vs. iv_id x \<noteq> iv_id v \<Longrightarrow> iv_used_at v = None \<Longrightarrow>
   iv_used_by_user_id v = None \<Longrightarrow> invites_wf (vs @ [v]) U"
  by (auto simp: invites_wf_def image_iff) force?

lemma insert_invite_ok [queries_ok]: "query_ok (insert_invite i h)"
proof (rule query_okI)
  fix now and t :: tables
  assume wf: "tables_wf t"
  show "tables_wf (snd (insert_invite i h now t)) \<and> tables_grow t (snd (insert_invite i h now t))"
    using tables_wfD [OF wf]
    by (simp add: insert_invite_def tables_wf_def tables_grow_def grows_refl grows_append
        invites_wf_insert)
qed

lemma invites_wf_use:
  assumes "invites_wf vs U" "u \<in> U"
  shows "invites_wf (update_where p (\<lambda>v. v\<lparr>iv_used_at := Some now, iv_used_by_user_id := Some u\<rparr>) vs) U"
  using assms by (simp add: invites_wf_def map_update_where)

lemma mark_used_ok [queries_ok]: "query_ok (mark_used i u)"
proof (rule query_okI)
  fix now and t :: tables
  assume wf: "tables_wf t"
  let ?p = "\<lambda>v. iv_id v = i \<and> iv_used_at v = None"
  let ?f = "\<lambda>v. v\<lparr>iv_used_at := Some now, iv_used_by_user_id := Some u\<rparr>"
  have g: "grows invite_le (t_invites t) (update_where ?p ?f (t_invites t))"
    by (rule grows_update_where) (simp_all add: invite_le_def)
  have none: "update_where ?p ?f (t_invites t) = t_invites t" if "\<forall>v\<in>set (t_invites t). \<not> ?p v"
    using that by (intro update_where_id) blast
  show "tables_wf (snd (mark_used i u now t)) \<and> tables_grow t (snd (mark_used i u now t))"
  proof (cases "u \<in> user_db_ids (t_users t)")
    case True
    then show ?thesis
      using tables_wfD [OF wf] g invites_wf_use [OF tables_wfD(7) [OF wf] True, of ?p now]
      by (simp add: mark_used_def tables_wf_def tables_grow_def grows_refl)
  next
    case False
    show ?thesis
    proof (cases "\<exists>v\<in>set (t_invites t). ?p v")
      case True
      then show ?thesis using False wf by (simp add: mark_used_def tables_grow_refl)
    next
      case no: False
      then have "snd (mark_used i u now t) = t" using none by (simp add: mark_used_def)
      then show ?thesis using wf by (simp add: tables_grow_refl)
    qed
  qed
qed

lemma upsert_device_ok [queries_ok]: "query_ok (upsert_device fresh u d ik sk pk sig)"
proof (rule query_okI)
  fix now and t :: tables
  assume wf: "tables_wf t"
  let ?same = "\<lambda>x. dr_user_id x = u \<and> dr_device_id x = d"
  let ?f = "\<lambda>x. x\<lparr>dr_identity_key := ik, dr_signing_identity_key := Some sk, dr_signed_prekey := pk,
    dr_signed_prekey_signature := Some sig\<rparr>"
  note w = tables_wfD [OF wf]
  note mono = wf_mono(2) [OF w(3) order_refl subset_insertI] wf_mono(3) [OF w(4) subset_insertI]
    wf_mono(4) [OF w(5) subset_insertI] wf_mono(5) [OF w(6) subset_insertI]
  have g: "grows device_le (t_devices t) (update_where ?same ?f (t_devices t))"
    by (rule grows_update_where) (simp_all add: device_le_def)
  have up: "devices_wf (update_where ?same ?f (t_devices t))"
    by (rule wf_update(1) [OF w(2)]) simp_all
  show "tables_wf (snd (upsert_device fresh u d ik sk pk sig now t)) \<and>
    tables_grow t (snd (upsert_device fresh u d ik sk pk sig now t))"
  proof (cases "find ?same (t_devices t)")
    case (Some r)
    then show ?thesis using w g up
      by (simp add: upsert_device_def tables_wf_def tables_grow_def grows_refl)
  next
    case None
    then have no: "\<forall>x\<in>set (t_devices t). \<not> ?same x" by (metis (mono_tags, lifting) find_None_iff)
    have "devices_wf (t_devices t @ [x])"
      if "dr_id x \<notin> device_ids (t_devices t)" "dr_user_id x = u" "dr_device_id x = d" for x
      using wf_append(2) [OF w(2) that(1)] no that(2,3) by simp
    then show ?thesis using w mono
      by (simp add: upsert_device_def None tables_wf_def tables_grow_def grows_refl grows_append)
  qed
qed

lemma insert_one_time_prekey_ok [queries_ok]: "query_ok (insert_one_time_prekey d i k)"
proof (rule query_okI)
  fix now and t :: tables
  assume wf: "tables_wf t"
  have n: "t_prekeys_seq t \<le> Suc (t_prekeys_seq t)" by simp
  show "tables_wf (snd (insert_one_time_prekey d i k now t)) \<and>
    tables_grow t (snd (insert_one_time_prekey d i k now t))"
    using tables_wfD [OF wf] wf_mono(2) [OF _ n subset_refl]
    by (simp add: insert_one_time_prekey_def Let_def tables_wf_def tables_grow_def grows_refl
        grows_append wf_append)
qed

lemma distinct_key_eq: "distinct (map k xs) \<Longrightarrow> x \<in> set xs \<Longrightarrow> y \<in> set xs \<Longrightarrow> k x = k y \<Longrightarrow> x = y"
  by (auto simp: distinct_map dest: inj_onD)

lemma picked_prekey:
  assumes "available_prekeys d t = k # ks"
  shows "k \<in> set (t_prekeys t)" "pk_consumed_at k = None" "pk_device_ref k = d"
  using sort_key01_hd(1) [OF assms [unfolded available_prekeys_def]] by simp_all

lemma consume_one_time_prekey_ok [queries_ok]: "query_ok (consume_one_time_prekey d)"
proof (rule query_okI)
  fix now and t :: tables
  assume wf: "tables_wf t"
  show "tables_wf (snd (consume_one_time_prekey d now t)) \<and>
    tables_grow t (snd (consume_one_time_prekey d now t))"
  proof (cases "available_prekeys d t")
    case Nil
    then show ?thesis using wf by (simp add: consume_one_time_prekey_def tables_grow_refl)
  next
    case (Cons k ks)
    let ?f = "\<lambda>k. k\<lparr>pk_consumed_at := Some now\<rparr>"
    let ?p = "\<lambda>x. pk_id x = pk_id k"
    note w = tables_wfD [OF wf]
    have "x = k" if "x \<in> set (t_prekeys t)" "?p x" for x
      using distinct_key_eq [of pk_id, OF _ that(1) picked_prekey(1) [OF Cons] that(2)] w(3)
      by (simp add: prekeys_wf_def)
    then have g: "grows prekey_le (t_prekeys t) (update_where ?p ?f (t_prekeys t))"
      using picked_prekey(2) [OF Cons]
      by (intro grows_update_where) (auto simp: prekey_le_def stays_def)
    have "prekeys_wf (update_where ?p ?f (t_prekeys t)) (t_prekeys_seq t) (device_ids (t_devices t))"
      by (rule wf_update(2) [OF w(3)]) simp_all
    then show ?thesis using w g
      by (simp add: consume_one_time_prekey_def Cons tables_wf_def tables_grow_def grows_refl)
  qed
qed

lemma create_token_ok [queries_ok]: "query_ok (create_token d h)"
proof (rule query_okI)
  fix now and t :: tables
  assume wf: "tables_wf t"
  show "tables_wf (snd (create_token d h now t)) \<and> tables_grow t (snd (create_token d h now t))"
    using tables_wfD [OF wf]
    by (simp add: create_token_def Let_def tables_wf_def tables_grow_def grows_refl grows_append
        wf_append)
qed

lemma revoke_token_ok [queries_ok]: "query_ok (revoke_token d h)"
proof (rule query_okI)
  fix now and t :: tables
  assume wf: "tables_wf t"
  let ?p = "\<lambda>k. tk_device_ref k = d \<and> tk_token_hash k = h \<and> tk_revoked_at k = None"
  let ?f = "\<lambda>k. k\<lparr>tk_revoked_at := Some now\<rparr>"
  note w = tables_wfD [OF wf]
  have "grows token_le (t_tokens t) (update_where ?p ?f (t_tokens t))"
    by (rule grows_update_where) (simp_all add: token_le_def stays_def)
  moreover have "tokens_wf (update_where ?p ?f (t_tokens t)) (device_ids (t_devices t))"
    by (rule wf_update(4) [OF w(5)]) simp_all
  ultimately show "tables_wf (snd (revoke_token d h now t)) \<and>
      tables_grow t (snd (revoke_token d h now t))"
    using w by (simp add: revoke_token_def Let_def tables_wf_def tables_grow_def grows_refl)
qed

lemma insert_block_ok [queries_ok]: "query_ok (insert_block a b)"
proof (rule query_okI)
  fix now and t :: tables
  assume wf: "tables_wf t"
  have "blocks_wf (t_blocks t @ [\<lparr>bk_blocker_user_id = a, bk_blocked_user_id = b, bk_created_at = now\<rparr>])
      (user_names (t_users t))"
    if "a \<noteq> b" "\<forall>r\<in>set (t_blocks t). \<not> blocked_pair a b r" "has_user a t" "has_user b t"
    using tables_wfD(8) [OF wf] that by (auto simp: blocks_wf_def blocked_pair_def)
  then show "tables_wf (snd (insert_block a b now t)) \<and> tables_grow t (snd (insert_block a b now t))"
    using tables_wfD [OF wf]
    by (simp add: insert_block_def tables_wf_def tables_grow_def grows_refl)
qed

lemma delete_block_ok [queries_ok]: "query_ok (delete_block a b)"
proof (rule query_okI)
  fix now and t :: tables
  assume wf: "tables_wf t"
  have "blocks_wf (filter p (t_blocks t)) (user_names (t_users t))" for p
    using tables_wfD(8) [OF wf] by (simp add: blocks_wf_def distinct_map_filter)
  then show "tables_wf (snd (delete_block a b now t)) \<and> tables_grow t (snd (delete_block a b now t))"
    using tables_wfD [OF wf]
    by (simp add: delete_block_def tables_wf_def tables_grow_def grows_refl)
qed

lemma insert_message_ok [queries_ok]: "query_ok (insert_message k i a b e)"
proof (rule query_okI)
  fix now and t :: tables
  assume wf: "tables_wf t"
  show "tables_wf (snd (insert_message k i a b e now t)) \<and>
    tables_grow t (snd (insert_message k i a b e now t))"
    using tables_wfD [OF wf]
    by (simp add: insert_message_def tables_wf_def tables_grow_def grows_refl grows_append wf_append)
qed

lemma mark_delivered_ok [queries_ok]: "query_ok (mark_delivered i)"
proof (rule query_okI)
  fix now and t :: tables
  assume wf: "tables_wf t"
  let ?f = "\<lambda>m. m\<lparr>mr_delivered_at :=
    (case mr_delivered_at m of Some d \<Rightarrow> Some d | None \<Rightarrow> Some now)\<rparr>"
  note w = tables_wfD [OF wf]
  have "grows message_le (t_messages t) (update_where (\<lambda>m. mr_id m = i) ?f (t_messages t))"
    by (rule grows_update_where) (simp_all add: message_le_def stays_def split: option.splits)
  moreover have "messages_wf (update_where (\<lambda>m. mr_id m = i) ?f (t_messages t))
      (device_ids (t_devices t))"
    by (rule wf_update(3) [OF w(4)]) simp_all
  ultimately show "tables_wf (snd (mark_delivered i now t)) \<and>
      tables_grow t (snd (mark_delivered i now t))"
    using w by (simp add: mark_delivered_def tables_wf_def tables_grow_def grows_refl)
qed

lemma ack_messages_ok [queries_ok]: "query_ok (ack_messages d ids)"
proof (rule query_okI)
  fix now and t :: tables
  assume wf: "tables_wf t"
  let ?p = "\<lambda>m. mr_to_device m = d \<and> mr_message_id m \<in> set ids \<and> mr_acked_at m = None"
  let ?f = "\<lambda>m. m\<lparr>mr_acked_at := Some now\<rparr>"
  note w = tables_wfD [OF wf]
  have "grows message_le (t_messages t) (update_where ?p ?f (t_messages t))"
    by (rule grows_update_where) (simp_all add: message_le_def stays_def)
  moreover have "messages_wf (update_where ?p ?f (t_messages t)) (device_ids (t_devices t))"
    by (rule wf_update(3) [OF w(4)]) simp_all
  ultimately show "tables_wf (snd (ack_messages d ids now t)) \<and>
      tables_grow t (snd (ack_messages d ids now t))"
    using w by (simp add: ack_messages_def Let_def tables_wf_def tables_grow_def grows_refl)
qed

lemma insert_blob_ok [queries_ok]: "query_ok (insert_blob k d bs)"
proof (rule query_okI)
  fix now and t :: tables
  assume wf: "tables_wf t"
  show "tables_wf (snd (insert_blob k d bs now t)) \<and> tables_grow t (snd (insert_blob k d bs now t))"
    using tables_wfD [OF wf]
    by (simp add: insert_blob_def tables_wf_def tables_grow_def grows_refl grows_append wf_append)
qed

lemma insert_empty_blob_ok [queries_ok]: "query_ok (insert_empty_blob k d)"
  unfolding insert_empty_blob_def by (rule insert_blob_ok)

lemma append_blob_ok [queries_ok]: "query_ok (append_blob d i bs)"
proof (rule query_okI)
  fix now and t :: tables
  assume wf: "tables_wf t"
  let ?p = "\<lambda>b. bl_id b = i \<and> bl_owner_device b = d"
  let ?f = "\<lambda>b. b\<lparr>bl_data := bl_data b @ bs\<rparr>"
  note w = tables_wfD [OF wf]
  have "grows blob_le (t_blobs t) (update_where ?p ?f (t_blobs t))"
    by (rule grows_update_where) (simp_all add: blob_le_def)
  moreover have "blobs_wf (update_where ?p ?f (t_blobs t)) (device_ids (t_devices t))"
    by (rule wf_update(5) [OF w(6)]) simp_all
  ultimately show "tables_wf (snd (append_blob d i bs now t)) \<and>
      tables_grow t (snd (append_blob d i bs now t))"
    using w by (simp add: append_blob_def Let_def tables_wf_def tables_grow_def grows_refl)
qed

lemma tables0_wf: "tables_wf tables0"
  by (simp add: tables_wf_def wf_defs device_ids_def user_names_def user_db_ids_def)

section \<open>Handlers\<close>

text \<open>
  What one request may do to the process: the tables change by steps as above, time does not go
  back, and the queue of call signals keeps its bound of \<open>MAX_SIGNAL_QUEUE\<close> entries.
\<close>

definition MAX_SIGNAL_QUEUE :: nat where
  "MAX_SIGNAL_QUEUE = 2048"

definition server_step :: "server \<Rightarrow> server \<Rightarrow> bool" where
  "server_step s s' \<longleftrightarrow> tables_step (tables s) (tables s') \<and> clock s \<le> clock s' \<and>
     (length (call_signals s) \<le> MAX_SIGNAL_QUEUE \<longrightarrow> length (call_signals s') \<le> MAX_SIGNAL_QUEUE)"

interpretation srv: step_order server_step
proof unfold_locales
  show "server_step s s" for s by (simp add: server_step_def tables_step_refl)
  show "server_step s t \<Longrightarrow> server_step t u \<Longrightarrow> server_step s u" for s t u
    unfolding server_step_def by (auto intro: tables_step_trans)
qed

named_theorems server_moves \<open>handlers respect the step relation of the server\<close>

lemma tables_step_rollback:
  assumes "tables_step t t'"
  shows "tables_step t (rollback_to t t')"
  unfolding tables_step_def
proof
  assume wf: "tables_wf t"
  with assms have g: "tables_grow t t'" by (simp add: tables_step_def)
  then have "t_users_seq t \<le> t_users_seq t'" "t_prekeys_seq t \<le> t_prekeys_seq t'"
    "t_tokens_seq t \<le> t_tokens_seq t'"
    by (simp_all add: tables_grow_def)
  then show "tables_wf (rollback_to t t') \<and> tables_grow t (rollback_to t t')"
    using tables_wfD [OF wf] wf_mono(1) [OF tables_wfD(1) [OF wf]]
      wf_mono(2) [OF tables_wfD(3) [OF wf] _ subset_refl]
    by (simp add: tables_wf_def tables_grow_def grows_refl)
qed

lemma moves_run_sql:
  assumes "query_ok q"
  shows "moves server_step (run_sql q)"
proof (rule movesI)
  fix s
  obtain b s1 where d: "db_ok s = (b, s1)" by (cases "db_ok s")
  obtain r t where q: "q (clock s) (tables s) = (r, t)" by (cases "q (clock s) (tables s)")
  have st: "tables_step (tables s) t"
    using assms q unfolding query_ok_def by (metis snd_conv)
  show "server_step s (snd (run_sql q s))"
    using st tables_step_rollback [OF st] db_ok_frame [OF d]
    by (simp add: run_sql_def d q server_step_def tables_step_refl split: sum.splits)
qed

lemma moves_transaction:
  assumes "moves server_step m"
  shows "moves server_step (transaction m)"
proof (rule movesI)
  fix s
  obtain b s1 where d: "db_ok s = (b, s1)" by (cases "db_ok s")
  obtain r s2 where m: "m s1 = (r, s2)" by (cases "m s1")
  obtain b2 s3 where d2: "db_ok s2 = (b2, s3)" by (cases "db_ok s2")
  have st: "server_step s1 s2" using assms m by (rule movesD)
  then have "tables_step (tables s1) (tables s2)" by (simp add: server_step_def)
  note undo = tables_step_rollback [OF this]
  show "server_step s (snd (transaction m s))"
    using st undo db_ok_frame [OF d] db_ok_frame [OF d2]
    by (simp add: transaction_def d m d2 server_step_def tables_step_refl split: sum.splits)
qed

lemma moves_modifyS:
  assumes "\<And>s. tables (g s) = tables s" "\<And>s. clock (g s) = clock s"
    "\<And>s. length (call_signals s) \<le> MAX_SIGNAL_QUEUE \<Longrightarrow> length (call_signals (g s)) \<le> MAX_SIGNAL_QUEUE"
  shows "moves server_step (modifyS g)"
  using assms by (intro movesI) (simp add: server_step_def tables_step_refl)

lemmas server_rules = srv.moves_rules moves_run_sql moves_transaction queries_ok

end
