(* ===== verification/Auth_Devices.thy ===== *)
theory Auth_Devices
  imports Table_Invariants
begin

text \<open>
  Presence (\<open>mark_online\<close>, \<open>is_online\<close> of \<open>domain/realtime.rs\<close>), device credentials
  (\<open>auth.rs\<close>) and the device endpoints (\<open>domain/device.rs\<close>, \<open>handlers/device.rs\<close>).  The
  lemmas characterise a successful authorization exactly and rest the life of a token on the
  interpretation \<open>creds\<close> of \<open>credential_store\<close>.
\<close>

section \<open>Presence\<close>

definition ONLINE_TTL :: nat where
  "ONLINE_TTL = 20 * 1000000"

definition mark_online :: "uuid \<Rightarrow> unit handler" where
  "mark_online device_uuid =
     modifyS (\<lambda>s. s\<lparr>device_last_seen := (device_last_seen s)(device_uuid \<mapsto> clock s)\<rparr>)"

definition is_online :: "uuid \<Rightarrow> server \<Rightarrow> bool" where
  "is_online device_uuid s \<longleftrightarrow> device_uuid \<in> online_devices s \<or>
     (case device_last_seen s device_uuid of
        Some last_seen \<Rightarrow> clock s - last_seen \<le> ONLINE_TTL
      | None \<Rightarrow> False)"

lemma moves_mark_online [server_moves]: "moves server_step (mark_online d)"
  unfolding mark_online_def by (rule moves_modifyS) simp_all

section \<open>auth.rs\<close>

definition hash_token :: "env \<Rightarrow> string \<Rightarrow> string" where
  "hash_token E token = sha256_hex E token"

definition authorize_device :: "env \<Rightarrow> headers \<Rightarrow> uuid handler" where
  "authorize_device E h =
     bindS (ok_or (h ''x-device-uuid'') (api_error UNAUTHORIZED ''missing device credentials'')) (\<lambda>v.
     bindS (ok_or (parse_uuid E v) (api_error UNAUTHORIZED ''invalid device uuid'')) (\<lambda>device_uuid.
     bindS (ok_or (h ''x-device-token'') (api_error UNAUTHORIZED ''missing device token'')) (\<lambda>token.
     bindS (run_sql (is_token_active device_uuid (hash_token E token))) (\<lambda>active.
     if active then bindS (mark_online device_uuid) (\<lambda>_. returnS device_uuid)
     else failS (api_error UNAUTHORIZED ''invalid token'')))))"

lemma moves_authorize [server_moves]: "moves server_step (authorize_device E h)"
  unfolding authorize_device_def by (intro server_rules server_moves)

definition presents :: "env \<Rightarrow> headers \<Rightarrow> uuid \<Rightarrow> string \<Rightarrow> bool" where
  "presents E h d token \<longleftrightarrow> (\<exists>v. h ''x-device-uuid'' = Some v \<and> parse_uuid E v = Some d) \<and>
     h ''x-device-token'' = Some token"

lemma authorize_Inr_iff [comp_simps]:
  "authorize_device E h s = (Inr d, s') \<longleftrightarrow>
     (\<exists>token s1. presents E h d token \<and> db_ok s = (True, s1) \<and>
        token_valid (clock s) (tables s) d (hash_token E token) \<and>
        s' = s1\<lparr>device_last_seen := (device_last_seen s)(d \<mapsto> clock s)\<rparr>)"
  (is "_ \<longleftrightarrow> ?R")
proof -
  obtain b s1 where d: "db_ok s = (b, s1)" by (cases "db_ok s")
  have query: "(run_sql (is_token_active dev th) s = (Inr x, s2)) \<longleftrightarrow>
      b \<and> s2 = s1 \<and> x = token_valid (clock s) (tables s) dev th" for dev th x s2
    using db_ok_frame(1) [OF d] d by (auto simp: comp_simps is_token_active_def token_valid_def)
  have online: "mark_online dev s1 =
      (Inr (), s1\<lparr>device_last_seen := (device_last_seen s)(dev \<mapsto> clock s)\<rparr>)" for dev
    using db_ok_frame [OF d] by (simp add: mark_online_def)
  show ?thesis
  proof
    assume "authorize_device E h s = (Inr d, s')"
    then show ?R
      using d online
      by (auto simp: authorize_device_def presents_def bindS_Inr_iff ok_or_Inr_iff query
          split: if_splits)
  next
    assume ?R
    then show "authorize_device E h s = (Inr d, s')"
      using d online
      by (auto simp: authorize_device_def presents_def bindS_Inr_iff ok_or_Inr_iff query)
  qed
qed

text \<open>Whatever the outcome, authorization changes nothing but the time of the device's last call.\<close>

definition quiet :: "server \<Rightarrow> server \<Rightarrow> bool" where
  "quiet s s' \<longleftrightarrow> tables s' = tables s \<and> clock s' = clock s \<and> call_signals s' = call_signals s \<and>
     online_devices s' = online_devices s \<and> limiter s' = limiter s \<and>
     min_client_version s' = min_client_version s"

interpretation qt: step_order quiet
  by unfold_locales (simp_all add: quiet_def)

lemma quiet_read: "(\<And>now t. snd (q now t) = t) \<Longrightarrow> moves quiet (run_sql q)"
proof (rule movesI)
  fix s assume q: "\<And>now t. snd (q now t) = t"
  obtain b s1 where d: "db_ok s = (b, s1)" by (cases "db_ok s")
  obtain r where r: "q (clock s1) (tables s1) = (r, tables s1)" using q by (metis prod.collapse)
  show "quiet s (snd (run_sql q s))"
    using db_ok_frame [OF d] r by (cases r) (auto simp: run_sql_def d quiet_def rollback_to_def)
qed

text \<open>
  A computation is clean if it leaves the tables alone whenever it fails: reads, then one write.
\<close>

definition clean :: "'a handler \<Rightarrow> bool" where
  "clean m \<longleftrightarrow> (\<forall>s e s'. m s = (Inl e, s') \<longrightarrow> tables s' = tables s)"

lemma cleanD: "clean m \<Longrightarrow> m s = (Inl e, s') \<Longrightarrow> tables s' = tables s"
  by (simp add: clean_def)

lemma clean_quiet: "moves quiet m \<Longrightarrow> clean m"
  unfolding clean_def quiet_def [abs_def] by (blast dest: movesD)

lemma clean_read_bind:
  assumes "moves quiet m" "\<And>x. clean (f x)"
  shows "clean (bindS m f)"
  unfolding clean_def
proof (intro allI impI)
  fix s e s' assume b: "bindS m f s = (Inl e, s')"
  obtain r s1 where m: "m s = (r, s1)" by (cases "m s")
  have "tables s1 = tables s" using movesD [OF assms(1) m] by (simp add: quiet_def)
  then show "tables s' = tables s"
    using b m assms(2) unfolding clean_def by (cases r) (auto simp: bindS_apply)
qed

lemma clean_bind_total:
  assumes "clean m" "\<And>x s. \<exists>y. f x s = (Inr y, s)"
  shows "clean (bindS m f)"
  unfolding clean_def
proof (intro allI impI)
  fix s e s' assume b: "bindS m f s = (Inl e, s')"
  obtain r s1 where m: "m s = (r, s1)" by (cases "m s")
  show "tables s' = tables s"
  proof (cases r)
    case (Inl x)
    then show ?thesis using b m assms(1) unfolding clean_def by (simp add: bindS_apply)
  next
    case (Inr x)
    then show ?thesis using b m assms(2) [of x s1] by (auto simp: bindS_apply)
  qed
qed

lemma clean_run_sql:
  assumes "\<And>now t e t'. q now t = (Inl e, t') \<Longrightarrow> rollback_to t t' = t"
  shows "clean (run_sql q)"
  unfolding clean_def
proof (intro allI impI)
  fix s e s' assume r: "run_sql q s = (Inl e, s')"
  obtain b s1 where d: "db_ok s = (b, s1)" by (cases "db_ok s")
  show "tables s' = tables s"
    using r db_ok_frame [OF d] assms
    by (auto simp: run_sql_def d split: if_splits prod.splits sum.splits)
qed

lemma rollback_self [simp]: "rollback_to t t = t"
  by (simp add: rollback_to_def)

lemma quiet_authorize: "moves quiet (authorize_device E h)"
  unfolding authorize_device_def mark_online_def
  by (intro qt.moves_rules quiet_read movesI) (simp_all add: is_token_active_def quiet_def)

lemma authorize_frame:
  assumes "authorize_device E h s = (r, s')"
  shows "tables s' = tables s" "clock s' = clock s" "call_signals s' = call_signals s"
    "online_devices s' = online_devices s" "limiter s' = limiter s"
    "min_client_version s' = min_client_version s"
  using movesD [OF quiet_authorize assms] by (simp_all add: quiet_def)

text \<open>A refusal is 401, or 500 when the database call failed.\<close>

lemma authorize_Inl_status:
  assumes "authorize_device E h s = (Inl e, s')"
  shows "ae_status e = UNAUTHORIZED \<or> e = api_error_database"
  using assms
  by (auto simp: authorize_device_def bindS_apply run_sql_def ok_or_def is_token_active_def
      mark_online_def api_error_def Let_def split: option.splits if_splits prod.splits)

lemma authorize_ok:
  assumes "presents E h d token" "faults s = []"
    and "token_valid (clock s) (tables s) d (hash_token E token)"
  shows "authorize_device E h s =
    (Inr d, s\<lparr>device_last_seen := (device_last_seen s)(d \<mapsto> clock s)\<rparr>)"
  using assms by (auto simp: authorize_Inr_iff db_ok_no_faults)

section \<open>domain/device.rs\<close>

definition register_device :: "env \<Rightarrow> draws \<Rightarrow> register_device_request \<Rightarrow> register_device_response handler" where
  "register_device E dr payload =
     bindS (ok_or (b64_decode E (rd_identity_key_b64 payload))
       (api_error BAD_REQUEST ''invalid identity key'')) (\<lambda>identity_key.
     bindS (ok_or (b64_decode E (rd_signing_identity_key_b64 payload))
       (api_error BAD_REQUEST ''invalid signing identity key'')) (\<lambda>signing_identity_key.
     bindS (ok_or (b64_decode E (rd_signed_prekey_b64 payload))
       (api_error BAD_REQUEST ''invalid signed prekey'')) (\<lambda>signed_prekey.
     bindS (ok_or (b64_decode E (rd_signed_prekey_signature_b64 payload))
       (api_error BAD_REQUEST ''invalid signed prekey signature'')) (\<lambda>signed_prekey_signature.
     bindS (run_sql (upsert_device (dr 0) (rd_user_id payload) (rd_device_id payload) identity_key
       signing_identity_key signed_prekey signed_prekey_signature)) (\<lambda>device_uuid.
     returnS \<lparr>rdr_device_uuid = show_uuid E device_uuid\<rparr>)))))"

fun upload_items :: "env \<Rightarrow> uuid \<Rightarrow> prekey_upload_item list \<Rightarrow> nat \<Rightarrow> nat handler" where
  "upload_items E device_uuid [] inserted = returnS inserted"
| "upload_items E device_uuid (item # items) inserted =
     bindS (ok_or (b64_decode E (pu_pubkey_b64 item)) (api_error BAD_REQUEST ''invalid prekey'')) (\<lambda>pubkey.
     bindS (run_sql (insert_one_time_prekey device_uuid (pu_key_id item) pubkey)) (\<lambda>n.
     upload_items E device_uuid items (inserted + n)))"

definition upload_prekeys :: "env \<Rightarrow> uuid \<Rightarrow> upload_prekeys_request \<Rightarrow> upload_prekeys_response handler" where
  "upload_prekeys E auth_device payload =
     bindS (ok_or (parse_uuid E (up_device_uuid payload))
       (api_error BAD_REQUEST ''invalid device uuid'')) (\<lambda>device_uuid.
     bindS (reject_if (auth_device \<noteq> device_uuid) (api_error FORBIDDEN ''device mismatch'')) (\<lambda>_.
     bindS (transaction (upload_items E device_uuid (up_prekeys payload) 0)) (\<lambda>inserted.
     returnS \<lparr>upr_inserted = inserted\<rparr>)))"

definition device_login :: "env \<Rightarrow> draws \<Rightarrow> device_login_request \<Rightarrow> device_login_response handler" where
  "device_login E dr payload =
     bindS (run_sql (find_device_uuid (dl_user_id payload) (dl_device_id payload))) (\<lambda>found.
     bindS (ok_or found (api_error NOT_FOUND ''device not found'')) (\<lambda>device_uuid.
     let auth_token = simple_uuid E (dr 0) @ simple_uuid E (dr 1) in
     bindS (run_sql (create_token device_uuid (hash_token E auth_token))) (\<lambda>_.
     returnS \<lparr>dlr_device_uuid = show_uuid E device_uuid, dlr_auth_token = auth_token\<rparr>)))"

definition device_logout :: "env \<Rightarrow> uuid \<Rightarrow> string \<Rightarrow> string \<Rightarrow> device_logout_response handler" where
  "device_logout E auth_device token device_uuid =
     bindS (ok_or (parse_uuid E device_uuid) (api_error BAD_REQUEST ''invalid device uuid'')) (\<lambda>parsed.
     bindS (reject_if (auth_device \<noteq> parsed) (api_error FORBIDDEN ''device mismatch'')) (\<lambda>_.
     bindS (run_sql (revoke_token parsed (hash_token E token))) (\<lambda>n.
     returnS \<lparr>dor_revoked = (n = 1)\<rparr>)))"

section \<open>handlers/device.rs\<close>

definition h_register_device :: "env \<Rightarrow> draws \<Rightarrow> register_device_request \<Rightarrow> register_device_response handler" where
  "h_register_device E dr payload = register_device E dr payload"

definition h_upload_prekeys :: "env \<Rightarrow> headers \<Rightarrow> upload_prekeys_request \<Rightarrow> upload_prekeys_response handler" where
  "h_upload_prekeys E h payload =
     bindS (authorize_device E h) (\<lambda>auth_device. upload_prekeys E auth_device payload)"

definition h_device_login :: "env \<Rightarrow> draws \<Rightarrow> device_login_request \<Rightarrow> device_login_response handler" where
  "h_device_login E dr payload = device_login E dr payload"

definition h_device_logout :: "env \<Rightarrow> headers \<Rightarrow> device_logout_request \<Rightarrow> device_logout_response handler" where
  "h_device_logout E h payload =
     bindS (authorize_device E h) (\<lambda>auth_device.
     bindS (ok_or (h ''x-device-token'') (api_error UNAUTHORIZED ''missing device token'')) (\<lambda>token.
     device_logout E auth_device token (do_device_uuid payload)))"

lemmas [eval_simps] = mark_online_def hash_token_def authorize_device_def
  register_device_def upload_prekeys_def device_login_def device_logout_def
  h_register_device_def h_upload_prekeys_def h_device_login_def h_device_logout_def

lemma moves_upload_items [server_moves]: "moves server_step (upload_items E d items n)"
  by (induction items arbitrary: n) (auto intro!: server_rules)

lemma moves_device_handlers [server_moves]:
  "moves server_step (h_register_device E dr p1)"
  "moves server_step (h_upload_prekeys E h p2)"
  "moves server_step (h_device_login E dr p3)"
  "moves server_step (h_device_logout E h p4)"
  unfolding h_register_device_def register_device_def h_upload_prekeys_def upload_prekeys_def
    h_device_login_def device_login_def h_device_logout_def device_logout_def Let_def
  by (intro server_rules server_moves)+

section \<open>Tokens\<close>

text \<open>Login and logout act on the tables by the operations of the credential contract.\<close>

lemma device_login_Inr:
  assumes "device_login E dr p s = (Inr resp, s')"
  obtains d where "dlr_device_uuid resp = show_uuid E d"
    "tables s' = issue_token (clock s) d (hash_token E (dlr_auth_token resp)) (tables s)"
    "can_issue (tables s) d (hash_token E (dlr_auth_token resp))" "clock s' = clock s"
    "\<exists>r\<in>set (t_devices (tables s)). dr_id r = d \<and> dr_user_id r = dl_user_id p \<and>
       dr_device_id r = dl_device_id p"
proof -
  let ?tok = "simple_uuid E (dr 0) @ simple_uuid E (dr 1)"
  from assms obtain d s1 s2 where
    find: "run_sql (find_device_uuid (dl_user_id p) (dl_device_id p)) s = (Inr (Some d), s1)" and
    make: "run_sql (create_token d (hash_token E ?tok)) s1 = (Inr (), s2)" and
    resp: "resp = \<lparr>dlr_device_uuid = show_uuid E d, dlr_auth_token = ?tok\<rparr>" "s' = s2"
    by (auto simp: device_login_def bindS_Inr_iff ok_or_Inr_iff Let_def)
  from find obtain r where r: "find (\<lambda>x. dr_user_id x = dl_user_id p \<and> dr_device_id x = dl_device_id p)
      (t_devices (tables s)) = Some r" "dr_id r = d"
    and s1: "tables s1 = tables s" "clock s1 = clock s"
    by (auto simp: comp_simps find_device_uuid_def dest: db_ok_frame)
  from find_SomeD [OF r(1)] r(2) have
    ex: "\<exists>r\<in>set (t_devices (tables s)). dr_id r = d \<and> dr_user_id r = dl_user_id p \<and>
       dr_device_id r = dl_device_id p" by blast
  from make obtain s3 t where t: "db_ok s1 = (True, s3)" "s2 = s3\<lparr>tables := t\<rparr>"
    "create_token d (hash_token E ?tok) (clock s) (tables s) = (Inr (), t)"
    by (auto simp: run_sql_Inr s1)
  have "tables s' = issue_token (clock s) d (hash_token E ?tok) (tables s)"
    using t(2,3) resp(2) by (simp add: issue_token_def)
  moreover have "can_issue (tables s) d (hash_token E ?tok)"
    using t(3) by (auto simp: can_issue_def create_token_def Let_def split: if_splits)
  moreover have "clock s' = clock s" using t(1,2) resp(2) s1 db_ok_frame(2) by simp
  ultimately show ?thesis using that ex resp(1) by simp
qed

lemma h_device_logout_Inr:
  assumes "h_device_logout E h p s = (Inr resp, s')"
  obtains d token where "presents E h d token"
    "token_valid (clock s) (tables s) d (hash_token E token)"
    "tables s' = drop_token (clock s) d (hash_token E token) (tables s)"
    "clock s' = clock s"
proof -
  from assms obtain d s1 token s2 n where
    auth: "authorize_device E h s = (Inr d, s1)" and tok: "h ''x-device-token'' = Some token" and
    rev: "run_sql (revoke_token d (hash_token E token)) s1 = (Inr n, s')"
    by (auto simp: h_device_logout_def device_logout_def bindS_Inr_iff ok_or_Inr_iff
        reject_if_Inr_iff)
  have "presents E h d token" "token_valid (clock s) (tables s) d (hash_token E token)"
    using auth tok by (auto simp: authorize_Inr_iff presents_def)
  moreover have "tables s1 = tables s" "clock s1 = clock s" using authorize_frame [OF auth] by auto
  then have "tables s' = drop_token (clock s) d (hash_token E token) (tables s) \<and> clock s' = clock s"
    using rev by (auto simp: run_sql_Inr drop_token_def dest: db_ok_frame)
  ultimately show ?thesis using that by blast
qed

lemma presents_unique: "presents E h d token \<Longrightarrow> presents E h d' token' \<Longrightarrow> d' = d \<and> token' = token"
  by (auto simp: presents_def)

lemma authorize_iff_valid:
  assumes "presents E h d token" "faults s = []"
  shows "(\<exists>d' s'. authorize_device E h s = (Inr d', s')) \<longleftrightarrow>
    token_valid (clock s) (tables s) d (hash_token E token)"
proof
  assume "\<exists>d' s'. authorize_device E h s = (Inr d', s')"
  then obtain d' token' where "presents E h d' token'"
    "token_valid (clock s) (tables s) d' (hash_token E token')"
    unfolding authorize_Inr_iff by blast
  then show "token_valid (clock s) (tables s) d (hash_token E token)"
    using presents_unique [OF assms(1)] by metis
next
  assume "token_valid (clock s) (tables s) d (hash_token E token)"
  then show "\<exists>d' s'. authorize_device E h s = (Inr d', s')"
    using authorize_ok [OF assms] by blast
qed

text \<open>
  The later life of a token row: hash, device and expiry never change, a revocation is final,
  and no second row can get the same hash.
\<close>

lemma token_later:
  assumes "tables_wf t" "tables_step t t'" "k \<in> set (t_tokens t)"
  shows "token_valid now t' d (tk_token_hash k) \<longleftrightarrow>
    d = tk_device_ref k \<and> now < tk_expires_at k \<and>
    (\<exists>k'\<in>set (t_tokens t'). tk_token_hash k' = tk_token_hash k \<and> tk_revoked_at k' = None)"
    and "tk_revoked_at k \<noteq> None \<Longrightarrow> \<not> token_valid now t' d (tk_token_hash k)"
proof -
  have g: "grows token_le (t_tokens t) (t_tokens t')" and dist: "distinct (map tk_token_hash (t_tokens t'))"
    using assms(1,2) by (simp_all add: tables_step_def tables_grow_def tables_wf_def tokens_wf_def)
  have le: "token_le k k'" if "k' \<in> set (t_tokens t')" "tk_token_hash k' = tk_token_hash k" for k'
    by (rule grows_same_key [where key = tk_token_hash, OF g dist _ assms(3) that(1) that(2)])
      (metis token_le_def token_row.select_convs(3) token_row.surjective token_row.update_convs(6))
  have eq: "tk_device_ref k' = tk_device_ref k \<and> tk_expires_at k' = tk_expires_at k \<and>
      (tk_revoked_at k = None \<or> tk_revoked_at k' = tk_revoked_at k)"
    if "token_le k k'" for k'
    using that by (cases k; cases k') (auto simp: token_le_def stays_def)
  show "token_valid now t' d (tk_token_hash k) \<longleftrightarrow>
    d = tk_device_ref k \<and> now < tk_expires_at k \<and>
    (\<exists>k'\<in>set (t_tokens t'). tk_token_hash k' = tk_token_hash k \<and> tk_revoked_at k' = None)"
    unfolding token_valid_def token_active_def using eq le by metis
  assume "tk_revoked_at k \<noteq> None"
  then show "\<not> token_valid now t' d (tk_token_hash k)"
    unfolding token_valid_def token_active_def using eq le by metis
qed

text \<open>
  C9.  A login token opens the door for its device, from the moment it is issued, until 30 days
  later or until it is revoked, and in no other case: in every later state of the server,
  whatever requests came between, a request presenting the returned device id and token is
  authorized exactly when fewer than 30 days have passed and the token is not revoked.
\<close>

theorem device_session_life:
  assumes "uuid_laws E"
    and "tables_wf (tables s)"
    and "h_device_login E dr p s = (Inr resp, s1)"
    and "h ''x-device-uuid'' = Some (dlr_device_uuid resp)"
    and "h ''x-device-token'' = Some (dlr_auth_token resp)"
    and "server_step s1 s2" "faults s2 = []"
  shows "(\<exists>d s'. authorize_device E h s2 = (Inr d, s')) \<longleftrightarrow>
    clock s2 < clock s1 + days 30 \<and>
    (\<exists>k\<in>set (t_tokens (tables s2)). tk_token_hash k = hash_token E (dlr_auth_token resp) \<and>
       tk_revoked_at k = None)"
proof -
  let ?h = "hash_token E (dlr_auth_token resp)"
  obtain d where d: "dlr_device_uuid resp = show_uuid E d" "can_issue (tables s) d ?h"
    "tables s1 = issue_token (clock s) d ?h (tables s)" "clock s1 = clock s"
    using assms(3) unfolding h_device_login_def by (rule device_login_Inr)
  have pres: "presents E h d (dlr_auth_token resp)"
    using assms(1,4,5) d(1) by (simp add: presents_def uuid_laws_def)
  have wf: "tables_wf (tables s1)"
    using movesD [OF moves_device_handlers(3) assms(3)] assms(2)
    by (simp add: server_step_def tables_step_def)
  have "\<exists>k\<in>set (t_tokens (tables s1)). tk_token_hash k = ?h \<and> tk_device_ref k = d \<and>
      tk_expires_at k = clock s1 + days 30"
    using d(2) unfolding d(3,4) by (auto simp: can_issue_def issue_token_def create_token_def Let_def)
  then obtain k where k: "k \<in> set (t_tokens (tables s1))" "tk_token_hash k = ?h"
    "tk_device_ref k = d" "tk_expires_at k = clock s1 + days 30" by blast
  have "tables_step (tables s1) (tables s2)" using assms(6) by (simp add: server_step_def)
  from token_later(1) [OF wf this k(1)] show ?thesis
    unfolding authorize_iff_valid [OF pres assms(7)] k by simp
qed

lemma device_session_life_witness:
  "\<exists>d s'. authorize_device env0 [''x-device-uuid'' \<mapsto> ''x'', ''x-device-token'' \<mapsto> ''tt'']
     (snd (h_device_login env0 (\<lambda>_. 1) \<lparr>dl_user_id = ''ann'', dl_device_id = ''main''\<rparr> server0))
     = (Inr d, s')"
proof -
  let ?m = "h_device_login env0 (\<lambda>_. 1) \<lparr>dl_user_id = ''ann'', dl_device_id = ''main''\<rparr>"
  let ?resp = "\<lparr>dlr_device_uuid = ''x'', dlr_auth_token = ''tt''\<rparr>"
  have login: "?m server0 = (Inr ?resp, snd (?m server0))"
    and made: "\<exists>k\<in>set (t_tokens (tables (snd (?m server0)))). tk_token_hash k = ''tt'' \<and> tk_revoked_at k = None"
    and fl: "faults (snd (?m server0)) = []"
    by (simp_all add: eval_simps device_ids_def)
  have "server_step (snd (?m server0)) (snd (?m server0))" by (rule srv.step_refl)
  from device_session_life [OF env0_uuid_laws _ login _ _ this fl,
      of "[''x-device-uuid'' \<mapsto> ''x'', ''x-device-token'' \<mapsto> ''tt'']"] made
  show ?thesis by (simp add: tables0_wf days_def hash_token_def)
qed

text \<open>
  C10.  Logging out is final: after a successful \<open>device_logout\<close>, no later state of the server
  authorizes a request with the credentials that were logged out, even if the same device logs
  in again (it gets another token).
\<close>

theorem logout_is_final:
  assumes "tables_wf (tables s)"
    and "h_device_logout E h p s = (Inr resp, s1)"
    and "server_step s1 s2"
  shows "authorize_device E h s2 \<noteq> (Inr d, s3)"
proof
  assume auth: "authorize_device E h s2 = (Inr d, s3)"
  from assms(2) obtain d' token where drop: "presents E h d' token"
    "tables s1 = drop_token (clock s) d' (hash_token E token) (tables s)"
    and was: "token_valid (clock s) (tables s) d' (hash_token E token)"
    by (rule h_device_logout_Inr) blast
  have wf: "tables_wf (tables s1)"
    using movesD [OF moves_device_handlers(4) assms(2)] assms(1)
    by (simp add: server_step_def tables_step_def)
  have "\<exists>k\<in>set (t_tokens (tables s1)). tk_token_hash k = hash_token E token \<and> tk_revoked_at k \<noteq> None"
    using was unfolding drop(2)
    by (auto simp: token_valid_def token_active_def drop_token_def revoke_token_def Let_def
        cong: if_cong)
  moreover have "tables_step (tables s1) (tables s2)" using assms(3) by (simp add: server_step_def)
  ultimately have "\<not> token_valid (clock s2) (tables s2) d (hash_token E token)"
    using token_later(2) [OF wf] by metis
  then show False
    using auth presents_unique [OF drop(1)] unfolding authorize_Inr_iff by metis
qed

lemma logout_is_final_witness:
  "authorize_device env0 headers0
     (snd (h_device_logout env0 headers0 \<lparr>do_device_uuid = ''x''\<rparr> server0)) \<noteq> (Inr 1, server0)"
proof -
  let ?m = "h_device_logout env0 headers0 \<lparr>do_device_uuid = ''x''\<rparr>"
  have out: "?m server0 = (Inr \<lparr>dor_revoked = True\<rparr>, snd (?m server0))"
    by (simp add: eval_simps)
  show ?thesis by (rule logout_is_final [OF _ out srv.step_refl]) (simp add: tables0_wf)
qed

end
