(* ===== verification/Login_Limiter.thy ===== *)
theory Login_Limiter
  imports Auth_Devices
begin

text \<open>
  \<open>login_rate_limit.rs\<close>: the map from user names to attempt counters, its three operations,
  the contract \<open>throttle\<close> they offer to the login handler and its interpretation.
\<close>

section \<open>The operations\<close>

definition seconds :: "nat \<Rightarrow> nat" where
  "seconds n = n * 1000000"

definition entry_or_insert :: "timestamp \<Rightarrow> string \<Rightarrow> (string \<rightharpoonup> limiter_entry) \<Rightarrow> limiter_entry" where
  "entry_or_insert now key m = (case m key of Some e \<Rightarrow> e
     | None \<Rightarrow> \<lparr>le_attempts = 0, le_window_started = now, le_blocked_until = None\<rparr>)"

definition roll_window :: "timestamp \<Rightarrow> limiter_entry \<Rightarrow> limiter_entry" where
  "roll_window now e =
     (if now - le_window_started e > seconds 60
      then e\<lparr>le_attempts := 0, le_window_started := now\<rparr> else e)"

definition allow :: "timestamp \<Rightarrow> string \<Rightarrow> (string \<rightharpoonup> limiter_entry) \<Rightarrow> bool \<times> (string \<rightharpoonup> limiter_entry)" where
  "allow now key m =
     (let entry = entry_or_insert now key m in
      case le_blocked_until entry of
        Some blocked_until \<Rightarrow>
          if now < blocked_until then (False, m(key \<mapsto> entry))
          else (True, m(key \<mapsto> roll_window now
            (entry\<lparr>le_blocked_until := None, le_attempts := 0, le_window_started := now\<rparr>)))
      | None \<Rightarrow> (True, m(key \<mapsto> roll_window now entry)))"

definition record_failure :: "timestamp \<Rightarrow> string \<Rightarrow> (string \<rightharpoonup> limiter_entry) \<Rightarrow> (string \<rightharpoonup> limiter_entry)" where
  "record_failure now key m =
     (let entry = roll_window now (entry_or_insert now key m);
          entry1 = entry\<lparr>le_attempts := le_attempts entry + 1\<rparr> in
      m(key \<mapsto> (if le_attempts entry1 \<ge> 8
        then entry1\<lparr>le_blocked_until := Some (now + seconds 300)\<rparr> else entry1)))"

definition record_success :: "timestamp \<Rightarrow> string \<Rightarrow> (string \<rightharpoonup> limiter_entry) \<Rightarrow> (string \<rightharpoonup> limiter_entry)" where
  "record_success now key m = m(key := None)"

lemmas [eval_simps] = seconds_def entry_or_insert_def roll_window_def allow_def record_failure_def
  record_success_def

section \<open>The contract towards the login handler\<close>

text \<open>
  \<open>until m k\<close> is the time until which \<open>k\<close> is locked out.  The contract says when the check
  refuses, that a refusal keeps the lock, and that the operations on one key leave the locks
  of all others alone.  An attempt is what the handler makes of the three operations.
\<close>

locale throttle =
  fixes check :: "timestamp \<Rightarrow> 'k \<Rightarrow> 's \<Rightarrow> bool \<times> 's"
    and fail :: "timestamp \<Rightarrow> 'k \<Rightarrow> 's \<Rightarrow> 's"
    and success :: "timestamp \<Rightarrow> 'k \<Rightarrow> 's \<Rightarrow> 's"
    and until :: "'s \<Rightarrow> 'k \<Rightarrow> timestamp option"
  assumes check_iff: "fst (check now k s) \<longleftrightarrow> (\<forall>b. until s k = Some b \<longrightarrow> b \<le> now)"
    and check_keeps: "until s k = Some b \<Longrightarrow> now < b \<Longrightarrow> until (snd (check now k s)) k = Some b"
    and check_other: "k' \<noteq> k \<Longrightarrow> until (snd (check now k s)) k' = until s k'"
    and fail_other: "k' \<noteq> k \<Longrightarrow> until (fail now k s) k' = until s k'"
    and success_other: "k' \<noteq> k \<Longrightarrow> until (success now k s) k' = until s k'"
begin

definition attempt :: "timestamp \<times> 'k \<times> bool \<Rightarrow> 's \<Rightarrow> bool \<times> 's" where
  "attempt a s = (case a of (now, k, good) \<Rightarrow>
     let (ok, s1) = check now k s in
     (ok, if \<not> ok then s1 else if good then success now k s1 else fail now k s1))"

primrec attempts :: "(timestamp \<times> 'k \<times> bool) list \<Rightarrow> 's \<Rightarrow> 's" where
  "attempts [] s = s"
| "attempts (a # as) s = attempts as (snd (attempt a s))"

lemma attempt_locked:
  assumes "until s k = Some b" "fst (snd a) = k \<Longrightarrow> fst a < b"
  shows "until (snd (attempt a s)) k = Some b"
proof -
  obtain now k' good where a: "a = (now, k', good)" by (cases a)
  obtain ok s1 where c: "check now k' s = (ok, s1)" by (cases "check now k' s")
  show ?thesis
  proof (cases "k' = k")
    case True
    then have "now < b" using assms(2) a by simp
    then have "\<not> ok" "until s1 k = Some b"
      using check_iff [of now k s] check_keeps [OF assms(1), of now] c True assms(1) by auto
    then show ?thesis using a c by (simp add: attempt_def)
  next
    case False
    then have "until s1 k = Some b" using check_other [of k k' now s] c assms(1) by simp
    then show ?thesis using a c False by (simp add: attempt_def fail_other success_other)
  qed
qed

text \<open>Once locked, a key stays locked whatever is attempted, on it before the time is over or on others.\<close>

lemma attempts_locked:
  assumes "until s k = Some b" "\<forall>a\<in>set as. fst (snd a) = k \<longrightarrow> fst a < b"
  shows "until (attempts as s) k = Some b"
  using assms
proof (induction as arbitrary: s)
  case (Cons a as)
  have "until (snd (attempt a s)) k = Some b"
    using Cons.prems by (intro attempt_locked) auto
  with Cons.IH Cons.prems(2) show ?case by simp
qed simp

lemma lockout_lasts:
  assumes "until s k = Some b" "\<forall>a\<in>set as. fst (snd a) = k \<longrightarrow> fst a < b" "now < b"
  shows "\<not> fst (check now k (attempts as s))"
  using attempts_locked [OF assms(1,2)] assms(3) check_iff [of now k "attempts as s"] by auto

end

definition locked_until :: "(string \<rightharpoonup> limiter_entry) \<Rightarrow> string \<Rightarrow> timestamp option" where
  "locked_until m key = (case m key of Some e \<Rightarrow> le_blocked_until e | None \<Rightarrow> None)"

lemma roll_window_keeps [simp]: "le_blocked_until (roll_window now e) = le_blocked_until e"
  by (simp add: roll_window_def)

interpretation lim: throttle allow record_failure record_success locked_until
proof unfold_locales
  fix now b :: nat and k k' :: string and m :: "string \<rightharpoonup> limiter_entry"
  show "fst (allow now k m) \<longleftrightarrow> (\<forall>b. locked_until m k = Some b \<longrightarrow> b \<le> now)"
    by (auto simp: allow_def locked_until_def entry_or_insert_def Let_def split: option.splits)
  show "locked_until m k = Some b \<Longrightarrow> now < b \<Longrightarrow> locked_until (snd (allow now k m)) k = Some b"
    by (auto simp: allow_def locked_until_def entry_or_insert_def Let_def split: option.splits)
  show "k' \<noteq> k \<Longrightarrow> locked_until (snd (allow now k m)) k' = locked_until m k'"
    by (simp add: allow_def locked_until_def Let_def split: option.splits)
  show "k' \<noteq> k \<Longrightarrow> locked_until (record_failure now k m) k' = locked_until m k'"
    by (simp add: record_failure_def locked_until_def Let_def)
  show "k' \<noteq> k \<Longrightarrow> locked_until (record_success now k m) k' = locked_until m k'"
    by (simp add: record_success_def locked_until_def)
qed

section \<open>Counting failures\<close>

text \<open>An entry that has counted \<open>n < 8\<close> failures in the window that started at \<open>w\<close>.\<close>

definition counting :: "(string \<rightharpoonup> limiter_entry) \<Rightarrow> string \<Rightarrow> nat \<Rightarrow> timestamp \<Rightarrow> bool" where
  "counting m key n w \<longleftrightarrow> n < 8 \<and>
     m key = Some \<lparr>le_attempts = of_nat n, le_window_started = w, le_blocked_until = None\<rparr>"

lemma one_attempt [simp]: "\<not> (8 :: u32) \<le> 1"
  by (simp add: word_le_nat_alt)

lemma counting_allow:
  assumes "counting m key n w" "now - w \<le> seconds 60"
  shows "allow now key m = (True, m)"
  using assms by (auto simp: counting_def allow_def entry_or_insert_def roll_window_def Let_def)

lemma counting_record:
  assumes "counting m key n w" "now - w \<le> seconds 60"
  shows "n < 7 \<Longrightarrow> counting (record_failure now key m) key (Suc n) w"
    and "n = 7 \<Longrightarrow> locked_until (record_failure now key m) key = Some (now + seconds 300)"
proof -
  have m: "m key = Some \<lparr>le_attempts = of_nat n, le_window_started = w, le_blocked_until = None\<rparr>"
    using assms(1) by (simp add: counting_def)
  have cases7: "n < 7 \<Longrightarrow> n = 0 \<or> n = 1 \<or> n = 2 \<or> n = 3 \<or> n = 4 \<or> n = 5 \<or> n = 6" by linarith
  have small: "n < 7 \<Longrightarrow> \<not> (8 :: u32) \<le> of_nat n + 1" using cases7 by auto
  show "n < 7 \<Longrightarrow> counting (record_failure now key m) key (Suc n) w"
    using m assms(2) small
    by (simp add: counting_def record_failure_def entry_or_insert_def roll_window_def Let_def)
  show "n = 7 \<Longrightarrow> locked_until (record_failure now key m) key = Some (now + seconds 300)"
    using m assms(2)
    by (simp add: locked_until_def record_failure_def entry_or_insert_def roll_window_def Let_def)
qed

text \<open>
  The window an attempt at \<open>now\<close> falls in, as the failures it has counted and its start: a new
  one when there is no record of the user, when the last window is more than 60 seconds old or
  when the user was locked out, else the one that is running.
\<close>

definition window_of :: "timestamp \<Rightarrow> string \<Rightarrow> (string \<rightharpoonup> limiter_entry) \<Rightarrow> nat \<times> timestamp" where
  "window_of now key m = (case m key of None \<Rightarrow> (0, now)
     | Some e \<Rightarrow> if le_blocked_until e \<noteq> None \<or> now - le_window_started e > seconds 60 then (0, now)
       else (unat (le_attempts e), le_window_started e))"

lemma allow_window:
  assumes "window_of now key m = (n, w)" "n < 8" "\<forall>b. locked_until m key = Some b \<longrightarrow> b \<le> now"
  shows "fst (allow now key m)" and "counting (snd (allow now key m)) key n w"
  using assms
  by (auto simp: window_of_def counting_def locked_until_def allow_def entry_or_insert_def roll_window_def
      Let_def split: option.splits if_splits)

text \<open>
  The windows are fixed and do not slide: one failure at 0, six at 59 and seven at 61 seconds
  are thirteen within little more than two seconds, and the next attempt is still allowed.
\<close>

lemma fixed_window_slips:
  "fst (allow (seconds 61) u (lim.attempts
     ((0, u, False) # replicate 6 (seconds 59, u, False) @ replicate 7 (seconds 61, u, False)) Map.empty))"
  by (simp add: numeral_eq_Suc lim.attempt_def) (simp add: eval_simps)

end
