(* ===== verification/Users.thy ===== *)
theory Users
  imports Login_Limiter
begin

text \<open>
  Accounts: \<open>domain/user.rs\<close> with its password and invite-code helpers, \<open>handlers/user.rs\<close>
  and the invite generator \<open>bin/generate_invite.rs\<close>.
\<close>

section \<open>Passwords and invite codes\<close>

definition INVITE_CODE_PREFIX :: string where
  "INVITE_CODE_PREFIX = ''RSMSG:''"

record parsed_invite_code =
  pi_id :: uuid
  pi_secret :: string

definition hash_password :: "env \<Rightarrow> 128 word \<Rightarrow> string \<Rightarrow> string handler" where
  "hash_password E salt password =
     ok_or (argon2_hash E password salt) (api_error INTERNAL_SERVER_ERROR ''hashing failed'')"

definition verify_password :: "env \<Rightarrow> string \<Rightarrow> string \<Rightarrow> bool" where
  "verify_password E password h =
     (case phc_parse E h of None \<Rightarrow> False | Some parsed \<Rightarrow> argon2_verify E password parsed)"

definition parse_invite_code :: "env \<Rightarrow> string \<Rightarrow> api_error + parsed_invite_code" where
  "parse_invite_code E code =
     (let invalid = Inl (api_error BAD_REQUEST ''invalid invite code'') in
      case strip_prefix INVITE_CODE_PREFIX (trim code) of
        None \<Rightarrow> invalid
      | Some rest \<Rightarrow>
          (case split_once CHR '':'' rest of
             None \<Rightarrow> invalid
           | Some (i, secret) \<Rightarrow>
               if trim secret = [] then invalid
               else (case parse_uuid E i of
                       None \<Rightarrow> invalid
                     | Some u \<Rightarrow> Inr \<lparr>pi_id = u, pi_secret = secret\<rparr>)))"

section \<open>Registration and login\<close>

definition register :: "env \<Rightarrow> draws \<Rightarrow> user_register_request \<Rightarrow> user_register_response handler" where
  "register E dr payload =
     bindS (reject_if (trim (ureg_user_id payload) = [] \<or> length (ureg_password payload) < 6)
       (api_error BAD_REQUEST ''invalid credentials'')) (\<lambda>_.
     bindS (lift_result (parse_invite_code E (ureg_invite_code payload))) (\<lambda>invite.
     bindS (hash_password E (dr 0) (ureg_password payload)) (\<lambda>password_hash.
     transaction (
       bindS (run_sql (find_invite (pi_id invite))) (\<lambda>found.
       bindS (ok_or found (api_error UNAUTHORIZED ''invalid invite code'')) (\<lambda>stored_invite.
       bindS (reject_if (ri_used_at_exists stored_invite)
         (api_error CONFLICT ''invite code already used'')) (\<lambda>_.
       bindS (reject_if (ri_expired stored_invite)
         (api_error UNAUTHORIZED ''invalid invite code'')) (\<lambda>_.
       bindS (reject_if (\<not> verify_password E (pi_secret invite) (ri_secret_hash stored_invite))
         (api_error UNAUTHORIZED ''invalid invite code'')) (\<lambda>_.
       bindS (run_sql (create_user_tx (ureg_user_id payload) password_hash)) (\<lambda>created.
       bindS (ok_or created (api_error CONFLICT ''nickname already exists'')) (\<lambda>user_db_id.
       bindS (run_sql (mark_used (pi_id invite) user_db_id)) (\<lambda>_.
       returnS \<lparr>uregr_created = True\<rparr>))))))))))))"

definition login :: "env \<Rightarrow> user_login_request \<Rightarrow> user_login_response handler" where
  "login E payload =
     bindS (run_sql (get_password_hash (ul_user_id payload))) (\<lambda>stored.
     bindS (ok_or stored (api_error UNAUTHORIZED ''invalid credentials'')) (\<lambda>stored_hash.
     bindS (reject_if (\<not> verify_password E (ul_password payload) stored_hash)
       (api_error UNAUTHORIZED ''invalid credentials'')) (\<lambda>_.
     returnS \<lparr>ulr_ok = True\<rparr>)))"

section \<open>Lookups\<close>

definition resolve_user :: "env \<Rightarrow> resolve_user_request \<Rightarrow> resolve_user_response handler" where
  "resolve_user E payload =
     bindS (run_sql (find_device_uuid (ru_user_id payload) (ru_device_id payload))) (\<lambda>found.
     bindS (ok_or found (api_error NOT_FOUND ''user device not found'')) (\<lambda>device_uuid.
     returnS \<lparr>rur_device_uuid = show_uuid E device_uuid\<rparr>))"

definition resolve_device :: "env \<Rightarrow> resolve_device_request \<Rightarrow> resolve_device_response handler" where
  "resolve_device E payload =
     bindS (ok_or (parse_uuid E (rdev_device_uuid payload))
       (api_error BAD_REQUEST ''invalid device uuid'')) (\<lambda>device_uuid.
     bindS (run_sql (find_user_id_by_device_uuid device_uuid)) (\<lambda>found.
     bindS (ok_or found (api_error NOT_FOUND ''device not found'')) (\<lambda>user_id.
     returnS \<lparr>rdevr_user_id = user_id\<rparr>)))"

definition user_search :: "env \<Rightarrow> user_search_request \<Rightarrow> user_search_response handler" where
  "user_search E payload =
     (if trim (us_query payload) = [] then returnS \<lparr>usr_users = []\<rparr>
      else bindS (run_sql (search_users E (us_query payload))) (\<lambda>users.
        returnS \<lparr>usr_users = users\<rparr>))"

definition user_online :: "user_online_request \<Rightarrow> user_online_response handler" where
  "user_online payload =
     bindS (run_sql (find_device_uuid (uo_user_id payload) (uo_device_id payload))) (\<lambda>found.
     case found of
       None \<Rightarrow> returnS \<lparr>uor_online = False\<rparr>
     | Some device_uuid \<Rightarrow> bindS (readS (is_online device_uuid)) (\<lambda>online.
         returnS \<lparr>uor_online = online\<rparr>))"

section \<open>Blocking\<close>

definition current_user_id :: "uuid \<Rightarrow> string handler" where
  "current_user_id auth_device =
     bindS (run_sql (find_user_id_by_device_uuid auth_device)) (\<lambda>found.
     ok_or found (api_error UNAUTHORIZED ''invalid device''))"

definition validate_block_target :: "string \<Rightarrow> string \<Rightarrow> unit handler" where
  "validate_block_target blocker blocked =
     bindS (reject_if (blocked = []) (api_error BAD_REQUEST ''invalid user'')) (\<lambda>_.
     bindS (reject_if (blocker = blocked) (api_error BAD_REQUEST ''cannot block yourself'')) (\<lambda>_.
     bindS (run_sql (user_exists blocked)) (\<lambda>ex.
     reject_if (\<not> ex) (api_error NOT_FOUND ''user not found''))))"

definition block_user :: "uuid \<Rightarrow> block_user_request \<Rightarrow> block_user_response handler" where
  "block_user auth_device payload =
     bindS (current_user_id auth_device) (\<lambda>blocker.
     let blocked = trim (bu_user_id payload) in
     bindS (validate_block_target blocker blocked) (\<lambda>_.
     bindS (run_sql (insert_block blocker blocked)) (\<lambda>done.
     returnS \<lparr>bur_blocked = done\<rparr>)))"

definition unblock_user :: "uuid \<Rightarrow> unblock_user_request \<Rightarrow> unblock_user_response handler" where
  "unblock_user auth_device payload =
     bindS (current_user_id auth_device) (\<lambda>blocker.
     let target = trim (uu_user_id payload) in
     bindS (reject_if (target = []) (api_error BAD_REQUEST ''invalid user'')) (\<lambda>_.
     bindS (run_sql (delete_block blocker target)) (\<lambda>done.
     returnS \<lparr>uur_unblocked = done\<rparr>)))"

definition blocked_users :: "env \<Rightarrow> uuid \<Rightarrow> blocked_users_response handler" where
  "blocked_users E auth_device =
     bindS (current_user_id auth_device) (\<lambda>blocker.
     bindS (run_sql (list_blocked_users E blocker)) (\<lambda>users.
     returnS \<lparr>bus_users = users\<rparr>))"

section \<open>handlers/user.rs\<close>

definition h_user_register :: "env \<Rightarrow> draws \<Rightarrow> user_register_request \<Rightarrow> user_register_response handler" where
  "h_user_register E dr payload = register E dr payload"

definition h_user_login :: "env \<Rightarrow> user_login_request \<Rightarrow> user_login_response handler" where
  "h_user_login E payload s =
     (let key = ul_user_id payload; (allowed, m) = allow (clock s) key (limiter s);
          s1 = s\<lparr>limiter := m\<rparr> in
      if \<not> allowed then (Inl (api_error TOO_MANY_REQUESTS ''too many attempts''), s1)
      else case login E payload s1 of
        (Inr response, s2) \<Rightarrow> (Inr response, s2\<lparr>limiter := record_success (clock s2) key (limiter s2)\<rparr>)
      | (Inl err, s2) \<Rightarrow> (Inl err, s2\<lparr>limiter := record_failure (clock s2) key (limiter s2)\<rparr>))"

definition h_resolve_user :: "env \<Rightarrow> resolve_user_request \<Rightarrow> resolve_user_response handler" where
  "h_resolve_user E payload = resolve_user E payload"

definition h_resolve_device :: "env \<Rightarrow> resolve_device_request \<Rightarrow> resolve_device_response handler" where
  "h_resolve_device E payload = resolve_device E payload"

definition h_user_search :: "env \<Rightarrow> user_search_request \<Rightarrow> user_search_response handler" where
  "h_user_search E payload = user_search E payload"

definition h_user_online :: "user_online_request \<Rightarrow> user_online_response handler" where
  "h_user_online payload = user_online payload"

definition h_block_user :: "env \<Rightarrow> headers \<Rightarrow> block_user_request \<Rightarrow> block_user_response handler" where
  "h_block_user E h payload =
     bindS (authorize_device E h) (\<lambda>auth_device. block_user auth_device payload)"

definition h_unblock_user :: "env \<Rightarrow> headers \<Rightarrow> unblock_user_request \<Rightarrow> unblock_user_response handler" where
  "h_unblock_user E h payload =
     bindS (authorize_device E h) (\<lambda>auth_device. unblock_user auth_device payload)"

definition h_blocked_users :: "env \<Rightarrow> headers \<Rightarrow> blocked_users_response handler" where
  "h_blocked_users E h =
     bindS (authorize_device E h) (\<lambda>auth_device. blocked_users E auth_device)"

section \<open>bin/generate_invite.rs\<close>

definition generate_secret :: "env \<Rightarrow> bytes \<Rightarrow> string" where
  "generate_secret E random = b64url_encode E random"

definition hash_secret :: "env \<Rightarrow> 128 word \<Rightarrow> string \<Rightarrow> string option" where
  "hash_secret E salt secret = argon2_hash E secret salt"

text \<open>The program either fails or prints the code; \<open>random\<close> are the 32 bytes of \<open>fill_bytes\<close>.\<close>

definition generate_invite :: "env \<Rightarrow> draws \<Rightarrow> bytes \<Rightarrow> string option query" where
  "generate_invite E dr random now t =
     (let secret = generate_secret E random in
      case hash_secret E (dr 1) secret of
        None \<Rightarrow> (Inr None, t)
      | Some secret_hash \<Rightarrow>
          (case insert_invite (dr 0) secret_hash now t of
             (Inl e, t1) \<Rightarrow> (Inl e, t1)
           | (Inr _, t1) \<Rightarrow> (Inr (Some (''RSMSG:'' @ show_uuid E (dr 0) @ CHR '':'' # secret)), t1)))"

lemmas [eval_simps] = hash_password_def verify_password_def parse_invite_code_def register_def
  login_def resolve_user_def resolve_device_def user_search_def user_online_def current_user_id_def
  validate_block_target_def block_user_def unblock_user_def blocked_users_def h_user_register_def
  h_user_login_def h_resolve_user_def h_resolve_device_def h_user_search_def h_user_online_def
  h_block_user_def h_unblock_user_def h_blocked_users_def

section \<open>What the handlers may do\<close>

lemma moves_login: "moves server_step (login E p)"
  unfolding login_def by (intro server_rules)

lemma moves_h_user_login [server_moves]: "moves server_step (h_user_login E p)"
proof (rule movesI)
  fix s :: server
  obtain ok m where a: "allow (clock s) (ul_user_id p) (limiter s) = (ok, m)"
    by (cases "allow (clock s) (ul_user_id p) (limiter s)")
  obtain r s2 where l: "login E p (s\<lparr>limiter := m\<rparr>) = (r, s2)" by (cases "login E p (s\<lparr>limiter := m\<rparr>)")
  have "server_step (s\<lparr>limiter := m\<rparr>) s2" using moves_login l by (rule movesD)
  then show "server_step s (snd (h_user_login E p s))"
    by (cases r) (simp_all add: h_user_login_def Let_def a l server_step_def tables_step_refl)
qed

lemma moves_user_handlers [server_moves]:
  "moves server_step (h_user_register E dr p1)"
  "moves server_step (h_resolve_user E p2)"
  "moves server_step (h_resolve_device E p3)"
  "moves server_step (h_user_search E p4)"
  "moves server_step (h_user_online p5)"
  "moves server_step (h_block_user E h p6)"
  "moves server_step (h_unblock_user E h p7)"
  "moves server_step (h_blocked_users E h)"
  unfolding h_user_register_def register_def hash_password_def h_resolve_user_def resolve_user_def
    h_resolve_device_def resolve_device_def h_user_search_def user_search_def h_user_online_def
    user_online_def h_block_user_def block_user_def current_user_id_def validate_block_target_def
    h_unblock_user_def unblock_user_def h_blocked_users_def blocked_users_def Let_def
  by (intro server_rules server_moves)+

section \<open>Invites\<close>

lemma split_once_code: "CHR '':'' \<notin> set i \<Longrightarrow> split_once CHR '':'' (i @ CHR '':'' # secret) = Some (i, secret)"
  by (rule split_once_append)

text \<open>
  The documented form of the texts the crates print: a uuid is hexadecimal digits and hyphens,
  URL-safe base64 of a non-empty input is a non-empty word over letters, digits, \<open>-\<close>, \<open>_\<close>.  What
  the invite codes need of it: visible ASCII, and no colon in a uuid.
\<close>

definition visible :: "string \<Rightarrow> bool" where
  "visible s \<longleftrightarrow> (\<forall>c\<in>set s. 33 \<le> (of_char c :: nat) \<and> (of_char c :: nat) \<le> 126)"

definition code_laws :: "env \<Rightarrow> bool" where
  "code_laws E \<longleftrightarrow> uuid_laws E \<and>
     (\<forall>u. visible (show_uuid E u) \<and> CHR '':'' \<notin> set (show_uuid E u)) \<and>
     (\<forall>bs. bs \<noteq> [] \<longrightarrow> visible (b64url_encode E bs) \<and> b64url_encode E bs \<noteq> [])"

lemma visible_trim:
  assumes "visible s"
  shows "trim s = s"
proof (cases "s = []")
  case False
  have ws: "\<not> ws1 c" if "c \<in> set s" for c
    using assms that by (fastforce simp: visible_def ws1_def Let_def)
  show ?thesis
    using assms False ws by (intro trim_id) (fastforce simp: visible_def)+
qed simp

lemma visible_append: "visible (a @ b) \<longleftrightarrow> visible a \<and> visible b"
  by (auto simp: visible_def)

text \<open>
  Every code that \<open>generate_invite\<close> prints is read back by the server as the id of the invite
  it has stored and the secret whose hash it has stored; the invite is stored unused, under
  its id, and expires two days later.
\<close>

theorem invite_code_roundtrip:
  assumes "code_laws E" "random \<noteq> []"
    and "generate_invite E dr random now t = (Inr (Some code), t')"
  shows "\<exists>v. parse_invite_code E code = Inr \<lparr>pi_id = iv_id v, pi_secret = generate_secret E random\<rparr> \<and>
    hash_secret E (dr 1) (generate_secret E random) = Some (iv_secret_hash v) \<and>
    t_invites t' = t_invites t @ [v] \<and> iv_used_at v = None \<and> iv_expires_at v = now + days 2"
proof -
  let ?secret = "generate_secret E random"
  let ?i = "show_uuid E (dr 0)"
  have vis: "visible ?i" "visible ?secret" "?secret \<noteq> []" "CHR '':'' \<notin> set ?i"
    using assms(1,2) by (simp_all add: code_laws_def generate_secret_def)
  obtain sh where sh: "hash_secret E (dr 1) ?secret = Some sh"
    and t': "t' = t\<lparr>t_invites := t_invites t @ [\<lparr>iv_id = dr 0, iv_secret_hash = sh, iv_created_at = now,
      iv_expires_at = now + days 2, iv_used_at = None, iv_used_by_user_id = None\<rparr>]\<rparr>"
    and code: "code = ''RSMSG:'' @ ?i @ CHR '':'' # ?secret"
    using assms(3)
    by (auto simp: generate_invite_def insert_invite_def Let_def split: option.splits if_splits)
  have "visible code" using vis unfolding code
    by (auto simp: visible_def)
  then have "parse_invite_code E code = Inr \<lparr>pi_id = dr 0, pi_secret = ?secret\<rparr>"
    using vis assms(1) strip_prefix_append [of "''RSMSG:''"] split_once_code [OF vis(4), of ?secret]
    by (simp add: parse_invite_code_def visible_trim code INVITE_CODE_PREFIX_def code_laws_def uuid_laws_def)
  then show ?thesis using sh t' by (intro exI [of _ "last (t_invites t')"]) simp
qed

lemma env0_code_laws: "code_laws env0"
  by (simp add: code_laws_def visible_def)

lemma invite_code_roundtrip_witness:
  "\<exists>v. parse_invite_code env0 ''RSMSG:x:s'' = Inr \<lparr>pi_id = iv_id v, pi_secret = generate_secret env0 [7]\<rparr> \<and>
    hash_secret env0 1 (generate_secret env0 [7]) = Some (iv_secret_hash v) \<and>
    t_invites (snd (generate_invite env0 (\<lambda>_. 1) [7] 0 tables0)) = t_invites tables0 @ [v] \<and>
    iv_used_at v = None \<and> iv_expires_at v = 0 + days 2"
proof -
  have "generate_invite env0 (\<lambda>_. 1) [7] 0 tables0 =
      (Inr (Some ''RSMSG:x:s''), snd (generate_invite env0 (\<lambda>_. 1) [7] 0 tables0))"
    by (simp add: generate_invite_def generate_secret_def hash_secret_def insert_invite_def Let_def)
  from invite_code_roundtrip [OF env0_code_laws _ this] show ?thesis by simp
qed

section \<open>Registration\<close>

definition registered :: "env \<Rightarrow> string \<Rightarrow> string \<Rightarrow> parsed_invite_code \<Rightarrow> timestamp \<Rightarrow> tables \<Rightarrow> tables" where
  "registered E name h ic now t =
     t\<lparr>t_users := t_users t @ [\<lparr>ur_id = Suc (t_users_seq t), ur_user_id = name,
         ur_password_hash = h, ur_created_at = now\<rparr>],
       t_users_seq := Suc (t_users_seq t),
       t_invites := update_where (\<lambda>v. iv_id v = pi_id ic \<and> iv_used_at v = None)
         (\<lambda>v. v\<lparr>iv_used_at := Some now, iv_used_by_user_id := Some (Suc (t_users_seq t))\<rparr>)
         (t_invites t)\<rparr>"

definition good_invite :: "env \<Rightarrow> parsed_invite_code \<Rightarrow> timestamp \<Rightarrow> tables \<Rightarrow> bool" where
  "good_invite E ic now t \<longleftrightarrow> (\<exists>v. find (\<lambda>v. iv_id v = pi_id ic) (t_invites t) = Some v \<and>
     iv_used_at v = None \<and> now < iv_expires_at v \<and> verify_password E (pi_secret ic) (iv_secret_hash v))"

lemma run_sql_Inr_frame:
  assumes "run_sql q s = (Inr x, s')"
  shows "q (clock s) (tables s) = (Inr x, tables s')" "clock s' = clock s"
  using assms by (auto simp: run_sql_Inr dest: db_ok_frame)

lemma register_Inr:
  assumes "register E dr p s = (Inr r, s')"
  obtains ic h where "parse_invite_code E (ureg_invite_code p) = Inr ic"
    "argon2_hash E (ureg_password p) (dr 0) = Some h"
    "trim (ureg_user_id p) \<noteq> []" "6 \<le> length (ureg_password p)"
    "good_invite E ic (clock s) (tables s)"
    "ureg_user_id p \<notin> user_names (t_users (tables s))"
    "tables s' = registered E (ureg_user_id p) h ic (clock s) (tables s)" "clock s' = clock s"
proof -
  from assms obtain ic h s1 s2 s3 s4 st uid where
    pre: "parse_invite_code E (ureg_invite_code p) = Inr ic"
      "argon2_hash E (ureg_password p) (dr 0) = Some h"
      "trim (ureg_user_id p) \<noteq> []" "6 \<le> length (ureg_password p)" and
    tx: "db_ok s = (True, s1)" "db_ok s4 = (True, s')" and
    f: "run_sql (find_invite (pi_id ic)) s1 = (Inr (Some st), s2)" and
    st: "\<not> ri_used_at_exists st" "\<not> ri_expired st" "verify_password E (pi_secret ic) (ri_secret_hash st)" and
    c: "run_sql (create_user_tx (ureg_user_id p) h) s2 = (Inr (Some uid), s3)" and
    m: "run_sql (mark_used (pi_id ic) uid) s3 = (Inr (), s4)"
    unfolding register_def hash_password_def bindS_Inr_iff ok_or_Inr_iff reject_if_Inr_iff
      lift_result_Inr_iff transaction_Inr by auto
  note fr = db_ok_frame(1,2) [OF tx(1)] db_ok_frame(1,2) [OF tx(2)]
  note q = run_sql_Inr_frame [OF f] run_sql_Inr_frame [OF c] run_sql_Inr_frame [OF m]
  have t2: "tables s2 = tables s" "clock s2 = clock s"
    using q(1,2) fr by (simp_all add: find_invite_def)
  have "good_invite E ic (clock s) (tables s)"
    using q(1) fr st by (auto simp: find_invite_def good_invite_def)
  moreover have new: "ureg_user_id p \<notin> user_names (t_users (tables s))" and
    uid: "uid = Suc (t_users_seq (tables s))"
    using q(3) t2 by (auto simp: create_user_tx_def Let_def split: if_splits)
  moreover have "tables s' = registered E (ureg_user_id p) h ic (clock s) (tables s)"
  proof -
    have "tables s3 = (tables s)\<lparr>t_users := t_users (tables s) @ [\<lparr>ur_id = uid, ur_user_id = ureg_user_id p,
        ur_password_hash = h, ur_created_at = clock s\<rparr>], t_users_seq := uid\<rparr>"
      using q(3) t2 new uid by (cases "tables s") (auto simp: create_user_tx_def Let_def split: if_splits)
    then show ?thesis
      using q(4,5) fr t2 uid
      by (simp add: mark_used_def registered_def split: if_splits)
  qed
  moreover have "clock s' = clock s" using q fr t2 by simp
  ultimately show ?thesis using that pre by blast
qed

lemma register_Inl:
  assumes "register E dr p s = (Inl e, s')"
  shows "\<exists>t. tables s' = rollback_to (tables s) t"
proof -
  have same: "\<exists>t'. t = rollback_to t t'" for t
    by (rule exI [of _ t]) (simp add: rollback_to_def)
  show ?thesis
    using assms transaction_Inl_tables same
    by (auto simp: register_def hash_password_def bindS_apply reject_if_def ok_or_def
        split: if_splits sum.splits option.splits prod.splits)
qed

text \<open>
  C11.  Registration is all or nothing.  It succeeds only with a well-formed code of a stored
  invite that is unused and not expired and whose secret hash accepts the code's secret, a
  password of at least six bytes that is stored hashed, and a user name that is not blank and
  not taken; then the user is added and the invite is marked as used by him, and nothing else
  changes.  On every error, including a failing commit, no row of any table changes.
\<close>

theorem register_all_or_nothing:
  "case h_user_register E dr p s of
     (Inl e, s') \<Rightarrow> (\<exists>t. tables s' = rollback_to (tables s) t)
   | (Inr r, s') \<Rightarrow> \<exists>ic h. parse_invite_code E (ureg_invite_code p) = Inr ic \<and>
       good_invite E ic (clock s) (tables s) \<and> argon2_hash E (ureg_password p) (dr 0) = Some h \<and>
       6 \<le> length (ureg_password p) \<and> trim (ureg_user_id p) \<noteq> [] \<and>
       ureg_user_id p \<notin> user_names (t_users (tables s)) \<and>
       tables s' = registered E (ureg_user_id p) h ic (clock s) (tables s)"
proof (cases "h_user_register E dr p s")
  case (Pair r s')
  show ?thesis
  proof (cases r)
    case (Inl e)
    then show ?thesis using Pair register_Inl by (simp add: h_user_register_def)
  next
    case (Inr x)
    then have "register E dr p s = (Inr x, s')" using Pair by (simp add: h_user_register_def)
    then show ?thesis unfolding Pair Inr by (rule register_Inr) auto
  qed
qed

lemma invite_later:
  assumes "tables_wf t" "tables_step t t'" "v \<in> set (t_invites t)" "iv_used_at v \<noteq> None"
  shows "\<not> good_invite E ic now t' \<or> pi_id ic \<noteq> iv_id v"
proof (rule ccontr)
  assume neg: "\<not> (\<not> good_invite E ic now t' \<or> pi_id ic \<noteq> iv_id v)"
  then obtain v' where v': "v' \<in> set (t_invites t')" "iv_id v' = iv_id v" "iv_used_at v' = None"
    by (auto simp: good_invite_def dest: find_SomeD)
  have g: "grows invite_le (t_invites t) (t_invites t')" and d: "distinct (map iv_id (t_invites t'))"
    using assms(1,2) by (simp_all add: tables_step_def tables_grow_def tables_wf_def invites_wf_def)
  have key: "iv_id y = iv_id x" if "invite_le x y" for x y
    using that by (cases x; cases y) (simp add: invite_le_def)
  have "invite_le v v'"
    by (rule grows_same_key [where key = iv_id, OF g d key assms(3) v'(1) v'(2)])
  then show False using assms(4) v'(3) by (simp add: invite_le_def)
qed

text \<open>
  C12.  An invite admits one user, once: after a registration with some invite code has
  succeeded, no registration with a code of the same invite succeeds in any later state of the
  server, whoever asks, whatever happened in between.
\<close>

theorem invite_single_use:
  assumes "tables_wf (tables s)"
    and "h_user_register E dr p s = (Inr r, s1)"
    and "server_step s1 s2"
    and "parse_invite_code E (ureg_invite_code p) = Inr ic"
    and "parse_invite_code E (ureg_invite_code p') = Inr ic'" "pi_id ic' = pi_id ic"
  shows "h_user_register E dr' p' s2 \<noteq> (Inr r', s3)"
proof
  assume again: "h_user_register E dr' p' s2 = (Inr r', s3)"
  obtain h where good: "good_invite E ic (clock s) (tables s)" and
    t1: "tables s1 = registered E (ureg_user_id p) h ic (clock s) (tables s)"
    using assms(2,4) unfolding h_user_register_def by (auto elim!: register_Inr)
  have wf: "tables_wf (tables s1)"
    using movesD [OF moves_user_handlers(1) assms(2)] assms(1)
    by (simp add: server_step_def tables_step_def)
  obtain v where "v \<in> set (t_invites (tables s))" "iv_id v = pi_id ic" "iv_used_at v = None"
    using good by (auto simp: good_invite_def dest: find_SomeD)
  then have "\<exists>v\<in>set (t_invites (tables s1)). iv_id v = pi_id ic \<and> iv_used_at v \<noteq> None"
    unfolding t1 by (auto simp: registered_def)
  then obtain v where v: "v \<in> set (t_invites (tables s1))" "iv_id v = pi_id ic" "iv_used_at v \<noteq> None"
    by blast
  have "good_invite E ic' (clock s2) (tables s2)"
    using again assms(5) unfolding h_user_register_def by (auto elim!: register_Inr)
  moreover have "tables_step (tables s1) (tables s2)" using assms(3) by (simp add: server_step_def)
  ultimately show False using invite_later [OF wf _ v(1,3)] v(2) assms(6) by metis
qed

definition invited0 :: server where
  "invited0 = server0\<lparr>tables := tables0\<lparr>t_invites := [\<lparr>iv_id = 1, iv_secret_hash = ''s'',
     iv_created_at = 0, iv_expires_at = 9, iv_used_at = None, iv_used_by_user_id = None\<rparr>]\<rparr>\<rparr>"

lemma invite_single_use_witness:
  "\<forall>r' s3. h_user_register env0 (\<lambda>_. 2) \<lparr>ureg_user_id = ''eve'', ureg_password = ''123456'', ureg_invite_code = ''RSMSG:x:s''\<rparr>
     (snd (h_user_register env0 (\<lambda>_. 1) \<lparr>ureg_user_id = ''dan'', ureg_password = ''123456'',
        ureg_invite_code = ''RSMSG:x:s''\<rparr> invited0)) \<noteq> (Inr r', s3)"
proof -
  let ?p = "\<lambda>u. \<lparr>ureg_user_id = u, ureg_password = ''123456'', ureg_invite_code = ''RSMSG:x:s''\<rparr>"
  have trim: "trim ''RSMSG:x:s'' = ''RSMSG:x:s''" "trim ''s'' = ''s''" "trim ''dan'' = ''dan''"
    by (rule visible_trim, simp add: visible_def)+
  have parse: "parse_invite_code env0 (ureg_invite_code (?p u)) = Inr \<lparr>pi_id = 1, pi_secret = ''s''\<rparr>" for u
    by (simp add: parse_invite_code_def trim INVITE_CODE_PREFIX_def strip_prefix_def)
  have first: "h_user_register env0 (\<lambda>_. 1) (?p ''dan'') invited0 =
      (Inr \<lparr>uregr_created = True\<rparr>, snd (h_user_register env0 (\<lambda>_. 1) (?p ''dan'') invited0))"
    using parse by (simp add: h_user_register_def register_def trim hash_password_def verify_password_def
        bindS_apply run_sql_def transaction_def db_ok_no_faults find_invite_def create_user_tx_def
        mark_used_def invited0_def user_db_ids_def user_names_def Let_def)
  have "tables_wf (tables invited0)"
    using tables0_wf by (simp add: invited0_def tables_wf_def invites_wf_def)
  from invite_single_use [OF this first srv.step_refl parse parse] show ?thesis by (intro allI) simp
qed

section \<open>Login attempts\<close>

fun login_run :: "env \<Rightarrow> (timestamp \<times> user_login_request) list \<Rightarrow> server \<Rightarrow>
    (api_error + user_login_response) list \<times> server" where
  "login_run E [] s = ([], s)"
| "login_run E ((now, p) # as) s =
     (let (r, s1) = h_user_login E p (s\<lparr>clock := now\<rparr>); (rs, s2) = login_run E as s1 in (r # rs, s2))"

lemma quiet_login: "moves quiet (login E p)"
  unfolding login_def by (intro qt.moves_rules quiet_read) (simp_all add: get_password_hash_def)

text \<open>Towards the limiter, a login request is an attempt of the contract \<open>throttle\<close>.\<close>

lemma h_user_login_attempt:
  assumes "h_user_login E p s = (r, s')"
  shows "limiter s' = snd (lim.attempt (clock s, ul_user_id p, \<not> isl r) (limiter s))"
    and "\<not> fst (allow (clock s) (ul_user_id p) (limiter s)) \<longleftrightarrow>
      r = Inl (api_error TOO_MANY_REQUESTS ''too many attempts'')"
    and "tables s' = tables s"
proof -
  obtain ok m where a: "allow (clock s) (ul_user_id p) (limiter s) = (ok, m)"
    by (cases "allow (clock s) (ul_user_id p) (limiter s)")
  obtain r1 s2 where l: "login E p (s\<lparr>limiter := m\<rparr>) = (r1, s2)" by (cases "login E p (s\<lparr>limiter := m\<rparr>)")
  have fr: "limiter s2 = m" "clock s2 = clock s" "tables s2 = tables s"
    using movesD [OF quiet_login l] by (simp_all add: quiet_def)
  have "r1 \<noteq> Inl (api_error TOO_MANY_REQUESTS ''too many attempts'')"
    using l by (auto simp: login_def bindS_apply run_sql_def get_password_hash_def ok_or_def
        reject_if_def api_error_def api_error_database_def Let_def
        split: prod.splits option.splits if_splits)
  then show "\<not> fst (allow (clock s) (ul_user_id p) (limiter s)) \<longleftrightarrow>
      r = Inl (api_error TOO_MANY_REQUESTS ''too many attempts'')"
    using assms a l by (auto simp: h_user_login_def Let_def split: sum.splits)
  show "limiter s' = snd (lim.attempt (clock s, ul_user_id p, \<not> isl r) (limiter s))"
    using assms a l fr by (auto simp: h_user_login_def lim.attempt_def Let_def split: sum.splits if_splits)
  show "tables s' = tables s"
    using assms a l fr by (auto simp: h_user_login_def Let_def split: sum.splits if_splits)
qed

lemma login_run_attempts:
  "\<exists>as'. limiter (snd (login_run E as s)) = lim.attempts as' (limiter s) \<and>
     map (\<lambda>a. (fst a, fst (snd a))) as' = map (\<lambda>a. (fst a, ul_user_id (snd a))) as"
proof (induction as arbitrary: s)
  case Nil
  then show ?case by (intro exI [of _ "[]"]) simp
next
  case (Cons a as)
  obtain now p where a: "a = (now, p)" by (cases a)
  obtain r s1 where h: "h_user_login E p (s\<lparr>clock := now\<rparr>) = (r, s1)"
    by (cases "h_user_login E p (s\<lparr>clock := now\<rparr>)")
  from Cons.IH [of s1] obtain as' where as': "limiter (snd (login_run E as s1)) = lim.attempts as' (limiter s1)"
    "map (\<lambda>a. (fst a, fst (snd a))) as' = map (\<lambda>a. (fst a, ul_user_id (snd a))) as" by blast
  show ?case
    using as' h_user_login_attempt(1) [OF h]
    by (intro exI [of _ "(now, ul_user_id p, \<not> isl r) # as'"], cases "login_run E as s1")
      (simp add: a h)
qed

text \<open>The attempts of one user in a run, and what each was answered.\<close>

abbreviation guesses_of :: "string \<Rightarrow> (timestamp \<times> user_login_request) list \<Rightarrow> (timestamp \<times> user_login_request) list" where
  "guesses_of u as \<equiv> filter (\<lambda>a. ul_user_id (snd a) = u) as"

definition all_fail :: "env \<Rightarrow> string \<Rightarrow> (timestamp \<times> user_login_request) list \<Rightarrow> server \<Rightarrow> bool" where
  "all_fail E u as s \<longleftrightarrow>
     (\<forall>(a, r)\<in>set (zip as (fst (login_run E as s))). ul_user_id (snd a) = u \<longrightarrow> isl r)"

lemma login_run_split:
  assumes "h_user_login E p (s\<lparr>clock := now\<rparr>) = (r, s1)"
  shows "snd (login_run E ((now, p) # as) s) = snd (login_run E as s1)"
    and "all_fail E u ((now, p) # as) s \<longleftrightarrow> (ul_user_id p = u \<longrightarrow> isl r) \<and> all_fail E u as s1"
  using assms by (auto simp: all_fail_def split: prod.splits)

lemma attempt_other: "k \<noteq> u \<Longrightarrow> snd (lim.attempt (now, k, good) m) u = m u"
  by (auto simp: lim.attempt_def allow_def record_failure_def record_success_def Let_def
      split: option.splits)

lemma h_user_login_other:
  assumes "h_user_login E p s = (r, s')" "ul_user_id p \<noteq> u"
  shows "limiter s' u = limiter s u"
  using h_user_login_attempt(1) [OF assms(1)] attempt_other [OF assms(2)] by simp

lemma lock_survives:
  assumes "locked_until (limiter s) u = Some b" "\<forall>a\<in>set (guesses_of u as). fst a < b"
  shows "locked_until (limiter (snd (login_run E as s))) u = Some b"
proof -
  obtain as' where as': "limiter (snd (login_run E as s)) = lim.attempts as' (limiter s)"
    "map (\<lambda>a. (fst a, fst (snd a))) as' = map (\<lambda>a. (fst a, ul_user_id (snd a))) as"
    using login_run_attempts by blast
  have "\<forall>a\<in>set as'. fst (snd a) = u \<longrightarrow> fst a < b"
  proof
    fix a assume "a \<in> set as'"
    then have "(fst a, fst (snd a)) \<in> set (map (\<lambda>a. (fst a, ul_user_id (snd a))) as)"
      unfolding as'(2) [symmetric] by force
    then obtain x where "x \<in> set as" "fst a = fst x" "fst (snd a) = ul_user_id (snd x)" by auto
    then show "fst (snd a) = u \<longrightarrow> fst a < b"
      using assms(2) by (cases x) auto
  qed
  then show ?thesis unfolding as'(1) using lim.attempts_locked [OF assms(1)] by blast
qed

text \<open>
  From the window an attempt falls in, the failure that makes eight locks the user; attempts of
  other users in between do not matter.
\<close>

lemma eighth_failure_locks:
  assumes "guesses_of u as \<noteq> []" "window_of (fst (hd (guesses_of u as))) u (limiter s) = (n, w)"
    and "\<forall>b. locked_until (limiter s) u = Some b \<longrightarrow> b \<le> fst (hd (guesses_of u as))"
    and "n + length (guesses_of u as) = 8" "\<forall>a\<in>set (guesses_of u as). fst a - w \<le> seconds 60"
    and "all_fail E u as s"
  shows "locked_until (limiter (snd (login_run E as s))) u =
    Some (fst (last (guesses_of u as)) + seconds 300)"
  using assms
proof (induction as arbitrary: s n)
  case (Cons a as)
  obtain now p where a: "a = (now, p)" by (cases a)
  obtain r s1 where h: "h_user_login E p (s\<lparr>clock := now\<rparr>) = (r, s1)"
    by (cases "h_user_login E p (s\<lparr>clock := now\<rparr>)")
  note split = login_run_split [OF h]
  show ?case
  proof (cases "ul_user_id p = u")
    case False
    have "limiter s1 u = limiter s u" using h_user_login_other [OF h False] by simp
    then have "window_of t u (limiter s1) = window_of t u (limiter s)"
      "locked_until (limiter s1) u = locked_until (limiter s) u" for t
      by (simp_all add: window_of_def locked_until_def)
    then show ?thesis using Cons.IH [of s1 n] Cons.prems False split a by simp
  next
    case True
    let ?gs = "guesses_of u as"
    have n: "n < 8" and in60: "now - w \<le> seconds 60" using Cons.prems(4,5) True a by auto
    have win: "window_of now u (limiter s) = (n, w)" and
      free: "\<forall>b. locked_until (limiter s) u = Some b \<longrightarrow> b \<le> now"
      using Cons.prems(2,3) True a by simp_all
    note c = allow_window [OF win n free]
    have fails: "isl r" "all_fail E u as s1" using Cons.prems(6) split(2) True a by simp_all
    have lim1: "limiter s1 = record_failure now u (snd (allow now u (limiter s)))"
      using h_user_login_attempt(1) [OF h] c(1) True fails(1) by (simp add: lim.attempt_def split: prod.splits)
    show ?thesis
    proof (cases "?gs = []")
      case True': True
      then have "n = 7" using Cons.prems(4) True a by simp
      then have "locked_until (limiter s1) u = Some (now + seconds 300)"
        using counting_record(2) [OF c(2) in60] lim1 by simp
      then have "locked_until (limiter (snd (login_run E as s1))) u = Some (now + seconds 300)"
        using True' by (intro lock_survives) simp_all
      then show ?thesis using True True' split a by simp
    next
      case False
      then have "n < 7" using Cons.prems(4) True a by (cases ?gs) simp_all
      then have count: "counting (limiter s1) u (Suc n) w" using counting_record(1) [OF c(2) in60] lim1 by simp
      have "fst (hd ?gs) - w \<le> seconds 60"
        by (rule bspec [OF Cons.prems(5)]) (use hd_in_set [OF False] True a in simp)
      then have "window_of (fst (hd ?gs)) u (limiter s1) = (Suc n, w)" "locked_until (limiter s1) u = None"
        using count by (auto simp: window_of_def counting_def locked_until_def unsigned_of_nat take_bit_nat_eq_self
            simp del: of_nat_Suc)
      then show ?thesis
        using Cons.IH [of s1 "Suc n"] Cons.prems(4,5) True False fails(2) split a by simp
    qed
  qed
qed simp

text \<open>
  C13.  Password guessing is throttled, window by window.  The limiter counts a user's failures
  in fixed windows of 60 seconds, which do not slide.  Take any run of login requests, of any
  users, that starts while \<open>u\<close> is not locked out, and in which every request for \<open>u\<close> fails.
  When the first of them falls into a window that started at \<open>w\<close> and has counted \<open>n\<close> failures
  (a new window, with \<open>n = 0\<close>, if there is no record of \<open>u\<close>, the last window is over or a lock
  has ended), all of them come within 60 seconds of \<open>w\<close>, and the last one makes eight, then
  for 300 seconds after it every further login for \<open>u\<close> is answered 429, with the right password
  too, whatever logins for \<open>u\<close> or others are tried in the meantime.
\<close>

theorem brute_force_lockout:
  assumes "guesses_of u as \<noteq> []" "window_of (fst (hd (guesses_of u as))) u (limiter s) = (n, w)"
    and "\<forall>b. locked_until (limiter s) u = Some b \<longrightarrow> b \<le> fst (hd (guesses_of u as))"
    and "n + length (guesses_of u as) = 8" "\<forall>a\<in>set (guesses_of u as). fst a - w \<le> seconds 60"
    and "\<forall>(a, r)\<in>set (zip as (fst (login_run E as s))). ul_user_id (snd a) = u \<longrightarrow> isl r"
    and "\<forall>a\<in>set (guesses_of u further). fst a < fst (last (guesses_of u as)) + seconds 300"
    and "now < fst (last (guesses_of u as)) + seconds 300" "ul_user_id p = u"
  shows "fst (h_user_login E p ((snd (login_run E further (snd (login_run E as s))))\<lparr>clock := now\<rparr>)) =
    Inl (api_error TOO_MANY_REQUESTS ''too many attempts'')"
proof -
  let ?s2 = "snd (login_run E further (snd (login_run E as s)))"
  have "locked_until (limiter ?s2) u = Some (fst (last (guesses_of u as)) + seconds 300)"
    using assms(1-7) by (intro lock_survives eighth_failure_locks) (simp_all add: all_fail_def)
  then have "\<not> fst (allow now u (limiter ?s2))"
    using assms(8) lim.check_iff [of now u "limiter ?s2"] by auto
  moreover obtain r s3 where final: "h_user_login E p (?s2\<lparr>clock := now\<rparr>) = (r, s3)"
    by (cases "h_user_login E p (?s2\<lparr>clock := now\<rparr>)")
  ultimately show ?thesis using h_user_login_attempt(2) [OF final] assms(9) by simp
qed

lemma wrong_guess:
  assumes "tables s = tables0" "faults s = []"
  shows "isl (fst (h_user_login env0 \<lparr>ul_user_id = ''ann'', ul_password = ''guess''\<rparr> s))"
    and "tables (snd (h_user_login env0 \<lparr>ul_user_id = ''ann'', ul_password = ''guess''\<rparr> s)) = tables0"
    and "faults (snd (h_user_login env0 \<lparr>ul_user_id = ''ann'', ul_password = ''guess''\<rparr> s)) = []"
  using assms
  by (simp_all add: h_user_login_def login_def bindS_apply run_sql_no_faults get_password_hash_def
      verify_password_def Let_def split: prod.splits)

lemma wrong_guesses:
  assumes "tables s = tables0" "faults s = []"
  shows "\<forall>r\<in>set (fst (login_run env0
    (map (\<lambda>t. (t, \<lparr>ul_user_id = ''ann'', ul_password = ''guess''\<rparr>)) ts) s)). isl r"
  using assms
proof (induction ts arbitrary: s)
  case (Cons t ts)
  let ?p = "\<lparr>ul_user_id = ''ann'', ul_password = ''guess''\<rparr>"
  obtain r s1 where h: "h_user_login env0 ?p (s\<lparr>clock := t\<rparr>) = (r, s1)"
    by (cases "h_user_login env0 ?p (s\<lparr>clock := t\<rparr>)")
  have "isl r" "tables s1 = tables0" "faults s1 = []"
    using wrong_guess [of "s\<lparr>clock := t\<rparr>"] Cons.prems h by simp_all
  with Cons.IH [of s1] show ?case using h by (simp split: prod.splits)
qed simp

text \<open>Three failures are counted since 10 seconds; five more, the last at 50, lock Ann out.\<close>

lemma brute_force_lockout_witness:
  "fst (h_user_login env0 \<lparr>ul_user_id = ''ann'', ul_password = ''secret''\<rparr>
     ((snd (login_run env0 [] (snd (login_run env0
        (map (\<lambda>t. (t, \<lparr>ul_user_id = ''ann'', ul_password = ''guess''\<rparr>)) (map seconds [20, 30, 40, 50, 50]))
        (server0\<lparr>limiter := [''ann'' \<mapsto> \<lparr>le_attempts = 3, le_window_started = seconds 10,
           le_blocked_until = None\<rparr>]\<rparr>)))))\<lparr>clock := seconds 349\<rparr>)) =
   Inl (api_error TOO_MANY_REQUESTS ''too many attempts'')"
proof (rule brute_force_lockout [where u = "''ann''" and n = 3 and w = "seconds 10"])
  let ?as = "map (\<lambda>t. (t, \<lparr>ul_user_id = ''ann'', ul_password = ''guess''\<rparr>)) (map seconds [20, 30, 40, 50, 50])"
  let ?s = "server0\<lparr>limiter := [''ann'' \<mapsto> \<lparr>le_attempts = 3, le_window_started = seconds 10, le_blocked_until = None\<rparr>]\<rparr>"
  have "\<forall>r\<in>set (fst (login_run env0 ?as ?s)). isl r" by (rule wrong_guesses) simp_all
  then show "\<forall>(a, r)\<in>set (zip ?as (fst (login_run env0 ?as ?s))). ul_user_id (snd a) = ''ann'' \<longrightarrow> isl r"
    by (auto dest: set_zip_rightD)
qed (simp_all add: window_of_def locked_until_def seconds_def)

end
