(* ===== verification/Messaging.thy ===== *)
theory Messaging
  imports Users
begin

text \<open>
  \<open>services/messages.rs\<close>, \<open>domain/messaging.rs\<close> and \<open>handlers/messaging.rs\<close>.  The lemmas
  relate the endpoints to the interpretations \<open>mbox\<close> of \<open>mailbox\<close> and \<open>blk\<close> of \<open>block_policy\<close>.
\<close>

section \<open>services/messages.rs\<close>

fun mark_all :: "pending_row list \<Rightarrow> unit handler" where
  "mark_all [] = returnS ()"
| "mark_all (row # rows) = bindS (run_sql (mark_delivered (fst row))) (\<lambda>_. mark_all rows)"

definition pending_item :: "env \<Rightarrow> pending_row \<Rightarrow> pending_message_item" where
  "pending_item E row = (case row of (_, message_id, from_device_uuid, envelope_bytes, created_at_unix_ms) \<Rightarrow>
     \<lparr>pm_message_id = message_id, pm_from_device_uuid = show_uuid E from_device_uuid,
      pm_envelope_b64 = b64_encode E envelope_bytes, pm_created_at_unix_ms = created_at_unix_ms\<rparr>)"

definition drain_pending_messages :: "env \<Rightarrow> uuid \<Rightarrow> int \<Rightarrow> pending_message_item list handler" where
  "drain_pending_messages E to_device limit =
     bindS (transaction (
       bindS (run_sql (fetch_pending_locked to_device limit)) (\<lambda>rows.
       bindS (mark_all rows) (\<lambda>_. returnS rows)))) (\<lambda>rows.
     returnS (map (pending_item E) rows))"

section \<open>domain/messaging.rs\<close>

definition fetch_prekey_bundle :: "env \<Rightarrow> fetch_prekey_bundle_request \<Rightarrow> fetch_prekey_bundle_response handler" where
  "fetch_prekey_bundle E payload =
     bindS (transaction (
       bindS (run_sql (find_device_bundle (fb_user_id payload) (fb_device_id payload))) (\<lambda>found.
       bindS (ok_or found (api_error NOT_FOUND ''device not found'')) (\<lambda>device.
       bindS (run_sql (consume_one_time_prekey (fst device))) (\<lambda>one_time.
       returnS (device, one_time)))))) (\<lambda>((u, identity_key, signing, signed_prekey, sig), one_time).
     returnS \<lparr>pb_device_uuid = show_uuid E u,
       pb_identity_key_b64 = b64_encode E identity_key,
       pb_signing_identity_key_b64 = b64_encode E signing,
       pb_signed_prekey_b64 = b64_encode E signed_prekey,
       pb_signed_prekey_signature_b64 = b64_encode E sig,
       pb_one_time_prekey = map_option
         (\<lambda>(key_id, pubkey). \<lparr>pu_key_id = key_id, pu_pubkey_b64 = b64_encode E pubkey\<rparr>) one_time\<rparr>)"

definition block_gate :: "string \<Rightarrow> string \<Rightarrow> unit handler" where
  "block_gate from_user to_user =
     bindS (run_sql (block_direction from_user to_user)) (\<lambda>dir.
     case dir of
       None \<Rightarrow> returnS ()
     | Some blocker \<Rightarrow>
         if blocker = to_user then failS (api_error FORBIDDEN ''recipient blocked you'')
         else failS (api_error FORBIDDEN ''you blocked recipient''))"

definition send_message :: "env \<Rightarrow> draws \<Rightarrow> uuid \<Rightarrow> send_message_request \<Rightarrow> send_message_response handler" where
  "send_message E dr auth_device payload =
     bindS (ok_or (parse_uuid E (sm_from_device_uuid payload))
       (api_error BAD_REQUEST ''invalid from device'')) (\<lambda>from_device.
     bindS (ok_or (parse_uuid E (sm_to_device_uuid payload))
       (api_error BAD_REQUEST ''invalid to device'')) (\<lambda>to_device.
     bindS (ok_or (b64_decode E (sm_envelope_b64 payload))
       (api_error BAD_REQUEST ''invalid envelope'')) (\<lambda>envelope.
     bindS (reject_if (auth_device \<noteq> from_device) (api_error FORBIDDEN ''device mismatch'')) (\<lambda>_.
     bindS (run_sql (device_exists to_device)) (\<lambda>recipient_exists.
     bindS (reject_if (\<not> recipient_exists) (api_error NOT_FOUND ''recipient device not found'')) (\<lambda>_.
     bindS (run_sql (find_user_id_by_device_uuid from_device)) (\<lambda>from_found.
     bindS (ok_or from_found (api_error FORBIDDEN ''device mismatch'')) (\<lambda>from_user.
     bindS (run_sql (find_user_id_by_device_uuid to_device)) (\<lambda>to_found.
     bindS (ok_or to_found (api_error NOT_FOUND ''recipient device not found'')) (\<lambda>to_user.
     bindS (block_gate from_user to_user) (\<lambda>_.
     bindS (run_sql (insert_message (dr 0) (sm_message_id payload) from_device to_device envelope)) (\<lambda>rows.
     returnS \<lparr>smr_accepted = (rows = 1)\<rparr>))))))))))))"

definition fetch_pending :: "env \<Rightarrow> uuid \<Rightarrow> fetch_pending_request \<Rightarrow> fetch_pending_response handler" where
  "fetch_pending E auth_device payload =
     bindS (ok_or (parse_uuid E (fp_device_uuid payload))
       (api_error BAD_REQUEST ''invalid device uuid'')) (\<lambda>to_device.
     bindS (reject_if (auth_device \<noteq> to_device) (api_error FORBIDDEN ''device mismatch'')) (\<lambda>_.
     bindS (drain_pending_messages E to_device
       (clamp 1 500 (case fp_limit payload of Some n \<Rightarrow> n | None \<Rightarrow> 100))) (\<lambda>messages.
     returnS \<lparr>fpr_messages = messages\<rparr>)))"

definition ack_message :: "env \<Rightarrow> uuid \<Rightarrow> ack_message_request \<Rightarrow> ack_message_response handler" where
  "ack_message E auth_device payload =
     bindS (ok_or (parse_uuid E (am_device_uuid payload))
       (api_error BAD_REQUEST ''invalid device uuid'')) (\<lambda>device_uuid.
     bindS (reject_if (auth_device \<noteq> device_uuid) (api_error FORBIDDEN ''device mismatch'')) (\<lambda>_.
     if am_message_ids payload = [] then returnS \<lparr>amr_acked = 0\<rparr>
     else bindS (run_sql (ack_messages device_uuid (am_message_ids payload))) (\<lambda>acked.
       returnS \<lparr>amr_acked = acked\<rparr>)))"

definition message_status :: "uuid \<Rightarrow> message_status_request \<Rightarrow> message_status_response handler" where
  "message_status auth_device payload =
     (if ms_message_ids payload = [] then returnS \<lparr>msr_messages = []\<rparr>
      else bindS (run_sql (fetch_statuses auth_device (ms_message_ids payload))) (\<lambda>rows.
        returnS \<lparr>msr_messages = map (\<lambda>(message_id, delivered, read).
          \<lparr>msi_message_id = message_id, msi_delivered = delivered, msi_read = read\<rparr>) rows\<rparr>))"

section \<open>handlers/messaging.rs\<close>

definition h_fetch_prekey_bundle :: "env \<Rightarrow> fetch_prekey_bundle_request \<Rightarrow> fetch_prekey_bundle_response handler" where
  "h_fetch_prekey_bundle E payload = fetch_prekey_bundle E payload"

definition h_send_message :: "env \<Rightarrow> draws \<Rightarrow> headers \<Rightarrow> send_message_request \<Rightarrow> send_message_response handler" where
  "h_send_message E dr h payload =
     bindS (authorize_device E h) (\<lambda>auth_device. send_message E dr auth_device payload)"

definition h_fetch_pending :: "env \<Rightarrow> headers \<Rightarrow> fetch_pending_request \<Rightarrow> fetch_pending_response handler" where
  "h_fetch_pending E h payload =
     bindS (authorize_device E h) (\<lambda>auth_device. fetch_pending E auth_device payload)"

definition h_ack_message :: "env \<Rightarrow> headers \<Rightarrow> ack_message_request \<Rightarrow> ack_message_response handler" where
  "h_ack_message E h payload =
     bindS (authorize_device E h) (\<lambda>auth_device. ack_message E auth_device payload)"

definition h_message_status :: "env \<Rightarrow> headers \<Rightarrow> message_status_request \<Rightarrow> message_status_response handler" where
  "h_message_status E h payload =
     bindS (authorize_device E h) (\<lambda>auth_device. message_status auth_device payload)"

lemmas [eval_simps] = drain_pending_messages_def pending_item_def fetch_prekey_bundle_def
  block_gate_def send_message_def fetch_pending_def ack_message_def message_status_def
  h_fetch_prekey_bundle_def h_send_message_def h_fetch_pending_def h_ack_message_def
  h_message_status_def

lemma moves_mark_all [server_moves]: "moves server_step (mark_all rows)"
  by (induction rows) (simp_all only: mark_all.simps, (intro server_rules | assumption)+)

lemma moves_block_gate [server_moves]: "moves server_step (block_gate a b)"
  unfolding block_gate_def by (intro server_rules)

lemma moves_drain [server_moves]: "moves server_step (drain_pending_messages E d n)"
  unfolding drain_pending_messages_def by (intro server_rules server_moves)

lemma moves_messaging_handlers [server_moves]:
  "moves server_step (h_send_message E dr h p1)"
  "moves server_step (h_fetch_pending E h p2)"
  "moves server_step (h_ack_message E h p3)"
  "moves server_step (h_message_status E h p4)"
  unfolding h_send_message_def send_message_def h_fetch_pending_def fetch_pending_def
    h_ack_message_def ack_message_def h_message_status_def message_status_def
  by (intro server_rules server_moves)+

lemma moves_h_fetch_prekey_bundle [server_moves]: "moves server_step (h_fetch_prekey_bundle E p)"
  unfolding h_fetch_prekey_bundle_def fetch_prekey_bundle_def
  by (intro server_rules) (auto split: prod.splits intro!: server_rules)

section \<open>Sending\<close>

text \<open>Who owns a device: the user named by the first row with its id.\<close>

definition device_owner :: "tables \<Rightarrow> uuid \<Rightarrow> string option" where
  "device_owner t d = map_option dr_user_id (find (\<lambda>r. dr_id r = d) (t_devices t))"

lemma device_owner_known: "device_owner t d = Some u \<Longrightarrow> d \<in> device_ids (t_devices t)"
  unfolding device_owner_def device_ids_def by (auto dest!: find_SomeD)

lemma block_direction_direction: "fst (block_direction a b now t) = Inr (direction t a b)"
  by (simp add: direction_def block_direction_def)

lemma block_gate_Inr:
  assumes "block_gate a b s = (Inr u, s')"
  shows "blk.gate (tables s) a b" "tables s' = tables s" "clock s' = clock s"
proof -
  obtain dir s1 where q: "run_sql (block_direction a b) s = (Inr dir, s1)"
    and c: "(case dir of None \<Rightarrow> returnS () | Some blocker \<Rightarrow>
       if blocker = b then failS (api_error FORBIDDEN ''recipient blocked you'')
       else failS (api_error FORBIDDEN ''you blocked recipient'')) s1 = (Inr u, s')"
    using assms unfolding block_gate_def bindS_Inr_iff by blast
  from c have "dir = None" "s' = s1" by (auto split: option.splits if_splits)
  moreover have "block_direction a b (clock s) (tables s) = (Inr dir, tables s1)" "clock s1 = clock s"
    using run_sql_Inr_frame [OF q] by simp_all
  moreover have "snd (block_direction a b (clock s) (tables s)) = tables s"
    by (simp add: block_direction_def)
  ultimately show "blk.gate (tables s) a b" "tables s' = tables s" "clock s' = clock s"
    using block_direction_direction [of a b "clock s" "tables s"] by (simp_all add: blk.gate_def)
qed

lemma quiet_block_gate: "moves quiet (block_gate a b)"
  unfolding block_gate_def
  by (intro qt.moves_rules quiet_read) (simp_all add: block_direction_def)

lemma read_Inr:
  assumes "run_sql q s = (Inr x, s')" "\<And>now t. snd (q now t) = t"
  shows "fst (q (clock s) (tables s)) = Inr x" "tables s' = tables s" "clock s' = clock s"
  using run_sql_Inr_frame [OF assms(1)] assms(2) [of "clock s" "tables s"] by (auto)

definition can_insert :: "uuid \<Rightarrow> string \<Rightarrow> uuid \<Rightarrow> uuid \<Rightarrow> tables \<Rightarrow> bool" where
  "can_insert fresh i a b t \<longleftrightarrow>
     (\<forall>m\<in>set (t_messages t). mr_message_id m \<noteq> i \<and> mr_id m \<noteq> fresh) \<and>
     a \<in> device_ids (t_devices t) \<and> b \<in> device_ids (t_devices t)"

lemma can_post_iff:
  "can_post now fresh i a b t \<longleftrightarrow> can_insert fresh i a b t \<and> (\<forall>m\<in>set (t_messages t). mr_created_at m \<le> now)"
  by (auto simp: can_post_def can_insert_def)

lemma post_message_row:
  assumes "can_insert fresh i a b t"
  shows "post_message now fresh i a b env t = t\<lparr>t_messages := t_messages t @
    [\<lparr>mr_id = fresh, mr_message_id = i, mr_from_device = a, mr_to_device = b, mr_envelope_bytes = env,
      mr_created_at = now, mr_delivered_at = None, mr_acked_at = None\<rparr>]\<rparr>"
  using assms by (auto simp: can_insert_def post_message_def insert_message_def)

text \<open>Handlers that authorize first: their success is the success of the body for the device.\<close>

lemma authorized_Inr:
  assumes "bindS (authorize_device E h) f s = (Inr x, s')"
  obtains d token s1 where "presents E h d token"
    "token_valid (clock s) (tables s) d (hash_token E token)"
    "f d s1 = (Inr x, s')" "tables s1 = tables s" "clock s1 = clock s"
    "call_signals s1 = call_signals s" "online_devices s1 = online_devices s"
proof -
  obtain d s1 where auth: "authorize_device E h s = (Inr d, s1)" and f: "f d s1 = (Inr x, s')"
    using assms unfolding bindS_Inr_iff by blast
  obtain token where "presents E h d token" "token_valid (clock s) (tables s) d (hash_token E token)"
    using auth unfolding authorize_Inr_iff by blast
  then show ?thesis using that f authorize_frame [OF auth] by metis
qed

lemma send_message_Inr:
  assumes "send_message E dr d p s = (Inr r, s')"
  obtains dest envelope u v where
    "parse_uuid E (sm_from_device_uuid p) = Some d"
    "parse_uuid E (sm_to_device_uuid p) = Some dest"
    "b64_decode E (sm_envelope_b64 p) = Some envelope"
    "device_owner (tables s) d = Some u" "device_owner (tables s) dest = Some v"
    "blk.gate (tables s) u v" "clock s' = clock s"
    "smr_accepted r \<longleftrightarrow> (\<forall>m\<in>set (t_messages (tables s)). mr_message_id m \<noteq> sm_message_id p)"
    "if smr_accepted r
     then tables s' = post_message (clock s) (dr 0) (sm_message_id p) d dest envelope (tables s) \<and>
       can_insert (dr 0) (sm_message_id p) d dest (tables s)
     else tables s' = tables s"
proof -
  from assms obtain dest envelope ex s1 u s2 v s3 s4 n where
    pre: "parse_uuid E (sm_from_device_uuid p) = Some d" "parse_uuid E (sm_to_device_uuid p) = Some dest"
      "b64_decode E (sm_envelope_b64 p) = Some envelope" and
    q1: "run_sql (device_exists dest) s = (Inr ex, s1)" and
    q2: "run_sql (find_user_id_by_device_uuid d) s1 = (Inr (Some u), s2)" and
    q3: "run_sql (find_user_id_by_device_uuid dest) s2 = (Inr (Some v), s3)" and
    g: "block_gate u v s3 = (Inr (), s4)" and
    ins: "run_sql (insert_message (dr 0) (sm_message_id p) d dest envelope) s4 = (Inr n, s')" and
    r: "r = \<lparr>smr_accepted = (n = 1)\<rparr>"
    unfolding send_message_def bindS_Inr_iff ok_or_Inr_iff reject_if_Inr_iff by auto
  note f1 = read_Inr [OF q1] read_Inr [OF q2] read_Inr [OF q3]
  have t: "tables s4 = tables s" "clock s4 = clock s"
    and ow: "device_owner (tables s) d = Some u" "device_owner (tables s) dest = Some v"
    and gate: "blk.gate (tables s) u v"
    using f1 block_gate_Inr [OF g]
    by (auto simp: device_exists_def find_user_id_by_device_uuid_def device_owner_def)
  note i = run_sql_Inr_frame [OF ins, unfolded t]
  have "clock s' = clock s" using i by simp
  moreover have "smr_accepted r \<longleftrightarrow>
      (\<forall>m\<in>set (t_messages (tables s)). mr_message_id m \<noteq> sm_message_id p)"
    using i(1) r by (auto simp: insert_message_def split: if_splits)
  moreover have "if smr_accepted r
     then tables s' = post_message (clock s) (dr 0) (sm_message_id p) d dest envelope (tables s) \<and>
       can_insert (dr 0) (sm_message_id p) d dest (tables s)
     else tables s' = tables s"
    using i(1) r by (auto simp: post_message_def insert_message_def can_insert_def split: if_splits)
  ultimately show ?thesis using that pre ow gate by blast
qed

lemma clean_send_message: "clean (send_message E dr d p)"
  unfolding send_message_def
  by (intro clean_read_bind qt.moves_rules quiet_read quiet_block_gate clean_bind_total clean_run_sql)
    (auto simp: device_exists_def find_user_id_by_device_uuid_def insert_message_def
       split: if_splits)

lemma clean_send: "clean (h_send_message E dr h p)"
  unfolding h_send_message_def by (intro clean_read_bind quiet_authorize clean_send_message)

text \<open>
  C3.  What \<open>send_message\<close> does.  It succeeds only for the authenticated sender device, an existing
  recipient device and two users neither of whom has blocked the other; then the decoded
  envelope is in the recipient's mailbox, unless the message id was used before, in which case
  the answer says \<open>accepted = false\<close> and nothing is stored.  On every error no table changes.
\<close>

theorem send_message_outcome:
  "case h_send_message E dr h p s of
     (Inl e, s') \<Rightarrow> tables s' = tables s
   | (Inr r, s') \<Rightarrow> \<exists>token d dest envelope u v.
       presents E h d token \<and> token_valid (clock s) (tables s) d (hash_token E token) \<and>
       parse_uuid E (sm_from_device_uuid p) = Some d \<and> parse_uuid E (sm_to_device_uuid p) = Some dest \<and>
       b64_decode E (sm_envelope_b64 p) = Some envelope \<and>
       device_owner (tables s) d = Some u \<and> device_owner (tables s) dest = Some v \<and>
       \<not> blocks_rel (tables s) u v \<and> \<not> blocks_rel (tables s) v u \<and>
       (if smr_accepted r
        then tables s' = (tables s)\<lparr>t_messages := t_messages (tables s) @
            [\<lparr>mr_id = dr 0, mr_message_id = sm_message_id p, mr_from_device = d, mr_to_device = dest,
              mr_envelope_bytes = envelope, mr_created_at = clock s, mr_delivered_at = None,
              mr_acked_at = None\<rparr>]\<rparr>
        else tables s' = tables s \<and>
          (\<exists>m\<in>set (t_messages (tables s)). mr_message_id m = sm_message_id p))"
proof -
  obtain r s' where h: "h_send_message E dr h p s = (r, s')" by (cases "h_send_message E dr h p s")
  show ?thesis
  proof (cases r)
    case (Inl e)
    show ?thesis using h Inl by (auto dest: cleanD [OF clean_send])
  next
    case (Inr x)
    obtain d token s1 where auth: "presents E h d token"
      "token_valid (clock s) (tables s) d (hash_token E token)" and
      send: "send_message E dr d p s1 = (Inr x, s')" and fr: "tables s1 = tables s" "clock s1 = clock s"
      using h [unfolded Inr h_send_message_def] by (rule authorized_Inr)
    from send show ?thesis
      by (rule send_message_Inr)
        (use auth in \<open>auto simp: h Inr fr blk.gate_iff post_message_row\<close>)
  qed
qed

section \<open>Fetching\<close>

definition page :: "int option \<Rightarrow> nat" where
  "page limit = nat (clamp 1 500 (case limit of Some n \<Rightarrow> n | None \<Rightarrow> 100))"

definition stamp :: "timestamp \<Rightarrow> message_row \<Rightarrow> message_row" where
  "stamp now m = m\<lparr>mr_delivered_at :=
     (case mr_delivered_at m of Some d \<Rightarrow> Some d | None \<Rightarrow> Some now)\<rparr>"

definition row_of :: "message_row \<Rightarrow> pending_row" where
  "row_of m = (mr_id m, mr_message_id m, mr_from_device m, mr_envelope_bytes m, epoch_ms (mr_created_at m))"

lemma deliver_row_stamp:
  "deliver_row now i t = t\<lparr>t_messages := update_where (\<lambda>m. mr_id m = i) (stamp now) (t_messages t)\<rparr>"
  by (simp add: deliver_row_def mark_delivered_def stamp_def [abs_def])

lemma stamp_simps [simp]: "mr_id (stamp now m) = mr_id m" "stamp now (stamp now m) = stamp now m"
  by (simp_all add: stamp_def split: option.splits)

lemma deliver_rows:
  "fold (deliver_row now) is t = t\<lparr>t_messages := update_where (\<lambda>m. mr_id m \<in> set is) (stamp now) (t_messages t)\<rparr>"
proof (induction "is" arbitrary: t)
  case Nil
  have "update_where (\<lambda>m. False) (stamp now) (t_messages t) = t_messages t" by (rule update_where_id) simp
  then show ?case by simp
next
  case (Cons i "is")
  have "update_where (\<lambda>m. mr_id m \<in> set is) (stamp now) (update_where (\<lambda>m. mr_id m = i) (stamp now) xs) =
      update_where (\<lambda>m. mr_id m \<in> set (i # is)) (stamp now) xs" for xs
    by (induction xs) auto
  then show ?case using Cons.IH by (simp add: deliver_row_stamp)
qed

lemma pending_deliver_rows: "pending_ids (fold (deliver_row now) is t) d = pending_ids t d"
  by (induction "is" arbitrary: t) (simp_all add: mbox.pending_deliver)

lemma mark_all_Inr:
  "mark_all rows s = (Inr u, s') \<Longrightarrow>
   tables s' = fold (deliver_row (clock s)) (map fst rows) (tables s) \<and> clock s' = clock s"
proof (induction rows arbitrary: s)
  case (Cons row rows)
  then obtain s1 where q: "run_sql (mark_delivered (fst row)) s = (Inr (), s1)"
    and rest: "mark_all rows s1 = (Inr u, s')"
    by (auto simp: bindS_Inr_iff)
  have "tables s1 = deliver_row (clock s) (fst row) (tables s)" "clock s1 = clock s"
    using run_sql_Inr_frame [OF q] by (simp_all add: deliver_row_def)
  with Cons.IH [OF rest] show ?case by simp
qed simp

lemma drain_Inr:
  assumes "drain_pending_messages E d n s = (Inr items, s')"
  shows "items = map (\<lambda>m. pending_item E (row_of m)) (take (nat n) (pending_rows (tables s) d))"
    and "tables s' = fold (deliver_row (clock s)) (map mr_id (take (nat n) (pending_rows (tables s) d))) (tables s)"
    and "clock s' = clock s"
proof -
  from assms obtain rows s0 s1 s2 where
    q: "run_sql (fetch_pending_locked d n) s0 = (Inr rows, s1)" and
    m: "mark_all rows s1 = (Inr (), s2)" and
    tx: "db_ok s = (True, s0)" "db_ok s2 = (True, s')" and
    items: "items = map (pending_item E) rows"
    unfolding drain_pending_messages_def by (auto simp: bindS_Inr_iff transaction_Inr)
  note fr = db_ok_frame(1,2) [OF tx(1)] db_ok_frame(1,2) [OF tx(2)]
  have r: "rows = map row_of (take (nat n) (pending_rows (tables s) d))" "tables s1 = tables s"
    "clock s1 = clock s"
    using run_sql_Inr_frame [OF q] fr by (auto simp: fetch_pending_locked_def row_of_def)
  have "fst \<circ> row_of = mr_id" by (simp add: fun_eq_iff row_of_def)
  then have f: "map fst rows = map mr_id (take (nat n) (pending_rows (tables s) d))"
    unfolding r(1) by (simp only: list.map_comp)
  show "items = map (\<lambda>m. pending_item E (row_of m)) (take (nat n) (pending_rows (tables s) d))"
    unfolding items r(1) by simp
  show "tables s' = fold (deliver_row (clock s)) (map mr_id (take (nat n) (pending_rows (tables s) d))) (tables s)"
    "clock s' = clock s"
    using mark_all_Inr [OF m] fr r(2,3) unfolding f by simp_all
qed

lemma drain_Inl:
  assumes "drain_pending_messages E d n s = (Inl e, s')"
  shows "\<exists>t. tables s' = rollback_to (tables s) t"
  using assms transaction_Inl_tables
  by (auto simp: drain_pending_messages_def bindS_apply split: prod.splits sum.splits)

lemma fetch_pending_Inr:
  assumes "fetch_pending E d p s = (Inr r, s')"
  shows "fpr_messages r = map (\<lambda>m. pending_item E (row_of m)) (take (page (fp_limit p)) (pending_rows (tables s) d))"
    and "tables s' = fold (deliver_row (clock s)) (map mr_id (take (page (fp_limit p)) (pending_rows (tables s) d))) (tables s)"
    and "parse_uuid E (fp_device_uuid p) = Some d" "clock s' = clock s"
proof -
  from assms obtain items where "drain_pending_messages E d
       (clamp 1 500 (case fp_limit p of Some n \<Rightarrow> n | None \<Rightarrow> 100)) s = (Inr items, s')"
    and r: "r = \<lparr>fpr_messages = items\<rparr>" and u: "parse_uuid E (fp_device_uuid p) = Some d"
    unfolding fetch_pending_def by (auto simp: comp_simps)
  note d = drain_Inr [OF this(1)]
  show "fpr_messages r = map (\<lambda>m. pending_item E (row_of m)) (take (page (fp_limit p)) (pending_rows (tables s) d))"
    "tables s' = fold (deliver_row (clock s)) (map mr_id (take (page (fp_limit p)) (pending_rows (tables s) d))) (tables s)"
    "parse_uuid E (fp_device_uuid p) = Some d" "clock s' = clock s"
    using d r u by (simp_all add: page_def)
qed

lemma fetch_pending_Inl:
  assumes "fetch_pending E d p s = (Inl e, s')"
  shows "\<exists>t. tables s' = rollback_to (tables s) t"
proof -
  have same: "\<exists>t'. t = rollback_to t t'" for t by (metis rollback_self)
  show ?thesis
    using assms drain_Inl same
    by (auto simp: fetch_pending_def bindS_apply ok_or_def reject_if_def
        split: prod.splits sum.splits option.splits if_splits)
qed

text \<open>
  C4.  What \<open>fetch_pending\<close> does.  For the authenticated device it returns its unacknowledged
  messages, oldest first, at most the requested number between 1 and 500 (100 by default), with
  the stored envelopes; exactly these get a delivery time unless they had one, and all of them
  stay pending.  On every error no row of any table changes.
\<close>

theorem fetch_pending_outcome:
  "case h_fetch_pending E h p s of
     (Inl e, s') \<Rightarrow> (\<exists>t. tables s' = rollback_to (tables s) t)
   | (Inr r, s') \<Rightarrow> \<exists>token d. presents E h d token \<and>
       token_valid (clock s) (tables s) d (hash_token E token) \<and> parse_uuid E (fp_device_uuid p) = Some d \<and>
       (let rows = take (page (fp_limit p)) (pending_rows (tables s) d) in
        fpr_messages r = map (\<lambda>m. \<lparr>pm_message_id = mr_message_id m,
            pm_from_device_uuid = show_uuid E (mr_from_device m),
            pm_envelope_b64 = b64_encode E (mr_envelope_bytes m),
            pm_created_at_unix_ms = epoch_ms (mr_created_at m)\<rparr>) rows \<and>
        tables s' = (tables s)\<lparr>t_messages :=
          update_where (\<lambda>m. mr_id m \<in> mr_id ` set rows) (stamp (clock s)) (t_messages (tables s))\<rparr> \<and>
        (\<forall>d'. pending_ids (tables s') d' = pending_ids (tables s) d'))"
proof -
  obtain r s' where h: "h_fetch_pending E h p s = (r, s')" by (cases "h_fetch_pending E h p s")
  obtain ra s1 where auth: "authorize_device E h s = (ra, s1)" by (cases "authorize_device E h s")
  note fr = authorize_frame(1,2) [OF auth]
  show ?thesis
  proof (cases r)
    case (Inl e)
    have "\<exists>t. tables s' = rollback_to (tables s) t"
    proof (cases ra)
      case (Inl e')
      then have "tables s' = rollback_to (tables s) (tables s)"
        using h auth fr by (simp add: h_fetch_pending_def bindS_apply)
      then show ?thesis ..
    next
      case (Inr d)
      then have "fetch_pending E d p s1 = (Inl e, s')"
        using h auth Inl by (simp add: h_fetch_pending_def bindS_apply)
      from fetch_pending_Inl [OF this] show ?thesis unfolding fr .
    qed
    then show ?thesis using h Inl by simp
  next
    case (Inr x)
    obtain d token s1 where auth: "presents E h d token"
      "token_valid (clock s) (tables s) d (hash_token E token)" and
      f: "fetch_pending E d p s1 = (Inr x, s')" and fr: "tables s1 = tables s" "clock s1 = clock s"
      using h [unfolded Inr h_fetch_pending_def] by (rule authorized_Inr)
    note o = fetch_pending_Inr [OF f, unfolded fr]
    show ?thesis
      using auth o(1,3) pending_deliver_rows
      by (auto simp: h Inr Let_def o(2) deliver_rows [symmetric] pending_item_def row_of_def
          simp del: set_map simp flip: set_map)
  qed
qed

section \<open>Acknowledging\<close>

lemma ack_message_Inr:
  assumes "ack_message E d p s = (Inr r, s')"
  shows "parse_uuid E (am_device_uuid p) = Some d" "clock s' = clock s"
    and "\<forall>d'. pending_ids (tables s') d' =
      (if d' = d then filter (\<lambda>i. i \<notin> set (am_message_ids p)) (pending_ids (tables s) d') else pending_ids (tables s) d')"
    and "amr_acked r = length (filter (\<lambda>i. i \<in> set (am_message_ids p)) (pending_ids (tables s) d))"
proof -
  from assms have dev: "parse_uuid E (am_device_uuid p) = Some d"
    and body: "(if am_message_ids p = [] then returnS \<lparr>amr_acked = 0\<rparr>
      else bindS (run_sql (ack_messages d (am_message_ids p))) (\<lambda>acked. returnS \<lparr>amr_acked = acked\<rparr>)) s = (Inr r, s')"
    by (auto simp: ack_message_def bindS_Inr_iff ok_or_Inr_iff reject_if_Inr_iff)
  show "parse_uuid E (am_device_uuid p) = Some d" by (rule dev)
  have "clock s' = clock s \<and> (\<forall>d'. pending_ids (tables s') d' =
      (if d' = d then filter (\<lambda>i. i \<notin> set (am_message_ids p)) (pending_ids (tables s) d') else pending_ids (tables s) d')) \<and>
    amr_acked r = length (filter (\<lambda>i. i \<in> set (am_message_ids p)) (pending_ids (tables s) d))"
  proof (cases "am_message_ids p = []")
    case True
    then show ?thesis using body by auto
  next
    case False
    then have q: "run_sql (ack_messages d (am_message_ids p)) s = (Inr (amr_acked r), s')"
      using body by (auto simp: bindS_Inr_iff)
    note f = run_sql_Inr_frame [OF q]
    have t: "tables s' = ack_ids (clock s) d (am_message_ids p) (tables s)"
      using f(1) by (simp add: ack_ids_def)
    have a1: "affected (\<lambda>m. mr_to_device m = d \<and> mr_message_id m \<in> I \<and> mr_acked_at m = None) xs =
        affected (\<lambda>m. mr_message_id m \<in> I) (filter (\<lambda>m. mr_to_device m = d \<and> mr_acked_at m = None) xs)" for I xs
      by (induction xs) auto
    have a2: "length (filter (\<lambda>i. i \<in> I) (map mr_message_id (sort_key mr_created_at xs))) =
        affected (\<lambda>m. mr_message_id m \<in> I) xs" for I xs
      by (simp add: affected_def filter_map comp_def filter_sort_key)
    have a3: "amr_acked r = affected (\<lambda>m. mr_to_device m = d \<and>
        mr_message_id m \<in> set (am_message_ids p) \<and> mr_acked_at m = None) (t_messages (tables s))"
      using f(1) by (simp add: ack_messages_def Let_def)
    have "amr_acked r = length (filter (\<lambda>i. i \<in> set (am_message_ids p)) (pending_ids (tables s) d))"
      unfolding pending_ids_def pending_rows_def a2 a3 by (rule a1)
    then show ?thesis using f(2) mbox.pending_ack t by simp
  qed
  then show "clock s' = clock s" "\<forall>d'. pending_ids (tables s') d' =
      (if d' = d then filter (\<lambda>i. i \<notin> set (am_message_ids p)) (pending_ids (tables s) d') else pending_ids (tables s) d')"
    "amr_acked r = length (filter (\<lambda>i. i \<in> set (am_message_ids p)) (pending_ids (tables s) d))"
    by blast+
qed

lemma clean_ack_message: "clean (ack_message E d p)"
  unfolding ack_message_def
  by (intro clean_read_bind qt.moves_rules) 
    (auto intro!: clean_bind_total clean_run_sql clean_quiet [OF qt.moves_returnS]
       simp: ack_messages_def Let_def)

text \<open>
  C5.  What \<open>ack_message\<close> does.  Exactly the named messages leave the mailbox of the authenticated
  device, the others keep their order, the mailboxes of all other devices stay as they are,
  and the answer is the number of messages that left.  On every error no table changes.
\<close>

theorem ack_message_outcome:
  "case h_ack_message E h p s of
     (Inl e, s') \<Rightarrow> tables s' = tables s
   | (Inr r, s') \<Rightarrow> \<exists>token d. presents E h d token \<and>
       token_valid (clock s) (tables s) d (hash_token E token) \<and> parse_uuid E (am_device_uuid p) = Some d \<and>
       (\<forall>d'. pending_ids (tables s') d' = (if d' = d
          then filter (\<lambda>i. i \<notin> set (am_message_ids p)) (pending_ids (tables s) d')
          else pending_ids (tables s) d')) \<and>
       amr_acked r = length (filter (\<lambda>i. i \<in> set (am_message_ids p)) (pending_ids (tables s) d))"
proof -
  obtain r s' where h: "h_ack_message E h p s = (r, s')" by (cases "h_ack_message E h p s")
  show ?thesis
  proof (cases r)
    case (Inl e)
    have "clean (h_ack_message E h p)"
      unfolding h_ack_message_def by (intro clean_read_bind quiet_authorize clean_ack_message)
    then show ?thesis using h Inl by (auto dest: cleanD)
  next
    case (Inr x)
    obtain d token s1 where auth: "presents E h d token"
      "token_valid (clock s) (tables s) d (hash_token E token)" and
      f: "ack_message E d p s1 = (Inr x, s')" and fr: "tables s1 = tables s" "clock s1 = clock s"
      using h [unfolded Inr h_ack_message_def] by (rule authorized_Inr)
    show ?thesis
      using auth ack_message_Inr [OF f] by (auto simp: h Inr fr)
  qed
qed

section \<open>From sender to recipient\<close>

lemma h_send_message_Inr:
  assumes "h_send_message E dr h p s = (Inr r, s')"
  obtains d dest envelope u v where "parse_uuid E (sm_from_device_uuid p) = Some d"
    "parse_uuid E (sm_to_device_uuid p) = Some dest" "b64_decode E (sm_envelope_b64 p) = Some envelope"
    "device_owner (tables s) d = Some u" "device_owner (tables s) dest = Some v"
    "blk.gate (tables s) u v"
    "smr_accepted r \<longleftrightarrow> (\<forall>m\<in>set (t_messages (tables s)). mr_message_id m \<noteq> sm_message_id p)"
    "smr_accepted r \<Longrightarrow> can_insert (dr 0) (sm_message_id p) d dest (tables s)"
    "smr_accepted r \<Longrightarrow>
      tables s' = post_message (clock s) (dr 0) (sm_message_id p) d dest envelope (tables s)"
proof -
  obtain d token s1 where send: "send_message E dr d p s1 = (Inr r, s')" and
    fr: "tables s1 = tables s" "clock s1 = clock s"
    using assms unfolding h_send_message_def by (rule authorized_Inr)
  show ?thesis using send_message_Inr [OF send] that unfolding fr by (metis (full_types))
qed

lemma h_fetch_pending_Inr:
  assumes "h_fetch_pending E h p s = (Inr r, s')"
  obtains d where "parse_uuid E (fp_device_uuid p) = Some d"
    "map pm_message_id (fpr_messages r) = take (page (fp_limit p)) (pending_ids (tables s) d)"
proof -
  obtain d token s1 where f: "fetch_pending E d p s1 = (Inr r, s')" and fr: "tables s1 = tables s" "clock s1 = clock s"
    using assms unfolding h_fetch_pending_def by (rule authorized_Inr)
  have "map pm_message_id (map (\<lambda>m. pending_item E (row_of m)) xs) = map mr_message_id xs" for xs
    by (induction xs) (simp_all add: pending_item_def row_of_def)
  then have "map pm_message_id (fpr_messages r) = take (page (fp_limit p)) (pending_ids (tables s) d)"
    unfolding fetch_pending_Inr(1) [OF f] fr pending_ids_def take_map by simp
  with fetch_pending_Inr(3) [OF f] show ?thesis using that by blast
qed

text \<open>
  C7.  The delivery window.  After an accepted \<open>send_message\<close>, a fetch by the recipient device
  returns the new message if and only if fewer unacknowledged messages than the page size were
  waiting before it: messages the recipient never acknowledges keep all later ones back.
\<close>

theorem delivery_window:
  assumes "h_send_message E dr h p s = (Inr r, s1)" "smr_accepted r"
    and "parse_uuid E (sm_to_device_uuid p) = Some dest"
    and "\<forall>m\<in>set (t_messages (tables s)). mr_created_at m \<le> clock s"
    and "h_fetch_pending E h' q s2 = (Inr r', s3)" "tables s2 = tables s1"
    and "parse_uuid E (fp_device_uuid q) = Some dest"
  shows "sm_message_id p \<in> pm_message_id ` set (fpr_messages r') \<longleftrightarrow>
    length (pending_ids (tables s) dest) < page (fp_limit q)"
proof -
  let ?i = "sm_message_id p" and ?n = "page (fp_limit q)"
  obtain d envelope where ins: "can_insert (dr 0) ?i d dest (tables s)"
    and t1: "tables s1 = post_message (clock s) (dr 0) ?i d dest envelope (tables s)"
    using assms(1-3) by (auto elim!: h_send_message_Inr)
  have ok: "can_post (clock s) (dr 0) ?i d dest (tables s)"
    using ins assms(4) by (simp add: can_post_iff)
  have ids: "map pm_message_id (fpr_messages r') = take ?n (pending_ids (tables s1) dest)"
    using h_fetch_pending_Inr [OF assms(5)] assms(6,7) by (metis option.inject)
  have "?i \<notin> set (pending_ids (tables s) dest)"
    using ins by (auto simp: can_insert_def pending_ids_def pending_rows_def)
  then have fresh: "?i \<notin> set (take ?n (pending_ids (tables s) dest))" by (meson in_set_takeD)
  have "?i \<in> set (take ?n (pending_ids (tables s1) dest)) \<longleftrightarrow> length (pending_ids (tables s) dest) < ?n"
  proof (cases "length (pending_ids (tables s) dest) < ?n")
    case True
    then show ?thesis using mbox.window_not_full [OF ok True] t1 by simp
  next
    case False
    then show ?thesis using mbox.window_is_full [OF ok] t1 fresh by simp
  qed
  then show ?thesis unfolding ids [symmetric] by simp
qed

lemma send0: "h_send_message env0 (\<lambda>_. 9) headers0 \<lparr>sm_message_id = ''m1'', sm_from_device_uuid = ''x'',
     sm_to_device_uuid = ''xx'', sm_envelope_b64 = ''E''\<rparr> server0 =
   (Inr \<lparr>smr_accepted = True\<rparr>, server0\<lparr>device_last_seen := [1 \<mapsto> 0], tables := tables0\<lparr>t_messages :=
     [\<lparr>mr_id = 9, mr_message_id = ''m1'', mr_from_device = 1, mr_to_device = 2, mr_envelope_bytes = [69],
       mr_created_at = 0, mr_delivered_at = None, mr_acked_at = None\<rparr>]\<rparr>\<rparr>)"
  by (simp add: eval_simps device_exists_def find_user_id_by_device_uuid_def block_direction_def
      insert_message_def device_ids_def)

lemma delivery_window_witness:
  "''m1'' \<in> pm_message_id ` set (fpr_messages (projr (fst (h_fetch_pending env0 headers1
     \<lparr>fp_device_uuid = ''xx'', fp_limit = None\<rparr> (snd (h_send_message env0 (\<lambda>_. 9) headers0
       \<lparr>sm_message_id = ''m1'', sm_from_device_uuid = ''x'', sm_to_device_uuid = ''xx'',
        sm_envelope_b64 = ''E''\<rparr> server0)))))) \<longleftrightarrow> length (pending_ids tables0 2) < page None"
proof -
  let ?q = "\<lparr>fp_device_uuid = ''xx'', fp_limit = None\<rparr>"
  let ?s = "snd (h_send_message env0 (\<lambda>_. 9) headers0 \<lparr>sm_message_id = ''m1'', sm_from_device_uuid = ''x'',
    sm_to_device_uuid = ''xx'', sm_envelope_b64 = ''E''\<rparr> server0)"
  have "\<exists>r. fst (h_fetch_pending env0 headers1 ?q ?s) = Inr r"
    unfolding send0 by (simp add: eval_simps fetch_pending_locked_def mark_delivered_def clamp_def pending_rows_def)
  then have f: "h_fetch_pending env0 headers1 ?q ?s =
      (Inr (projr (fst (h_fetch_pending env0 headers1 ?q ?s))), snd (h_fetch_pending env0 headers1 ?q ?s))"
    by (metis prod.collapse sum.sel(2))
  show ?thesis
    using delivery_window [OF send0 _ _ _ f, of 2] unfolding send0 by simp
qed

section \<open>Prekeys\<close>

lemma fetch_prekey_bundle_Inr:
  assumes "h_fetch_prekey_bundle E p s = (Inr r, s')" "pb_one_time_prekey r = Some i"
  obtains d k ks where "pb_device_uuid r = show_uuid E d" "available_prekeys d (tables s) = k # ks"
    "pu_key_id i = pk_key_id k" "pu_pubkey_b64 i = b64_encode E (pk_pubkey k)"
    "tables s' = (tables s)\<lparr>t_prekeys := update_where (\<lambda>x. pk_id x = pk_id k)
       (\<lambda>x. x\<lparr>pk_consumed_at := Some (clock s)\<rparr>) (t_prekeys (tables s))\<rparr>"
proof -
  from assms(1) obtain d ik sk pk sg one s0 s1 s2 where
    tx: "db_ok s = (True, s0)" "db_ok s2 = (True, s')" and
    q1: "run_sql (find_device_bundle (fb_user_id p) (fb_device_id p)) s0 = (Inr (Some (d, ik, sk, pk, sg)), s1)" and
    q2: "run_sql (consume_one_time_prekey d) s1 = (Inr one, s2)" and
    r: "pb_device_uuid r = show_uuid E d" "pb_one_time_prekey r = map_option
       (\<lambda>(key_id, pubkey). \<lparr>pu_key_id = key_id, pu_pubkey_b64 = b64_encode E pubkey\<rparr>) one"
    unfolding h_fetch_prekey_bundle_def fetch_prekey_bundle_def bindS_Inr_iff transaction_Inr ok_or_Inr_iff
    by auto
  note fr = db_ok_frame(1,2) [OF tx(1)] db_ok_frame(1,2) [OF tx(2)]
  have t1: "tables s1 = tables s" "clock s1 = clock s"
    using run_sql_Inr_frame [OF q1] fr
    by (auto simp: find_device_bundle_def split: option.splits)
  obtain n pubkey where one: "one = Some (n, pubkey)" "i = \<lparr>pu_key_id = n, pu_pubkey_b64 = b64_encode E pubkey\<rparr>"
    using r(2) assms(2) by (cases one) auto
  obtain k ks where k: "available_prekeys d (tables s) = k # ks" "n = pk_key_id k" "pubkey = pk_pubkey k"
    and t2: "tables s2 = (tables s)\<lparr>t_prekeys := update_where (\<lambda>x. pk_id x = pk_id k)
       (\<lambda>x. x\<lparr>pk_consumed_at := Some (clock s)\<rparr>) (t_prekeys (tables s))\<rparr>"
    using run_sql_Inr_frame(1) [OF q2] one(1) t1
    by (auto simp: consume_one_time_prekey_def split: list.splits)
  show ?thesis using that r(1) k one(2) t2 fr by simp
qed

text \<open>
  C14.  A one-time prekey is handed out once: after \<open>fetch_prekey_bundle\<close> has returned one, no
  fetch in any later state of the server returns a prekey of the same device with the same id.
\<close>

theorem prekey_used_once:
  assumes "tables_wf (tables s)" "uuid_laws E"
    and "h_fetch_prekey_bundle E p s = (Inr r, s1)" "pb_one_time_prekey r = Some i"
    and "server_step s1 s2"
    and "h_fetch_prekey_bundle E p' s2 = (Inr r', s3)" "pb_one_time_prekey r' = Some i'"
    and "pb_device_uuid r' = pb_device_uuid r"
  shows "pu_key_id i' \<noteq> pu_key_id i"
proof
  assume same: "pu_key_id i' = pu_key_id i"
  obtain d k ks where k: "pb_device_uuid r = show_uuid E d" "available_prekeys d (tables s) = k # ks"
    "pu_key_id i = pk_key_id k" and t1: "tables s1 = (tables s)\<lparr>t_prekeys := update_where
      (\<lambda>x. pk_id x = pk_id k) (\<lambda>x. x\<lparr>pk_consumed_at := Some (clock s)\<rparr>) (t_prekeys (tables s))\<rparr>"
    using assms(3,4) by (rule fetch_prekey_bundle_Inr)
  obtain d' k' ks' where k': "pb_device_uuid r' = show_uuid E d'" "available_prekeys d' (tables s2) = k' # ks'"
    "pu_key_id i' = pk_key_id k'"
    using assms(6,7) by (rule fetch_prekey_bundle_Inr)
  have d: "d' = d" using assms(2,8) k(1) k'(1) unfolding uuid_laws_def by (metis option.inject)
  note pick = picked_prekey [OF k(2)] and pick' = picked_prekey [OF k'(2)]
  have "\<exists>x\<in>set (t_prekeys (tables s1)). pk_consumed_at x \<noteq> None \<and> pk_device_ref x = d \<and> pk_key_id x = pk_key_id k"
    unfolding t1 using pick by auto
  then obtain x where x: "x \<in> set (t_prekeys (tables s1))" "pk_consumed_at x \<noteq> None"
    "pk_device_ref x = d" "pk_key_id x = pk_key_id k" by blast
  have wf1: "tables_wf (tables s1)"
    using movesD [OF moves_h_fetch_prekey_bundle assms(3)] assms(1)
    by (simp add: server_step_def tables_step_def)
  then have g: "grows prekey_le (t_prekeys (tables s1)) (t_prekeys (tables s2))"
    and dist: "distinct (map (\<lambda>k. (pk_device_ref k, pk_key_id k)) (t_prekeys (tables s2)))"
    using assms(5)
    by (simp_all add: server_step_def tables_step_def tables_grow_def tables_wf_def prekeys_wf_def)
  have key: "(pk_device_ref b, pk_key_id b) = (pk_device_ref a, pk_key_id a)" if "prekey_le a b" for a b
    using that by (cases a; cases b) (simp add: prekey_le_def)
  have "pk_key_id k' = pk_key_id x" using x(4) k(3) k'(3) same by metis
  moreover have "pk_device_ref k' = pk_device_ref x" using x(3) d pick'(3) by metis
  ultimately have "prekey_le x k'"
    by (intro grows_same_key [where key = "\<lambda>k. (pk_device_ref k, pk_key_id k)", OF g dist key x(1) pick'(1)])
      simp_all
  then show False using x(2) pick'(2) by (auto simp: prekey_le_def stays_def)
qed

definition prekeys0 :: server where
  "prekeys0 = server0\<lparr>tables := tables0\<lparr>t_prekeys :=
     [\<lparr>pk_id = 1, pk_device_ref = 2, pk_key_id = 7, pk_pubkey = [1], pk_consumed_at = None, pk_created_at = 0\<rparr>,
      \<lparr>pk_id = 2, pk_device_ref = 2, pk_key_id = 8, pk_pubkey = [2], pk_consumed_at = None, pk_created_at = 0\<rparr>],
     t_prekeys_seq := 2\<rparr>\<rparr>"

lemma prekey_used_once_witness:
  "(let m = h_fetch_prekey_bundle env0 \<lparr>fb_user_id = ''bob'', fb_device_id = ''main''\<rparr> in
    pu_key_id (the (pb_one_time_prekey (projr (fst (m (snd (m prekeys0))))))) \<noteq>
    pu_key_id (the (pb_one_time_prekey (projr (fst (m prekeys0))))))"
proof -
  let ?m = "h_fetch_prekey_bundle env0 \<lparr>fb_user_id = ''bob'', fb_device_id = ''main''\<rparr>"
  let ?r = "\<lambda>n. \<lparr>pb_device_uuid = ''xx'', pb_identity_key_b64 = [char_of (1 :: nat)],
    pb_signing_identity_key_b64 = [char_of (2 :: nat)], pb_signed_prekey_b64 = [char_of (3 :: nat)],
    pb_signed_prekey_signature_b64 = [char_of (4 :: nat)],
    pb_one_time_prekey = Some \<lparr>pu_key_id = int n + 6, pu_pubkey_b64 = [char_of n]\<rparr>\<rparr>"
  note ev = eval_simps find_device_bundle_def consume_one_time_prekey_def available_prekeys_def prekeys0_def
  have xx: "replicate 2 CHR ''x'' = ''xx''" by (simp add: numeral_eq_Suc)
  have one: "?m prekeys0 = (Inr (?r 1), snd (?m prekeys0))" by (simp add: ev xx)
  have two: "?m (snd (?m prekeys0)) = (Inr (?r 2), snd (?m (snd (?m prekeys0))))"
    by (simp add: ev xx)
  have "tables_wf (tables prekeys0)"
    using tables0_wf by (simp add: prekeys0_def tables_wf_def prekeys_wf_def device_ids_def)
  then have "pu_key_id (the (pb_one_time_prekey (?r 2))) \<noteq> pu_key_id (the (pb_one_time_prekey (?r 1)))"
    by (rule prekey_used_once [OF _ env0_uuid_laws one _ srv.step_refl two]) simp_all
  moreover have "fst (?m prekeys0) = Inr (?r 1)" "fst (?m (snd (?m prekeys0))) = Inr (?r 2)"
    using one two by (metis fst_conv)+
  ultimately show ?thesis by (simp add: Let_def)
qed

end
