(* ===== verification/Blobs.thy ===== *)
theory Blobs
  imports Messaging
begin

text \<open>
  Files: \<open>domain/blob.rs\<close> and \<open>handlers/blob.rs\<close>, uploaded in one piece or created empty and
  appended to chunk by chunk.
\<close>

section \<open>domain/blob.rs\<close>

definition MAX_BLOB_BYTES :: nat where
  "MAX_BLOB_BYTES = 100 * 1024 * 1024"

definition MAX_BLOB_CHUNK_BYTES :: nat where
  "MAX_BLOB_CHUNK_BYTES = 512 * 1024"

definition upload_blob_bytes :: "env \<Rightarrow> draws \<Rightarrow> uuid \<Rightarrow> bytes \<Rightarrow> upload_blob_response handler" where
  "upload_blob_bytes E dr owner_device data =
     bindS (reject_if (length data > MAX_BLOB_BYTES) (api_error PAYLOAD_TOO_LARGE ''blob too large'')) (\<lambda>_.
     bindS (run_sql (insert_blob (dr 0) owner_device data)) (\<lambda>blob_id.
     returnS \<lparr>ubr_blob_id = show_uuid E blob_id\<rparr>))"

definition upload_blob :: "env \<Rightarrow> draws \<Rightarrow> uuid \<Rightarrow> upload_blob_request \<Rightarrow> upload_blob_response handler" where
  "upload_blob E dr owner_device payload =
     bindS (ok_or (b64_decode E (ub_data_b64 payload)) (api_error BAD_REQUEST ''invalid blob data'')) (\<lambda>data.
     bindS (reject_if (length data > MAX_BLOB_BYTES) (api_error PAYLOAD_TOO_LARGE ''blob too large'')) (\<lambda>_.
     bindS (run_sql (insert_blob (dr 0) owner_device data)) (\<lambda>blob_id.
     returnS \<lparr>ubr_blob_id = show_uuid E blob_id\<rparr>)))"

definition create_blob :: "env \<Rightarrow> draws \<Rightarrow> uuid \<Rightarrow> create_blob_response handler" where
  "create_blob E dr owner_device =
     bindS (run_sql (insert_empty_blob (dr 0) owner_device)) (\<lambda>blob_id.
     returnS \<lparr>cbr_blob_id = show_uuid E blob_id\<rparr>)"

definition append_blob_chunk :: "env \<Rightarrow> uuid \<Rightarrow> append_blob_chunk_request \<Rightarrow> append_blob_chunk_response handler" where
  "append_blob_chunk E owner_device payload =
     bindS (ok_or (parse_uuid E (ab_blob_id payload)) (api_error BAD_REQUEST ''invalid blob id'')) (\<lambda>blob_id.
     bindS (ok_or (b64_decode E (ab_chunk_b64 payload)) (api_error BAD_REQUEST ''invalid blob chunk'')) (\<lambda>chunk.
     bindS (reject_if (length chunk > MAX_BLOB_CHUNK_BYTES)
       (api_error PAYLOAD_TOO_LARGE ''blob chunk too large'')) (\<lambda>_.
     bindS (run_sql (append_blob owner_device blob_id chunk)) (\<lambda>found.
     bindS (ok_or found (api_error NOT_FOUND ''blob not found'')) (\<lambda>n.
     bindS (reject_if (n > MAX_BLOB_BYTES) (api_error PAYLOAD_TOO_LARGE ''blob too large'')) (\<lambda>_.
     returnS \<lparr>abr_size = n\<rparr>))))))"

definition fetch_blob_bytes :: "env \<Rightarrow> fetch_blob_request \<Rightarrow> bytes handler" where
  "fetch_blob_bytes E payload =
     bindS (ok_or (parse_uuid E (fbl_blob_id payload)) (api_error BAD_REQUEST ''invalid blob id'')) (\<lambda>blob_id.
     bindS (run_sql (select_blob blob_id)) (\<lambda>found.
     ok_or found (api_error NOT_FOUND ''blob not found'')))"

definition fetch_blob :: "env \<Rightarrow> fetch_blob_request \<Rightarrow> fetch_blob_response handler" where
  "fetch_blob E payload =
     bindS (ok_or (parse_uuid E (fbl_blob_id payload)) (api_error BAD_REQUEST ''invalid blob id'')) (\<lambda>blob_id.
     bindS (run_sql (select_blob blob_id)) (\<lambda>found.
     bindS (ok_or found (api_error NOT_FOUND ''blob not found'')) (\<lambda>data.
     returnS \<lparr>fblr_data_b64 = b64_encode E data\<rparr>)))"

section \<open>handlers/blob.rs\<close>

definition h_upload_blob :: "env \<Rightarrow> draws \<Rightarrow> headers \<Rightarrow> upload_blob_request \<Rightarrow> upload_blob_response handler" where
  "h_upload_blob E dr h payload =
     bindS (authorize_device E h) (\<lambda>auth_device. upload_blob E dr auth_device payload)"

definition h_upload_blob_bytes :: "env \<Rightarrow> draws \<Rightarrow> headers \<Rightarrow> bytes \<Rightarrow> upload_blob_response handler" where
  "h_upload_blob_bytes E dr h body =
     bindS (authorize_device E h) (\<lambda>auth_device. upload_blob_bytes E dr auth_device body)"

definition h_create_blob :: "env \<Rightarrow> draws \<Rightarrow> headers \<Rightarrow> create_blob_response handler" where
  "h_create_blob E dr h =
     bindS (authorize_device E h) (\<lambda>auth_device. create_blob E dr auth_device)"

definition h_append_blob_chunk :: "env \<Rightarrow> headers \<Rightarrow> append_blob_chunk_request \<Rightarrow> append_blob_chunk_response handler" where
  "h_append_blob_chunk E h payload =
     bindS (authorize_device E h) (\<lambda>auth_device. append_blob_chunk E auth_device payload)"

definition h_fetch_blob :: "env \<Rightarrow> headers \<Rightarrow> fetch_blob_request \<Rightarrow> fetch_blob_response handler" where
  "h_fetch_blob E h payload = bindS (authorize_device E h) (\<lambda>_. fetch_blob E payload)"

definition h_fetch_blob_bytes :: "env \<Rightarrow> headers \<Rightarrow> fetch_blob_request \<Rightarrow> bytes handler" where
  "h_fetch_blob_bytes E h payload = bindS (authorize_device E h) (\<lambda>_. fetch_blob_bytes E payload)"

lemmas [eval_simps] = upload_blob_def upload_blob_bytes_def create_blob_def append_blob_chunk_def
  fetch_blob_def fetch_blob_bytes_def h_upload_blob_def h_upload_blob_bytes_def h_create_blob_def
  h_append_blob_chunk_def h_fetch_blob_def h_fetch_blob_bytes_def

lemma moves_blob_handlers [server_moves]:
  "moves server_step (h_upload_blob E dr h p1)"
  "moves server_step (h_upload_blob_bytes E dr h p2)"
  "moves server_step (h_create_blob E dr h)"
  "moves server_step (h_append_blob_chunk E h p3)"
  "moves server_step (h_fetch_blob E h p4)"
  "moves server_step (h_fetch_blob_bytes E h p4)"
  unfolding h_upload_blob_def upload_blob_def h_upload_blob_bytes_def upload_blob_bytes_def
    h_create_blob_def create_blob_def h_append_blob_chunk_def append_blob_chunk_def
    h_fetch_blob_def fetch_blob_def h_fetch_blob_bytes_def fetch_blob_bytes_def
  by (intro server_rules server_moves)+

section \<open>Chunked uploads\<close>

definition owned_blob :: "tables \<Rightarrow> uuid \<Rightarrow> uuid \<Rightarrow> bytes \<Rightarrow> bool" where
  "owned_blob t owner i data \<longleftrightarrow> distinct (map bl_id (t_blobs t)) \<and>
     (\<exists>b\<in>set (t_blobs t). bl_id b = i \<and> bl_owner_device b = owner \<and> bl_data b = data)"

lemma find_distinct:
  assumes "distinct (map k xs)" "x \<in> set xs" "p x" "\<And>y. p y \<Longrightarrow> k y = k x"
  shows "find p xs = Some x"
  using assms
proof (induction xs)
  case (Cons y xs)
  show ?case
  proof (cases "p y")
    case True
    then have "k y = k x" using Cons.prems(4) by blast
    then have "y = x" by (rule distinct_key_eq [OF Cons.prems(1) _ Cons.prems(2), rotated]) simp
    with True show ?thesis by simp
  next
    case False
    then have x: "x \<in> set xs" using Cons.prems(2,3) by auto
    have d: "distinct (map k xs)" using Cons.prems(1) by simp
    have "find p xs = Some x" by (rule Cons.IH [OF d x Cons.prems(3,4)])
    with False show ?thesis by simp
  qed
qed simp

lemma append_blob_owned:
  assumes "owned_blob t owner i data"
  shows "append_blob owner i chunk now t = (Inr (Some (length (data @ chunk))),
      t\<lparr>t_blobs := update_where (\<lambda>b. bl_id b = i \<and> bl_owner_device b = owner)
        (\<lambda>b. b\<lparr>bl_data := bl_data b @ chunk\<rparr>) (t_blobs t)\<rparr>)"
    and "owned_blob (snd (append_blob owner i chunk now t)) owner i (data @ chunk)"
proof -
  obtain b where b: "b \<in> set (t_blobs t)" "bl_id b = i" "bl_owner_device b = owner" "bl_data b = data"
    and d: "distinct (map bl_id (t_blobs t))"
    using assms by (auto simp: owned_blob_def)
  have "find (\<lambda>b. bl_id b = i \<and> bl_owner_device b = owner) (t_blobs t) = Some b"
    using d b by (intro find_distinct [where k = bl_id]) auto
  then show one: "append_blob owner i chunk now t = (Inr (Some (length (data @ chunk))),
      t\<lparr>t_blobs := update_where (\<lambda>b. bl_id b = i \<and> bl_owner_device b = owner)
        (\<lambda>b. b\<lparr>bl_data := bl_data b @ chunk\<rparr>) (t_blobs t)\<rparr>)"
    using b(4) by (simp add: append_blob_def)
  show "owned_blob (snd (append_blob owner i chunk now t)) owner i (data @ chunk)"
    unfolding one owned_blob_def using b d
    by (auto simp: map_update_where)
qed

lemma select_blob_owned:
  assumes "owned_blob t owner i data"
  shows "fst (select_blob i now t) = Inr (Some data)"
proof -
  obtain b where b: "b \<in> set (t_blobs t)" "bl_id b = i" "bl_data b = data"
    and d: "distinct (map bl_id (t_blobs t))"
    using assms by (auto simp: owned_blob_def)
  have "find (\<lambda>b. bl_id b = i) (t_blobs t) = Some b"
    using d b by (intro find_distinct [where k = bl_id]) auto
  then show ?thesis using b(3) by (simp add: select_blob_def)
qed

text \<open>
  C18.  Appending a chunk.  For the owner of a blob and a chunk of at most 512 KiB, the stored
  data grows by the chunk in any case; the answer is its new size, or 413 when this is over
  100 MiB: the size is checked after the write, so a refused chunk stays stored.
\<close>

theorem append_chunk_outcome:
  assumes "presents E h d token" "faults s = []"
    and "token_valid (clock s) (tables s) d (hash_token E token)"
    and "owned_blob (tables s) d i data"
    and "parse_uuid E (ab_blob_id p) = Some i" "b64_decode E (ab_chunk_b64 p) = Some chunk"
    and "length chunk \<le> MAX_BLOB_CHUNK_BYTES"
  shows "owned_blob (tables (snd (h_append_blob_chunk E h p s))) d i (data @ chunk) \<and>
    fst (h_append_blob_chunk E h p s) =
      (if length (data @ chunk) \<le> MAX_BLOB_BYTES then Inr \<lparr>abr_size = length (data @ chunk)\<rparr>
       else Inl (api_error PAYLOAD_TOO_LARGE ''blob too large''))"
proof -
  let ?s = "s\<lparr>device_last_seen := (device_last_seen s)(d \<mapsto> clock s)\<rparr>"
  let ?q = "append_blob d i chunk (clock s) (tables s)"
  have q: "?q = (Inr (Some (length (data @ chunk))), snd ?q)"
    using append_blob_owned(1) [OF assms(4)] by simp
  have run: "run_sql (append_blob d i chunk) ?s =
      (Inr (Some (length (data @ chunk))), ?s\<lparr>tables := snd ?q\<rparr>)"
    using assms(2) q by (subst run_sql_no_faults) (auto split: prod.splits)
  have h: "h_append_blob_chunk E h p s = append_blob_chunk E d p ?s"
    by (simp add: h_append_blob_chunk_def bindS_apply authorize_ok [OF assms(1-3)])
  have small: "\<not> MAX_BLOB_CHUNK_BYTES < length chunk" using assms(7) by simp
  have body: "append_blob_chunk E d p ?s =
      bindS (reject_if (length (data @ chunk) > MAX_BLOB_BYTES) (api_error PAYLOAD_TOO_LARGE ''blob too large''))
        (\<lambda>_. returnS \<lparr>abr_size = length (data @ chunk)\<rparr>) (?s\<lparr>tables := snd ?q\<rparr>)"
    unfolding append_blob_chunk_def assms(5,6) using small run
    by (simp add: bindS_apply [of "run_sql (append_blob d i chunk)"])
  show ?thesis
    unfolding h body using append_blob_owned(2) [OF assms(4)]
    by (cases "length (data @ chunk) > MAX_BLOB_BYTES") simp_all
qed

lemma append_chunk_outcome_witness:
  "owned_blob (tables (snd (h_append_blob_chunk env0 headers0 \<lparr>ab_blob_id = ''x'', ab_chunk_b64 = ''CD''\<rparr>
      (server0\<lparr>tables := tables0\<lparr>t_blobs := [\<lparr>bl_id = 1, bl_owner_device = 1, bl_data = [65, 66],
        bl_created_at = 0\<rparr>]\<rparr>\<rparr>)))) 1 1 ([65, 66] @ [67, 68]) \<and>
   fst (h_append_blob_chunk env0 headers0 \<lparr>ab_blob_id = ''x'', ab_chunk_b64 = ''CD''\<rparr>
      (server0\<lparr>tables := tables0\<lparr>t_blobs := [\<lparr>bl_id = 1, bl_owner_device = 1, bl_data = [65, 66],
        bl_created_at = 0\<rparr>]\<rparr>\<rparr>)) =
      (if length ([65, 66 :: 8 word] @ [67, 68]) \<le> MAX_BLOB_BYTES
       then Inr \<lparr>abr_size = length ([65, 66 :: 8 word] @ [67, 68])\<rparr>
       else Inl (api_error PAYLOAD_TOO_LARGE ''blob too large''))"
  by (rule append_chunk_outcome [where token = "''T''"])
    (simp_all add: presents_def token_valid_def token_active_def hash_token_def owned_blob_def
      MAX_BLOB_CHUNK_BYTES_def)

fun append_chunks :: "env \<Rightarrow> headers \<Rightarrow> string \<Rightarrow> bytes list \<Rightarrow> unit handler" where
  "append_chunks E h i [] = returnS ()"
| "append_chunks E h i (c # cs) =
     bindS (h_append_blob_chunk E h \<lparr>ab_blob_id = i, ab_chunk_b64 = b64_encode E c\<rparr>) (\<lambda>_.
     append_chunks E h i cs)"

lemma append_Inr_owned:
  assumes "b64_laws E" "h_append_blob_chunk E h \<lparr>ab_blob_id = show_uuid E i, ab_chunk_b64 = b64_encode E c\<rparr> s = (Inr r, s')"
    and "uuid_laws E" "presents E h d token" "owned_blob (tables s) d i data"
  shows "owned_blob (tables s') d i (data @ c) \<and> length (data @ c) \<le> MAX_BLOB_BYTES \<and>
    length c \<le> MAX_BLOB_CHUNK_BYTES"
proof -
  obtain d' token' s1 where auth: "presents E h d' token'"
    "append_blob_chunk E d' \<lparr>ab_blob_id = show_uuid E i, ab_chunk_b64 = b64_encode E c\<rparr> s1 = (Inr r, s')"
    and t1: "tables s1 = tables s"
    using assms(2) unfolding h_append_blob_chunk_def by (rule authorized_Inr)
  have "d' = d" using presents_unique [OF assms(4) auth(1)] by simp
  then obtain n where q: "run_sql (append_blob d i c) s1 = (Inr (Some n), s')"
    and lim: "n \<le> MAX_BLOB_BYTES" "length c \<le> MAX_BLOB_CHUNK_BYTES"
    using auth(2) assms(1,3)
    by (auto simp: append_blob_chunk_def bindS_Inr_iff ok_or_Inr_iff reject_if_Inr_iff b64_laws_def uuid_laws_def)
  have "append_blob d i c (clock s1) (tables s) = (Inr (Some n), tables s')"
    using run_sql_Inr_frame(1) [OF q] t1 by simp
  then show ?thesis
    using append_blob_owned [OF assms(5), of c "clock s1"] lim by simp
qed

lemma append_chunks_owned:
  assumes "b64_laws E" "uuid_laws E" "presents E h d token" "owned_blob (tables s) d i data"
    and "append_chunks E h (show_uuid E i) cs s = (Inr u, s')"
  shows "owned_blob (tables s') d i (data @ concat cs)"
  using assms(4,5)
proof (induction cs arbitrary: data s)
  case (Cons c cs)
  then obtain r s1 where one: "h_append_blob_chunk E h \<lparr>ab_blob_id = show_uuid E i, ab_chunk_b64 = b64_encode E c\<rparr> s = (Inr r, s1)"
    and rest: "append_chunks E h (show_uuid E i) cs s1 = (Inr u, s')"
    by (auto simp: bindS_Inr_iff)
  show ?case
    using Cons.IH [OF _ rest, of "data @ c"] append_Inr_owned [OF assms(1) one assms(2,3) Cons.prems(1)]
    by simp
qed simp

lemma insert_blob_row:
  "insert_blob k d bs now t = (Inr i, t') \<Longrightarrow>
   \<exists>b\<in>set (t_blobs t'). bl_id b = k \<and> bl_owner_device b = d \<and> bl_data b = bs"
  by (auto simp: insert_blob_def split: if_splits)

lemma create_blob_owned:
  assumes "h_create_blob E dr h s = (Inr r, s')" "tables_wf (tables s)"
  obtains d token where "presents E h d token" "cbr_blob_id r = show_uuid E (dr 0)"
    "owned_blob (tables s') d (dr 0) []"
proof -
  obtain d token s1 where auth: "presents E h d token" and c: "create_blob E dr d s1 = (Inr r, s')"
    and t1: "tables s1 = tables s"
    using assms(1) unfolding h_create_blob_def by (rule authorized_Inr)
  then obtain i where q: "run_sql (insert_empty_blob (dr 0) d) s1 = (Inr i, s')" "cbr_blob_id r = show_uuid E i"
    by (auto simp: create_blob_def bindS_Inr_iff)
  have ins: "insert_empty_blob (dr 0) d (clock s1) (tables s) = (Inr i, tables s')"
    using run_sql_Inr_frame(1) [OF q(1)] t1 by simp
  then have "i = dr 0" by (auto simp: insert_empty_blob_def insert_blob_def split: if_splits)
  moreover have "tables_wf (tables s')"
    using movesD [OF moves_blob_handlers(3) assms(1)] assms(2)
    by (simp add: server_step_def tables_step_def)
  then have "distinct (map bl_id (t_blobs (tables s')))" by (simp add: tables_wf_def blobs_wf_def)
  then have "owned_blob (tables s') d (dr 0) []"
    using insert_blob_row [OF ins [unfolded insert_empty_blob_def]] by (simp add: owned_blob_def)
  ultimately show ?thesis using that auth q(2) by blast
qed

text \<open>
  C17.  A file uploaded in chunks comes back whole: when \<open>create_blob\<close> and then all appends of the
  chunks with its id have succeeded, a fetch of this id by any device that may fetch at all
  returns the chunks put together, in order, byte for byte.
\<close>

theorem chunked_upload_roundtrip:
  assumes "tables_wf (tables s)" "uuid_laws E" "b64_laws E"
    and "h_create_blob E dr h s = (Inr r, s1)"
    and "append_chunks E h (cbr_blob_id r) chunks s1 = (Inr u, s2)"
    and "tables s3 = tables s2"
    and "h_fetch_blob_bytes E h' \<lparr>fbl_blob_id = cbr_blob_id r\<rparr> s3 = (Inr data, s4)"
  shows "data = concat chunks"
proof -
  obtain d token where d: "presents E h d token" "cbr_blob_id r = show_uuid E (dr 0)"
    "owned_blob (tables s1) d (dr 0) []"
    using assms(4,1) by (rule create_blob_owned)
  have own: "owned_blob (tables s3) d (dr 0) (concat chunks)"
    using append_chunks_owned [OF assms(3,2) d(1,3)] assms(5,6) d(2) by simp
  obtain d' token' s5 where f: "fetch_blob_bytes E \<lparr>fbl_blob_id = cbr_blob_id r\<rparr> s5 = (Inr data, s4)"
    and t5: "tables s5 = tables s3"
    using assms(7) unfolding h_fetch_blob_bytes_def by (rule authorized_Inr)
  obtain s6 where q: "run_sql (select_blob (dr 0)) s5 = (Inr (Some data), s6)"
    using f d(2) assms(2)
    by (auto simp: fetch_blob_bytes_def bindS_Inr_iff ok_or_Inr_iff uuid_laws_def)
  show ?thesis
    using run_sql_Inr_frame(1) [OF q] select_blob_owned [OF own, of "clock s5"] t5 by simp
qed

lemma chunked_upload_roundtrip_witness:
  "projr (fst (h_fetch_blob_bytes env0 headers1 \<lparr>fbl_blob_id = ''xxx''\<rparr>
     (snd (append_chunks env0 headers0 ''xxx'' [[65], [66, 67]]
       (snd (h_create_blob env0 (\<lambda>_. 3) headers0 server0)))))) = concat [[65], [66, 67]]"
proof -
  let ?s1 = "snd (h_create_blob env0 (\<lambda>_. 3) headers0 server0)"
  let ?s2 = "snd (append_chunks env0 headers0 ''xxx'' [[65], [66, 67]] ?s1)"
  let ?f = "h_fetch_blob_bytes env0 headers1 \<lparr>fbl_blob_id = ''xxx''\<rparr> ?s2"
  note ev = eval_simps insert_empty_blob_def insert_blob_def append_blob_def select_blob_def
    device_ids_def MAX_BLOB_BYTES_def MAX_BLOB_CHUNK_BYTES_def
  have xxx: "replicate 3 CHR ''x'' = ''xxx''" by (simp add: numeral_eq_Suc)
  have create: "h_create_blob env0 (\<lambda>_. 3) headers0 server0 = (Inr \<lparr>cbr_blob_id = ''xxx''\<rparr>, ?s1)"
    by (simp add: ev xxx)
  have append: "append_chunks env0 headers0 ''xxx'' [[65], [66, 67]] ?s1 = (Inr (), ?s2)"
    by (simp add: ev)
  have "\<exists>x. fst ?f = Inr x" by (simp add: ev)
  then have fetch: "?f = (Inr (projr (fst ?f)), snd ?f)" by (metis prod.collapse sum.sel(2))
  show ?thesis
    by (rule chunked_upload_roundtrip [OF _ env0_uuid_laws env0_b64_laws create _ refl])
      (use append fetch in \<open>simp_all add: tables0_wf\<close>)
qed

end
