(* ===== verification/Call_Signaling.thy ===== *)
theory Call_Signaling
  imports Blobs
begin

text \<open>
  The in-memory queue of call signals, \<open>domain/call_signaling.rs\<close> and
  \<open>handlers/call_signaling.rs\<close>, and the contract \<open>signal_queue\<close> of a bounded queue from which
  each reader takes its own entries in order.
\<close>

section \<open>domain/call_signaling.rs\<close>

definition call_matches :: "string option \<Rightarrow> queued_call_signal \<Rightarrow> bool" where
  "call_matches wanted signal = (case wanted of
     Some call_id \<Rightarrow> call_id = cs_call_id (qs_item signal)
   | None \<Rightarrow> True)"

definition push_signal :: "queued_call_signal \<Rightarrow> queued_call_signal list \<Rightarrow> queued_call_signal list" where
  "push_signal x queue = (if length queue \<ge> MAX_SIGNAL_QUEUE then tl queue else queue) @ [x]"

definition send_call_signal :: "env \<Rightarrow> uuid \<Rightarrow> send_call_signal_request \<Rightarrow> send_call_signal_response handler" where
  "send_call_signal E auth_device payload =
     bindS (ok_or (parse_uuid E (sc_from_device_uuid payload))
       (api_error BAD_REQUEST ''invalid from device'')) (\<lambda>from_device.
     bindS (ok_or (parse_uuid E (sc_to_device_uuid payload))
       (api_error BAD_REQUEST ''invalid to device'')) (\<lambda>to_device.
     bindS (reject_if (auth_device \<noteq> from_device) (api_error FORBIDDEN ''device mismatch'')) (\<lambda>_.
     bindS (reject_if (trim (sc_call_id payload) = [] \<or> trim (sc_kind payload) = [])
       (api_error BAD_REQUEST ''invalid call signal'')) (\<lambda>_.
     bindS (run_sql (find_user_id_by_device_uuid from_device)) (\<lambda>from_found.
     bindS (ok_or from_found (api_error FORBIDDEN ''device mismatch'')) (\<lambda>from_user.
     bindS (run_sql (find_user_id_by_device_uuid to_device)) (\<lambda>to_found.
     bindS (ok_or to_found (api_error NOT_FOUND ''recipient device not found'')) (\<lambda>to_user.
     bindS (block_gate from_user to_user) (\<lambda>_.
     bindS (readS (is_online to_device)) (\<lambda>online.
     bindS (reject_if (\<not> online) (api_error CONFLICT ''recipient is offline'')) (\<lambda>_.
     bindS (readS clock) (\<lambda>now.
     let item = \<lparr>cs_call_id = sc_call_id payload, cs_from_device_uuid = show_uuid E from_device,
       cs_kind = sc_kind payload, cs_payload = sc_payload payload,
       cs_created_at_unix_ms = int (now div 1000)\<rparr> in
     bindS (modifyS (\<lambda>s. s\<lparr>call_signals :=
       push_signal \<lparr>qs_to_device_uuid = to_device, qs_item = item\<rparr> (call_signals s)\<rparr>)) (\<lambda>_.
     returnS \<lparr>scr_accepted = True\<rparr>)))))))))))))"

fun drain_signals :: "uuid \<Rightarrow> string option \<Rightarrow> nat \<Rightarrow> queued_call_signal list \<Rightarrow> call_signal_item list \<Rightarrow>
    queued_call_signal list \<Rightarrow> call_signal_item list \<times> queued_call_signal list" where
  "drain_signals d wanted limit [] signals retained = (signals, retained)"
| "drain_signals d wanted limit (signal # queue) signals retained =
     (if qs_to_device_uuid signal = d \<and> call_matches wanted signal \<and> length signals < limit
      then drain_signals d wanted limit queue (signals @ [qs_item signal]) retained
      else drain_signals d wanted limit queue signals (retained @ [signal]))"

definition fetch_call_signals :: "env \<Rightarrow> uuid \<Rightarrow> fetch_call_signals_request \<Rightarrow> fetch_call_signals_response handler" where
  "fetch_call_signals E auth_device payload =
     bindS (ok_or (parse_uuid E (fc_device_uuid payload))
       (api_error BAD_REQUEST ''invalid device uuid'')) (\<lambda>device_uuid.
     bindS (reject_if (auth_device \<noteq> device_uuid) (api_error FORBIDDEN ''device mismatch'')) (\<lambda>_.
     let limit = clamp 1 500 (case fc_limit payload of Some n \<Rightarrow> n | None \<Rightarrow> 100) in
     bindS (readS call_signals) (\<lambda>queue.
     let (signals, retained) = drain_signals device_uuid (fc_call_id payload) limit queue [] [] in
     bindS (modifyS (\<lambda>s. s\<lparr>call_signals := retained\<rparr>)) (\<lambda>_.
     returnS \<lparr>fcr_signals = signals\<rparr>))))"

definition h_send_call_signal :: "env \<Rightarrow> headers \<Rightarrow> send_call_signal_request \<Rightarrow> send_call_signal_response handler" where
  "h_send_call_signal E h payload =
     bindS (authorize_device E h) (\<lambda>auth_device. send_call_signal E auth_device payload)"

definition h_fetch_call_signals :: "env \<Rightarrow> headers \<Rightarrow> fetch_call_signals_request \<Rightarrow> fetch_call_signals_response handler" where
  "h_fetch_call_signals E h payload =
     bindS (authorize_device E h) (\<lambda>auth_device. fetch_call_signals E auth_device payload)"

lemmas [eval_simps] = call_matches_def push_signal_def send_call_signal_def fetch_call_signals_def
  h_send_call_signal_def h_fetch_call_signals_def

section \<open>The queue as an interface\<close>

text \<open>
  \<open>mine p\<close> are the entries that reader \<open>p\<close> asks for and \<open>view\<close> is what it gets to see of one.
  Putting appends, and evicts the oldest entry when the queue is full; taking hands out the
  reader's oldest entries and leaves everything else in place.
\<close>

locale signal_queue =
  fixes put :: "'x \<Rightarrow> 'q \<Rightarrow> 'q"
    and grab :: "'p \<Rightarrow> nat \<Rightarrow> 'q \<Rightarrow> 'y list \<times> 'q"
    and contents :: "'q \<Rightarrow> 'x list"
    and mine :: "'p \<Rightarrow> 'x \<Rightarrow> bool"
    and view :: "'x \<Rightarrow> 'y"
    and cap :: nat
  assumes cap_pos: "0 < cap"
    and put_contents: "contents (put x q) =
      (if length (contents q) < cap then contents q else tl (contents q)) @ [x]"
    and grab_taken: "fst (grab p n q) = map view (take n (filter (mine p) (contents q)))"
    and grab_left: "filter (mine p) (contents (snd (grab p n q))) = drop n (filter (mine p) (contents q))"
    and grab_others: "filter (\<lambda>x. \<not> mine p x) (contents (snd (grab p n q))) =
      filter (\<lambda>x. \<not> mine p x) (contents q)"
begin

lemma put_bounded: "length (contents q) \<le> cap \<Longrightarrow> length (contents (put x q)) \<le> cap"
  using cap_pos by (simp add: put_contents)

lemma put_is_last: "mine p x \<Longrightarrow> last (filter (mine p) (contents (put x q))) = x"
  by (simp add: put_contents)

lemma put_keeps: "length (contents q) < cap \<Longrightarrow> y \<in> set (contents q) \<Longrightarrow> y \<in> set (contents (put x q))"
  by (simp add: put_contents)

lemma grab_conserves: "length (fst (grab p n q)) + length (contents (snd (grab p n q))) = length (contents q)"
proof -
  have "length (filter (mine p) xs) + length (filter (\<lambda>x. \<not> mine p x) xs) = length xs" for xs
    by (rule sum_length_filter_compl)
  note split = this [of "contents (snd (grab p n q))"] this [of "contents q"]
  show ?thesis
    using split unfolding grab_left grab_others grab_taken by simp
qed

lemma grab_bounded: "length (contents q) \<le> cap \<Longrightarrow> length (contents (snd (grab p n q))) \<le> cap"
  using grab_conserves [of p n q] by linarith

lemma grab_foreign:
  assumes "\<And>x. Q x \<Longrightarrow> \<not> mine p x"
  shows "filter Q (contents (snd (grab p n q))) = filter Q (contents q)"
proof -
  have "filter Q xs = filter Q (filter (\<lambda>x. \<not> mine p x) xs)" for xs
    using assms by (induction xs) auto
  then show ?thesis using grab_others by metis
qed

text \<open>Two reads in a row give what one larger read would have given.\<close>

lemma grab_grab:
  "fst (grab p n q) @ fst (grab p m (snd (grab p n q))) = map view (take (n + m) (filter (mine p) (contents q)))"
  unfolding grab_taken grab_left map_append [symmetric] by (simp add: take_add)

end

definition wants :: "uuid \<times> string option \<Rightarrow> queued_call_signal \<Rightarrow> bool" where
  "wants p x \<longleftrightarrow> qs_to_device_uuid x = fst p \<and> call_matches (snd p) x"

definition drain_for :: "uuid \<times> string option \<Rightarrow> nat \<Rightarrow> queued_call_signal list \<Rightarrow>
    call_signal_item list \<times> queued_call_signal list" where
  "drain_for p n q = drain_signals (fst p) (snd p) n q [] []"

lemma drain_signals_eq:
  assumes "length signals \<le> n"
  shows "fst (drain_signals d c n q signals retained) =
      signals @ map qs_item (take (n - length signals) (filter (wants (d, c)) q))"
    and "filter (wants (d, c)) (snd (drain_signals d c n q signals retained)) =
      filter (wants (d, c)) retained @ drop (n - length signals) (filter (wants (d, c)) q)"
    and "filter (\<lambda>x. \<not> wants (d, c) x) (snd (drain_signals d c n q signals retained)) =
      filter (\<lambda>x. \<not> wants (d, c) x) retained @ filter (\<lambda>x. \<not> wants (d, c) x) q"
  using assms
proof (induction q arbitrary: signals retained)
  case (Cons x q)
  {
    case 1
    then show ?case using Cons.IH(1) by (auto simp: wants_def take_Cons' Suc_diff_Suc)
  next
    case 2
    then show ?case using Cons.IH(2) by (auto simp: wants_def drop_Cons' Suc_diff_Suc)
  next
    case 3
    then show ?case using Cons.IH(3) by (auto simp: wants_def)
  }
qed simp_all

interpretation cq: signal_queue push_signal drain_for "\<lambda>q. q" wants qs_item MAX_SIGNAL_QUEUE
  by unfold_locales
    (auto simp: MAX_SIGNAL_QUEUE_def push_signal_def drain_for_def drain_signals_eq)

section \<open>What the endpoints do to the queue\<close>

lemma moves_push: "moves server_step (modifyS (\<lambda>s. s\<lparr>call_signals := push_signal x (call_signals s)\<rparr>))"
  by (rule moves_modifyS) (simp_all add: cq.put_bounded)

lemma moves_send_call_signal: "moves server_step (send_call_signal E d p)"
  unfolding send_call_signal_def Let_def
  by (intro server_rules server_moves moves_push)

definition take_step :: "uuid \<times> string option \<Rightarrow> nat \<Rightarrow> fetch_call_signals_response handler" where
  "take_step w n s = (Inr \<lparr>fcr_signals = fst (drain_for w n (call_signals s))\<rparr>,
     s\<lparr>call_signals := snd (drain_for w n (call_signals s))\<rparr>)"

lemma fetch_call_signals_eq:
  "fetch_call_signals E d p =
     bindS (ok_or (parse_uuid E (fc_device_uuid p)) (api_error BAD_REQUEST ''invalid device uuid'')) (\<lambda>u.
     bindS (reject_if (d \<noteq> u) (api_error FORBIDDEN ''device mismatch'')) (\<lambda>_.
     take_step (u, fc_call_id p) (clamp 1 500 (case fc_limit p of Some n \<Rightarrow> n | None \<Rightarrow> 100))))"
  unfolding fetch_call_signals_def
  by (simp add: fun_eq_iff bindS_apply take_step_def drain_for_def Let_def
      split: option.splits prod.splits sum.splits)

lemma moves_take_step: "moves server_step (take_step w n)"
  by (intro movesI) (simp add: take_step_def server_step_def tables_step_refl cq.grab_bounded)

lemma moves_signal_handlers [server_moves]:
  "moves server_step (h_send_call_signal E h p1)"
  "moves server_step (h_fetch_call_signals E h p2)"
  unfolding h_send_call_signal_def h_fetch_call_signals_def fetch_call_signals_eq
  by (intro server_rules server_moves moves_send_call_signal moves_take_step)+

lemma is_online_cong:
  "online_devices s' = online_devices s \<Longrightarrow> device_last_seen s' d = device_last_seen s d \<Longrightarrow>
   clock s' = clock s \<Longrightarrow> is_online d s' = is_online d s"
  by (simp add: is_online_def split: option.splits)

lemma send_call_signal_Inr:
  assumes "send_call_signal E d p s = (Inr r, s')"
  obtains dest u v where "parse_uuid E (sc_from_device_uuid p) = Some d"
    "parse_uuid E (sc_to_device_uuid p) = Some dest"
    "device_owner (tables s) d = Some u" "device_owner (tables s) dest = Some v"
    "blk.gate (tables s) u v" "is_online dest s" "tables s' = tables s"
    "call_signals s' = push_signal \<lparr>qs_to_device_uuid = dest, qs_item = \<lparr>cs_call_id = sc_call_id p,
       cs_from_device_uuid = show_uuid E d, cs_kind = sc_kind p, cs_payload = sc_payload p,
       cs_created_at_unix_ms = int (clock s div 1000)\<rparr>\<rparr> (call_signals s)"
proof -
  from assms obtain dest u s1 v s2 s3 where
    pre: "parse_uuid E (sc_from_device_uuid p) = Some d" "parse_uuid E (sc_to_device_uuid p) = Some dest" and
    q1: "run_sql (find_user_id_by_device_uuid d) s = (Inr (Some u), s1)" and
    q2: "run_sql (find_user_id_by_device_uuid dest) s1 = (Inr (Some v), s2)" and
    g: "block_gate u v s2 = (Inr (), s3)" and on: "is_online dest s3" and
    s': "s' = s3\<lparr>call_signals := push_signal \<lparr>qs_to_device_uuid = dest, qs_item = \<lparr>cs_call_id = sc_call_id p,
       cs_from_device_uuid = show_uuid E d, cs_kind = sc_kind p, cs_payload = sc_payload p,
       cs_created_at_unix_ms = int (clock s3 div 1000)\<rparr>\<rparr> (call_signals s3)\<rparr>"
    unfolding send_call_signal_def bindS_Inr_iff ok_or_Inr_iff reject_if_Inr_iff Let_def by auto
  have seen: "device_last_seen s2 = device_last_seen s1" "device_last_seen s1 = device_last_seen s"
    "online_devices s2 = online_devices s1" "online_devices s1 = online_devices s"
    "call_signals s2 = call_signals s1" "call_signals s1 = call_signals s"
    using q1 q2 by (auto simp: run_sql_Inr dest: db_ok_frame)
  have seen3: "device_last_seen s3 = device_last_seen s2" "online_devices s3 = online_devices s2"
    "call_signals s3 = call_signals s2"
    using g unfolding block_gate_def bindS_Inr_iff
    by (auto simp: run_sql_Inr split: option.splits if_splits dest: db_ok_frame)
  have same: "snd (find_user_id_by_device_uuid x now t) = t" for x now t
    by (simp add: find_user_id_by_device_uuid_def)
  note f1 = read_Inr [OF q1 same] and f2 = read_Inr [OF q2 same] and f3 = block_gate_Inr [OF g]
  have t: "tables s3 = tables s" "clock s3 = clock s" using f1 f2 f3 by simp_all
  have "is_online dest s" using on is_online_cong [of s3 s dest] seen seen3 t(2) by simp
  moreover have "device_owner (tables s) d = Some u" "device_owner (tables s) dest = Some v"
    using f1(1,2) f2(1) by (simp_all add: find_user_id_by_device_uuid_def device_owner_def)
  moreover have "blk.gate (tables s) u v" using f1(2) f2(2) f3(1) by simp
  ultimately show ?thesis using that pre s' seen seen3 t by simp
qed

lemma quiet_send_prefix:
  assumes "send_call_signal E d p s = (Inl e, s')"
  shows "quiet s s'"
proof -
  let ?go = "\<lambda>a b. bindS (run_sql (find_user_id_by_device_uuid a)) (\<lambda>from_found.
     bindS (ok_or from_found (api_error FORBIDDEN ''device mismatch'')) (\<lambda>from_user.
     bindS (run_sql (find_user_id_by_device_uuid b)) (\<lambda>to_found.
     bindS (ok_or to_found (api_error NOT_FOUND ''recipient device not found'')) (\<lambda>to_user.
     bindS (block_gate from_user to_user) (\<lambda>_.
     bindS (readS (is_online b)) (\<lambda>online.
     bindS (reject_if (\<not> online) (api_error CONFLICT ''recipient is offline'')) (\<lambda>_. readS clock)))))))"
  have q: "moves quiet (?go a b)" for a b
    by (intro qt.moves_rules quiet_read quiet_block_gate) (simp_all add: find_user_id_by_device_uuid_def)
  show ?thesis
  proof (cases "\<exists>a b. parse_uuid E (sc_from_device_uuid p) = Some a \<and> parse_uuid E (sc_to_device_uuid p) = Some b \<and>
      d = a \<and> trim (sc_call_id p) \<noteq> [] \<and> trim (sc_kind p) \<noteq> []")
    case True
    then obtain a b where "parse_uuid E (sc_from_device_uuid p) = Some a"
      "parse_uuid E (sc_to_device_uuid p) = Some b" "d = a" "trim (sc_call_id p) \<noteq> []" "trim (sc_kind p) \<noteq> []"
      by blast
    then have "\<exists>e. ?go a b s = (Inl e, s')"
      using assms by (auto simp: send_call_signal_def bindS_apply Let_def split: prod.splits sum.splits)
    then show ?thesis using movesD [OF q] by blast
  next
    case False
    then have "s' = s" using assms
      by (auto simp: send_call_signal_def bindS_apply ok_or_def reject_if_def split: option.splits if_splits)
    then show ?thesis by (simp add: qt.step_refl)
  qed
qed

lemma refused_signal_quiet:
  assumes "h_send_call_signal E h p s = (Inl e, s')"
  shows "quiet s s'"
proof -
  obtain ra s1 where auth: "authorize_device E h s = (ra, s1)" by (cases "authorize_device E h s")
  have "quiet s s1" using quiet_authorize auth by (rule movesD)
  moreover have "quiet s1 s'"
  proof (cases ra)
    case (Inl e')
    then show ?thesis using assms auth by (simp add: h_send_call_signal_def bindS_apply quiet_def)
  next
    case (Inr d)
    then show ?thesis
      using assms auth by (auto simp: h_send_call_signal_def bindS_apply intro: quiet_send_prefix)
  qed
  ultimately show ?thesis by (rule qt.step_trans)
qed

text \<open>
  C15.  Sending a call signal.  It succeeds only for the authenticated device, between users
  neither of whom has blocked the other, to a device that is online; then the signal is the
  last entry of the queue, and if the queue was full, its oldest entry, whoever it was for, is
  gone.  On every error neither the queue nor any table changes.
\<close>

theorem send_call_signal_outcome:
  "case h_send_call_signal E h p s of
     (Inl e, s') \<Rightarrow> call_signals s' = call_signals s \<and> tables s' = tables s
   | (Inr r, s') \<Rightarrow> \<exists>token d dest u v. presents E h d token \<and>
       token_valid (clock s) (tables s) d (hash_token E token) \<and>
       parse_uuid E (sc_from_device_uuid p) = Some d \<and> parse_uuid E (sc_to_device_uuid p) = Some dest \<and>
       device_owner (tables s) d = Some u \<and> device_owner (tables s) dest = Some v \<and>
       \<not> blocks_rel (tables s) u v \<and> \<not> blocks_rel (tables s) v u \<and>
       (dest = d \<or> is_online dest s) \<and> tables s' = tables s \<and>
       call_signals s' = (if length (call_signals s) < MAX_SIGNAL_QUEUE then call_signals s else tl (call_signals s)) @
         [\<lparr>qs_to_device_uuid = dest, qs_item = \<lparr>cs_call_id = sc_call_id p, cs_from_device_uuid = show_uuid E d,
            cs_kind = sc_kind p, cs_payload = sc_payload p, cs_created_at_unix_ms = int (clock s div 1000)\<rparr>\<rparr>]"
proof -
  obtain r s' where h: "h_send_call_signal E h p s = (r, s')" by (cases "h_send_call_signal E h p s")
  show ?thesis
  proof (cases r)
    case (Inl e)
    then show ?thesis using refused_signal_quiet [of E h p s e s'] by (simp add: h quiet_def)
  next
    case (Inr x)
    obtain d s1 where auth: "authorize_device E h s = (Inr d, s1)" and
      send: "send_call_signal E d p s1 = (Inr x, s')"
      using h [unfolded Inr h_send_call_signal_def bindS_Inr_iff] by blast
    obtain token s0 where tok: "presents E h d token" "token_valid (clock s) (tables s) d (hash_token E token)"
      "db_ok s = (True, s0)" "s1 = s0\<lparr>device_last_seen := (device_last_seen s)(d \<mapsto> clock s)\<rparr>"
      using auth unfolding authorize_Inr_iff by blast
    have fr: "tables s1 = tables s" "clock s1 = clock s" "call_signals s1 = call_signals s"
      using authorize_frame [OF auth] by simp_all
    have on: "x = d \<or> is_online x s" if "is_online x s1" for x
    proof (cases "x = d")
      case False
      then have "is_online x s1 = is_online x s"
        using tok(3,4) authorize_frame(4) [OF auth] fr(2) by (intro is_online_cong) simp_all
      then show ?thesis using that by simp
    qed simp
    from send show ?thesis
      by (rule send_call_signal_Inr)
        (use tok(1,2) on in \<open>auto simp: h Inr fr blk.gate_iff cq.put_contents\<close>)
  qed
qed

text \<open>
  C16.  Fetching call signals.  The authenticated device gets the oldest of the entries that are
  for it (and for the call it names, if it names one), in the order in which they were sent,
  at most as many as it asks for between 1 and 500; these leave the queue, all other entries
  stay in place, and no entry is dropped or duplicated on the way.
\<close>

theorem fetch_call_signals_outcome:
  "case h_fetch_call_signals E h p s of
     (Inl e, s') \<Rightarrow> call_signals s' = call_signals s \<and> tables s' = tables s
   | (Inr r, s') \<Rightarrow> \<exists>token d. presents E h d token \<and>
       token_valid (clock s) (tables s) d (hash_token E token) \<and> parse_uuid E (fc_device_uuid p) = Some d \<and>
       (let mine = wants (d, fc_call_id p); q = call_signals s; q' = call_signals s';
            n = clamp 1 500 (case fc_limit p of Some n \<Rightarrow> n | None \<Rightarrow> 100) in
        fcr_signals r = map qs_item (take n (filter mine q)) \<and> filter mine q' = drop n (filter mine q) \<and>
        filter (\<lambda>x. \<not> mine x) q' = filter (\<lambda>x. \<not> mine x) q \<and>
        length (fcr_signals r) + length q' = length q \<and> tables s' = tables s)"
proof -
  obtain r s' where h: "h_fetch_call_signals E h p s = (r, s')" by (cases "h_fetch_call_signals E h p s")
  show ?thesis
  proof (cases r)
    case (Inl e)
    obtain ra s1 where auth: "authorize_device E h s = (ra, s1)" by (cases "authorize_device E h s")
    have "s' = s1"
      using h auth Inl
      by (cases ra) (auto simp: h_fetch_call_signals_def fetch_call_signals_eq bindS_apply take_step_def
          ok_or_def reject_if_def split: option.splits if_splits)
    then show ?thesis using authorize_frame [OF auth] by (simp add: h Inl)
  next
    case (Inr x)
    obtain d token s1 where tok: "presents E h d token" "token_valid (clock s) (tables s) d (hash_token E token)"
      and f: "fetch_call_signals E d p s1 = (Inr x, s')"
      and fr: "tables s1 = tables s" "call_signals s1 = call_signals s"
      using h [unfolded Inr h_fetch_call_signals_def] by (rule authorized_Inr)
    let ?n = "clamp 1 500 (case fc_limit p of Some n \<Rightarrow> n | None \<Rightarrow> 100)"
    have d: "parse_uuid E (fc_device_uuid p) = Some d" and "take_step (d, fc_call_id p) ?n s1 = (Inr x, s')"
      using f by (auto simp: fetch_call_signals_eq bindS_Inr_iff ok_or_Inr_iff reject_if_Inr_iff)
    then have "fcr_signals x = fst (drain_for (d, fc_call_id p) ?n (call_signals s))"
      "call_signals s' = snd (drain_for (d, fc_call_id p) ?n (call_signals s))" "tables s' = tables s"
      using fr by (auto simp: take_step_def)
    then show ?thesis
      using tok d cq.grab_taken [of "(d, fc_call_id p)" ?n "call_signals s"]
        cq.grab_left [of "(d, fc_call_id p)" ?n "call_signals s"]
        cq.grab_others [of "(d, fc_call_id p)" ?n "call_signals s"]
        cq.grab_conserves [of "(d, fc_call_id p)" ?n "call_signals s"]
      unfolding h Inr prod.case sum.case Let_def by metis
  qed
qed

end
