(* ===== verification/Realtime.thy ===== *)
theory Realtime
  imports Call_Signaling
begin

text \<open>
  A WebSocket session, \<open>run_session\<close> of \<open>domain/realtime.rs\<close> and \<open>handlers/ws.rs\<close>: what it
  sends for a sequence of poll ticks and incoming frames, and what it does to the server.
\<close>

section \<open>The session\<close>

datatype ws_incoming = WPing bytes | WClose | WEnd | WError | WOther

text \<open>A tick carries the outcomes of the sends it makes, \<open>True\<close> for success.\<close>

datatype session_event = Tick "bool list" | Incoming ws_incoming

datatype ws_out = OReady | OMessage pending_message_item | OPong bytes

definition go_offline :: "uuid \<Rightarrow> server \<Rightarrow> server" where
  "go_offline d s = s\<lparr>online_devices := online_devices s - {d}\<rparr>"

fun push_messages :: "pending_message_item list \<Rightarrow> bool list \<Rightarrow> ws_out list \<times> bool" where
  "push_messages [] oks = ([], True)"
| "push_messages (m # ms) (False # oks) = ([], False)"
| "push_messages (m # ms) (True # oks) = (let (outs, alive) = push_messages ms oks in (OMessage m # outs, alive))"
| "push_messages (m # ms) [] = (let (outs, alive) = push_messages ms [] in (OMessage m # outs, alive))"

definition open_session :: "uuid \<Rightarrow> server \<Rightarrow> ws_out list \<times> server" where
  "open_session d s =
     (let s1 = s\<lparr>online_devices := insert d (online_devices s)\<rparr>; s2 = snd (mark_online d s1 :: (api_error + unit) \<times> server)
      in ([OReady], s2))"

text \<open>One turn of the \<open>select!\<close> loop: what is sent, whether the loop goes on, the new state.\<close>

fun session_turn :: "env \<Rightarrow> uuid \<Rightarrow> session_event \<Rightarrow> server \<Rightarrow> ws_out list \<times> bool \<times> server" where
  "session_turn E d (Tick oks) s =
     (let s1 = snd (mark_online d s :: (api_error + unit) \<times> server) in
      case drain_pending_messages E d 200 s1 of
        (Inl e, s2) \<Rightarrow> ([], True, s2)
      | (Inr messages, s2) \<Rightarrow>
          (let (outs, alive) = push_messages messages oks in
           (outs, alive, if alive then s2 else go_offline d s2)))"
| "session_turn E d (Incoming (WPing payload)) s = ([OPong payload], True, s)"
| "session_turn E d (Incoming WClose) s = ([], False, go_offline d s)"
| "session_turn E d (Incoming WEnd) s = ([], False, go_offline d s)"
| "session_turn E d (Incoming WError) s = ([], False, go_offline d s)"
| "session_turn E d (Incoming WOther) s = ([], True, s)"

fun session_loop :: "env \<Rightarrow> uuid \<Rightarrow> session_event list \<Rightarrow> server \<Rightarrow> ws_out list \<times> bool \<times> server" where
  "session_loop E d [] s = ([], True, s)"
| "session_loop E d (ev # evs) s =
     (let (outs, alive, s1) = session_turn E d ev s in
      if alive then (let (outs2, alive2, s2) = session_loop E d evs s1 in (outs @ outs2, alive2, s2))
      else (outs, False, s1))"

definition run_session :: "env \<Rightarrow> uuid \<Rightarrow> session_event list \<Rightarrow> server \<Rightarrow> ws_out list \<times> bool \<times> server" where
  "run_session E d evs s =
     (let (outs, s1) = open_session d s; (outs2, alive, s2) = session_loop E d evs s1 in
      (outs @ outs2, alive, s2))"

text \<open>The upgrade itself: an authorized request is answered with 101 and the device of the session.\<close>

definition ws_realtime :: "env \<Rightarrow> headers \<Rightarrow> uuid handler" where
  "ws_realtime E h = authorize_device E h"

lemma moves_ws_realtime [server_moves]: "moves server_step (ws_realtime E h)"
  unfolding ws_realtime_def by (rule moves_authorize)

section \<open>What a session does to the server\<close>

lemma open_session_step: "server_step s (snd (open_session d s))"
  by (simp add: open_session_def mark_online_def server_step_def tables_step_refl Let_def)

lemma go_offline_step: "server_step s (go_offline d s)"
  by (simp add: go_offline_def server_step_def tables_step_refl)

lemma session_turn_step:
  assumes "session_turn E d ev s = (outs, alive, s')"
  shows "server_step s s'"
proof (cases ev)
  case (Tick oks)
  let ?s1 = "snd (mark_online d s :: (api_error + unit) \<times> server)"
  obtain r s2 where dr: "drain_pending_messages E d 200 ?s1 = (r, s2)"
    by (cases "drain_pending_messages E d 200 ?s1")
  have "server_step s ?s1" by (simp add: mark_online_def server_step_def tables_step_refl)
  moreover have "server_step ?s1 s2" using moves_drain dr by (rule movesD)
  ultimately have "server_step s s2" by (rule srv.step_trans)
  moreover have "s' = s2 \<or> s' = go_offline d s2"
    using assms dr by (auto simp: Tick Let_def split: sum.splits prod.splits if_splits)
  ultimately show ?thesis using go_offline_step srv.step_trans by blast
next
  case (Incoming i)
  then show ?thesis using assms go_offline_step srv.step_refl
    by (cases i) auto
qed

lemma push_messages_prefix:
  "\<exists>n. fst (push_messages ms oks) = map OMessage (take n ms) \<and>
     (snd (push_messages ms oks) \<longrightarrow> fst (push_messages ms oks) = map OMessage ms)"
proof (induction ms oks rule: push_messages.induct)
  case (1 oks)
  then show ?case by simp
next
  case (2 m ms oks)
  then show ?case by (intro exI [of _ 0]) simp
next
  case (3 m ms oks)
  then obtain n where "fst (push_messages ms oks) = map OMessage (take n ms)"
    "snd (push_messages ms oks) \<longrightarrow> fst (push_messages ms oks) = map OMessage ms" by blast
  then show ?case by (intro exI [of _ "Suc n"]) (auto split: prod.splits)
next
  case (4 m ms)
  then obtain n where "fst (push_messages ms []) = map OMessage (take n ms)"
    "snd (push_messages ms []) \<longrightarrow> fst (push_messages ms []) = map OMessage ms" by blast
  then show ?case by (intro exI [of _ "Suc n"]) (auto split: prod.splits)
qed

lemma mark_all_no_faults: "faults s = [] \<Longrightarrow> \<exists>s'. mark_all rows s = (Inr (), s') \<and> faults s' = []"
proof (induction rows arbitrary: s)
  case (Cons row rows)
  then show ?case
    using Cons.IH by (simp add: bindS_apply run_sql_no_faults mark_delivered_def)
qed simp

text \<open>Without database failures a drain succeeds.\<close>

lemma drain_no_faults:
  assumes "faults s = []"
  shows "\<exists>items s'. drain_pending_messages E d n s = (Inr items, s')"
proof -
  obtain rows where q: "run_sql (fetch_pending_locked d n) s = (Inr rows, s)"
    using assms by (simp add: run_sql_no_faults fetch_pending_locked_def)
  obtain s' where m: "mark_all rows s = (Inr (), s')" "faults s' = []"
    using mark_all_no_faults [OF assms] by blast
  have "transaction (bindS (run_sql (fetch_pending_locked d n)) (\<lambda>rows. bindS (mark_all rows) (\<lambda>_. returnS rows))) s
      = (Inr rows, s')"
    unfolding transaction_Inr using assms q m
    by (intro exI [of _ s] exI [of _ s']) (simp add: db_ok_no_faults bindS_apply)
  then show ?thesis by (simp add: drain_pending_messages_def bindS_apply)
qed

text \<open>
  C19.  What a poll tick sends: a prefix of the device's 200 oldest unacknowledged messages, in
  order, all of them unless a send fails, in which case the session ends and the device goes
  offline.  Delivered or not, every message stays pending until the device acknowledges it, so a
  broken connection loses nothing; a failing database leaves all rows as they were.
\<close>

theorem poll_tick_outcome:
  "case session_turn E d (Tick oks) s of (outs, alive, s') \<Rightarrow>
     (\<exists>n\<le>200. outs = map (\<lambda>m. OMessage (pending_item E (row_of m))) (take n (pending_rows (tables s) d))) \<and>
     (\<forall>d'. pending_ids (tables s') d' = pending_ids (tables s) d') \<and>
     (if alive
      then (if faults s = [] then outs = map (\<lambda>m. OMessage (pending_item E (row_of m)))
              (take 200 (pending_rows (tables s) d)) else True)
      else d \<notin> online_devices s')"
proof -
  let ?s1 = "snd (mark_online d s :: (api_error + unit) \<times> server)"
  have s1: "tables ?s1 = tables s" "faults ?s1 = faults s" "clock ?s1 = clock s" by (simp_all add: mark_online_def)
  obtain r s2 where dr: "drain_pending_messages E d 200 ?s1 = (r, s2)"
    by (cases "drain_pending_messages E d 200 ?s1")
  show ?thesis
  proof (cases r)
    case (Inl e)
    obtain t where t: "tables s2 = rollback_to (tables s) t"
      using drain_Inl [OF dr [unfolded Inl]] s1(1) by auto
    have "faults s \<noteq> []"
      using drain_no_faults [of ?s1 E d 200] dr Inl s1(2) by auto
    then show ?thesis
      using t by (simp add: dr Inl Let_def pending_ids_def pending_rows_def) (intro exI [of _ 0], simp)
  next
    case (Inr items)
    note o = drain_Inr [OF dr [unfolded Inr], unfolded s1]
    obtain outs alive where p: "push_messages items oks = (outs, alive)" by (cases "push_messages items oks")
    obtain n where n: "outs = map OMessage (take n items)" "alive \<longrightarrow> outs = map OMessage items"
      using push_messages_prefix [of items oks] p by auto
    have pend: "\<forall>d'. pending_ids (tables s2) d' = pending_ids (tables s) d'"
      unfolding o(2) by (simp add: pending_deliver_rows)
    have "outs = map (\<lambda>m. OMessage (pending_item E (row_of m))) (take (min n 200) (pending_rows (tables s) d))"
      unfolding n(1) o(1) by (simp add: take_map min.commute)
    then have "\<exists>n\<le>200. outs = map (\<lambda>m. OMessage (pending_item E (row_of m))) (take n (pending_rows (tables s) d))"
      by (intro exI [of _ "min n 200"]) simp
    moreover have "alive \<longrightarrow> outs = map (\<lambda>m. OMessage (pending_item E (row_of m))) (take 200 (pending_rows (tables s) d))"
      using n(2) o(1) by simp
    ultimately show ?thesis
      using pend by (simp add: dr Inr p Let_def go_offline_def)
  qed
qed

text \<open>
  The first frame of every session is the text \<open>ready\<close>; messages come after it, if at all.
\<close>

theorem session_starts_with_ready:
  "\<exists>rest. fst (run_session E d evs s) = OReady # rest \<and> OReady \<notin> set rest"
proof -
  have turn: "OReady \<notin> set outs" if "session_turn E d ev s = (outs, alive, s')" for ev s outs alive s'
  proof (cases ev)
    case (Tick oks)
    have "OReady \<notin> set (fst (push_messages ms oks))" for ms
      using push_messages_prefix [of ms oks] by auto
    then show ?thesis using that
      by (auto simp: Tick Let_def split: sum.splits prod.splits) (metis fst_conv)+
  next
    case (Incoming i)
    then show ?thesis using that by (cases i) auto
  qed
  have "OReady \<notin> set (fst (session_loop E d evs s))" for s
  proof (induction evs arbitrary: s)
    case (Cons ev evs)
    show ?case using turn Cons.IH by (auto split: prod.splits) (metis fst_conv)+
  qed simp
  then show ?thesis
    by (auto simp: run_session_def open_session_def Let_def split: prod.splits) (metis fst_conv)
qed

end
