(* ===== verification/Version_Gate.thy ===== *)
theory Version_Gate
  imports Realtime "HOL-Library.Product_Lexorder"
begin

text \<open>
  \<open>version_gate.rs\<close>: parsing and comparing client versions and the middleware that refuses
  clients older than the configured minimum.
\<close>

section \<open>Versions\<close>

definition is_digit :: "char \<Rightarrow> bool" where
  "is_digit c \<longleftrightarrow> 48 \<le> (of_char c :: nat) \<and> (of_char c :: nat) \<le> 57"

definition digits_value :: "string \<Rightarrow> nat" where
  "digits_value s = foldl (\<lambda>acc c. acc * 10 + (of_char c - 48)) 0 s"

text \<open>\<open>str::parse::<u64>\<close>: one optional plus sign, digits, no overflow.\<close>

definition parse_u64 :: "string \<Rightarrow> nat option" where
  "parse_u64 s =
     (let ds = (case s of c # cs \<Rightarrow> if c = CHR ''+'' then cs else s | [] \<Rightarrow> []) in
      if ds \<noteq> [] \<and> list_all is_digit ds \<and> digits_value ds < 2 ^ 64 then Some (digits_value ds) else None)"

definition is_separator :: "char \<Rightarrow> bool" where
  "is_separator c \<longleftrightarrow> c = CHR ''.'' \<or> c = CHR ''-'' \<or> c = CHR ''+''"

fun split_version :: "string \<Rightarrow> string list" where
  "split_version [] = [[]]"
| "split_version (c # cs) =
     (if is_separator c then [] # split_version cs
      else (case split_version cs of part # parts \<Rightarrow> (c # part) # parts | [] \<Rightarrow> [[c]]))"

definition unwrap_or_default :: "nat option \<Rightarrow> nat" where
  "unwrap_or_default x = (case x of Some n \<Rightarrow> n | None \<Rightarrow> 0)"

definition nth_part :: "nat list \<Rightarrow> nat \<Rightarrow> nat" where
  "nth_part parts i = (if i < length parts then parts ! i else 0)"

definition parse_version :: "string \<Rightarrow> nat \<times> nat \<times> nat" where
  "parse_version version =
     (let parts = map (\<lambda>part. unwrap_or_default (parse_u64 part)) (split_version version) in
      (nth_part parts 0, nth_part parts 1, nth_part parts 2))"

definition version_gt :: "string \<Rightarrow> string \<Rightarrow> bool" where
  "version_gt left right \<longleftrightarrow> parse_version left > parse_version right"

section \<open>The middleware\<close>

datatype http_method = GET | POST

record http_request =
  rq_method :: http_method
  rq_path :: string
  rq_headers :: headers
  rq_body :: request_body
  rq_length :: nat            \<comment> \<open>bytes of the body\<close>

datatype http_body =
    BResponse response_body
  | BError string
  | BUpgradeRequired string   \<comment> \<open>error text, minimum version and download address\<close>

record http_response =
  rs_status :: nat
  rs_body :: http_body

definition upgrade_required :: "string \<Rightarrow> http_response" where
  "upgrade_required minimum_version =
     \<lparr>rs_status = UPGRADE_REQUIRED, rs_body = BUpgradeRequired minimum_version\<rparr>"

definition require_supported_client ::
  "http_request \<Rightarrow> (http_request \<Rightarrow> server \<Rightarrow> http_response \<times> server) \<Rightarrow> server \<Rightarrow> http_response \<times> server" where
  "require_supported_client request run s =
     (if rq_path request = ''/health'' \<or> \<not> version_gt (min_client_version s) ''0.0.0'' then run request s
      else case rq_headers request ''x-rsmsg-client-version'' of
        None \<Rightarrow> (upgrade_required (min_client_version s), s)
      | Some version \<Rightarrow>
          if version_gt (min_client_version s) version then (upgrade_required (min_client_version s), s)
          else run request s)"

lemma gate_cases:
  "require_supported_client rq run s = run rq s \<or>
   require_supported_client rq run s = (upgrade_required (min_client_version s), s)"
  by (simp add: require_supported_client_def split: option.split)

section \<open>Properties\<close>

fun decimal :: "nat \<Rightarrow> string" where
  "decimal n = (if n < 10 then [char_of (48 + n)] else decimal (n div 10) @ [char_of (48 + n mod 10)])"

declare decimal.simps [simp del]

lemma digit_of_char: "n < 10 \<Longrightarrow> (of_char (char_of (48 + n) :: char) :: nat) = 48 + n"
  by simp

lemma decimal_digits: "decimal n \<noteq> [] \<and> list_all is_digit (decimal n)"
proof (induction n rule: decimal.induct)
  case (1 n)
  have d: "m < 10 \<Longrightarrow> is_digit (char_of (48 + m))" for m :: nat
    by (simp add: is_digit_def)
  show ?case
    using 1 d [of n] d [of "n mod 10"] by (subst (1 2) decimal.simps) (simp split: if_splits)
qed

lemma digits_value_snoc: "digits_value (s @ [c]) = digits_value s * 10 + (of_char c - 48)"
  by (simp add: digits_value_def)

lemma decimal_value: "digits_value (decimal n) = n"
proof (induction n rule: decimal.induct)
  case (1 n)
  show ?case
  proof (cases "n < 10")
    case True
    then show ?thesis by (subst decimal.simps) (simp add: digits_value_def)
  next
    case False
    have "digits_value (decimal n) = digits_value (decimal (n div 10)) * 10 + (48 + n mod 10 - 48)"
      using False by (subst decimal.simps) (simp add: digits_value_snoc)
    then show ?thesis using 1 [OF False] by simp
  qed
qed

lemma parse_u64_decimal: "n < 2 ^ 64 \<Longrightarrow> parse_u64 (decimal n) = Some n"
proof -
  assume n: "n < 2 ^ 64"
  have "hd (decimal n) \<noteq> CHR ''+''"
  proof
    assume "hd (decimal n) = CHR ''+''"
    moreover have "is_digit (hd (decimal n))"
      using decimal_digits [of n] by (cases "decimal n") auto
    ultimately show False by (simp add: is_digit_def)
  qed
  then show ?thesis
    using decimal_digits [of n] decimal_value [of n] n
    by (cases "decimal n") (auto simp: parse_u64_def)
qed

lemma split_version_digits:
  assumes "list_all (\<lambda>c. \<not> is_separator c) d"
  shows "split_version d = [d]" and "is_separator c \<Longrightarrow> split_version (d @ c # s) = d # split_version s"
  using assms by (induction d) auto

lemma decimal_no_separator: "list_all (\<lambda>c. \<not> is_separator c) (decimal n)"
  using decimal_digits [of n]
  by (auto simp: list_all_iff is_separator_def is_digit_def)

text \<open>
  A version as Cargo prints it: three numbers, then possibly a pre-release or build part.
\<close>

definition version_text :: "nat \<Rightarrow> nat \<Rightarrow> nat \<Rightarrow> string" where
  "version_text a b c = decimal a @ ''.'' @ decimal b @ ''.'' @ decimal c"

definition extension :: "string \<Rightarrow> bool" where
  "extension e \<longleftrightarrow> (case e of [] \<Rightarrow> True | c # _ \<Rightarrow> is_separator c)"

text \<open>Reading a printed version gives back its three numbers in their order.\<close>

lemma parse_version_text:
  assumes "a < 2 ^ 64" "b < 2 ^ 64" "c < 2 ^ 64" "extension e"
  shows "parse_version (version_text a b c @ e) = (a, b, c)"
proof -
  have dot: "is_separator CHR ''.''" by (simp add: is_separator_def)
  note split = split_version_digits [OF decimal_no_separator]
  have "\<exists>rest. split_version (decimal c @ e) = decimal c # rest"
    using assms(4) split by (cases e) (auto simp: extension_def)
  then obtain rest where "split_version (version_text a b c @ e) = decimal a # decimal b # decimal c # rest"
    using split(2) [OF dot] by (auto simp: version_text_def)
  then show ?thesis
    using assms(1-3) by (simp add: parse_version_def parse_u64_decimal unwrap_or_default_def nth_part_def)
qed

lemma split_version_sub: "p \<in> set (split_version v) \<Longrightarrow> set p \<subseteq> set v"
proof (induction v arbitrary: p)
  case (Cons c cs)
  show ?case
  proof (cases "split_version cs")
    case Nil
    then show ?thesis using Cons.prems by (auto split: if_splits)
  next
    case (Cons q qs)
    then have "set q \<subseteq> set cs" "r \<in> set qs \<Longrightarrow> set r \<subseteq> set cs" for r using Cons.IH by simp_all
    then show ?thesis using Cons.prems Cons by (auto split: if_splits)
  qed
qed simp

text \<open>A text without digits counts as 0.0.0.\<close>

lemma no_numbers:
  assumes "list_all (\<lambda>c. \<not> is_digit c) v"
  shows "parse_version v = (0, 0, 0)"
proof -
  have "parse_u64 p = None" if "p \<in> set (split_version v)" for p
  proof -
    have no: "\<not> (ds \<noteq> [] \<and> list_all is_digit ds)" if "set ds \<subseteq> set v" for ds
      using assms that by (cases ds) (auto simp: list_all_iff)
    note sub = split_version_sub [OF that]
    then have "set (tl p) \<subseteq> set v" by (cases p) auto
    then show ?thesis using no [OF sub] no [of "tl p"] by (cases p) (auto simp: parse_u64_def Let_def)
  qed
  then have "nth_part (map (\<lambda>part. unwrap_or_default (parse_u64 part)) (split_version v)) i = 0" for i
    by (simp add: nth_part_def unwrap_or_default_def)
  then show ?thesis by (simp add: parse_version_def Let_def)
qed

lemma gate_eq:
  "require_supported_client rq run s =
     (if rq_path rq = ''/health'' \<or> parse_version (min_client_version s) \<le> (0, 0, 0) \<or>
         (\<exists>v. rq_headers rq ''x-rsmsg-client-version'' = Some v \<and>
            parse_version (min_client_version s) \<le> parse_version v)
      then run rq s else (upgrade_required (min_client_version s), s))"
proof -
  have "parse_version ''0.0.0'' = (0, 0, 0)"
    by (simp add: parse_version_def is_separator_def parse_u64_def is_digit_def digits_value_def
        unwrap_or_default_def nth_part_def)
  then show ?thesis
    by (auto simp: require_supported_client_def version_gt_def not_less split: option.splits)
qed

text \<open>
  C20.  The gate compares versions as one reads them.  Let the configured minimum be the text of
  the version \<open>a.b.c\<close>.  Unless this is 0.0.0 or the request is for \<open>/health\<close>, a request without
  the version header is answered 426 with the minimum and changes nothing; a request whose
  header is the text of \<open>x.y.z\<close>, with any pre-release or build part behind it, is served exactly
  when \<open>x.y.z\<close> is at least \<open>a.b.c\<close>, the major number deciding first, then the minor, then the
  patch; and a header in which nothing is a number is served like 0.0.0, that is refused.
\<close>

theorem gate_passes_iff:
  assumes "min_client_version s = version_text a b c" "a < 2 ^ 64" "b < 2 ^ 64" "c < 2 ^ 64"
    and "refused = (\<lparr>rs_status = 426, rs_body = BUpgradeRequired (version_text a b c)\<rparr>, s)"
    and "open = (rq_path rq = ''/health'' \<or> a = 0 \<and> b = 0 \<and> c = 0)"
  shows "(rq_headers rq ''x-rsmsg-client-version'' = None \<longrightarrow>
      require_supported_client rq run s = (if open then run rq s else refused)) \<and>
    (\<forall>x y z e. rq_headers rq ''x-rsmsg-client-version'' = Some (version_text x y z @ e) \<and>
        x < 2 ^ 64 \<and> y < 2 ^ 64 \<and> z < 2 ^ 64 \<and> extension e \<longrightarrow>
      require_supported_client rq run s =
        (if open \<or> a < x \<or> a = x \<and> (b < y \<or> b = y \<and> c \<le> z) then run rq s else refused)) \<and>
    (\<forall>v. rq_headers rq ''x-rsmsg-client-version'' = Some v \<and> list_all (\<lambda>c. \<not> is_digit c) v \<longrightarrow>
      require_supported_client rq run s = (if open then run rq s else refused))"
proof -
  have m: "parse_version (min_client_version s) = (a, b, c)"
    using parse_version_text [OF assms(2-4), of "[]"] assms(1) by (simp add: extension_def)
  have refusal: "(upgrade_required (min_client_version s), s) = refused"
    using assms(1,5) by (simp add: upgrade_required_def)
  have zero: "(a, b, c) \<le> (0, 0, 0) \<longleftrightarrow> a = 0 \<and> b = 0 \<and> c = 0" by auto
  have lex: "(a, b, c) \<le> (x, y, z) \<longleftrightarrow> a < x \<or> a = x \<and> (b < y \<or> b = y \<and> c \<le> z)" for x y z by auto
  note gate = gate_eq [of rq run s, unfolded m refusal zero]
  show ?thesis
    unfolding gate assms(6) using parse_version_text
    by (auto simp: lex no_numbers zero)
qed

text \<open>A minimum of 1.10.0: version 1.9.7 is refused and version 1.12.0-beta is served.\<close>

lemma gate_passes_iff_witness:
  "let s = server0\<lparr>min_client_version := version_text 1 10 0\<rparr>;
       run = (\<lambda>rq s. (\<lparr>rs_status = 200, rs_body = BResponse PEmpty\<rparr>, s));
       rq = (\<lambda>v. \<lparr>rq_method = GET, rq_path = ''/v1/ws'', rq_headers = [''x-rsmsg-client-version'' \<mapsto> v],
         rq_body = QNone, rq_length = 0\<rparr>) in
   rs_status (fst (require_supported_client (rq (version_text 1 9 7 @ [])) run s)) = 426 \<and>
   rs_status (fst (require_supported_client (rq (version_text 1 12 0 @ ''-beta'')) run s)) = 200"
proof -
  let ?s = "server0\<lparr>min_client_version := version_text 1 10 0\<rparr>"
  let ?run = "\<lambda>rq s. (\<lparr>rs_status = 200, rs_body = BResponse PEmpty\<rparr>, s)"
  let ?rq = "\<lambda>v. \<lparr>rq_method = GET, rq_path = ''/v1/ws'', rq_headers = [''x-rsmsg-client-version'' \<mapsto> v],
      rq_body = QNone, rq_length = 0\<rparr>"
  have gate: "require_supported_client (?rq v) ?run ?s =
      (if a < x \<or> a = x \<and> (b < y \<or> b = y \<and> c \<le> z) then ?run (?rq v) ?s
       else (\<lparr>rs_status = 426, rs_body = BUpgradeRequired (version_text 1 10 0)\<rparr>, ?s))"
    if "v = version_text x y z @ e" "x < 2 ^ 64" "y < 2 ^ 64" "z < 2 ^ 64" "extension e" "(a, b, c) = (1, 10, 0)"
    for v x y z e a b c
    using gate_passes_iff [of ?s 1 10 0 _ False "?rq v" ?run, OF _ _ _ _ refl] that by simp
  show ?thesis
    using gate [OF refl, of 1 9 7 "[]" 1 10 0] gate [OF refl, of 1 12 0 "''-beta''" 1 10 0]
    by (simp add: extension_def is_separator_def Let_def)
qed

end
