(* ===== verification/Router.thy ===== *)
theory Router
  imports Version_Gate
begin

text \<open>
  The HTTP surface: \<open>router.rs\<close>, \<open>handlers/health.rs\<close>, \<open>IntoResponse\<close> of \<open>api_error.rs\<close>,
  \<open>log_stats\<close> of \<open>services/stats.rs\<close> and the start-up state of \<open>main.rs\<close>.  The steps of the whole
  server (requests, WebSocket sessions, the passing of time) are the relation \<open>server_runs\<close>.
\<close>

section \<open>Routes\<close>

definition MAX_REQUEST_BODY_BYTES :: nat where
  "MAX_REQUEST_BODY_BYTES = 200 * 1024 * 1024"

datatype route =
    RHealth
  | RUserRegister
  | RUserLogin
  | RUserSearch
  | RUserOnline
  | RBlockUser
  | RUnblockUser
  | RBlockedUsers
  | RResolveUser
  | RResolveDevice
  | RWs
  | RRegisterDevice
  | RDeviceLogin
  | RDeviceLogout
  | RUploadPrekeys
  | RFetchPrekeyBundle
  | RSendMessage
  | RFetchPending
  | RAckMessage
  | RMessageStatus
  | RSendCallSignal
  | RFetchCallSignals
  | RUploadBlob
  | RFetchBlob
  | RUploadBlobBytes
  | RFetchBlobBytes
  | RCreateBlob
  | RAppendBlobChunk

definition route_table :: "(http_method \<times> string \<times> route) list" where
  "route_table = [
     (GET, ''/health'', RHealth),
     (POST, ''/v1/user_register'', RUserRegister),
     (POST, ''/v1/user_login'', RUserLogin),
     (POST, ''/v1/user_search'', RUserSearch),
     (POST, ''/v1/user_online'', RUserOnline),
     (POST, ''/v1/block_user'', RBlockUser),
     (POST, ''/v1/unblock_user'', RUnblockUser),
     (POST, ''/v1/blocked_users'', RBlockedUsers),
     (POST, ''/v1/resolve_user'', RResolveUser),
     (POST, ''/v1/resolve_device'', RResolveDevice),
     (GET, ''/v1/ws'', RWs),
     (POST, ''/v1/register_device'', RRegisterDevice),
     (POST, ''/v1/device_login'', RDeviceLogin),
     (POST, ''/v1/device_logout'', RDeviceLogout),
     (POST, ''/v1/upload_prekeys'', RUploadPrekeys),
     (POST, ''/v1/fetch_prekey_bundle'', RFetchPrekeyBundle),
     (POST, ''/v1/send_message'', RSendMessage),
     (POST, ''/v1/fetch_pending'', RFetchPending),
     (POST, ''/v1/ack_message'', RAckMessage),
     (POST, ''/v1/message_status'', RMessageStatus),
     (POST, ''/v1/send_call_signal'', RSendCallSignal),
     (POST, ''/v1/fetch_call_signals'', RFetchCallSignals),
     (POST, ''/v1/upload_blob'', RUploadBlob),
     (POST, ''/v1/fetch_blob'', RFetchBlob),
     (POST, ''/v1/upload_blob_bytes'', RUploadBlobBytes),
     (POST, ''/v1/fetch_blob_bytes'', RFetchBlobBytes),
     (POST, ''/v1/create_blob'', RCreateBlob),
     (POST, ''/v1/append_blob_chunk'', RAppendBlobChunk)
   ]"

definition find_route :: "http_method \<Rightarrow> string \<Rightarrow> route option" where
  "find_route m path = map_option (\<lambda>(_, _, rt). rt) (find (\<lambda>(m', path', _). m' = m \<and> path' = path) route_table)"

section \<open>Responses\<close>

definition into_response :: "api_error \<Rightarrow> http_response" where
  "into_response e = \<lparr>rs_status = ae_status e, rs_body = BError (ae_message e)\<rparr>"

definition reply :: "('a \<Rightarrow> response_body) \<Rightarrow> 'a handler \<Rightarrow> server \<Rightarrow> http_response \<times> server" where
  "reply f m s = (case m s of
     (Inl e, s') \<Rightarrow> (into_response e, s')
   | (Inr x, s') \<Rightarrow> (\<lparr>rs_status = 200, rs_body = BResponse (f x)\<rparr>, s'))"

definition health :: "server \<Rightarrow> http_response \<times> server" where
  "health s = (let (ok, s') = db_ok s in
     (\<lparr>rs_status = (if ok then 200 else SERVICE_UNAVAILABLE), rs_body = BResponse PEmpty\<rparr>, s'))"

definition upgrade :: "uuid handler \<Rightarrow> server \<Rightarrow> http_response \<times> server" where
  "upgrade m s = (case m s of
     (Inl e, s') \<Rightarrow> (into_response e, s')
   | (Inr d, s') \<Rightarrow> (\<lparr>rs_status = 101, rs_body = BResponse PUpgrade\<rparr>, s'))"

text \<open>
  \<open>refuse\<close> stands for what axum answers by itself: unknown path or method, a body that is over
  the limit or does not deserialise, headers that are no WebSocket handshake.  The extractors run
  before the handler; routes without a body extractor do not look at the body.
\<close>

definition limited_body :: "http_request \<Rightarrow> request_body" where
  "limited_body rq = (if rq_length rq \<le> MAX_REQUEST_BODY_BYTES then rq_body rq else QNone)"

primrec run_route :: "route \<Rightarrow> (http_request \<Rightarrow> http_response) \<Rightarrow> env \<Rightarrow> draws \<Rightarrow> headers \<Rightarrow>
    http_request \<Rightarrow> server \<Rightarrow> http_response \<times> server" where
  "run_route RHealth refuse E dr h rq s =
     health s"
| "run_route RUserRegister refuse E dr h rq s =
     (case limited_body rq of QUserRegister p \<Rightarrow> reply PUserRegister (h_user_register E dr p) s | _ \<Rightarrow> (refuse rq, s))"
| "run_route RUserLogin refuse E dr h rq s =
     (case limited_body rq of QUserLogin p \<Rightarrow> reply PUserLogin (h_user_login E p) s | _ \<Rightarrow> (refuse rq, s))"
| "run_route RUserSearch refuse E dr h rq s =
     (case limited_body rq of QUserSearch p \<Rightarrow> reply PUserSearch (h_user_search E p) s | _ \<Rightarrow> (refuse rq, s))"
| "run_route RUserOnline refuse E dr h rq s =
     (case limited_body rq of QUserOnline p \<Rightarrow> reply PUserOnline (h_user_online p) s | _ \<Rightarrow> (refuse rq, s))"
| "run_route RBlockUser refuse E dr h rq s =
     (case limited_body rq of QBlockUser p \<Rightarrow> reply PBlockUser (h_block_user E h p) s | _ \<Rightarrow> (refuse rq, s))"
| "run_route RUnblockUser refuse E dr h rq s =
     (case limited_body rq of QUnblockUser p \<Rightarrow> reply PUnblockUser (h_unblock_user E h p) s | _ \<Rightarrow> (refuse rq, s))"
| "run_route RBlockedUsers refuse E dr h rq s =
     reply PBlockedUsers (h_blocked_users E h) s"
| "run_route RResolveUser refuse E dr h rq s =
     (case limited_body rq of QResolveUser p \<Rightarrow> reply PResolveUser (h_resolve_user E p) s | _ \<Rightarrow> (refuse rq, s))"
| "run_route RResolveDevice refuse E dr h rq s =
     (case limited_body rq of QResolveDevice p \<Rightarrow> reply PResolveDevice (h_resolve_device E p) s | _ \<Rightarrow> (refuse rq, s))"
| "run_route RWs refuse E dr h rq s =
     (if ws_handshake E h then upgrade (ws_realtime E h) s else (refuse rq, s))"
| "run_route RRegisterDevice refuse E dr h rq s =
     (case limited_body rq of QRegisterDevice p \<Rightarrow> reply PRegisterDevice (h_register_device E dr p) s | _ \<Rightarrow> (refuse rq, s))"
| "run_route RDeviceLogin refuse E dr h rq s =
     (case limited_body rq of QDeviceLogin p \<Rightarrow> reply PDeviceLogin (h_device_login E dr p) s | _ \<Rightarrow> (refuse rq, s))"
| "run_route RDeviceLogout refuse E dr h rq s =
     (case limited_body rq of QDeviceLogout p \<Rightarrow> reply PDeviceLogout (h_device_logout E h p) s | _ \<Rightarrow> (refuse rq, s))"
| "run_route RUploadPrekeys refuse E dr h rq s =
     (case limited_body rq of QUploadPrekeys p \<Rightarrow> reply PUploadPrekeys (h_upload_prekeys E h p) s | _ \<Rightarrow> (refuse rq, s))"
| "run_route RFetchPrekeyBundle refuse E dr h rq s =
     (case limited_body rq of QFetchPrekeyBundle p \<Rightarrow> reply PFetchPrekeyBundle (h_fetch_prekey_bundle E p) s | _ \<Rightarrow> (refuse rq, s))"
| "run_route RSendMessage refuse E dr h rq s =
     (case limited_body rq of QSendMessage p \<Rightarrow> reply PSendMessage (h_send_message E dr h p) s | _ \<Rightarrow> (refuse rq, s))"
| "run_route RFetchPending refuse E dr h rq s =
     (case limited_body rq of QFetchPending p \<Rightarrow> reply PFetchPending (h_fetch_pending E h p) s | _ \<Rightarrow> (refuse rq, s))"
| "run_route RAckMessage refuse E dr h rq s =
     (case limited_body rq of QAckMessage p \<Rightarrow> reply PAckMessage (h_ack_message E h p) s | _ \<Rightarrow> (refuse rq, s))"
| "run_route RMessageStatus refuse E dr h rq s =
     (case limited_body rq of QMessageStatus p \<Rightarrow> reply PMessageStatus (h_message_status E h p) s | _ \<Rightarrow> (refuse rq, s))"
| "run_route RSendCallSignal refuse E dr h rq s =
     (case limited_body rq of QSendCallSignal p \<Rightarrow> reply PSendCallSignal (h_send_call_signal E h p) s | _ \<Rightarrow> (refuse rq, s))"
| "run_route RFetchCallSignals refuse E dr h rq s =
     (case limited_body rq of QFetchCallSignals p \<Rightarrow> reply PFetchCallSignals (h_fetch_call_signals E h p) s | _ \<Rightarrow> (refuse rq, s))"
| "run_route RUploadBlob refuse E dr h rq s =
     (case limited_body rq of QUploadBlob p \<Rightarrow> reply PUploadBlob (h_upload_blob E dr h p) s | _ \<Rightarrow> (refuse rq, s))"
| "run_route RFetchBlob refuse E dr h rq s =
     (case limited_body rq of QFetchBlob p \<Rightarrow> reply PFetchBlob (h_fetch_blob E h p) s | _ \<Rightarrow> (refuse rq, s))"
| "run_route RUploadBlobBytes refuse E dr h rq s =
     (case limited_body rq of QBytes p \<Rightarrow> reply PUploadBlob (h_upload_blob_bytes E dr h p) s | _ \<Rightarrow> (refuse rq, s))"
| "run_route RFetchBlobBytes refuse E dr h rq s =
     (case limited_body rq of QFetchBlob p \<Rightarrow> reply PBytes (h_fetch_blob_bytes E h p) s | _ \<Rightarrow> (refuse rq, s))"
| "run_route RCreateBlob refuse E dr h rq s =
     reply PCreateBlob (h_create_blob E dr h) s"
| "run_route RAppendBlobChunk refuse E dr h rq s =
     (case limited_body rq of QAppendBlobChunk p \<Rightarrow> reply PAppendBlobChunk (h_append_blob_chunk E h p) s | _ \<Rightarrow> (refuse rq, s))"

definition handle_request :: "(http_request \<Rightarrow> http_response) \<Rightarrow> env \<Rightarrow> draws \<Rightarrow> http_request \<Rightarrow> server \<Rightarrow>
    http_response \<times> server" where
  "handle_request refuse E dr request = require_supported_client request (\<lambda>rq s.
     case find_route (rq_method rq) (rq_path rq) of
       None \<Rightarrow> (refuse rq, s)
     | Some rt \<Rightarrow> run_route rt refuse E dr (rq_headers rq) rq s)"

section \<open>The server as a whole\<close>

definition log_stats :: "server \<Rightarrow> server_stats option \<times> server" where
  "log_stats s = (case run_sql fetch_server_stats s of
     (Inr st, s') \<Rightarrow> (Some st, s') | (Inl e, s') \<Rightarrow> (None, s'))"

definition start_server :: "tables \<Rightarrow> bool list \<Rightarrow> timestamp \<Rightarrow> string option \<Rightarrow> server" where
  "start_server t fs now min_version = \<lparr>tables = t, faults = fs, clock = now, limiter = (\<lambda>_. None),
     min_client_version = (case min_version of Some v \<Rightarrow> v | None \<Rightarrow> ''0.0.0''),
     online_devices = {}, device_last_seen = (\<lambda>_. None), call_signals = []\<rparr>"

text \<open>
  One step: a request, the opening or one turn of a WebSocket session of a device, the
  statistics job, or time passing (and with it the weather of the database).
\<close>

inductive server_runs :: "(http_request \<Rightarrow> http_response) \<Rightarrow> env \<Rightarrow> server \<Rightarrow> server \<Rightarrow> bool"
  for refuse E where
  request: "handle_request refuse E dr rq s = (resp, s') \<Longrightarrow> server_runs refuse E s s'"
| opened: "open_session d s = (outs, s') \<Longrightarrow> server_runs refuse E s s'"
| turn: "session_turn E d ev s = (outs, alive, s') \<Longrightarrow> server_runs refuse E s s'"
| stats: "log_stats s = (st, s') \<Longrightarrow> server_runs refuse E s s'"
| tick: "clock s \<le> now \<Longrightarrow> server_runs refuse E s (s\<lparr>clock := now, faults := fs\<rparr>)"

inductive server_reaches :: "(http_request \<Rightarrow> http_response) \<Rightarrow> env \<Rightarrow> server \<Rightarrow> server \<Rightarrow> bool"
  for refuse E where
  start: "server_reaches refuse E s s"
| more: "server_reaches refuse E s s' \<Longrightarrow> server_runs refuse E s' s'' \<Longrightarrow> server_reaches refuse E s s''"

inductive_cases server_runsE: "server_runs refuse E s s'"
inductive_cases server_reachesE: "server_reaches refuse E s s'"

section \<open>Every step respects the invariant\<close>

lemma reply_step: "moves server_step m \<Longrightarrow> server_step s (snd (reply f m s))"
  by (cases "m s") (auto simp: reply_def dest: movesD split: sum.splits)

lemma upgrade_step: "moves server_step m \<Longrightarrow> server_step s (snd (upgrade m s))"
  by (cases "m s") (auto simp: upgrade_def dest: movesD split: sum.splits)

lemma health_step: "server_step s (snd (health s))"
  by (cases "db_ok s") (auto simp: health_def server_step_def tables_step_refl dest: db_ok_frame)

lemma run_route_step: "server_step s (snd (run_route rt refuse E dr h rq s))"
  by (cases rt)
    (simp_all add: reply_step upgrade_step health_step server_moves srv.step_refl split: request_body.split)

lemma handle_request_cases:
  obtains (gate) "handle_request refuse E dr rq s = (upgrade_required (min_client_version s), s)"
    | (unknown) "find_route (rq_method rq) (rq_path rq) = None" "handle_request refuse E dr rq s = (refuse rq, s)"
    | (routed) rt where "find_route (rq_method rq) (rq_path rq) = Some rt"
      "handle_request refuse E dr rq s = run_route rt refuse E dr (rq_headers rq) rq s"
proof -
  let ?run = "\<lambda>rq s. case find_route (rq_method rq) (rq_path rq) of
     None \<Rightarrow> (refuse rq, s) | Some rt \<Rightarrow> run_route rt refuse E dr (rq_headers rq) rq s"
  consider "handle_request refuse E dr rq s = (upgrade_required (min_client_version s), s)"
    | "handle_request refuse E dr rq s = ?run rq s"
    using gate_cases [of rq ?run s] unfolding handle_request_def by blast
  then show ?thesis
  proof cases
    case 2
    then show ?thesis using unknown routed by (cases "find_route (rq_method rq) (rq_path rq)") simp_all
  qed (rule gate)
qed

lemma handle_request_step: "server_step s (snd (handle_request refuse E dr rq s))"
  by (cases rule: handle_request_cases [of refuse E dr rq s]) (simp_all add: run_route_step srv.step_refl)

lemma moves_log_stats: "server_step s (snd (log_stats s))"
proof -
  have "moves server_step (run_sql fetch_server_stats)" by (intro server_rules)
  then show ?thesis by (cases "run_sql fetch_server_stats s") (auto simp: log_stats_def dest: movesD split: sum.splits)
qed

lemma server_runs_step: "server_runs refuse E s s' \<Longrightarrow> server_step s s'"
proof (induction rule: server_runs.induct)
  case (request dr rq s resp s')
  then show ?case using handle_request_step [of s refuse E dr rq] by simp
next
  case (opened d s outs s')
  then show ?case using open_session_step [of s d] by simp
next
  case (turn d ev s outs alive s')
  then show ?case by (rule session_turn_step)
next
  case (stats s st s')
  then show ?case using moves_log_stats [of s] by simp
next
  case (tick s now fs)
  then show ?case by (simp add: server_step_def tables_step_refl)
qed

lemma server_reaches_step: "server_reaches refuse E s s' \<Longrightarrow> server_step s s'"
  by (induction rule: server_reaches.induct) (blast intro: srv.step_refl srv.step_trans server_runs_step)+

text \<open>
  C1.  The server never breaks its data.  From a start on well-formed tables, whatever requests
  come, with whatever database failures and WebSocket sessions, the tables stay well formed
  (unique keys, no dangling reference, no self block, an invite is used exactly when it names
  its user), the queue of call signals stays within 2048 entries, and nothing is forgotten: no
  row of a user, device, prekey, message, token, blob or invite disappears, delivery and
  acknowledgement times, consumption, revocation and invite use are final, a blob only grows.
\<close>

theorem server_invariant:
  assumes "tables_wf t" "server_reaches refuse E (start_server t fs now v) s"
  shows "tables_wf (tables s) \<and> tables_grow t (tables s) \<and> length (call_signals s) \<le> MAX_SIGNAL_QUEUE"
  using server_reaches_step [OF assms(2)] assms(1)
  by (simp add: server_step_def tables_step_def start_server_def MAX_SIGNAL_QUEUE_def)

lemma server_invariant_witness:
  "tables_wf (tables (start_server tables0 [] 5 None)) \<and>
   tables_grow tables0 (tables (start_server tables0 [] 5 None)) \<and>
   length (call_signals (start_server tables0 [] 5 None)) \<le> MAX_SIGNAL_QUEUE"
  by (rule server_invariant [OF tables0_wf server_reaches.start])

section \<open>Authentication comes first\<close>

definition public_routes :: "route list" where
  "public_routes = [RHealth, RUserRegister, RUserLogin, RUserSearch, RUserOnline, RResolveUser,
     RResolveDevice, RRegisterDevice, RDeviceLogin, RFetchPrekeyBundle]"

lemma authorize_Inl_state:
  assumes "authorize_device E h s = (Inl e, s')"
  shows "\<exists>fs. s' = s\<lparr>faults := fs\<rparr>"
proof -
  have same: "\<exists>fs. s = s\<lparr>faults := fs\<rparr>" by (rule exI [of _ "faults s"]) simp
  obtain b s1 where d: "db_ok s = (b, s1)" by (cases "db_ok s")
  have q: "run_sql (is_token_active dev th) s = (if b then (Inr (token_valid (clock s) (tables s) dev th), s1)
      else (Inl api_error_database, s1))" for dev th
    using db_ok_frame [OF d] by (simp add: run_sql_def d is_token_active_def token_valid_def)
  have "s' = s \<or> s' = s1"
    using assms by (auto simp: authorize_device_def bindS_apply ok_or_def q mark_online_def
        split: option.splits if_splits)
  then show ?thesis using same db_ok_eq [OF d] by blast
qed

lemma reply_unauthorized:
  assumes "\<nexists>d token. presents E h d token \<and> token_valid (clock s) (tables s) d (hash_token E token)"
    and "m = bindS (authorize_device E h) body"
  shows "\<exists>fs. snd (reply f m s) = s\<lparr>faults := fs\<rparr>" "rs_status (fst (reply f m s)) \<in> {401, 500}"
proof -
  obtain r s' where a: "authorize_device E h s = (r, s')" by (cases "authorize_device E h s")
  have "\<nexists>d. r = Inr d" using assms(1) a authorize_Inr_iff by blast
  then obtain e where e: "r = Inl e" by (cases r) auto
  then have "m s = (Inl e, s')" using a assms(2) by (simp add: bindS_apply)
  then show "\<exists>fs. snd (reply f m s) = s\<lparr>faults := fs\<rparr>" "rs_status (fst (reply f m s)) \<in> {401, 500}"
    using authorize_Inl_state [OF a [unfolded e]] authorize_Inl_status [OF a [unfolded e]]
    by (auto simp: reply_def into_response_def api_error_database_def api_error_def)
qed

definition harmless :: "http_response \<Rightarrow> server \<Rightarrow> http_response \<times> server \<Rightarrow> bool" where
  "harmless refusal s out \<longleftrightarrow> (\<exists>fs. snd out = s\<lparr>faults := fs\<rparr>) \<and>
     (fst out = refusal \<or> rs_status (fst out) \<in> {401, 426, 500})"

lemma harmless_same: "fst out = refusal \<or> rs_status (fst out) \<in> {401, 426, 500} \<Longrightarrow> snd out = s \<Longrightarrow> harmless refusal s out"
  unfolding harmless_def by (auto intro: exI [of _ "faults s"])

lemma harmless_reply:
  assumes "\<nexists>d token. presents E h d token \<and> token_valid (clock s) (tables s) d (hash_token E token)"
    and "m = bindS (authorize_device E h) body"
  shows "harmless refusal s (reply f m s)"
  using reply_unauthorized [OF assms] by (auto simp: harmless_def)

text \<open>
  C2.  Authentication comes first.  On every route that is not public, a request that does not
  present a device id with a valid token of this device changes nothing on the server, and the
  answer is 401 (500 if the database fails, 426 from the version gate) or a refusal by axum.
\<close>

theorem unauthenticated_changes_nothing:
  assumes "find_route (rq_method rq) (rq_path rq) = Some rt" "rt \<notin> set public_routes"
    and "\<nexists>d token. presents E (rq_headers rq) d token \<and>
      token_valid (clock s) (tables s) d (hash_token E token)"
  shows "(\<exists>fs. snd (handle_request refuse E dr rq s) = s\<lparr>faults := fs\<rparr>) \<and>
    (fst (handle_request refuse E dr rq s) = refuse rq \<or>
     rs_status (fst (handle_request refuse E dr rq s)) \<in> {401, 426, 500})"
proof -
  let ?ok = "harmless (refuse rq) s"
  note un = harmless_reply [OF assms(3)]
  have ws: "?ok (upgrade (ws_realtime E (rq_headers rq)) s)"
  proof -
    obtain r s' where a: "authorize_device E (rq_headers rq) s = (r, s')"
      by (cases "authorize_device E (rq_headers rq) s")
    have "\<nexists>d. r = Inr d" using assms(3) a authorize_Inr_iff by blast
    then obtain e where e: "r = Inl e" by (cases r) auto
    show ?thesis
      using authorize_Inl_state [OF a [unfolded e]] authorize_Inl_status [OF a [unfolded e]] a e
      by (auto simp: harmless_def ws_realtime_def upgrade_def into_response_def
          api_error_database_def api_error_def)
  qed
  have "?ok (run_route rt refuse E dr (rq_headers rq) rq s)"
    using assms(2)
    by (cases rt)
      (simp_all add: public_routes_def harmless_same ws un [OF h_block_user_def] un [OF h_unblock_user_def]
        un [OF h_blocked_users_def] un [OF h_device_logout_def] un [OF h_upload_prekeys_def]
        un [OF h_send_message_def] un [OF h_fetch_pending_def] un [OF h_ack_message_def]
        un [OF h_message_status_def] un [OF h_send_call_signal_def] un [OF h_fetch_call_signals_def]
        un [OF h_upload_blob_def] un [OF h_fetch_blob_def] un [OF h_upload_blob_bytes_def]
        un [OF h_fetch_blob_bytes_def] un [OF h_create_blob_def] un [OF h_append_blob_chunk_def]
        split: request_body.split)
  then have "?ok (handle_request refuse E dr rq s)"
    using assms(1) by (cases rule: handle_request_cases [of refuse E dr rq s])
      (simp_all add: harmless_same upgrade_required_def)
  then show ?thesis by (simp add: harmless_def)
qed

lemma unauthenticated_changes_nothing_witness:
  "(\<exists>fs. snd (handle_request (\<lambda>_. \<lparr>rs_status = 422, rs_body = BResponse PEmpty\<rparr>) env0 (\<lambda>_. 0)
      \<lparr>rq_method = POST, rq_path = ''/v1/create_blob'', rq_headers = (\<lambda>_. None), rq_body = QNone, rq_length = 0\<rparr>
      server0) = server0\<lparr>faults := fs\<rparr>) \<and>
   (fst (handle_request (\<lambda>_. \<lparr>rs_status = 422, rs_body = BResponse PEmpty\<rparr>) env0 (\<lambda>_. 0)
      \<lparr>rq_method = POST, rq_path = ''/v1/create_blob'', rq_headers = (\<lambda>_. None), rq_body = QNone, rq_length = 0\<rparr>
      server0) = \<lparr>rs_status = 422, rs_body = BResponse PEmpty\<rparr> \<or>
    rs_status (fst (handle_request (\<lambda>_. \<lparr>rs_status = 422, rs_body = BResponse PEmpty\<rparr>) env0 (\<lambda>_. 0)
      \<lparr>rq_method = POST, rq_path = ''/v1/create_blob'', rq_headers = (\<lambda>_. None), rq_body = QNone, rq_length = 0\<rparr>
      server0)) \<in> {401, 426, 500})"
  by (rule unauthenticated_changes_nothing [where rt = RCreateBlob])
    (simp_all add: find_route_def route_table_def public_routes_def presents_def)

end
