(* ===== verification/Blocking.thy ===== *)
theory Blocking
  imports Router
begin

text \<open>
  What a block promises over the life of the server: no request, WebSocket session, statistics
  job or database failure removes it, only an authorized \<open>unblock_user\<close> of the user who made
  it; and as long as it stands neither messages nor call signals pass between the two users.
\<close>

section \<open>Computations that keep a block\<close>

definition keeps_block :: "string \<Rightarrow> string \<Rightarrow> server \<Rightarrow> server \<Rightarrow> bool" where
  "keeps_block x y s s' \<longleftrightarrow> (blocks_rel (tables s) x y \<longrightarrow> blocks_rel (tables s') x y)"

interpretation kb: step_order "keeps_block x y" for x y
  by unfold_locales (simp_all add: keeps_block_def)

definition spares_block :: "string \<Rightarrow> string \<Rightarrow> 'a query \<Rightarrow> bool" where
  "spares_block x y q \<longleftrightarrow> (\<forall>now t. blocks_rel t x y \<longrightarrow> blocks_rel (snd (q now t)) x y)"

lemma blocks_rel_cong: "t_blocks t = t_blocks t' \<Longrightarrow> blocks_rel t x y = blocks_rel t' x y"
  by (simp add: blocks_rel_def)

lemma blocks_rel_rollback [simp]: "blocks_rel (rollback_to t t') x y = blocks_rel t x y"
  by (rule blocks_rel_cong) (simp add: rollback_to_def)

lemma kb_same_tables: "(\<And>s. tables (g s) = tables s) \<Longrightarrow> moves (keeps_block x y) (modifyS g)"
  by (rule movesI) (simp add: keeps_block_def)

lemma kb_run_sql: "spares_block x y q \<Longrightarrow> moves (keeps_block x y) (run_sql q)"
proof (rule movesI)
  fix s
  assume q: "spares_block x y q"
  obtain b s1 where d: "db_ok s = (b, s1)" by (cases "db_ok s")
  obtain r t where r: "q (clock s) (tables s) = (r, t)" by (cases "q (clock s) (tables s)")
  then have "blocks_rel (tables s) x y \<longrightarrow> blocks_rel t x y" using q unfolding spares_block_def by (metis snd_conv)
  then show "keeps_block x y s (snd (run_sql q s))"
    using db_ok_frame [OF d] by (simp add: run_sql_def d r keeps_block_def split: sum.splits)
qed

lemma kb_transaction:
  assumes "moves (keeps_block x y) m"
  shows "moves (keeps_block x y) (transaction m)"
proof (rule movesI)
  fix s
  obtain b s1 where d: "db_ok s = (b, s1)" by (cases "db_ok s")
  obtain r s2 where m: "m s1 = (r, s2)" by (cases "m s1")
  obtain b2 s3 where d2: "db_ok s2 = (b2, s3)" by (cases "db_ok s2")
  have "keeps_block x y s1 s2" using assms m by (rule movesD)
  then show "keeps_block x y s (snd (transaction m s))"
    using db_ok_frame [OF d] db_ok_frame [OF d2]
    by (simp add: transaction_def d m d2 keeps_block_def split: sum.splits)
qed

section \<open>Every statement but the other user's deletion spares it\<close>

lemma sparesI: "(\<And>now t. t_blocks (snd (q now t)) = t_blocks t) \<Longrightarrow> spares_block x y q"
  unfolding spares_block_def using blocks_rel_cong by metis

named_theorems block_kept \<open>statements and computations that keep a block\<close>

lemma spares_reads [block_kept]:
  "spares_block x y (get_password_hash u)" "spares_block x y (user_exists u)" "spares_block x y (search_users E u)"
  "spares_block x y (find_invite i)" "spares_block x y (find_device_uuid u d)" "spares_block x y (device_exists dev)"
  "spares_block x y (find_user_id_by_device_uuid dev)" "spares_block x y (is_token_active dev h)"
  "spares_block x y (list_blocked_users E u)" "spares_block x y (block_direction a b)"
  "spares_block x y (fetch_statuses dev ids)" "spares_block x y (select_blob bid)"
  "spares_block x y fetch_server_stats" "spares_block x y (find_device_bundle u d)"
  by (auto intro!: sparesI simp: get_password_hash_def user_exists_def search_users_def
      find_invite_def find_device_uuid_def device_exists_def find_user_id_by_device_uuid_def
      is_token_active_def list_blocked_users_def block_direction_def
      fetch_statuses_def select_blob_def fetch_server_stats_def find_device_bundle_def Let_def split: option.splits)

lemma spares_writes [block_kept]:
  "spares_block x y (create_user_tx u h)" "spares_block x y (create_user u h)" "spares_block x y (mark_used i w)"
  "spares_block x y (upsert_device k ud did a1 b1 c1 e1)" "spares_block x y (insert_one_time_prekey dev key pub)"
  "spares_block x y (consume_one_time_prekey dev)" "spares_block x y (create_token dev h)"
  "spares_block x y (revoke_token dev h)" "spares_block x y (insert_blob k dev data)"
  "spares_block x y (insert_empty_blob k dev)" "spares_block x y (append_blob dev bid chunk)"
  by (auto intro!: sparesI simp: create_user_tx_def create_user_def mark_used_def upsert_device_def
      insert_one_time_prekey_def consume_one_time_prekey_def create_token_def revoke_token_def
      insert_blob_def insert_empty_blob_def append_blob_def Let_def split: option.splits list.splits)

lemma spares_mail [block_kept]:
  "spares_block x y (insert_message k mid a b env)" "spares_block x y (fetch_pending_locked d n)"
  "spares_block x y (mark_delivered i)" "spares_block x y (ack_messages d ids)"
  by (auto intro!: sparesI simp: insert_message_def fetch_pending_locked_def mark_delivered_def ack_messages_def Let_def)

lemma spares_insert [block_kept]: "spares_block x y (insert_block a b)"
  by (auto simp: spares_block_def insert_block_def blocks_rel_def)

lemma spares_delete: "(a, b) \<noteq> (x, y) \<Longrightarrow> spares_block x y (delete_block a b)"
  by (auto simp: spares_block_def delete_block_def blocks_rel_def blocked_pair_def)

section \<open>Every handler but \<open>unblock_user\<close> keeps it\<close>

lemmas kb_rules = kb.moves_rules kb_run_sql kb_transaction

lemma kb_mark_online [block_kept]: "moves (keeps_block x y) (mark_online d)"
  unfolding mark_online_def by (rule kb_same_tables) simp

lemma kb_authorize [block_kept]: "moves (keeps_block x y) (authorize_device E h)"
  unfolding authorize_device_def by (intro kb_rules block_kept)

lemma kb_upload_items [block_kept]: "moves (keeps_block x y) (upload_items E d items n)"
  by (induction items arbitrary: n) (auto intro!: kb_rules block_kept)

lemma kb_mark_all [block_kept]: "moves (keeps_block x y) (mark_all rows)"
proof (induction rows)
  case Nil
  show ?case by (simp add: moves_def kb.step_refl)
next
  case (Cons row rows)
  then show ?case unfolding mark_all.simps by (intro kb_rules block_kept)
qed

lemma kb_block_gate [block_kept]: "moves (keeps_block x y) (block_gate a b)"
  unfolding block_gate_def by (intro kb_rules block_kept)

lemma kb_drain [block_kept]: "moves (keeps_block x y) (drain_pending_messages E d n)"
  unfolding drain_pending_messages_def by (intro kb_rules block_kept)

lemma kb_take_step [block_kept]: "moves (keeps_block x y) (take_step w n)"
  by (intro movesI) (simp add: take_step_def keeps_block_def)

lemma kb_signals [block_kept]: "moves (keeps_block x y) (modifyS (\<lambda>s. s\<lparr>call_signals := f s\<rparr>))"
  by (rule kb_same_tables) simp

lemma kb_device_handlers [block_kept]:
  "moves (keeps_block x y) (h_register_device E dr p1)" "moves (keeps_block x y) (h_upload_prekeys E h p2)"
  "moves (keeps_block x y) (h_device_login E dr p3)" "moves (keeps_block x y) (h_device_logout E h p4)"
  unfolding h_register_device_def register_device_def h_upload_prekeys_def upload_prekeys_def
    h_device_login_def device_login_def h_device_logout_def device_logout_def Let_def
  by (intro kb_rules block_kept)+

lemma kb_login [block_kept]: "moves (keeps_block x y) (h_user_login E p)"
  by (rule movesI) (metis h_user_login_attempt(3) keeps_block_def prod.collapse)

lemma kb_user_handlers [block_kept]:
  "moves (keeps_block x y) (h_user_register E dr p1)" "moves (keeps_block x y) (h_resolve_user E p2)"
  "moves (keeps_block x y) (h_resolve_device E p3)" "moves (keeps_block x y) (h_user_search E p4)"
  "moves (keeps_block x y) (h_user_online p5)" "moves (keeps_block x y) (h_block_user E h p6)"
  "moves (keeps_block x y) (h_blocked_users E h)"
  unfolding h_user_register_def register_def hash_password_def h_resolve_user_def resolve_user_def
    h_resolve_device_def resolve_device_def h_user_search_def user_search_def h_user_online_def
    user_online_def h_block_user_def block_user_def current_user_id_def validate_block_target_def
    h_blocked_users_def blocked_users_def Let_def
  by (intro kb_rules block_kept)+

lemma kb_message_handlers [block_kept]:
  "moves (keeps_block x y) (h_send_message E dr h p1)" "moves (keeps_block x y) (h_fetch_pending E h p2)"
  "moves (keeps_block x y) (h_ack_message E h p3)" "moves (keeps_block x y) (h_message_status E h p4)"
  "moves (keeps_block x y) (h_fetch_prekey_bundle E p5)" "moves (keeps_block x y) (ws_realtime E h)"
  unfolding h_send_message_def send_message_def h_fetch_pending_def fetch_pending_def h_ack_message_def
    ack_message_def h_message_status_def message_status_def h_fetch_prekey_bundle_def fetch_prekey_bundle_def
    ws_realtime_def
  by (auto split: prod.splits intro!: kb_rules block_kept)

lemma kb_blob_handlers [block_kept]:
  "moves (keeps_block x y) (h_upload_blob E dr h p1)" "moves (keeps_block x y) (h_upload_blob_bytes E dr h p2)"
  "moves (keeps_block x y) (h_create_blob E dr h)" "moves (keeps_block x y) (h_append_blob_chunk E h p3)"
  "moves (keeps_block x y) (h_fetch_blob E h p4)" "moves (keeps_block x y) (h_fetch_blob_bytes E h p4)"
  unfolding h_upload_blob_def upload_blob_def h_upload_blob_bytes_def upload_blob_bytes_def
    h_create_blob_def create_blob_def h_append_blob_chunk_def append_blob_chunk_def
    h_fetch_blob_def fetch_blob_def h_fetch_blob_bytes_def fetch_blob_bytes_def
  by (intro kb_rules block_kept)+

lemma kb_signal_handlers [block_kept]:
  "moves (keeps_block x y) (h_send_call_signal E h p1)" "moves (keeps_block x y) (h_fetch_call_signals E h p2)"
  unfolding h_send_call_signal_def send_call_signal_def h_fetch_call_signals_def fetch_call_signals_eq Let_def
  by (intro kb_rules block_kept)+

section \<open>Only its maker lifts it\<close>

text \<open>
  The request that lifts the block of \<open>y\<close> by \<open>x\<close>: \<open>unblock_user\<close> for \<open>y\<close>, authorized by a
  device of \<open>x\<close>.
\<close>

definition lifts :: "env \<Rightarrow> string \<Rightarrow> string \<Rightarrow> http_request \<Rightarrow> server \<Rightarrow> bool" where
  "lifts E x y rq s \<longleftrightarrow> find_route (rq_method rq) (rq_path rq) = Some RUnblockUser \<and>
     (\<exists>p. limited_body rq = QUnblockUser p \<and> trim (uu_user_id p) = y) \<and>
     (\<exists>d token. presents E (rq_headers rq) d token \<and>
       token_valid (clock s) (tables s) d (hash_token E token) \<and> device_owner (tables s) d = Some x)"

lemma kb_unblock:
  assumes "\<nexists>d token. presents E h d token \<and> token_valid (clock s) (tables s) d (hash_token E token) \<and>
      device_owner (tables s) d = Some x \<and> trim (uu_user_id p) = y"
  shows "keeps_block x y s (snd (h_unblock_user E h p s))"
proof -
  obtain ra s1 where auth: "authorize_device E h s = (ra, s1)" by (cases "authorize_device E h s")
  have fr: "tables s1 = tables s" using movesD [OF quiet_authorize auth] by (simp add: quiet_def)
  show ?thesis
  proof (cases ra)
    case (Inl e)
    then show ?thesis using auth fr by (simp add: h_unblock_user_def bindS_apply keeps_block_def)
  next
    case (Inr d)
    obtain token where tok: "presents E h d token" "token_valid (clock s) (tables s) d (hash_token E token)"
      using auth [unfolded Inr] unfolding authorize_Inr_iff by blast
    obtain ro s2 where q: "run_sql (find_user_id_by_device_uuid d) s1 = (ro, s2)"
      by (cases "run_sql (find_user_id_by_device_uuid d) s1")
    have t2: "tables s2 = tables s"
      using movesD [OF quiet_read q] fr by (simp add: find_user_id_by_device_uuid_def quiet_def)
    show ?thesis
    proof (cases "\<exists>u. ro = Inr (Some u)")
      case False
      then have "tables (snd (h_unblock_user E h p s)) = tables s"
        using auth Inr q t2
        by (auto simp: h_unblock_user_def unblock_user_def current_user_id_def bindS_apply ok_or_def
            split: sum.splits option.splits)
      then show ?thesis by (simp add: keeps_block_def)
    next
      case True
      then obtain u where u: "ro = Inr (Some u)" by blast
      have "device_owner (tables s) d = Some u"
        using read_Inr [OF q [unfolded u]] fr by (simp add: find_user_id_by_device_uuid_def device_owner_def)
      then have "(u, trim (uu_user_id p)) \<noteq> (x, y)" using assms tok by blast
      note del = kb_run_sql [OF spares_delete [OF this]]
      have "moves (keeps_block x y) (bindS (reject_if (trim (uu_user_id p) = []) (api_error BAD_REQUEST ''invalid user'')) (\<lambda>_.
          bindS (run_sql (delete_block u (trim (uu_user_id p)))) (\<lambda>done. returnS \<lparr>uur_unblocked = done\<rparr>)))"
        by (intro kb_rules del)
      then have "keeps_block x y s2 (snd (h_unblock_user E h p s))"
        using auth Inr q u
        by (simp add: moves_def h_unblock_user_def unblock_user_def current_user_id_def bindS_apply Let_def)
      then show ?thesis using t2 by (simp add: keeps_block_def)
    qed
  qed
qed

lemma kb_reply: "moves (keeps_block x y) m \<Longrightarrow> keeps_block x y s (snd (reply f m s))"
  by (cases "m s") (auto simp: reply_def dest: movesD split: sum.splits)

lemma kb_upgrade: "moves (keeps_block x y) m \<Longrightarrow> keeps_block x y s (snd (upgrade m s))"
  by (cases "m s") (auto simp: upgrade_def dest: movesD split: sum.splits)

lemma kb_health: "keeps_block x y s (snd (health s))"
  by (cases "db_ok s") (auto simp: health_def keeps_block_def dest: db_ok_frame)

lemma kb_route:
  assumes "rt \<noteq> RUnblockUser"
  shows "keeps_block x y s (snd (run_route rt refuse E dr h rq s))"
  using assms
  by (cases rt) (simp_all add: kb_reply kb_upgrade kb_health block_kept kb.step_refl split: request_body.split)

lemma kb_request:
  assumes "\<not> lifts E x y rq s"
  shows "keeps_block x y s (snd (handle_request refuse E dr rq s))"
proof (cases rule: handle_request_cases [of refuse E dr rq s])
  case (routed rt)
  show ?thesis
  proof (cases "rt = RUnblockUser \<and> (\<exists>p. limited_body rq = QUnblockUser p)")
    case True
    then obtain p where p: "limited_body rq = QUnblockUser p" by blast
    have "keeps_block x y s (snd (h_unblock_user E (rq_headers rq) p s))"
      using assms True routed(1) p by (intro kb_unblock) (auto simp: lifts_def)
    then show ?thesis
      using True p routed(2)
      by (cases "h_unblock_user E (rq_headers rq) p s") (auto simp: reply_def split: sum.splits)
  next
    case False
    then show ?thesis using routed(2) kb_route [of rt x y s refuse E dr "rq_headers rq" rq]
      by (cases "rt = RUnblockUser") (auto simp: kb.step_refl split: request_body.split)
  qed
qed (simp_all add: kb.step_refl)

text \<open>The states the server goes through as long as no request lifts the block.\<close>

inductive until_lifted :: "(http_request \<Rightarrow> http_response) \<Rightarrow> env \<Rightarrow> string \<Rightarrow> string \<Rightarrow> server \<Rightarrow> server \<Rightarrow> bool"
  for refuse E x y s where
  begun: "until_lifted refuse E x y s s"
| request: "until_lifted refuse E x y s s1 \<Longrightarrow> \<not> lifts E x y rq s1 \<Longrightarrow>
    handle_request refuse E dr rq s1 = (resp, s2) \<Longrightarrow> until_lifted refuse E x y s s2"
| opened: "until_lifted refuse E x y s s1 \<Longrightarrow> open_session d s1 = (outs, s2) \<Longrightarrow> until_lifted refuse E x y s s2"
| turn: "until_lifted refuse E x y s s1 \<Longrightarrow> session_turn E d ev s1 = (outs, alive, s2) \<Longrightarrow>
    until_lifted refuse E x y s s2"
| stats: "until_lifted refuse E x y s s1 \<Longrightarrow> log_stats s1 = (st, s2) \<Longrightarrow> until_lifted refuse E x y s s2"
| tick: "until_lifted refuse E x y s s1 \<Longrightarrow> clock s1 \<le> now \<Longrightarrow>
    until_lifted refuse E x y s (s1\<lparr>clock := now, faults := fs\<rparr>)"

lemma kb_turn:
  assumes "session_turn E d ev s = (outs, alive, s')"
  shows "keeps_block x y s s'"
proof (cases ev)
  case (Tick oks)
  let ?s1 = "snd (mark_online d s :: (api_error + unit) \<times> server)"
  obtain r s2 where dr: "drain_pending_messages E d 200 ?s1 = (r, s2)"
    by (cases "drain_pending_messages E d 200 ?s1")
  have "keeps_block x y ?s1 s2" using kb_drain dr by (rule movesD)
  then show ?thesis
    using assms dr
    by (auto simp: Tick Let_def keeps_block_def mark_online_def go_offline_def split: sum.splits prod.splits if_splits)
next
  case (Incoming i)
  then show ?thesis using assms by (cases i) (auto simp: keeps_block_def go_offline_def)
qed

lemma kb_log_stats: "keeps_block x y s (snd (log_stats s))"
proof -
  have "moves (keeps_block x y) (run_sql fetch_server_stats)" by (intro kb_rules block_kept)
  then show ?thesis by (cases "run_sql fetch_server_stats s") (auto simp: log_stats_def dest: movesD split: sum.splits)
qed

lemma block_stands: "until_lifted refuse E x y s s' \<Longrightarrow> keeps_block x y s s'"
proof (induction rule: until_lifted.induct)
  case begun
  show ?case by (rule kb.step_refl)
next
  case (request s1 rq dr resp s2)
  then show ?case using kb_request [of E x y rq s1 refuse dr] kb.step_trans by (metis snd_conv)
next
  case (opened s1 d outs s2)
  then show ?case by (auto simp: open_session_def mark_online_def keeps_block_def Let_def)
next
  case (turn s1 d ev outs alive s2)
  then show ?case using kb_turn kb.step_trans by blast
next
  case (stats s1 st s2)
  then show ?case using kb_log_stats [of x y s1] kb.step_trans by (metis snd_conv)
next
  case (tick s1 now fs)
  then show ?case by (simp add: keeps_block_def)
qed

section \<open>What the block stops\<close>

lemma insert_block_rel:
  "insert_block a b now t = (Inr n, t') \<Longrightarrow> blocks_rel t' a b \<and> t_messages t' = t_messages t"
  by (auto simp: insert_block_def blocks_rel_def blocked_pair_def split: if_splits)

lemma block_user_Inr:
  assumes "h_block_user E h p s = (Inr r, s')"
  obtains d token me where "presents E h d token" "device_owner (tables s) d = Some me"
    "blocks_rel (tables s') me (trim (bu_user_id p))" "t_messages (tables s') = t_messages (tables s)"
proof -
  let ?u = "trim (bu_user_id p)"
  obtain d token s1 where auth: "presents E h d token" and b: "block_user d p s1 = (Inr r, s')"
    and fr: "tables s1 = tables s"
    using assms unfolding h_block_user_def by (rule authorized_Inr)
  from b obtain me s2 s3 s4 ex n where
    q1: "run_sql (find_user_id_by_device_uuid d) s1 = (Inr (Some me), s2)" and
    q2: "run_sql (user_exists ?u) s2 = (Inr True, s3)" and
    q3: "run_sql (insert_block me ?u) s3 = (Inr n, s')"
    unfolding block_user_def current_user_id_def validate_block_target_def Let_def
      bindS_Inr_iff ok_or_Inr_iff reject_if_Inr_iff by auto
  note r1 = read_Inr [OF q1] and r2 = read_Inr [OF q2]
  have own: "device_owner (tables s) d = Some me" and t2: "tables s2 = tables s"
    using r1(1,2) fr by (simp_all add: find_user_id_by_device_uuid_def device_owner_def)
  have "tables s3 = tables s" using r2(2) t2 by (simp add: user_exists_def)
  then show ?thesis using insert_block_rel [OF run_sql_Inr_frame(1) [OF q3]] auth own that by simp
qed

lemma blocked_message_refused:
  assumes "blocks_rel (tables s) x y" "{device_owner (tables s) a, device_owner (tables s) b} = {Some x, Some y}"
    and "parse_uuid E (sm_from_device_uuid q) = Some a" "parse_uuid E (sm_to_device_uuid q) = Some b"
  shows "\<exists>e s'. h_send_message E dr h q s = (Inl e, s') \<and> tables s' = tables s"
proof -
  obtain r s' where h: "h_send_message E dr h q s = (r, s')" by (cases "h_send_message E dr h q s")
  show ?thesis
  proof (cases r)
    case (Inl e)
    then show ?thesis using h cleanD [OF clean_send] by blast
  next
    case (Inr y)
    obtain u v where "device_owner (tables s) a = Some u" "device_owner (tables s) b = Some v"
      "blk.gate (tables s) u v"
      using h_send_message_Inr [OF h [unfolded Inr]] assms(3,4) by (metis option.inject)
    then show ?thesis using assms(1,2) by (auto simp: blk.gate_iff doubleton_eq_iff)
  qed
qed

lemma blocked_signal_refused:
  assumes "blocks_rel (tables s) x y" "{device_owner (tables s) a, device_owner (tables s) b} = {Some x, Some y}"
    and "parse_uuid E (sc_from_device_uuid c) = Some a" "parse_uuid E (sc_to_device_uuid c) = Some b"
  shows "\<exists>e s'. h_send_call_signal E h c s = (Inl e, s') \<and> call_signals s' = call_signals s"
proof -
  obtain r s' where h: "h_send_call_signal E h c s = (r, s')" by (cases "h_send_call_signal E h c s")
  show ?thesis
  proof (cases r)
    case (Inl e)
    then show ?thesis using h refused_signal_quiet [of E h c s e s'] by (simp add: quiet_def)
  next
    case (Inr y)
    obtain d token s1 where "send_call_signal E d c s1 = (Inr y, s')" "tables s1 = tables s"
      using h [unfolded Inr] unfolding h_send_call_signal_def by (rule authorized_Inr)
    then show ?thesis
      using assms by (auto elim!: send_call_signal_Inr simp: blk.gate_iff doubleton_eq_iff)
  qed
qed

text \<open>
  C8.  A block holds, in both directions, until it is lifted.  After a successful \<open>block_user\<close>,
  whatever requests, WebSocket sessions and database failures follow, as long as no request of
  the blocking user unblocks this user: every \<open>send_message\<close> and every \<open>send_call_signal\<close> from a
  device of one of the two users to a device of the other is refused and stores nothing.  The
  block works on what is sent after it: what was queued before stays queued for its recipient.
\<close>

theorem blocked_users_exchange_nothing:
  assumes "h_block_user E h p s = (Inr r, s1)"
    and "presents E h d token" "device_owner (tables s) d = Some me"
    and "until_lifted refuse E me (trim (bu_user_id p)) s1 s2"
    and "{device_owner (tables s2) a, device_owner (tables s2) b} = {Some me, Some (trim (bu_user_id p))}"
    and "parse_uuid E (sm_from_device_uuid q) = Some a" "parse_uuid E (sm_to_device_uuid q) = Some b"
    and "parse_uuid E (sc_from_device_uuid c) = Some a" "parse_uuid E (sc_to_device_uuid c) = Some b"
  shows "(\<exists>e s'. h_send_message E dr h' q s2 = (Inl e, s') \<and> tables s' = tables s2) \<and>
    (\<exists>e s'. h_send_call_signal E h' c s2 = (Inl e, s') \<and> call_signals s' = call_signals s2) \<and>
    t_messages (tables s1) = t_messages (tables s)"
proof -
  obtain d' token' me' where b: "presents E h d' token'" "device_owner (tables s) d' = Some me'"
    "blocks_rel (tables s1) me' (trim (bu_user_id p))" "t_messages (tables s1) = t_messages (tables s)"
    using assms(1) by (rule block_user_Inr)
  have "me' = me" using b(1,2) assms(2,3) by (auto simp: presents_def)
  then have "blocks_rel (tables s2) me (trim (bu_user_id p))"
    using b(3) block_stands [OF assms(4)] by (simp add: keeps_block_def)
  note stops = blocked_message_refused [OF this assms(5-7)] blocked_signal_refused [OF this assms(5,8,9)]
  show ?thesis using stops b(4) by blast
qed

text \<open>
  Ann has written to Bob, then blocks him, and time passes: Bob can neither write to her nor
  call her, and her first message is still there for him.
\<close>

lemma blocked_users_exchange_nothing_witness:
  "let s = snd (h_send_message env0 (\<lambda>_. 9) headers0 \<lparr>sm_message_id = ''m1'', sm_from_device_uuid = ''x'',
         sm_to_device_uuid = ''xx'', sm_envelope_b64 = ''E''\<rparr> server0);
       s1 = snd (h_block_user env0 headers0 \<lparr>bu_user_id = ''bob''\<rparr> s);
       s2 = s1\<lparr>clock := 7, faults := []\<rparr> in
   (\<exists>e s'. h_send_message env0 (\<lambda>_. 8) headers1 \<lparr>sm_message_id = ''m2'', sm_from_device_uuid = ''xx'',
      sm_to_device_uuid = ''x'', sm_envelope_b64 = ''E''\<rparr> s2 = (Inl e, s') \<and> tables s' = tables s2) \<and>
   (\<exists>e s'. h_send_call_signal env0 headers1 \<lparr>sc_call_id = ''c'', sc_from_device_uuid = ''xx'',
      sc_to_device_uuid = ''x'', sc_kind = ''ring'', sc_payload = ''p''\<rparr> s2 = (Inl e, s') \<and>
      call_signals s' = call_signals s2) \<and>
   t_messages (tables s1) = t_messages (tables s)"
proof -
  let ?s = "server0\<lparr>device_last_seen := [1 \<mapsto> 0], tables := tables0\<lparr>t_messages :=
     [\<lparr>mr_id = 9, mr_message_id = ''m1'', mr_from_device = 1, mr_to_device = 2, mr_envelope_bytes = [69],
       mr_created_at = 0, mr_delivered_at = None, mr_acked_at = None\<rparr>]\<rparr>\<rparr>"
  let ?p = "\<lparr>bu_user_id = ''bob''\<rparr>"
  let ?s1 = "?s\<lparr>tables := (tables ?s)\<lparr>t_blocks :=
     [\<lparr>bk_blocker_user_id = ''ann'', bk_blocked_user_id = ''bob'', bk_created_at = 0\<rparr>]\<rparr>\<rparr>"
  have trim: "trim ''bob'' = ''bob''" by (rule visible_trim) (simp add: visible_def)
  have block: "h_block_user env0 headers0 ?p ?s = (Inr \<lparr>bur_blocked = True\<rparr>, ?s1)"
    by (simp add: eval_simps find_user_id_by_device_uuid_def user_exists_def insert_block_def trim user_names_def)
  have own: "device_owner (tables ?s) 1 = Some ''ann''"
    "{device_owner (tables (?s1\<lparr>clock := 7, faults := []\<rparr>)) 2, device_owner (tables (?s1\<lparr>clock := 7, faults := []\<rparr>)) 1} =
      {Some ''ann'', Some (trim (bu_user_id ?p))}"
    by (auto simp: device_owner_def trim)
  have "until_lifted (\<lambda>_. \<lparr>rs_status = 422, rs_body = BResponse PEmpty\<rparr>) env0 ''ann'' (trim (bu_user_id ?p)) ?s1
      (?s1\<lparr>clock := 7, faults := []\<rparr>)"
    by (rule until_lifted.tick [OF until_lifted.begun]) simp
  from blocked_users_exchange_nothing [OF block _ own(1) this own(2), where token = "''T''" and dr = "\<lambda>_. 8"
      and q = "\<lparr>sm_message_id = ''m2'', sm_from_device_uuid = ''xx'', sm_to_device_uuid = ''x'', sm_envelope_b64 = ''E''\<rparr>"
      and c = "\<lparr>sc_call_id = ''c'', sc_from_device_uuid = ''xx'', sc_to_device_uuid = ''x'', sc_kind = ''ring'', sc_payload = ''p''\<rparr>"
      and h' = headers1]
  show ?thesis by (simp add: send0 block presents_def)
qed

end
