(* ===== verification/Mail_Office.thy ===== *)
theory Mail_Office
  imports Router
begin

text \<open>
  What the server promises about messages, as an abstract office: every device has a queue of
  letters; a letter is posted at the end, the oldest letters are read, named letters are taken away,
  and nothing else happens.  Every request to the server refines an operation of the office.
\<close>

section \<open>The office\<close>

record letter =
  lt_id :: string
  lt_from :: uuid
  lt_body :: bytes
  lt_sent :: timestamp

type_synonym office = "uuid \<Rightarrow> letter list"

definition post_letter :: "uuid \<Rightarrow> letter \<Rightarrow> office \<Rightarrow> office" where
  "post_letter dest l M = M(dest := M dest @ [l])"

definition take_letters :: "uuid \<Rightarrow> string list \<Rightarrow> office \<Rightarrow> office" where
  "take_letters d ids M = M(d := filter (\<lambda>l. lt_id l \<notin> set ids) (M d))"

text \<open>The operation behind a request that was answered with \<open>answer\<close>, at time \<open>now\<close>.\<close>

definition office :: "env \<Rightarrow> timestamp \<Rightarrow> request_body \<Rightarrow> response_body \<Rightarrow> office \<Rightarrow> office" where
  "office E now body answer = (case (body, answer) of
     (QSendMessage p, PSendMessage r) \<Rightarrow>
       (case (parse_uuid E (sm_from_device_uuid p), parse_uuid E (sm_to_device_uuid p), b64_decode E (sm_envelope_b64 p)) of
          (Some sender, Some dest, Some envelope) \<Rightarrow>
            if smr_accepted r then post_letter dest \<lparr>lt_id = sm_message_id p, lt_from = sender,
              lt_body = envelope, lt_sent = now\<rparr> else id
        | _ \<Rightarrow> id)
   | (QAckMessage p, PAckMessage r) \<Rightarrow>
       (case parse_uuid E (am_device_uuid p) of Some d \<Rightarrow> take_letters d (am_message_ids p) | None \<Rightarrow> id)
   | _ \<Rightarrow> id)"

text \<open>What the answers tell of the office.\<close>

definition letter_item :: "env \<Rightarrow> letter \<Rightarrow> pending_message_item" where
  "letter_item E l = \<lparr>pm_message_id = lt_id l, pm_from_device_uuid = show_uuid E (lt_from l),
     pm_envelope_b64 = b64_encode E (lt_body l), pm_created_at_unix_ms = epoch_ms (lt_sent l)\<rparr>"

definition truthful :: "env \<Rightarrow> office \<Rightarrow> request_body \<Rightarrow> response_body \<Rightarrow> bool" where
  "truthful E M body answer = (case (body, answer) of
     (QFetchPending p, PFetchPending r) \<Rightarrow>
       (case parse_uuid E (fp_device_uuid p) of None \<Rightarrow> False
        | Some d \<Rightarrow> fpr_messages r = map (letter_item E) (take (page (fp_limit p)) (M d)))
   | (QAckMessage p, PAckMessage r) \<Rightarrow>
       (case parse_uuid E (am_device_uuid p) of None \<Rightarrow> False
        | Some d \<Rightarrow> amr_acked r = length (filter (\<lambda>l. lt_id l \<in> set (am_message_ids p)) (M d)))
   | _ \<Rightarrow> True)"

section \<open>The tables as an office\<close>

definition letter_of :: "message_row \<Rightarrow> letter" where
  "letter_of m = \<lparr>lt_id = mr_message_id m, lt_from = mr_from_device m, lt_body = mr_envelope_bytes m,
     lt_sent = mr_created_at m\<rparr>"

definition mail :: "tables \<Rightarrow> office" where
  "mail t d = map letter_of (pending_rows t d)"

definition stamped :: "server \<Rightarrow> bool" where
  "stamped s \<longleftrightarrow> (\<forall>m\<in>set (t_messages (tables s)). mr_created_at m \<le> clock s)"

lemma mail_cong: "t_messages t' = t_messages t \<Longrightarrow> mail t' = mail t"
  by (simp add: fun_eq_iff mail_def pending_rows_def)

lemma mail_ids: "map lt_id (mail t d) = pending_ids t d"
  by (simp add: mail_def pending_ids_def letter_of_def)

lemma mail_post:
  assumes "can_insert k i src dest t" "\<forall>m\<in>set (t_messages t). mr_created_at m \<le> now"
  shows "mail (post_message now k i src dest body t) =
    post_letter dest \<lparr>lt_id = i, lt_from = src, lt_body = body, lt_sent = now\<rparr> (mail t)"
proof
  fix d
  let ?r = "\<lparr>mr_id = k, mr_message_id = i, mr_from_device = src, mr_to_device = dest,
    mr_envelope_bytes = body, mr_created_at = now, mr_delivered_at = None, mr_acked_at = None\<rparr>"
  have "sort_key mr_created_at (filter q (t_messages t) @ [?r]) = sort_key mr_created_at (filter q (t_messages t)) @ [?r]" for q
    using assms(2) by (intro sort_key_snoc_max) auto
  then show "mail (post_message now k i src dest body t) d =
      post_letter dest \<lparr>lt_id = i, lt_from = src, lt_body = body, lt_sent = now\<rparr> (mail t) d"
    by (simp add: mail_def pending_rows_def post_message_row [OF assms(1)] letter_of_def post_letter_def)
qed

lemma mail_deliver: "mail (deliver_row now k t) = mail t"
proof
  fix d
  let ?p = "\<lambda>m. mr_to_device m = d \<and> mr_acked_at m = None"
  have "filter ?p (update_where (\<lambda>m. mr_id m = k) (stamp now) xs) = update_where (\<lambda>m. mr_id m = k) (stamp now) (filter ?p xs)" for xs
    by (induction xs) (auto simp: stamp_def)
  moreover have "sort_key mr_created_at (update_where (\<lambda>m. mr_id m = k) (stamp now) xs) =
      update_where (\<lambda>m. mr_id m = k) (stamp now) (sort_key mr_created_at xs)" for xs
    by (rule sort_key_update_where) (simp add: stamp_def)
  moreover have "map letter_of (update_where (\<lambda>m. mr_id m = k) (stamp now) xs) = map letter_of xs" for xs
    by (rule map_update_where) (simp add: letter_of_def stamp_def)
  ultimately show "mail (deliver_row now k t) d = mail t d"
    by (simp add: mail_def pending_rows_def deliver_row_stamp)
qed

lemma mail_deliver_all: "mail (fold (deliver_row now) ks t) = mail t"
  by (induction ks arbitrary: t) (simp_all add: mail_deliver)

lemma mail_ack: "mail (ack_ids now d ids t) = take_letters d ids (mail t)"
proof
  fix d'
  let ?p = "\<lambda>m. mr_to_device m = d' \<and> mr_acked_at m = None"
  let ?h = "\<lambda>m. mr_to_device m = d \<and> mr_message_id m \<in> set ids \<and> mr_acked_at m = None"
  have kept: "filter ?p (update_where ?h (\<lambda>m. m\<lparr>mr_acked_at := Some now\<rparr>) xs) =
      filter (\<lambda>m. d' \<noteq> d \<or> mr_message_id m \<notin> set ids) (filter ?p xs)" for xs
    by (induction xs) auto
  have tab: "t_messages (ack_ids now d ids t) = update_where ?h (\<lambda>m. m\<lparr>mr_acked_at := Some now\<rparr>) (t_messages t)"
    by (simp add: ack_ids_def ack_messages_def Let_def)
  have "mail (ack_ids now d ids t) d' =
      map letter_of (filter (\<lambda>m. d' \<noteq> d \<or> mr_message_id m \<notin> set ids) (pending_rows t d'))"
    unfolding mail_def pending_rows_def tab kept filter_sort_key ..
  then show "mail (ack_ids now d ids t) d' = take_letters d ids (mail t) d'"
    by (simp add: take_letters_def mail_def filter_map comp_def letter_of_def)
qed

section \<open>Everything else leaves the office alone\<close>

definition same_mail :: "server \<Rightarrow> server \<Rightarrow> bool" where
  "same_mail s s' \<longleftrightarrow> t_messages (tables s') = t_messages (tables s) \<and> clock s' = clock s"

interpretation same: step_order same_mail
  by unfold_locales (simp_all add: same_mail_def)

lemma same_mail_mail: "same_mail s s' \<Longrightarrow> mail (tables s') = mail (tables s)"
  unfolding same_mail_def by (elim conjE) (rule mail_cong)

definition no_mail :: "'a query \<Rightarrow> bool" where
  "no_mail q \<longleftrightarrow> (\<forall>now t. t_messages (snd (q now t)) = t_messages t)"

lemma same_run_sql: "no_mail q \<Longrightarrow> moves same_mail (run_sql q)"
proof (rule movesI)
  fix s
  assume q: "no_mail q"
  obtain b s1 where d: "db_ok s = (b, s1)" by (cases "db_ok s")
  obtain r t where r: "q (clock s) (tables s) = (r, t)" by (cases "q (clock s) (tables s)")
  then have "t_messages t = t_messages (tables s)" using q unfolding no_mail_def by (metis snd_conv)
  then show "same_mail s (snd (run_sql q s))"
    using db_ok_frame [OF d] by (simp add: run_sql_def d r same_mail_def rollback_to_def split: sum.splits)
qed

lemma same_transaction:
  assumes "moves same_mail m"
  shows "moves same_mail (transaction m)"
proof (rule movesI)
  fix s
  obtain b s1 where d: "db_ok s = (b, s1)" by (cases "db_ok s")
  obtain r s2 where m: "m s1 = (r, s2)" by (cases "m s1")
  obtain b2 s3 where d2: "db_ok s2 = (b2, s3)" by (cases "db_ok s2")
  have "same_mail s1 s2" using assms m by (rule movesD)
  then show "same_mail s (snd (transaction m s))"
    using db_ok_frame [OF d] db_ok_frame [OF d2]
    by (simp add: transaction_def d m d2 same_mail_def rollback_to_def split: sum.splits)
qed

lemma same_modifyS: "(\<And>s. tables (g s) = tables s \<and> clock (g s) = clock s) \<Longrightarrow> moves same_mail (modifyS g)"
  by (rule movesI) (simp add: same_mail_def)

named_theorems mail_kept \<open>statements that leave the messages alone\<close>
named_theorems same_moves \<open>computations that leave the messages alone\<close>

lemma no_mail_reads [mail_kept]:
  "no_mail (get_password_hash u)" "no_mail (user_exists u)" "no_mail (search_users E u)"
  "no_mail (find_invite i)" "no_mail (find_device_uuid u d)" "no_mail (device_exists dev)"
  "no_mail (find_user_id_by_device_uuid dev)" "no_mail (is_token_active dev h)"
  "no_mail (list_blocked_users E u)" "no_mail (block_direction a b)"
  "no_mail (fetch_statuses dev ids)" "no_mail (select_blob bid)" "no_mail fetch_server_stats"
  "no_mail (find_device_bundle u d)"
  by (simp_all add: no_mail_def get_password_hash_def user_exists_def search_users_def
      find_invite_def find_device_uuid_def device_exists_def find_user_id_by_device_uuid_def
      is_token_active_def list_blocked_users_def block_direction_def
      fetch_statuses_def select_blob_def fetch_server_stats_def find_device_bundle_def Let_def split: option.splits)

lemma no_mail_writes [mail_kept]:
  "no_mail (create_user_tx u h)" "no_mail (create_user u h)" "no_mail (mark_used i w)"
  "no_mail (upsert_device k ud did a1 b1 c1 e1)" "no_mail (insert_one_time_prekey dev key pub)"
  "no_mail (consume_one_time_prekey dev)" "no_mail (create_token dev h)" "no_mail (revoke_token dev h)"
  "no_mail (insert_block a b)" "no_mail (delete_block a b)" "no_mail (insert_blob k dev data)"
  "no_mail (insert_empty_blob k dev)" "no_mail (append_blob dev bid chunk)"
  by (simp_all add: no_mail_def create_user_tx_def create_user_def mark_used_def upsert_device_def
      insert_one_time_prekey_def consume_one_time_prekey_def create_token_def revoke_token_def
      insert_block_def delete_block_def insert_blob_def insert_empty_blob_def append_blob_def Let_def
      split: option.splits list.splits)

lemmas same_rules = same.moves_rules same_run_sql same_transaction

lemma same_mark_online [same_moves]: "moves same_mail (mark_online d)"
  unfolding mark_online_def by (rule same_modifyS) simp

lemma same_authorize [same_moves]: "moves same_mail (authorize_device E h)"
  unfolding authorize_device_def by (intro same_rules mail_kept same_moves)

lemma same_upload_items [same_moves]: "moves same_mail (upload_items E d items n)"
  by (induction items arbitrary: n) (auto intro!: same_rules mail_kept same_moves)

lemma same_device_handlers [same_moves]:
  "moves same_mail (h_register_device E dr p1)" "moves same_mail (h_upload_prekeys E h p2)"
  "moves same_mail (h_device_login E dr p3)" "moves same_mail (h_device_logout E h p4)"
  unfolding h_register_device_def register_device_def h_upload_prekeys_def upload_prekeys_def
    h_device_login_def device_login_def h_device_logout_def device_logout_def Let_def
  by (intro same_rules mail_kept same_moves)+

lemma same_login [same_moves]: "moves same_mail (h_user_login E p)"
proof (rule movesI)
  fix s :: server
  have "moves same_mail (login E p)" unfolding login_def by (intro same_rules mail_kept same_moves)
  then have "same_mail (s\<lparr>limiter := m\<rparr>) (snd (login E p (s\<lparr>limiter := m\<rparr>)))" for m by (simp add: moves_def)
  then show "same_mail s (snd (h_user_login E p s))"
    by (auto simp: h_user_login_def Let_def same_mail_def split: prod.splits sum.splits) (metis snd_conv)+
qed

lemma same_user_handlers [same_moves]:
  "moves same_mail (h_user_register E dr p1)" "moves same_mail (h_resolve_user E p2)"
  "moves same_mail (h_resolve_device E p3)" "moves same_mail (h_user_search E p4)"
  "moves same_mail (h_user_online p5)" "moves same_mail (h_block_user E h p6)"
  "moves same_mail (h_unblock_user E h p7)" "moves same_mail (h_blocked_users E h)"
  unfolding h_user_register_def register_def hash_password_def h_resolve_user_def resolve_user_def
    h_resolve_device_def resolve_device_def h_user_search_def user_search_def h_user_online_def
    user_online_def h_block_user_def block_user_def current_user_id_def validate_block_target_def
    h_unblock_user_def unblock_user_def h_blocked_users_def blocked_users_def Let_def
  by (intro same_rules mail_kept same_moves)+

lemma same_other_handlers [same_moves]:
  "moves same_mail (h_message_status E h p1)" "moves same_mail (h_fetch_prekey_bundle E p2)"
  "moves same_mail (ws_realtime E h)"
  unfolding h_message_status_def message_status_def h_fetch_prekey_bundle_def fetch_prekey_bundle_def ws_realtime_def
  by (intro same_rules mail_kept | auto split: prod.splits intro!: same_rules mail_kept same_moves)+

lemma same_blob_handlers [same_moves]:
  "moves same_mail (h_upload_blob E dr h p1)" "moves same_mail (h_upload_blob_bytes E dr h p2)"
  "moves same_mail (h_create_blob E dr h)" "moves same_mail (h_append_blob_chunk E h p3)"
  "moves same_mail (h_fetch_blob E h p4)" "moves same_mail (h_fetch_blob_bytes E h p4)"
  unfolding h_upload_blob_def upload_blob_def h_upload_blob_bytes_def upload_blob_bytes_def
    h_create_blob_def create_blob_def h_append_blob_chunk_def append_blob_chunk_def
    h_fetch_blob_def fetch_blob_def h_fetch_blob_bytes_def fetch_blob_bytes_def
  by (intro same_rules mail_kept same_moves)+

lemma same_block_gate [same_moves]: "moves same_mail (block_gate a b)"
  unfolding block_gate_def by (intro same_rules mail_kept same_moves)

lemma same_signals [same_moves]: "moves same_mail (modifyS (\<lambda>s. s\<lparr>call_signals := f s\<rparr>))"
  by (rule same_modifyS) simp

lemma same_take_step [same_moves]: "moves same_mail (take_step w n)"
  by (intro movesI) (simp add: take_step_def same_mail_def)

lemma same_signal_handlers [same_moves]:
  "moves same_mail (h_send_call_signal E h p1)" "moves same_mail (h_fetch_call_signals E h p2)"
  unfolding h_send_call_signal_def send_call_signal_def h_fetch_call_signals_def fetch_call_signals_eq Let_def
  by (intro same_rules mail_kept same_moves)+

section \<open>Requests and the office\<close>

lemma clean_ack: "clean (h_ack_message E h p)"
  unfolding h_ack_message_def by (intro clean_read_bind quiet_authorize clean_ack_message)

lemma mail_rollback [simp]: "mail (rollback_to t t') = mail t"
  by (rule mail_cong) (simp add: rollback_to_def)

lemma send_office:
  assumes "h_send_message E dr h p s = (Inr r, s')" "stamped s"
  shows "mail (tables s') = office E (clock s) (QSendMessage p) (PSendMessage r) (mail (tables s))"
proof -
  obtain d token s1 where send: "send_message E dr d p s1 = (Inr r, s')" and
    fr: "tables s1 = tables s" "clock s1 = clock s"
    using assms(1) unfolding h_send_message_def by (rule authorized_Inr)
  from send show ?thesis
    by (rule send_message_Inr)
      (use assms(2) in \<open>auto simp: office_def fr mail_post stamped_def split: if_splits\<close>)
qed

lemma ack_office:
  assumes "h_ack_message E h p s = (Inr r, s')"
  shows "mail (tables s') = office E now (QAckMessage p) (PAckMessage r) (mail (tables s))"
    and "truthful E (mail (tables s)) (QAckMessage p) (PAckMessage r)"
proof -
  obtain d token s1 where a: "ack_message E d p s1 = (Inr r, s')" and fr: "tables s1 = tables s" "clock s1 = clock s"
    using assms unfolding h_ack_message_def by (rule authorized_Inr)
  note f = ack_message_Inr [OF a, unfolded fr]
  have "mail (tables s') = take_letters d (am_message_ids p) (mail (tables s))"
  proof (cases "am_message_ids p = []")
    case True
    then have "tables s' = tables s" using a fr by (auto simp: ack_message_def comp_simps)
    then show ?thesis by (simp add: True take_letters_def)
  next
    case False
    then have "run_sql (ack_messages d (am_message_ids p)) s1 = (Inr (amr_acked r), s')"
      using a by (auto simp: ack_message_def comp_simps)
    from run_sql_Inr_frame [OF this] have "tables s' = ack_ids (clock s) d (am_message_ids p) (tables s)"
      by (simp add: ack_ids_def fr)
    then show ?thesis by (simp add: mail_ack)
  qed
  then show "mail (tables s') = office E now (QAckMessage p) (PAckMessage r) (mail (tables s))"
    using f(1) by (simp add: office_def)
  have "length (filter (\<lambda>i. i \<in> S) (pending_ids (tables s) d)) = length (filter (\<lambda>l. lt_id l \<in> S) (mail (tables s) d))" for S
    unfolding mail_ids [symmetric] by (simp add: filter_map comp_def)
  then show "truthful E (mail (tables s)) (QAckMessage p) (PAckMessage r)"
    using f(1,4) by (simp add: truthful_def)
qed

lemma fetch_office:
  assumes "h_fetch_pending E h p s = (r, s')"
  shows "mail (tables s') = mail (tables s)"
    and "r = Inr x \<Longrightarrow> truthful E (mail (tables s)) (QFetchPending p) (PFetchPending x)"
proof -
  have item: "pending_item E (row_of m) = letter_item E (letter_of m)" for m
    by (simp add: pending_item_def row_of_def letter_item_def letter_of_def)
  have ok: "mail (tables s') = mail (tables s) \<and> truthful E (mail (tables s)) (QFetchPending p) (PFetchPending x)"
    if x: "r = Inr x" for x
  proof -
    obtain d token s1 where f: "fetch_pending E d p s1 = (Inr x, s')" and
      fr: "tables s1 = tables s" "clock s1 = clock s"
      using assms unfolding x h_fetch_pending_def by (rule authorized_Inr)
    show ?thesis using fetch_pending_Inr [OF f]
      by (simp add: fr truthful_def mail_deliver_all mail_def item take_map comp_def)
  qed
  show "mail (tables s') = mail (tables s)"
  proof (cases r)
    case (Inl e)
    obtain a s1 where auth: "authorize_device E h s = (a, s1)" by (cases "authorize_device E h s")
    have one: "mail (tables s1) = mail (tables s)" using movesD [OF same_authorize auth] by (rule same_mail_mail)
    show ?thesis
    proof (cases a)
      case (Inr d)
      then have "fetch_pending E d p s1 = (Inl e, s')" using assms Inl auth by (simp add: h_fetch_pending_def bindS_apply)
      from fetch_pending_Inl [OF this] one show ?thesis by auto
    qed (use assms auth one in \<open>simp add: h_fetch_pending_def bindS_apply\<close>)
  next
    case (Inr x)
    then show ?thesis using ok by blast
  qed
  show "r = Inr x \<Longrightarrow> truthful E (mail (tables s)) (QFetchPending p) (PFetchPending x)" using ok by blast
qed

text \<open>Every other answer comes from a handler that leaves the messages alone.\<close>

lemma same_reply: "moves same_mail m \<Longrightarrow> same_mail s (snd (reply f m s))"
  by (cases "m s") (auto simp: reply_def dest: movesD split: sum.splits)

lemma same_health: "same_mail s (snd (health s))"
  by (cases "db_ok s") (auto simp: health_def same_mail_def dest: db_ok_frame)

lemma same_upgrade: "moves same_mail m \<Longrightarrow> same_mail s (snd (upgrade m s))"
  by (cases "m s") (auto simp: upgrade_def dest: movesD split: sum.splits)

lemma run_route_same:
  "rt \<noteq> RSendMessage \<Longrightarrow> rt \<noteq> RAckMessage \<Longrightarrow> rt \<noteq> RFetchPending \<Longrightarrow> same_mail s (snd (run_route rt refuse E dr h rq s))"
  by (cases rt) (simp_all add: same_reply same_health same_upgrade same_moves same.step_refl split: request_body.split)

lemma reply_answer: "rs_body (fst (reply f m s)) = BResponse answer \<Longrightarrow> \<exists>x s'. m s = (Inr x, s') \<and> answer = f x"
  by (cases "m s") (auto simp: reply_def into_response_def split: sum.splits)

definition mail_answer :: "response_body \<Rightarrow> bool" where
  "mail_answer answer \<longleftrightarrow> (case answer of PSendMessage _ \<Rightarrow> True | PAckMessage _ \<Rightarrow> True | PFetchPending _ \<Rightarrow> True | _ \<Rightarrow> False)"

lemma no_mail_answer:
  "\<not> mail_answer answer \<Longrightarrow> office E now body answer M = M" "\<not> mail_answer answer \<Longrightarrow> truthful E M body answer"
  by (cases answer; simp add: office_def truthful_def mail_answer_def split: request_body.split)+

section \<open>No letter is from the future\<close>

definition stamp_step :: "server \<Rightarrow> server \<Rightarrow> bool" where
  "stamp_step s s' \<longleftrightarrow> clock s \<le> clock s' \<and> (stamped s \<longrightarrow> stamped s')"

interpretation stamps: step_order stamp_step
  by unfold_locales (auto simp: stamp_step_def)

lemma same_stamp: "same_mail s s' \<Longrightarrow> stamp_step s s'"
  by (simp add: stamp_step_def same_mail_def stamped_def)

lemma moves_same_stamp: "moves same_mail m \<Longrightarrow> moves stamp_step m"
  using same_stamp by (auto simp: moves_def)

lemma stamp_run_sql:
  assumes "\<And>now t. \<forall>m\<in>set (t_messages t). mr_created_at m \<le> now \<Longrightarrow>
      \<forall>m\<in>set (t_messages (snd (q now t))). mr_created_at m \<le> now"
  shows "moves stamp_step (run_sql q)"
proof (rule movesI)
  fix s
  obtain b s1 where d: "db_ok s = (b, s1)" by (cases "db_ok s")
  obtain r t where r: "q (clock s) (tables s) = (r, t)" by (cases "q (clock s) (tables s)")
  then show "stamp_step s (snd (run_sql q s))"
    using db_ok_frame [OF d] assms [of "tables s" "clock s"]
    by (simp add: run_sql_def d r stamp_step_def stamped_def rollback_to_def split: sum.splits)
qed

lemma stamp_transaction:
  assumes "moves stamp_step m"
  shows "moves stamp_step (transaction m)"
proof (rule movesI)
  fix s
  obtain b s1 where d: "db_ok s = (b, s1)" by (cases "db_ok s")
  obtain r s2 where m: "m s1 = (r, s2)" by (cases "m s1")
  obtain b2 s3 where d2: "db_ok s2 = (b2, s3)" by (cases "db_ok s2")
  have "stamp_step s1 s2" using assms m by (rule movesD)
  then show "stamp_step s (snd (transaction m s))"
    using db_ok_frame [OF d] db_ok_frame [OF d2]
    by (auto simp: transaction_def d m d2 stamp_step_def stamped_def rollback_to_def split: sum.splits)
qed

lemma stamp_statements:
  "moves stamp_step (run_sql (insert_message k i a b body))" "moves stamp_step (run_sql (mark_delivered k))"
  "moves stamp_step (run_sql (ack_messages d ids))" "moves stamp_step (run_sql (fetch_pending_locked d n))"
  by (rule stamp_run_sql, auto simp: insert_message_def mark_delivered_def ack_messages_def
      fetch_pending_locked_def update_where_def Let_def)+

lemma stamp_mark_all: "moves stamp_step (mark_all rows)"
proof (induction rows)
  case Nil
  then show ?case by (simp add: moves_def stamps.step_refl)
qed (auto intro!: stamps.moves_rules stamp_statements)

lemmas stamp_rules = stamps.moves_rules stamp_statements stamp_mark_all stamp_transaction
  same_moves [THEN moves_same_stamp] mail_kept [THEN same_run_sql, THEN moves_same_stamp]

lemma stamp_drain: "moves stamp_step (drain_pending_messages E d n)"
  unfolding drain_pending_messages_def by (intro stamp_rules)

lemma stamp_mail_handlers:
  "moves stamp_step (h_send_message E dr h p1)" "moves stamp_step (h_ack_message E h p2)"
  "moves stamp_step (h_fetch_pending E h p3)"
  unfolding h_send_message_def send_message_def h_ack_message_def ack_message_def h_fetch_pending_def fetch_pending_def
  by (intro stamp_rules stamp_drain)+

lemma stamp_reply: "moves stamp_step m \<Longrightarrow> stamp_step s (snd (reply f m s))"
  by (cases "m s") (auto simp: reply_def dest: movesD split: sum.splits)

lemma run_route_stamp: "stamp_step s (snd (run_route rt refuse E dr h rq s))"
proof -
  consider "rt = RSendMessage" | "rt = RAckMessage" | "rt = RFetchPending"
    | "rt \<noteq> RSendMessage" "rt \<noteq> RAckMessage" "rt \<noteq> RFetchPending" by blast
  then show ?thesis
    by cases (auto simp: run_route_same same_stamp stamp_reply stamp_mail_handlers stamps.step_refl split: request_body.split)
qed

lemma stamp_request: "stamp_step s (snd (handle_request refuse E dr rq s))"
  by (cases rule: handle_request_cases [of refuse E dr rq s]) (simp_all add: run_route_stamp stamps.step_refl)

lemma stamp_turn:
  assumes "session_turn E d ev s = (outs, alive, s')"
  shows "stamp_step s s'"
proof -
  have go: "stamp_step s (go_offline d s)" for s
    by (simp add: go_offline_def stamp_step_def stamped_def)
  show ?thesis
  proof (cases ev)
    case (Tick oks)
    let ?s1 = "snd (mark_online d s :: (api_error + unit) \<times> server)"
    obtain r s2 where dr: "drain_pending_messages E d 200 ?s1 = (r, s2)"
      by (cases "drain_pending_messages E d 200 ?s1")
    have "stamp_step s ?s1" by (simp add: mark_online_def stamp_step_def stamped_def)
    moreover have "stamp_step ?s1 s2" using stamp_drain dr by (rule movesD)
    ultimately have "stamp_step s s2" by (rule stamps.step_trans)
    moreover have "s' = s2 \<or> s' = go_offline d s2"
      using assms dr by (auto simp: Tick Let_def split: sum.splits prod.splits if_splits)
    ultimately show ?thesis using go stamps.step_trans by blast
  next
    case (Incoming i)
    then show ?thesis using assms go stamps.step_refl by (cases i) auto
  qed
qed

lemma server_runs_stamp: "server_runs refuse E s s' \<Longrightarrow> stamp_step s s'"
proof (induction rule: server_runs.induct)
  case (request dr rq s resp s')
  then show ?case using stamp_request [of s refuse E dr rq] by simp
next
  case (opened d s outs s')
  then show ?case by (auto simp: open_session_def mark_online_def stamp_step_def stamped_def Let_def)
next
  case (turn d ev s outs alive s')
  then show ?case by (rule stamp_turn)
next
  case (stats s st s')
  have "moves same_mail (run_sql fetch_server_stats)" by (intro same_rules mail_kept)
  then show ?case using stats
    by (cases "run_sql fetch_server_stats s") (auto simp: log_stats_def intro!: same_stamp dest: movesD split: sum.splits)
next
  case (tick s now fs)
  then show ?case by (auto simp: stamp_step_def stamped_def)
qed

lemma server_reaches_stamp: "server_reaches refuse E s s' \<Longrightarrow> stamp_step s s'"
  by (induction rule: server_reaches.induct) (blast intro: stamps.step_refl stamps.step_trans server_runs_stamp)+

lemma run_route_answer:
  assumes "rt \<noteq> RSendMessage" "rt \<noteq> RAckMessage" "rt \<noteq> RFetchPending"
    and "rs_body (fst (run_route rt refuse E dr h rq s)) = BResponse answer"
    and "rs_body (refuse rq) \<noteq> BResponse answer"
  shows "\<not> mail_answer answer"
  using assms
  by (cases rt) (auto simp: mail_answer_def health_def upgrade_def into_response_def
      dest!: reply_answer split: request_body.splits prod.splits sum.splits if_splits)

lemma limited_body_is: "limited_body rq = q \<Longrightarrow> q \<noteq> QNone \<Longrightarrow> rq_body rq = q"
  by (auto simp: limited_body_def split: if_splits)

text \<open>What a request should have done to the office, given its answer.\<close>

definition served :: "env \<Rightarrow> http_request \<Rightarrow> http_response \<Rightarrow> server \<Rightarrow> server \<Rightarrow> bool" where
  "served E rq resp s s' \<longleftrightarrow> (case rs_body resp of
      BResponse answer \<Rightarrow> mail (tables s') = office E (clock s) (rq_body rq) answer (mail (tables s)) \<and>
        truthful E (mail (tables s)) (rq_body rq) answer
    | _ \<Rightarrow> mail (tables s') = mail (tables s))"

lemma served_kept:
  "mail (tables s') = mail (tables s) \<Longrightarrow> (\<And>answer. rs_body resp = BResponse answer \<Longrightarrow> \<not> mail_answer answer) \<Longrightarrow>
   served E rq resp s s'"
  using no_mail_answer by (auto simp: served_def split: http_body.split)

lemma served_refused: "(\<And>answer. rs_body resp \<noteq> BResponse answer) \<Longrightarrow> served E rq resp s s"
  by (rule served_kept) auto

lemma served_send:
  assumes "stamped s" "\<And>answer. rs_body (refuse rq) \<noteq> BResponse answer"
    and "run_route RSendMessage refuse E dr h rq s = (resp, s')"
  shows "served E rq resp s s'"
proof (cases "\<exists>p. limited_body rq = QSendMessage p")
  case True
  then obtain p where p: "limited_body rq = QSendMessage p" ..
  obtain r t where h: "h_send_message E dr h p s = (r, t)" by (cases "h_send_message E dr h p s")
  have t: "t = s'" using assms(3) p h by (auto simp: reply_def split: sum.splits)
  show ?thesis
  proof (cases r)
    case (Inl e)
    have "tables s' = tables s" using cleanD [OF clean_send h [unfolded Inl]] t by simp
    then show ?thesis using assms(3) p h Inl by (intro served_kept) (auto simp: reply_def into_response_def)
  next
    case (Inr x)
    have "truthful E M (QSendMessage p) (PSendMessage x)" for M by (simp add: truthful_def)
    then show ?thesis using assms(3) p send_office [OF h [unfolded Inr] assms(1)] limited_body_is [OF p]
      by (auto simp: served_def reply_def h Inr)
  qed
qed (use assms(2,3) served_refused in \<open>auto split: request_body.splits\<close>)

lemma served_ack:
  assumes "\<And>answer. rs_body (refuse rq) \<noteq> BResponse answer"
    and "run_route RAckMessage refuse E dr h rq s = (resp, s')"
  shows "served E rq resp s s'"
proof (cases "\<exists>p. limited_body rq = QAckMessage p")
  case True
  then obtain p where p: "limited_body rq = QAckMessage p" ..
  obtain r t where h: "h_ack_message E h p s = (r, t)" by (cases "h_ack_message E h p s")
  have t: "t = s'" using assms(2) p h by (auto simp: reply_def split: sum.splits)
  show ?thesis
  proof (cases r)
    case (Inl e)
    have "tables s' = tables s" using cleanD [OF clean_ack h [unfolded Inl]] t by simp
    then show ?thesis using assms(2) p h Inl by (intro served_kept) (auto simp: reply_def into_response_def)
  next
    case (Inr x)
    then show ?thesis using assms(2) p ack_office [OF h [unfolded Inr]] limited_body_is [OF p]
      by (auto simp: served_def reply_def h)
  qed
qed (use assms served_refused in \<open>auto split: request_body.splits\<close>)

lemma served_fetch:
  assumes "\<And>answer. rs_body (refuse rq) \<noteq> BResponse answer"
    and "run_route RFetchPending refuse E dr h rq s = (resp, s')"
  shows "served E rq resp s s'"
proof (cases "\<exists>p. limited_body rq = QFetchPending p")
  case True
  then obtain p where p: "limited_body rq = QFetchPending p" ..
  obtain r t where h: "h_fetch_pending E h p s = (r, t)" by (cases "h_fetch_pending E h p s")
  have "t = s'" using assms(2) p h by (auto simp: reply_def split: sum.splits)
  moreover have "office E now (QFetchPending p) (PFetchPending x) M = M" for now x M by (simp add: office_def)
  ultimately show ?thesis using assms(2) p fetch_office [OF h] limited_body_is [OF p]
    by (cases r) (auto simp: served_def reply_def into_response_def h)
qed (use assms served_refused in \<open>auto split: request_body.splits\<close>)

text \<open>
  C6.  The server is a mail office.  In every reachable state, whatever the request, and whatever the database does, the
  mailboxes afterwards are those of the abstract office after the operation that request and
  answer name: an accepted message is the last letter of the recipient, an acknowledgement takes the
  named letters of the device away, and nothing else touches a letter; and what \<open>fetch_pending\<close> and
  \<open>ack_message\<close> answer is what the office says.
\<close>

theorem mail_refines_office:
  assumes "stamped s0" "server_reaches refuse E s0 s" "\<And>answer. rs_body (refuse rq) \<noteq> BResponse answer"
    and "handle_request refuse E dr rq s = (resp, s')"
  shows "case rs_body resp of
      BResponse answer \<Rightarrow> mail (tables s') = office E (clock s) (rq_body rq) answer (mail (tables s)) \<and>
        truthful E (mail (tables s)) (rq_body rq) answer
    | _ \<Rightarrow> mail (tables s') = mail (tables s)"
  unfolding served_def [symmetric]
proof -
  have stamped: "stamped s" using server_reaches_stamp [OF assms(2)] assms(1) by (simp add: stamp_step_def)
  note sent = served_send [where refuse = refuse and rq = rq, OF stamped assms(3)]
  show "served E rq resp s s'"
  proof (cases rule: handle_request_cases [of refuse E dr rq s])
    case gate
    then show "served E rq resp s s'" using assms(4) served_refused by (auto simp: upgrade_required_def)
  next
    case unknown
    then show "served E rq resp s s'" using assms(3,4) served_refused by auto
  next
    case (routed rt)
    then have run: "run_route rt refuse E dr (rq_headers rq) rq s = (resp, s')" using assms(4) by simp
    consider "rt = RSendMessage" | "rt = RAckMessage" | "rt = RFetchPending"
      | "rt \<noteq> RSendMessage" "rt \<noteq> RAckMessage" "rt \<noteq> RFetchPending" by blast
    then show "served E rq resp s s'"
    proof cases
      case 4
      note same = same_mail_mail [OF run_route_same [OF 4, of s refuse E dr "rq_headers rq" rq], unfolded run snd_conv]
      show ?thesis
        by (rule served_kept [OF same])
          (use run_route_answer [OF 4, of refuse E dr "rq_headers rq" rq s, unfolded run fst_conv] assms(3) in blast)
    next
      case 1
      show ?thesis by (rule sent [OF run [unfolded 1]])
    next
      case 2
      show ?thesis by (rule served_ack [OF assms(3) run [unfolded 2]])
    next
      case 3
      show ?thesis by (rule served_fetch [OF assms(3) run [unfolded 3]])
    qed
  qed
qed

definition sending0 :: http_request where
  "sending0 = \<lparr>rq_method = POST, rq_path = ''/v1/send_message'', rq_headers = headers0, rq_body =
     QSendMessage \<lparr>sm_message_id = ''m1'', sm_from_device_uuid = ''x'', sm_to_device_uuid = ''xx'', sm_envelope_b64 = ''E''\<rparr>,
     rq_length = 10\<rparr>"

lemma sending0_answer:
  "rs_body (fst (handle_request refuse env0 (\<lambda>_. 9) sending0 server0)) = BResponse (PSendMessage \<lparr>smr_accepted = True\<rparr>)"
proof -
  have route: "find_route POST ''/v1/send_message'' = Some RSendMessage" by (simp add: find_route_def route_table_def)
  have gate: "require_supported_client rq run server0 = run rq server0" for rq run
    by (simp add: require_supported_client_def version_gt_def)
  have "limited_body sending0 = rq_body sending0" by (simp add: limited_body_def MAX_REQUEST_BODY_BYTES_def sending0_def)
  then show ?thesis unfolding handle_request_def gate by (simp add: sending0_def route reply_def send0)
qed

lemma mail_refines_office_witness:
  "mail (tables (snd (handle_request (\<lambda>_. upgrade_required ''1'') env0 (\<lambda>_. 9) sending0 server0))) =
     (\<lambda>_. [])(2 := [\<lparr>lt_id = ''m1'', lt_from = 1, lt_body = [69], lt_sent = 0\<rparr>])"
proof -
  have "stamped server0" "mail tables0 = (\<lambda>_. [])"
    by (simp_all add: stamped_def fun_eq_iff mail_def pending_rows_def)
  then show ?thesis
    using mail_refines_office [of server0 "\<lambda>_. upgrade_required ''1''" env0 server0 sending0 "\<lambda>_. 9",
        OF _ server_reaches.start _ prod.collapse [symmetric]]
    by (simp add: sending0_answer upgrade_required_def)
      (simp add: office_def sending0_def post_letter_def take_letters_def)
qed

end
