(* ===== verification/Crypto_Engine.thy ===== *)
theory Crypto_Engine
  imports Prelude
begin

text \<open>
  \<open>crates/crypto/src/lib.rs\<close>.  The primitives of the crates \<open>base64\<close>, \<open>x25519-dalek\<close>,
  \<open>ed25519-dalek\<close>, \<open>hkdf\<close> and \<open>chacha20poly1305\<close> are the record \<open>primitives\<close>; their
  documented laws are the hypothesis \<open>primitive_laws\<close>.  Random bytes are arguments.
\<close>

section \<open>Results and UTF-8\<close>

definition bindR :: "'e + 'a \<Rightarrow> ('a \<Rightarrow> 'e + 'b) \<Rightarrow> 'e + 'b" where
  "bindR r f = (case r of Inl e \<Rightarrow> Inl e | Inr x \<Rightarrow> f x)"

definition ok_orR :: "'a option \<Rightarrow> 'e \<Rightarrow> 'e + 'a" where
  "ok_orR opt e = (case opt of None \<Rightarrow> Inl e | Some x \<Rightarrow> Inr x)"

named_theorems result_simps \<open>evaluation and inversion of results\<close>

lemma bindR_simps [simp]: "bindR (Inr x) f = f x" "bindR (Inl e) f = Inl e"
  by (simp_all add: bindR_def)

lemma ok_orR_simps [simp]: "ok_orR None e = Inl e" "ok_orR (Some x) e = Inr x"
  by (simp_all add: ok_orR_def)

lemma bindR_Inr_iff [result_simps]: "bindR r f = Inr y \<longleftrightarrow> (\<exists>x. r = Inr x \<and> f x = Inr y)"
  by (cases r) auto

lemma ok_orR_Inr_iff [result_simps]: "ok_orR opt e = Inr x \<longleftrightarrow> opt = Some x"
  by (cases opt) auto

definition as_bytes :: "string \<Rightarrow> bytes" where
  "as_bytes s = map (\<lambda>c. of_nat (of_char c)) s"

definition continuation :: "8 word \<Rightarrow> bool" where
  "continuation b \<longleftrightarrow> 0x80 \<le> b \<and> b \<le> 0xBF"

text \<open>The byte sequences \<open>String::from_utf8\<close> accepts.\<close>

fun utf8_valid :: "bytes \<Rightarrow> bool" where
  "utf8_valid [] = True"
| "utf8_valid (a # bs) =
     (if a < 0x80 then utf8_valid bs
      else (case bs of
        [] \<Rightarrow> False
      | b # cs \<Rightarrow>
          if 0xC2 \<le> a \<and> a \<le> 0xDF then continuation b \<and> utf8_valid cs
          else (case cs of
            [] \<Rightarrow> False
          | c # ds \<Rightarrow>
              if 0xE0 \<le> a \<and> a \<le> 0xEF
              then (if a = 0xE0 then 0xA0 \<le> b \<and> b \<le> 0xBF else if a = 0xED then 0x80 \<le> b \<and> b \<le> 0x9F
                    else continuation b) \<and> continuation c \<and> utf8_valid ds
              else (case ds of
                [] \<Rightarrow> False
              | d # es \<Rightarrow>
                  0xF0 \<le> a \<and> a \<le> 0xF4 \<and>
                  (if a = 0xF0 then 0x90 \<le> b \<and> b \<le> 0xBF else if a = 0xF4 then 0x80 \<le> b \<and> b \<le> 0x8F
                   else continuation b) \<and> continuation c \<and> continuation d \<and> utf8_valid es))))"

definition from_utf8 :: "bytes \<Rightarrow> string option" where
  "from_utf8 bs = (if utf8_valid bs then Some (map (\<lambda>b. char_of (unat b)) bs) else None)"

definition is_utf8 :: "string \<Rightarrow> bool" where
  "is_utf8 s \<longleftrightarrow> utf8_valid (as_bytes s)"

lemma char_byte_id [simp]: "char_of (unat (of_nat (of_char c) :: 8 word)) = c"
proof -
  have "of_char c < (256 :: nat)" by simp
  then have "unat (of_nat (of_char c) :: 8 word) = of_char c"
    by (simp add: unsigned_of_nat take_bit_nat_eq_self)
  then show ?thesis by simp
qed

lemma from_utf8_as_bytes: "is_utf8 s \<Longrightarrow> from_utf8 (as_bytes s) = Some s"
  unfolding is_utf8_def from_utf8_def by (simp add: as_bytes_def comp_def)

section \<open>The primitives\<close>

record primitives =
  enc64 :: "bytes \<Rightarrow> string"                     \<comment> \<open>\<open>STANDARD.encode\<close>\<close>
  dec64 :: "string \<Rightarrow> bytes option"              \<comment> \<open>\<open>STANDARD.decode\<close>\<close>
  x_public :: "bytes \<Rightarrow> bytes"                   \<comment> \<open>\<open>PublicKey::from\<close>\<close>
  x_dh :: "bytes \<Rightarrow> bytes \<Rightarrow> bytes"              \<comment> \<open>\<open>StaticSecret::diffie_hellman\<close>\<close>
  ed_public :: "bytes \<Rightarrow> bytes"                  \<comment> \<open>\<open>SigningKey::verifying_key\<close>\<close>
  ed_sign :: "bytes \<Rightarrow> bytes \<Rightarrow> bytes"           \<comment> \<open>\<open>SigningKey::sign\<close>\<close>
  ed_key_ok :: "bytes \<Rightarrow> bool"                   \<comment> \<open>\<open>VerifyingKey::from_bytes\<close>\<close>
  ed_verify :: "bytes \<Rightarrow> bytes \<Rightarrow> bytes \<Rightarrow> bool"  \<comment> \<open>\<open>VerifyingKey::verify\<close>\<close>
  hkdf :: "bytes \<Rightarrow> string \<Rightarrow> bytes"             \<comment> \<open>\<open>Hkdf::expand\<close> to 32 bytes\<close>
  seal :: "bytes \<Rightarrow> bytes \<Rightarrow> bytes \<Rightarrow> bytes option"  \<comment> \<open>\<open>XChaCha20Poly1305::encrypt\<close>\<close>
  unseal :: "bytes \<Rightarrow> bytes \<Rightarrow> bytes \<Rightarrow> bytes option" \<comment> \<open>\<open>XChaCha20Poly1305::decrypt\<close>\<close>

definition primitive_laws :: "primitives \<Rightarrow> bool" where
  "primitive_laws C \<longleftrightarrow>
     (\<forall>bs. dec64 C (enc64 C bs) = Some bs) \<and>
     (\<forall>a b. length a = 32 \<longrightarrow> length b = 32 \<longrightarrow> x_dh C a (x_public C b) = x_dh C b (x_public C a)) \<and>
     (\<forall>a. length a = 32 \<longrightarrow> length (x_public C a) = 32 \<and> length (ed_public C a) = 32 \<and> ed_key_ok C (ed_public C a)) \<and>
     (\<forall>a m. length a = 32 \<longrightarrow> length (ed_sign C a m) = 64 \<and> ed_verify C (ed_public C a) m (ed_sign C a m)) \<and>
     (\<forall>k info. length (hkdf C k info) = 32) \<and>
     (\<forall>k n p c. seal C k n p = Some c \<longrightarrow> unseal C k n c = Some p)"

section \<open>CryptoEngine\<close>

record key_pair =
  private_b64 :: string
  public_b64 :: string

definition decode_key :: "primitives \<Rightarrow> string \<Rightarrow> string + bytes" where
  "decode_key C key_b64 =
     bindR (ok_orR (dec64 C key_b64) ''invalid key base64'') (\<lambda>bytes.
     if length bytes \<noteq> 32 then Inl ''key must be 32 bytes'' else Inr bytes)"

definition prekey_signature_payload :: "bytes \<Rightarrow> bytes" where
  "prekey_signature_payload prekey_public = as_bytes ''rsmsg-signed-prekey-v1'' @ prekey_public"

definition generate_shared_key_b64 :: "primitives \<Rightarrow> bytes \<Rightarrow> string" where
  "generate_shared_key_b64 C random = enc64 C random"

definition generate_x25519_keypair :: "primitives \<Rightarrow> bytes \<Rightarrow> key_pair" where
  "generate_x25519_keypair C random = \<lparr>private_b64 = enc64 C random, public_b64 = enc64 C (x_public C random)\<rparr>"

definition generate_ed25519_keypair :: "primitives \<Rightarrow> bytes \<Rightarrow> key_pair" where
  "generate_ed25519_keypair C random = \<lparr>private_b64 = enc64 C random, public_b64 = enc64 C (ed_public C random)\<rparr>"

definition sign_prekey_b64 :: "primitives \<Rightarrow> string \<Rightarrow> string \<Rightarrow> string + string" where
  "sign_prekey_b64 C signing_private_b64 prekey_public_b64 =
     bindR (decode_key C signing_private_b64) (\<lambda>private.
     bindR (ok_orR (dec64 C prekey_public_b64) ''invalid prekey base64'') (\<lambda>prekey.
     Inr (enc64 C (ed_sign C private (prekey_signature_payload prekey)))))"

definition verify_prekey_signature_b64 :: "primitives \<Rightarrow> string \<Rightarrow> string \<Rightarrow> string \<Rightarrow> string + unit" where
  "verify_prekey_signature_b64 C signing_public_b64 prekey_public_b64 signature_b64 =
     bindR (decode_key C signing_public_b64) (\<lambda>public.
     bindR (ok_orR (dec64 C prekey_public_b64) ''invalid prekey base64'') (\<lambda>prekey.
     bindR (ok_orR (dec64 C signature_b64) ''invalid signature base64'') (\<lambda>signature.
     if \<not> ed_key_ok C public then Inl ''invalid signing public key''
     else if length signature \<noteq> 64 then Inl ''invalid prekey signature''
     else if ed_verify C public (prekey_signature_payload prekey) signature then Inr ()
     else Inl ''invalid prekey signature'')))"

definition derive_shared_key_b64 :: "primitives \<Rightarrow> string \<Rightarrow> string \<Rightarrow> string + string" where
  "derive_shared_key_b64 C own_private_b64 peer_public_b64 =
     bindR (decode_key C own_private_b64) (\<lambda>own_private.
     bindR (decode_key C peer_public_b64) (\<lambda>peer_public.
     Inr (enc64 C (hkdf C (x_dh C own_private peer_public) ''rsmsg-chat-key''))))"

definition encrypt_bytes :: "primitives \<Rightarrow> bytes \<Rightarrow> string \<Rightarrow> bytes \<Rightarrow> string + bytes" where
  "encrypt_bytes C nonce key_b64 plaintext =
     bindR (decode_key C key_b64) (\<lambda>key.
     bindR (ok_orR (seal C key nonce plaintext) ''encryption failed'') (\<lambda>ciphertext.
     Inr (nonce @ ciphertext)))"

definition encrypt_bytes_to_b64 :: "primitives \<Rightarrow> bytes \<Rightarrow> string \<Rightarrow> bytes \<Rightarrow> string + string" where
  "encrypt_bytes_to_b64 C nonce key_b64 plaintext =
     bindR (encrypt_bytes C nonce key_b64 plaintext) (\<lambda>out. Inr (enc64 C out))"

definition encrypt_text_to_b64 :: "primitives \<Rightarrow> bytes \<Rightarrow> string \<Rightarrow> string \<Rightarrow> string + string" where
  "encrypt_text_to_b64 C nonce key_b64 plaintext = encrypt_bytes_to_b64 C nonce key_b64 (as_bytes plaintext)"

definition decrypt_bytes :: "primitives \<Rightarrow> string \<Rightarrow> bytes \<Rightarrow> string + bytes" where
  "decrypt_bytes C key_b64 envelope =
     bindR (decode_key C key_b64) (\<lambda>key.
     if length envelope < 24 then Inl ''invalid envelope length''
     else ok_orR (unseal C key (take 24 envelope) (drop 24 envelope)) ''decryption failed'')"

definition decrypt_bytes_from_b64 :: "primitives \<Rightarrow> string \<Rightarrow> string \<Rightarrow> string + bytes" where
  "decrypt_bytes_from_b64 C key_b64 envelope_b64 =
     bindR (ok_orR (dec64 C envelope_b64) ''invalid envelope base64'') (\<lambda>envelope.
     decrypt_bytes C key_b64 envelope)"

definition decrypt_text_from_b64 :: "primitives \<Rightarrow> string \<Rightarrow> string \<Rightarrow> string + string" where
  "decrypt_text_from_b64 C key_b64 envelope_b64 =
     bindR (decrypt_bytes_from_b64 C key_b64 envelope_b64) (\<lambda>plaintext.
     ok_orR (from_utf8 plaintext) ''invalid utf8 payload'')"

definition ratchet_step_b64 :: "primitives \<Rightarrow> string \<Rightarrow> string + (string \<times> string)" where
  "ratchet_step_b64 C chain_key_b64 =
     bindR (decode_key C chain_key_b64) (\<lambda>chain_key.
     Inr (enc64 C (hkdf C chain_key ''rsmsg-message-key-v1''), enc64 C (hkdf C chain_key ''rsmsg-chain-key-v1'')))"

section \<open>Round trips\<close>

lemma decode_key_encoded: "primitive_laws C \<Longrightarrow> length k = 32 \<Longrightarrow> decode_key C (enc64 C k) = Inr k"
  by (simp add: decode_key_def primitive_laws_def)

lemma decrypt_encrypt:
  assumes "primitive_laws C" "length nonce = 24" "encrypt_bytes C nonce key p = Inr out"
  shows "decrypt_bytes C key out = Inr p"
proof -
  obtain k c where "decode_key C key = Inr k" "seal C k nonce p = Some c" "out = nonce @ c"
    using assms(3) by (auto simp: encrypt_bytes_def result_simps)
  then show ?thesis using assms(1,2) by (simp add: decrypt_bytes_def primitive_laws_def)
qed

lemma decrypt_encrypt_text:
  assumes "primitive_laws C" "length nonce = 24" "encrypt_text_to_b64 C nonce key p = Inr out" "is_utf8 p"
  shows "decrypt_text_from_b64 C key out = Inr p"
proof -
  obtain ct where ct: "encrypt_bytes C nonce key (as_bytes p) = Inr ct" "out = enc64 C ct"
    using assms(3) by (auto simp: encrypt_text_to_b64_def encrypt_bytes_to_b64_def result_simps)
  have "dec64 C out = Some ct" using assms(1) ct(2) by (simp add: primitive_laws_def)
  then show ?thesis
    using decrypt_encrypt [OF assms(1,2) ct(1)] from_utf8_as_bytes [OF assms(4)]
    by (simp add: decrypt_text_from_b64_def decrypt_bytes_from_b64_def)
qed

lemma ratchet_step_total:
  assumes "primitive_laws C" "decode_key C k = Inr kb"
  shows "\<exists>mk ck ckb. ratchet_step_b64 C k = Inr (mk, ck) \<and> decode_key C ck = Inr ckb"
  using assms decode_key_encoded [OF assms(1)] by (simp add: ratchet_step_b64_def primitive_laws_def)


lemma encoded_keys [simp]:
  assumes "primitive_laws C"
  shows "length k = 32 \<Longrightarrow> decode_key C (private_b64 (generate_x25519_keypair C k)) = Inr k"
    and "length k = 32 \<Longrightarrow> decode_key C (public_b64 (generate_x25519_keypair C k)) = Inr (x_public C k)"
    and "length k = 32 \<Longrightarrow> decode_key C (private_b64 (generate_ed25519_keypair C k)) = Inr k"
    and "length k = 32 \<Longrightarrow> decode_key C (public_b64 (generate_ed25519_keypair C k)) = Inr (ed_public C k)"
    and "decode_key C (enc64 C (hkdf C k info)) = Inr (hkdf C k info)"
  using assms decode_key_encoded [OF assms]
  by (simp_all add: generate_x25519_keypair_def generate_ed25519_keypair_def primitive_laws_def)

section \<open>A concrete instance\<close>

text \<open>
  Small primitives that satisfy the laws, so that theorems under \<open>primitive_laws\<close> can be
  applied to concrete inputs.  They have no cryptographic strength.
\<close>

definition bytes_text :: "bytes \<Rightarrow> string" where
  "bytes_text bs = map (\<lambda>b. char_of (unat b)) bs"

definition primitives0 :: primitives where
  "primitives0 = \<lparr>enc64 = bytes_text, dec64 = (\<lambda>s. Some (as_bytes s)),
     x_public = (\<lambda>a. a), x_dh = (\<lambda>a b. map2 (+) a b),
     ed_public = (\<lambda>a. a), ed_sign = (\<lambda>a m. replicate 64 (sum_list a + sum_list m)), ed_key_ok = (\<lambda>_. True),
     ed_verify = (\<lambda>a m s. s = replicate 64 (sum_list a + sum_list m)),
     hkdf = (\<lambda>k info. replicate 32 (sum_list k + of_nat (length info))),
     seal = (\<lambda>k n p. Some (k @ p)),
     unseal = (\<lambda>k n c. if take (length k) c = k then Some (drop (length k) c) else None)\<rparr>"

lemma byte_char_id: "of_nat (of_char (char_of (unat b) :: char)) = (b :: 8 word)"
proof -
  have "unat b < 256" using unsigned_less [of b] by simp
  then show ?thesis by simp
qed

lemma as_bytes_text [simp]: "as_bytes (bytes_text bs) = bs"
  unfolding as_bytes_def bytes_text_def by (induction bs) (simp_all only: list.map comp_def byte_char_id)

lemma map2_plus_commute: "map2 (+) a b = map2 (+) b (a :: bytes)"
  by (induction a b rule: list_induct2') (simp_all add: add.commute)

lemma primitives0_laws: "primitive_laws primitives0"
  unfolding primitive_laws_def by (simp add: primitives0_def as_bytes_text map2_plus_commute)

definition key_a :: bytes where "key_a = replicate 32 1"
definition key_b :: bytes where "key_b = replicate 32 2"
definition nonce0 :: bytes where "nonce0 = replicate 24 7"

lemma sample_lengths [simp]: "length key_a = 32" "length key_b = 32" "length nonce0 = 24"
  by (simp_all add: key_a_def key_b_def nonce0_def)

section \<open>Properties\<close>

text \<open>
  What is encrypted is decrypted.  Whenever encrypting a text succeeds, decrypting the
  envelope with the same key gives back this text; and it succeeds exactly if the key is 32
  base64 bytes that the cipher accepts, whatever the nonce.
\<close>

lemma encrypted_text_roundtrip:
  assumes "primitive_laws C" "length nonce = 24" "is_utf8 p"
  shows "case encrypt_text_to_b64 C nonce key p of
      Inr out \<Rightarrow> decrypt_text_from_b64 C key out = Inr p
    | Inl e \<Rightarrow> (case decode_key C key of Inl e' \<Rightarrow> e = e'
        | Inr k \<Rightarrow> seal C k nonce (as_bytes p) = None \<and> e = ''encryption failed'')"
proof (cases "encrypt_text_to_b64 C nonce key p")
  case (Inr out)
  then show ?thesis using decrypt_encrypt_text [OF assms(1,2) Inr assms(3)] by simp
next
  case (Inl e)
  then show ?thesis
    by (auto simp: encrypt_text_to_b64_def encrypt_bytes_to_b64_def encrypt_bytes_def bindR_def ok_orR_def
        split: sum.splits option.splits)
qed

lemma encrypted_text_roundtrip_witness:
  "case encrypt_text_to_b64 primitives0 nonce0 (enc64 primitives0 key_a) ''hi'' of
      Inr out \<Rightarrow> decrypt_text_from_b64 primitives0 (enc64 primitives0 key_a) out = Inr ''hi''
    | Inl e \<Rightarrow> (case decode_key primitives0 (enc64 primitives0 key_a) of Inl e' \<Rightarrow> e = e'
        | Inr k \<Rightarrow> seal primitives0 k nonce0 (as_bytes ''hi'') = None \<and> e = ''encryption failed'')"
  by (rule encrypted_text_roundtrip [OF primitives0_laws]) (simp_all add: is_utf8_def as_bytes_def)

text \<open>
  Two parties agree on their key.  From generated key pairs, each side derives the shared
  key from its own private and the other's public key, without error; both get the same key,
  and it is a usable one.
\<close>

lemma derived_keys_agree:
  assumes "primitive_laws C" "length a = 32" "length b = 32"
  shows "\<exists>key k. derive_shared_key_b64 C (private_b64 (generate_x25519_keypair C a))
        (public_b64 (generate_x25519_keypair C b)) = Inr key \<and>
      derive_shared_key_b64 C (private_b64 (generate_x25519_keypair C b))
        (public_b64 (generate_x25519_keypair C a)) = Inr key \<and>
      decode_key C key = Inr k"
proof -
  have "x_dh C b (x_public C a) = x_dh C a (x_public C b)"
    using assms by (simp add: primitive_laws_def)
  then show ?thesis using assms by (simp add: derive_shared_key_b64_def)
qed

lemma derived_keys_agree_witness:
  "\<exists>key k. derive_shared_key_b64 primitives0 (private_b64 (generate_x25519_keypair primitives0 key_a))
        (public_b64 (generate_x25519_keypair primitives0 key_b)) = Inr key \<and>
      derive_shared_key_b64 primitives0 (private_b64 (generate_x25519_keypair primitives0 key_b))
        (public_b64 (generate_x25519_keypair primitives0 key_a)) = Inr key \<and>
      decode_key primitives0 key = Inr k"
  by (rule derived_keys_agree [OF primitives0_laws]) simp_all

text \<open>
  A signed prekey verifies under its signer's public key.  Used by the client, which signs its
  prekey when it registers and verifies its peer's when it opens a session.
\<close>

lemma signed_prekey_verifies:
  assumes "primitive_laws C" "length sk = 32" "dec64 C prekey = Some bs"
  shows "\<exists>sig. sign_prekey_b64 C (private_b64 (generate_ed25519_keypair C sk)) prekey = Inr sig \<and>
    verify_prekey_signature_b64 C (public_b64 (generate_ed25519_keypair C sk)) prekey sig = Inr ()"
  using assms by (simp add: sign_prekey_b64_def verify_prekey_signature_b64_def) (simp add: primitive_laws_def)

end
