(* ===== verification/Client_Vault.thy ===== *)
theory Client_Vault
  imports Crypto_Engine
begin

text \<open>
  The client's files: \<open>storage.rs\<close> (where they are) and \<open>local_vault.rs\<close> (how they are written
  and read, in plain or encrypted under a password).  \<open>serde_json\<close> is a pair of functions per
  type (\<open>codec\<close>), Argon2 a function, and the file system a map from paths to contents in which
  a write can fail and leave anything behind.
\<close>

section \<open>Files\<close>

record disk =
  files :: "string \<Rightarrow> bytes option"
  broken :: "string \<Rightarrow> bytes option option"   \<comment> \<open>what a failing write leaves behind\<close>

definition write_file :: "string \<Rightarrow> bytes \<Rightarrow> (disk, string, unit) comp" where
  "write_file path data d = (case broken d path of
     None \<Rightarrow> (Inr (), d\<lparr>files := (files d)(path \<mapsto> data)\<rparr>)
   | Some rest \<Rightarrow> (Inl ''write failed'', d\<lparr>files := (files d)(path := rest)\<rparr>))"

definition copy_file :: "string \<Rightarrow> string \<Rightarrow> (disk, string, unit) comp" where
  "copy_file source target d = (case files d source of
     None \<Rightarrow> (Inl ''not found'', d)
   | Some data \<Rightarrow> write_file target data d)"

lemma write_file_other: "p \<noteq> path \<Longrightarrow> files (snd (write_file path data d)) p = files d p"
  by (simp add: write_file_def split: option.split)

lemma write_file_Inr:
  "write_file path data d = (Inr u, d') \<Longrightarrow> d' = d\<lparr>files := (files d)(path \<mapsto> data)\<rparr>"
  by (simp add: write_file_def split: option.splits)

section \<open>storage.rs\<close>

datatype os_kind = Windows | MacOS | OtherUnix

record os_env =
  target_os :: os_kind
  env_var :: "string \<Rightarrow> string option"

definition join_path :: "os_kind \<Rightarrow> string \<Rightarrow> string \<Rightarrow> string" where
  "join_path system base p =
     (let sep = (if system = Windows then char_of (92 :: nat) else CHR ''/'') in
      if base = [] then p
      else if last base = CHR ''/'' \<or> last base = sep then base @ p else base @ sep # p)"

definition profile :: "os_env \<Rightarrow> string" where
  "profile oe = (case env_var oe ''RSMSG_PROFILE'' of Some p \<Rightarrow> p | None \<Rightarrow> ''default'')"

definition data_dir :: "os_env \<Rightarrow> string" where
  "data_dir oe =
     (let join = join_path (target_os oe) in
      case env_var oe ''RSMSG_DATA_DIR'' of Some dir \<Rightarrow> dir | None \<Rightarrow>
      (case target_os oe of
        Windows \<Rightarrow>
          (case env_var oe ''APPDATA'' of Some dir \<Rightarrow> join dir ''rsmsg'' | None \<Rightarrow> ''.'')
      | MacOS \<Rightarrow>
          (case env_var oe ''HOME'' of
            Some home \<Rightarrow> join (join (join home ''Library'') ''Application Support'') ''rsmsg'' | None \<Rightarrow> ''.'')
      | OtherUnix \<Rightarrow>
          (case env_var oe ''XDG_DATA_HOME'' of Some dir \<Rightarrow> join dir ''rsmsg'' | None \<Rightarrow>
          (case env_var oe ''HOME'' of
            Some home \<Rightarrow> join (join (join home ''.local'') ''share'') ''rsmsg'' | None \<Rightarrow> ''.''))))"

definition profile_file :: "os_env \<Rightarrow> string \<Rightarrow> string" where
  "profile_file oe name = join_path (target_os oe) (data_dir oe) (name @ ''.'' @ profile oe @ ''.json'')"

definition legacy_profile_file :: "os_env \<Rightarrow> string \<Rightarrow> string" where
  "legacy_profile_file oe name = ''.'' @ name @ ''.'' @ profile oe @ ''.json''"

definition migrated_profile_file :: "os_env \<Rightarrow> string \<Rightarrow> disk \<Rightarrow> string \<times> disk" where
  "migrated_profile_file oe name d =
     (let current = profile_file oe name; legacy = legacy_profile_file oe name in
      (current,
       if files d current = None \<and> files d legacy \<noteq> None then snd (copy_file legacy current d) else d))"

section \<open>local_vault.rs\<close>

record 'a codec =
  to_json :: "'a \<Rightarrow> string"
  from_json :: "string \<Rightarrow> 'a option"

definition json_laws :: "'a codec \<Rightarrow> bool" where
  "json_laws c \<longleftrightarrow> (\<forall>x. from_json c (to_json c x) = Some x \<and> is_utf8 (to_json c x))"

record vault_file =
  vf_version :: "8 word"
  vf_salt_b64 :: string
  vf_nonce_b64 :: string
  vf_ciphertext_b64 :: string

record vault_env =
  prim :: primitives
  argon2 :: "bytes \<Rightarrow> bytes \<Rightarrow> bytes option"   \<comment> \<open>password and salt to 32 bytes\<close>
  vault_codec :: "vault_file codec"

definition derive_key :: "vault_env \<Rightarrow> string \<Rightarrow> bytes \<Rightarrow> string + bytes" where
  "derive_key V password salt =
     ok_orR (argon2 V (as_bytes password) salt) ''local vault key derivation failed''"

definition encrypt_vault_file :: "vault_env \<Rightarrow> bytes \<Rightarrow> bytes \<Rightarrow> string \<Rightarrow> bytes \<Rightarrow> string + vault_file" where
  "encrypt_vault_file V salt nonce password plaintext =
     bindR (derive_key V password salt) (\<lambda>key.
     bindR (ok_orR (seal (prim V) key nonce plaintext) ''local vault encryption failed'') (\<lambda>ciphertext.
     Inr \<lparr>vf_version = 1, vf_salt_b64 = enc64 (prim V) salt, vf_nonce_b64 = enc64 (prim V) nonce,
          vf_ciphertext_b64 = enc64 (prim V) ciphertext\<rparr>))"

definition decrypt_vault_file :: "vault_env \<Rightarrow> string \<Rightarrow> vault_file \<Rightarrow> string + bytes" where
  "decrypt_vault_file V password vault =
     (if vf_version vault \<noteq> 1 then Inl ''unsupported local vault version'' else
      bindR (ok_orR (dec64 (prim V) (vf_salt_b64 vault)) ''invalid base64'') (\<lambda>salt.
      bindR (ok_orR (dec64 (prim V) (vf_nonce_b64 vault)) ''invalid base64'') (\<lambda>nonce.
      bindR (ok_orR (dec64 (prim V) (vf_ciphertext_b64 vault)) ''invalid base64'') (\<lambda>ciphertext.
      if length nonce \<noteq> 24 then Inl ''invalid local vault nonce'' else
      bindR (derive_key V password salt) (\<lambda>key.
      ok_orR (unseal (prim V) key nonce ciphertext) ''local vault decryption failed'')))))"

definition load_json :: "vault_env \<Rightarrow> 'a codec \<Rightarrow> string \<Rightarrow> string option \<Rightarrow> disk \<Rightarrow> 'a option" where
  "load_json V c path password d =
     (case Option.bind (files d path) from_utf8 of
        None \<Rightarrow> None
      | Some raw \<Rightarrow>
          (case from_json (vault_codec V) raw of
             None \<Rightarrow> from_json c raw
           | Some vault \<Rightarrow>
               (case password of
                  None \<Rightarrow> None
                | Some pw \<Rightarrow>
                    (case decrypt_vault_file V pw vault of
                       Inl e \<Rightarrow> None
                     | Inr plaintext \<Rightarrow> Option.bind (from_utf8 plaintext) (from_json c)))))"

definition save_json :: "vault_env \<Rightarrow> bytes \<Rightarrow> bytes \<Rightarrow> 'a codec \<Rightarrow> string \<Rightarrow> 'a \<Rightarrow> string option \<Rightarrow>
    (disk, string, unit) comp" where
  "save_json V salt nonce c path x password =
     (let plaintext = as_bytes (to_json c x) in
      case password of
        None \<Rightarrow> write_file path plaintext
      | Some pw \<Rightarrow>
          bindS (lift_result (encrypt_vault_file V salt nonce pw plaintext)) (\<lambda>vault.
          write_file path (as_bytes (to_json (vault_codec V) vault))))"

section \<open>A vault gives back what was saved\<close>

text \<open>The JSON of a saved value is never read as a vault file.\<close>

definition vault_laws :: "vault_env \<Rightarrow> 'a codec \<Rightarrow> bool" where
  "vault_laws V c \<longleftrightarrow> primitive_laws (prim V) \<and> json_laws (vault_codec V) \<and> json_laws c \<and>
     (\<forall>x. from_json (vault_codec V) (to_json c x) = None)"

lemma json_file: "json_laws c \<Longrightarrow> from_utf8 (as_bytes (to_json c x)) = Some (to_json c x)"
  by (simp add: json_laws_def from_utf8_as_bytes)

lemma decrypt_encrypt_vault:
  assumes "primitive_laws (prim V)" "length nonce = 24" "encrypt_vault_file V salt nonce pw p = Inr vault"
  shows "decrypt_vault_file V pw vault = Inr p"
proof -
  obtain key ct where "derive_key V pw salt = Inr key" "seal (prim V) key nonce p = Some ct"
    "vault = \<lparr>vf_version = 1, vf_salt_b64 = enc64 (prim V) salt, vf_nonce_b64 = enc64 (prim V) nonce,
          vf_ciphertext_b64 = enc64 (prim V) ct\<rparr>"
    using assms(3) by (auto simp: encrypt_vault_file_def result_simps)
  then show ?thesis
    using assms(1,2) by (simp add: decrypt_vault_file_def primitive_laws_def)
qed

lemma save_json_other: "p \<noteq> path \<Longrightarrow> files (snd (save_json V salt nonce c path x password d)) p = files d p"
  by (cases password)
    (auto simp: save_json_def Let_def bindS_apply write_file_other split: sum.split)

lemma load_save_json:
  assumes "vault_laws V c" "length nonce = 24" "save_json V salt nonce c path x password d = (Inr u, d')"
  shows "load_json V c path password d' = Some x"
proof (cases password)
  case None
  with assms(3) have "d' = d\<lparr>files := (files d)(path \<mapsto> as_bytes (to_json c x))\<rparr>"
    by (auto simp: save_json_def dest: write_file_Inr)
  then show ?thesis using assms(1) None
    by (simp add: load_json_def vault_laws_def json_file) (simp add: json_laws_def)
next
  case (Some pw)
  with assms(3) obtain vault where
    v: "encrypt_vault_file V salt nonce pw (as_bytes (to_json c x)) = Inr vault"
    and "d' = d\<lparr>files := (files d)(path \<mapsto> as_bytes (to_json (vault_codec V) vault))\<rparr>"
    by (auto simp: save_json_def comp_simps dest: write_file_Inr)
  moreover have "decrypt_vault_file V pw vault = Inr (as_bytes (to_json c x))"
    using assms(1,2) v by (intro decrypt_encrypt_vault) (simp_all add: vault_laws_def)
  moreover have "from_utf8 (as_bytes (to_json c x)) = Some (to_json c x)" "from_json c (to_json c x) = Some x"
    "from_utf8 (as_bytes (to_json (vault_codec V) vault)) = Some (to_json (vault_codec V) vault)"
    "from_json (vault_codec V) (to_json (vault_codec V) vault) = Some vault"
    using assms(1) by (simp_all add: vault_laws_def json_file) (simp_all add: json_laws_def)
  ultimately show ?thesis using Some by (simp add: load_json_def)
qed

lemma load_locked:
  assumes "vault_laws V c" "save_json V salt nonce c path x (Some pw) d = (Inr u, d')"
  shows "load_json V c path None d' = None"
proof -
  obtain vault where "d' = d\<lparr>files := (files d)(path \<mapsto> as_bytes (to_json (vault_codec V) vault))\<rparr>"
    using assms(2) by (auto simp: save_json_def comp_simps dest: write_file_Inr)
  then show ?thesis using assms(1)
    by (simp add: load_json_def vault_laws_def json_file) (simp add: json_laws_def)
qed

text \<open>
  A wrong password: under the key that Argon2 derives from it, the authenticated cipher rejects
  what was sealed under the key of the right one.
\<close>

definition wrong_password :: "vault_env \<Rightarrow> bytes \<Rightarrow> bytes \<Rightarrow> string \<Rightarrow> string \<Rightarrow> bool" where
  "wrong_password V salt nonce pw pw' \<longleftrightarrow>
     (\<forall>k k' p ct. argon2 V (as_bytes pw) salt = Some k \<and> argon2 V (as_bytes pw') salt = Some k' \<and>
        seal (prim V) k nonce p = Some ct \<longrightarrow> unseal (prim V) k' nonce ct = None)"

lemma decrypt_wrong_password:
  assumes "primitive_laws (prim V)" "length nonce = 24"
    and "encrypt_vault_file V salt nonce pw p = Inr vault" "wrong_password V salt nonce pw pw'"
  shows "\<exists>e. decrypt_vault_file V pw' vault = Inl e"
proof -
  obtain key ct where key: "argon2 V (as_bytes pw) salt = Some key" and ct: "seal (prim V) key nonce p = Some ct"
    and v: "vault = \<lparr>vf_version = 1, vf_salt_b64 = enc64 (prim V) salt, vf_nonce_b64 = enc64 (prim V) nonce,
          vf_ciphertext_b64 = enc64 (prim V) ct\<rparr>"
    using assms(3) by (auto simp: encrypt_vault_file_def derive_key_def result_simps)
  have other: "unseal (prim V) key' nonce ct = None" if "argon2 V (as_bytes pw') salt = Some key'" for key'
    using assms(4) key ct that unfolding wrong_password_def by blast
  show ?thesis
    using assms(1,2) other v
    by (cases "argon2 V (as_bytes pw') salt") (simp_all add: decrypt_vault_file_def derive_key_def primitive_laws_def)
qed

lemma load_wrong_password:
  assumes "vault_laws V c" "length nonce = 24"
    and "save_json V salt nonce c path x (Some pw) d = (Inr u, d')" "wrong_password V salt nonce pw pw'"
  shows "load_json V c path (Some pw') d' = None"
proof -
  obtain vault where v: "encrypt_vault_file V salt nonce pw (as_bytes (to_json c x)) = Inr vault"
    and d': "d' = d\<lparr>files := (files d)(path \<mapsto> as_bytes (to_json (vault_codec V) vault))\<rparr>"
    using assms(3) by (auto simp: save_json_def comp_simps dest: write_file_Inr)
  obtain e where "decrypt_vault_file V pw' vault = Inl e"
    using decrypt_wrong_password [OF _ assms(2) v assms(4)] assms(1) by (auto simp: vault_laws_def)
  then show ?thesis using d' assms(1)
    by (simp add: load_json_def vault_laws_def json_file) (simp add: json_laws_def)
qed

section \<open>A concrete instance\<close>

text \<open>
  Self-delimiting ASCII text of a list of strings (two letters per byte, a full stop at the end
  of each string): codecs built from it satisfy the laws, so that theorems under them can be
  applied to concrete inputs.
\<close>

definition pack1 :: "string \<Rightarrow> string" where
  "pack1 s = concat (map (\<lambda>c. let n = of_char c :: nat in [char_of (65 + n div 16), char_of (65 + n mod 16)]) s)"

definition pack :: "string list \<Rightarrow> string" where
  "pack ss = concat (map (\<lambda>s. pack1 s @ ''.'') ss)"

fun unpack :: "string \<Rightarrow> string \<Rightarrow> string list" where
  "unpack acc (c # d # cs) =
     (if c = CHR ''.'' then rev acc # unpack [] (d # cs)
      else unpack (char_of ((of_char c - 65) * 16 + (of_char d - 65) :: nat) # acc) cs)"
| "unpack acc [c] = (if c = CHR ''.'' then [rev acc] else [])"
| "unpack acc [] = []"

lemma unpack_stop: "unpack acc (CHR ''.'' # cs) = rev acc # unpack [] cs"
  by (cases cs) simp_all

lemma letters:
  fixes n :: nat
  assumes "n < 256"
  shows "(char_of (65 + n div 16) :: char) \<noteq> CHR ''.''"
    and "of_char (char_of (65 + n div 16) :: char) = 65 + n div 16"
    and "of_char (char_of (65 + n mod 16) :: char) = 65 + n mod 16"
proof -
  have "65 + n div 16 < 256" "65 + n mod 16 < 256" using assms by simp_all
  then show 1: "of_char (char_of (65 + n div 16) :: char) = 65 + n div 16"
    and "of_char (char_of (65 + n mod 16) :: char) = 65 + n mod 16" by simp_all
  show "(char_of (65 + n div 16) :: char) \<noteq> CHR ''.''"
  proof
    assume "(char_of (65 + n div 16) :: char) = CHR ''.''"
    then have "of_char (char_of (65 + n div 16) :: char) = (46 :: nat)" by simp
    with 1 show False by simp
  qed
qed

lemma unpack_pack1: "unpack acc (pack1 s @ CHR ''.'' # cs) = (rev acc @ s) # unpack [] cs"
proof (induction s arbitrary: acc)
  case Nil
  then show ?case by (simp add: pack1_def unpack_stop)
next
  case (Cons c s)
  have n: "of_char c < (256 :: nat)" by simp
  have n2: "of_char c div 16 * 16 + of_char c mod 16 = (of_char c :: nat)" by simp
  show ?case
    using Cons.IH by (simp add: pack1_def Let_def letters [OF n] n2 del: of_char_of)
qed

lemma unpack_pack [simp]: "unpack [] (pack ss) = ss"
  by (induction ss) (simp_all add: pack_def unpack_pack1)

lemma ascii_is_utf8: "(\<forall>c\<in>set s. of_char c < (128 :: nat)) \<Longrightarrow> is_utf8 s"
proof (induction s)
  case (Cons c s)
  have "(of_nat (of_char c) :: 8 word) < 0x80"
    using Cons.prems by (simp add: word_less_nat_alt unsigned_of_nat take_bit_nat_eq_self)
  then show ?case using Cons by (simp add: is_utf8_def as_bytes_def)
qed (simp add: is_utf8_def as_bytes_def)

lemma pack_utf8 [simp]: "is_utf8 (CHR ''V'' # pack ss)" "is_utf8 (CHR ''S'' # pack ss)"
proof -
  have "of_char c < (128 :: nat)" if c: "c \<in> set (pack1 s)" for s c
  proof -
    obtain d where "c \<in> {char_of (65 + of_char d div 16 :: nat), char_of (65 + of_char d mod 16 :: nat)}"
      using c by (auto simp: pack1_def Let_def)
    moreover have n: "of_char d < (256 :: nat)" by simp
    moreover have "(65 :: nat) + of_char d div 16 < 128" "(65 :: nat) + of_char d mod 16 < 128"
      using div_le_mono [OF less_imp_le [OF n], of 16] by simp_all
    ultimately show ?thesis using letters(2,3) [OF n] by (auto simp del: of_char_of)
  qed
  then have "\<forall>c\<in>set (pack ss). of_char c < (128 :: nat)" by (auto simp: pack_def)
  then show "is_utf8 (CHR ''V'' # pack ss)" "is_utf8 (CHR ''S'' # pack ss)"
    by (simp_all add: ascii_is_utf8)
qed

definition tagged_codec :: "char \<Rightarrow> ('a \<Rightarrow> string list) \<Rightarrow> (string list \<Rightarrow> 'a option) \<Rightarrow> 'a codec" where
  "tagged_codec tag f g = \<lparr>to_json = (\<lambda>x. tag # pack (f x)),
     from_json = (\<lambda>s. case s of c # cs \<Rightarrow> if c = tag then g (unpack [] cs) else None | [] \<Rightarrow> None)\<rparr>"

lemma tagged_codec_laws:
  "(\<And>x. g (f x) = Some x) \<Longrightarrow> tag \<in> {CHR ''V'', CHR ''S''} \<Longrightarrow> json_laws (tagged_codec tag f g)"
  by (auto simp: json_laws_def tagged_codec_def)

definition vault_env0 :: vault_env where
  "vault_env0 = \<lparr>prim = primitives0, argon2 = (\<lambda>pw salt. Some (replicate 32 (sum_list pw + sum_list salt))),
     vault_codec = tagged_codec CHR ''V''
       (\<lambda>v. [[char_of (unat (vf_version v))], vf_salt_b64 v, vf_nonce_b64 v, vf_ciphertext_b64 v])
       (\<lambda>ss. case ss of [[n], a, b, c] \<Rightarrow> Some \<lparr>vf_version = of_nat (of_char n), vf_salt_b64 = a,
                                             vf_nonce_b64 = b, vf_ciphertext_b64 = c\<rparr> | _ \<Rightarrow> None)\<rparr>"

lemma vault_env0_laws:
  assumes "\<And>x. g (f x) = Some x"
  shows "vault_laws vault_env0 (tagged_codec CHR ''S'' f g)"
proof -
  have "json_laws (vault_codec vault_env0)"
    unfolding vault_env0_def by (simp, intro tagged_codec_laws) (simp_all only: list.case byte_char_id, simp_all)
  moreover have "from_json (vault_codec vault_env0) (to_json (tagged_codec CHR ''S'' f g) x) = None" for x
    by (simp add: vault_env0_def tagged_codec_def)
  ultimately show ?thesis
    using tagged_codec_laws [OF assms] primitives0_laws by (simp add: vault_laws_def vault_env0_def)
qed

definition disk0 :: disk where
  "disk0 = \<lparr>files = (\<lambda>_. None), broken = (\<lambda>_. None)\<rparr>"

end
