(* ===== verification/Client_Sessions.thy ===== *)
theory Client_Sessions
  imports Client_Vault "HOL-Library.AList"
begin

text \<open>
  The client's own data: \<open>types.rs\<close>, and the two stores over the vault, \<open>session_store.rs\<close> (the
  ratchet sessions, one per peer device) and \<open>key_store.rs\<close> (the device's private keys).  A
  \<open>HashMap\<close> is an association list with distinct keys.
\<close>

section \<open>types.rs\<close>

record client_config =
  http_base :: string
  ws_base :: string
  session_store_path :: string
  key_store_path :: string

record device_auth =
  da_device_uuid :: string
  da_auth_token :: string

record pending_envelope =
  pe_message_id :: string
  pe_from_device_uuid :: string
  pe_envelope_b64 :: string
  pe_created_at_unix_ms :: int

record decrypted_message =
  dm_message_id :: string
  dm_from_device_uuid :: string
  dm_plaintext :: string
  dm_created_at_unix_ms :: int

record outgoing_message_status =
  os_message_id :: string
  os_delivered :: bool
  os_read :: bool

datatype encrypted_message_payload =
    Contact (ct_v: "8 word")
  | File (fl_v: "8 word") (fl_file_name: string) (fl_file_size: u64) (fl_data_b64: "string option")
      (fl_blob_id: "string option") (fl_file_key_b64: "string option")
  | Call (ca_v: "8 word") (ca_call_id: string) (ca_video: bool)

record local_device_keys =
  identity_private_b64 :: string
  identity_public_b64 :: string
  signing_identity_private_b64 :: "string option"
  signing_identity_public_b64 :: "string option"
  signed_prekey_private_b64 :: string
  signed_prekey_public_b64 :: string

record stored_peer_session =
  sp_peer_device_uuid :: string
  sp_shared_key_b64 :: string
  sp_send_chain_key_b64 :: "string option"
  sp_recv_chain_key_b64 :: "string option"
  sp_send_counter :: u64
  sp_recv_counter :: u64

record peer_session =
  shared_key_b64 :: string
  send_chain_key_b64 :: string
  recv_chain_key_b64 :: string
  send_counter :: u64
  recv_counter :: u64

type_synonym session_map = "(string \<times> peer_session) list"

definition local_default :: "os_env \<Rightarrow> disk \<Rightarrow> client_config \<times> disk" where
  "local_default oe d =
     (let (sessions_path, d1) = migrated_profile_file oe ''rsmsg_peer_sessions'' d;
          (keys_path, d2) = migrated_profile_file oe ''rsmsg_local_keys'' d1 in
      (\<lparr>http_base = ''http://127.0.0.1:3000'', ws_base = ''ws://127.0.0.1:3000'',
        session_store_path = sessions_path, key_store_path = keys_path\<rparr>, d2))"

definition starts_with :: "string \<Rightarrow> string \<Rightarrow> bool" where
  "starts_with p s \<longleftrightarrow> strip_prefix p s \<noteq> None"

definition trim_end_slashes :: "string \<Rightarrow> string" where
  "trim_end_slashes s = rev (dropWhile (\<lambda>c. c = CHR ''/'') (rev s))"

definition server_urls :: "string \<Rightarrow> string \<times> string" where
  "server_urls server =
     (let base = trim_end_slashes (trim server);
          http = (if \<not> starts_with ''http://'' base \<and> \<not> starts_with ''https://'' base
                  then ''http://'' @ base else base);
          ws = (case strip_prefix ''https://'' http of
                  Some rest \<Rightarrow> ''wss://'' @ rest
                | None \<Rightarrow>
                    (case strip_prefix ''http://'' http of Some rest \<Rightarrow> ''ws://'' @ rest | None \<Rightarrow> http)) in
      (http, ws))"

definition for_server :: "os_env \<Rightarrow> string \<Rightarrow> disk \<Rightarrow> client_config \<times> disk" where
  "for_server oe server d =
     (let (config, d1) = local_default oe d; (http, ws) = server_urls server in
      (config\<lparr>http_base := http, ws_base := ws\<rparr>, d1))"

section \<open>session_store.rs\<close>

definition unwrap_or :: "'a option \<Rightarrow> 'a \<Rightarrow> 'a" where
  "unwrap_or opt x = (case opt of Some y \<Rightarrow> y | None \<Rightarrow> x)"

definition restore_session :: "stored_peer_session \<Rightarrow> string \<times> peer_session" where
  "restore_session s =
     (sp_peer_device_uuid s,
      \<lparr>shared_key_b64 = sp_shared_key_b64 s,
       send_chain_key_b64 = unwrap_or (sp_send_chain_key_b64 s) (sp_shared_key_b64 s),
       recv_chain_key_b64 = unwrap_or (sp_recv_chain_key_b64 s) (sp_shared_key_b64 s),
       send_counter = sp_send_counter s, recv_counter = sp_recv_counter s\<rparr>)"

definition collect_map :: "(string \<times> 'v) list \<Rightarrow> (string \<times> 'v) list" where
  "collect_map kvs = foldl (\<lambda>m (k, v). AList.update k v m) [] kvs"

definition load_sessions :: "vault_env \<Rightarrow> stored_peer_session list codec \<Rightarrow> string \<Rightarrow> string option \<Rightarrow> disk \<Rightarrow> session_map" where
  "load_sessions V c path password d =
     (case load_json V c path password d of
        None \<Rightarrow> []
      | Some items \<Rightarrow> collect_map (map restore_session items))"

definition store_session :: "string \<times> peer_session \<Rightarrow> stored_peer_session" where
  "store_session = (\<lambda>(peer_device_uuid, s).
     \<lparr>sp_peer_device_uuid = peer_device_uuid, sp_shared_key_b64 = shared_key_b64 s,
      sp_send_chain_key_b64 = Some (send_chain_key_b64 s),
      sp_recv_chain_key_b64 = Some (recv_chain_key_b64 s),
      sp_send_counter = send_counter s, sp_recv_counter = recv_counter s\<rparr>)"

definition save_sessions :: "vault_env \<Rightarrow> bytes \<Rightarrow> bytes \<Rightarrow> stored_peer_session list codec \<Rightarrow> string \<Rightarrow>
    session_map \<Rightarrow> string option \<Rightarrow> (disk, string, unit) comp" where
  "save_sessions V salt nonce c path sessions password =
     save_json V salt nonce c path (sort_key sp_peer_device_uuid (map store_session sessions)) password"

section \<open>key_store.rs\<close>

definition load_keys :: "vault_env \<Rightarrow> local_device_keys codec \<Rightarrow> string \<Rightarrow> string option \<Rightarrow> disk \<Rightarrow> local_device_keys option" where
  "load_keys V c path password d = load_json V c path password d"

definition save_keys :: "vault_env \<Rightarrow> bytes \<Rightarrow> bytes \<Rightarrow> local_device_keys codec \<Rightarrow> string \<Rightarrow> local_device_keys \<Rightarrow>
    string option \<Rightarrow> (disk, string, unit) comp" where
  "save_keys V salt nonce c path keys password = save_json V salt nonce c path keys password"

section \<open>Properties of the stores\<close>

lemma restore_store [simp]: "restore_session (store_session kv) = kv"
  by (cases kv) (simp add: restore_session_def store_session_def unwrap_or_def)

lemma collect_map_snoc: "collect_map (kvs @ [(k, v)]) = AList.update k v (collect_map kvs)"
  by (simp add: collect_map_def)

lemma map_of_collect_map: "map_of (collect_map kvs) = map_of (rev kvs)"
proof (induction kvs rule: rev_induct)
  case Nil
  then show ?case by (simp add: collect_map_def)
next
  case (snoc kv kvs)
  then show ?case by (cases kv) (simp add: collect_map_snoc update_conv')
qed

lemma distinct_collect_map: "distinct (map fst (collect_map kvs))"
proof (induction kvs rule: rev_induct)
  case Nil
  then show ?case by (simp add: collect_map_def)
next
  case (snoc kv kvs)
  then show ?case by (cases kv) (simp add: collect_map_snoc distinct_update)
qed

lemma map_of_rearranged:
  assumes "distinct (map fst xs)" "distinct (map fst ys)" "set ys = set xs"
  shows "map_of ys = map_of xs"
  using assms by (metis map_of_inject_set)

lemma distinct_map_sort_key: "distinct (map f xs) \<Longrightarrow> distinct (map f (sort_key g xs))"
  by (simp add: distinct_map)

lemma fst_restore: "fst (restore_session s) = sp_peer_device_uuid s"
  by (simp add: restore_session_def)

text \<open>What saving sorts and loading collects is the same map.\<close>

lemma restored_sessions:
  assumes "distinct (map fst m)"
  shows "map_of (collect_map (map restore_session (sort_key sp_peer_device_uuid (map store_session m)))) = map_of m"
proof -
  let ?l = "map restore_session (sort_key sp_peer_device_uuid (map store_session m))"
  have "map fst m = map sp_peer_device_uuid (map store_session m)"
    by (simp add: comp_def store_session_def case_prod_beta)
  then have "distinct (map sp_peer_device_uuid (sort_key sp_peer_device_uuid (map store_session m)))"
    using assms by (metis distinct_map_sort_key)
  then have "distinct (map fst (rev ?l))"
    by (simp add: comp_def fst_restore rev_map [symmetric])
  moreover have "set (rev ?l) = set m" by (simp add: image_image)
  ultimately show ?thesis using map_of_rearranged [OF assms] by (simp add: map_of_collect_map)
qed

text \<open>
  C26.  Sessions survive a restart, and under a password only this password opens them.  When
  saving the session map succeeds, loading with the same password gives back this map: every
  peer's keys and counters, for every peer, no other peer.  Of a file saved under a password,
  a load without one gives nothing, and neither does a load with any other, that is one under
  whose Argon2 key the cipher rejects what was sealed under the key of the right password.
  Whether saving succeeds or not, no other file changes.
\<close>

theorem sessions_roundtrip:
  assumes "vault_laws V c" "length nonce = 24" "distinct (map fst m)"
  shows "case save_sessions V salt nonce c path m password d of (r, d') \<Rightarrow>
      (\<forall>p. p = path \<or> files d' p = files d p) \<and>
      (case r of
         Inl e \<Rightarrow> True
       | Inr u \<Rightarrow> map_of (load_sessions V c path password d') = map_of m \<and>
           distinct (map fst (load_sessions V c path password d')) \<and>
           (\<forall>pw. password = Some pw \<longrightarrow> load_sessions V c path None d' = [] \<and>
             (\<forall>pw'. wrong_password V salt nonce pw pw' \<longrightarrow>
                load_sessions V c path (Some pw') d' = [])))"
proof -
  obtain r d' where s: "save_sessions V salt nonce c path m password d = (r, d')"
    by (cases "save_sessions V salt nonce c path m password d")
  note s' = s [unfolded save_sessions_def]
  have other: "p = path \<or> files d' p = files d p" for p
    using save_json_other [of p path V salt nonce c _ password d] s' by (metis snd_conv)
  show ?thesis
  proof (cases r)
    case (Inr u)
    have "load_json V c path password d' = Some (sort_key sp_peer_device_uuid (map store_session m))"
      using load_save_json [OF assms(1,2) s' [unfolded Inr]] .
    moreover have "load_json V c path None d' = None" if "password = Some pw" for pw
      using load_locked [OF assms(1) s' [unfolded Inr that]] .
    moreover have "load_json V c path (Some pw') d' = None"
      if "password = Some pw" "wrong_password V salt nonce pw pw'" for pw pw'
      using load_wrong_password [OF assms(1,2) s' [unfolded Inr that(1)] that(2)] .
    ultimately show ?thesis
      using s Inr other restored_sessions [OF assms(3)] distinct_collect_map
      by (simp add: load_sessions_def)
  qed (use s other in auto)
qed

section \<open>A concrete instance\<close>

definition opt_fields :: "string option \<Rightarrow> string list" where
  "opt_fields opt = (case opt of None \<Rightarrow> ['''', ''''] | Some s \<Rightarrow> [''x'', s])"

definition opt_of_fields :: "string \<Rightarrow> string \<Rightarrow> string option" where
  "opt_of_fields t s = (if t = [] then None else Some s)"

lemma opt_fields_inverse [simp]: "opt_of_fields (opt_fields x ! 0) (opt_fields x ! Suc 0) = x"
  by (cases x) (simp_all add: opt_fields_def opt_of_fields_def)

definition count_text :: "u64 \<Rightarrow> string" where
  "count_text n = replicate (unat n) CHR ''a''"

definition count_of_text :: "string \<Rightarrow> u64" where
  "count_of_text s = of_nat (length s)"

lemma count_text_inverse [simp]: "count_of_text (count_text n) = n"
  by (simp add: count_text_def count_of_text_def)

definition session_fields :: "stored_peer_session \<Rightarrow> string list" where
  "session_fields s = [sp_peer_device_uuid s, sp_shared_key_b64 s,
     opt_fields (sp_send_chain_key_b64 s) ! 0, opt_fields (sp_send_chain_key_b64 s) ! 1,
     opt_fields (sp_recv_chain_key_b64 s) ! 0, opt_fields (sp_recv_chain_key_b64 s) ! 1,
     count_text (sp_send_counter s), count_text (sp_recv_counter s)]"

fun sessions_of_fields :: "string list \<Rightarrow> stored_peer_session list option" where
  "sessions_of_fields (a # b # c # d # e # f # g # h # rest) = map_option (\<lambda>l.
     \<lparr>sp_peer_device_uuid = a, sp_shared_key_b64 = b, sp_send_chain_key_b64 = opt_of_fields c d,
      sp_recv_chain_key_b64 = opt_of_fields e f, sp_send_counter = count_of_text g,
      sp_recv_counter = count_of_text h\<rparr> # l) (sessions_of_fields rest)"
| "sessions_of_fields [] = Some []"
| "sessions_of_fields _ = None"

lemma sessions_fields_inverse: "sessions_of_fields (concat (map session_fields l)) = Some l"
  by (induction l) (simp_all add: session_fields_def)

definition sessions_codec0 :: "stored_peer_session list codec" where
  "sessions_codec0 = tagged_codec CHR ''S'' (\<lambda>l. concat (map session_fields l)) sessions_of_fields"

lemma sessions_codec0_laws: "vault_laws vault_env0 sessions_codec0"
  unfolding sessions_codec0_def by (rule vault_env0_laws) (rule sessions_fields_inverse)

definition session0 :: peer_session where
  "session0 = \<lparr>shared_key_b64 = enc64 primitives0 key_a, send_chain_key_b64 = enc64 primitives0 key_a,
     recv_chain_key_b64 = enc64 primitives0 key_a, send_counter = 3, recv_counter = 0\<rparr>"

lemma sessions_roundtrip_witness:
  "let m = [(''dev2'', session0), (''dev1'', session0)];
       (r, d') = save_sessions vault_env0 (replicate 16 5) nonce0 sessions_codec0 ''s.json'' m (Some ''secret'') disk0 in
   r = Inr () \<and>
   map_of (load_sessions vault_env0 sessions_codec0 ''s.json'' (Some ''secret'') d') = map_of m \<and>
   load_sessions vault_env0 sessions_codec0 ''s.json'' None d' = [] \<and>
   load_sessions vault_env0 sessions_codec0 ''s.json'' (Some ''guess'') d' = []"
proof -
  let ?m = "[(''dev2'', session0), (''dev1'', session0)]"
  obtain r d' where s: "save_sessions vault_env0 (replicate 16 5) nonce0 sessions_codec0 ''s.json'' ?m (Some ''secret'') disk0 = (r, d')"
    by fastforce
  have r: "r = Inr ()"
    using s by (auto simp: save_sessions_def save_json_def bindS_apply encrypt_vault_file_def derive_key_def
        vault_env0_def primitives0_def write_file_def disk0_def Let_def)
  have other: "wrong_password vault_env0 (replicate 16 5) nonce0 ''secret'' ''guess''"
    by (simp add: wrong_password_def vault_env0_def primitives0_def as_bytes_def)
  show ?thesis
    using sessions_roundtrip [OF sessions_codec0_laws, where nonce = nonce0 and m = ?m
        and salt = "replicate 16 5" and path = "''s.json''" and password = "Some ''secret''" and d = disk0] s r other
    by simp
qed

text \<open>
  The two addresses of a server.  Whatever the user types, the HTTP address has one of the two
  schemes, and the WebSocket address is the same address under the matching scheme: a
  connection is encrypted on both or on neither.
\<close>

theorem server_urls_match:
  "\<exists>rest. server_urls server = (''http://'' @ rest, ''ws://'' @ rest) \<or>
     server_urls server = (''https://'' @ rest, ''wss://'' @ rest)"
proof -
  let ?base = "trim_end_slashes (trim server)"
  have plain: "strip_prefix ''https://'' (''http://'' @ rest) = None" for rest
    by (simp add: strip_prefix_def)
  show ?thesis
  proof (cases "strip_prefix ''https://'' ?base")
    case (Some rest)
    then show ?thesis using strip_prefix_Some [OF Some] by (auto simp: server_urls_def starts_with_def Let_def)
  next
    case None
    show ?thesis
    proof (cases "strip_prefix ''http://'' ?base")
      case (Some rest)
      then show ?thesis using strip_prefix_Some [OF Some] None
        by (auto simp: server_urls_def starts_with_def Let_def)
    next
      case None': None
      show ?thesis using None None' plain [of ?base] strip_prefix_append [of "''http://''" ?base]
        by (simp add: server_urls_def starts_with_def Let_def)
    qed
  qed
qed

end
