(* ===== verification/Transport.thy ===== *)
theory Transport
  imports Router Client_Sessions
begin

text \<open>
  \<open>transport.rs\<close>: the client's HTTP and WebSocket calls, one definition per method of
  \<open>ApiTransport\<close>.  The network is the record \<open>network\<close> over a world \<open>'w\<close>: what \<open>reqwest\<close> and
  \<open>tokio_tungstenite\<close> do with a request.  JSON bodies are the sums of \<open>Shared_Api\<close>; decoding a
  body of another type is an error.  At the end, the network that is the server itself.
\<close>

section \<open>The network\<close>

datatype ws_frame =
    FText string
  | FPing bytes bool       \<comment> \<open>payload, and whether the pong can be sent\<close>
  | FClose
  | FError string
  | FOther

record 'w network =
  nw_send :: "string \<Rightarrow> http_request \<Rightarrow> ('w, string, http_response) comp"  \<comment> \<open>to a base address\<close>
  nw_connect :: "string \<Rightarrow> http_request \<Rightarrow> ('w, string, ws_frame list) comp"
  nw_length :: "request_body \<Rightarrow> nat"
  nw_content_length :: "http_response \<Rightarrow> u64 option"
  nw_chunks :: "bytes \<Rightarrow> (string + bytes) list"     \<comment> \<open>\<open>Response::chunk\<close>, until the end\<close>
  nw_body_text :: "http_body \<Rightarrow> string"
  nw_status_text :: "nat \<Rightarrow> string"                 \<comment> \<open>\<open>Display\<close> of \<open>StatusCode\<close>\<close>
  nw_header_ok :: "string \<Rightarrow> bool"                 \<comment> \<open>\<open>HeaderValue::from_str\<close>\<close>
  nw_read_item :: "string \<Rightarrow> pending_message_item option"
  nw_version :: string                             \<comment> \<open>\<open>CARGO_PKG_VERSION\<close>\<close>
  nw_os :: string
  nw_arch :: string

definition platform_key :: "string \<Rightarrow> string \<Rightarrow> string" where
  "platform_key system arch =
     (if (system, arch) = (''windows'', ''x86_64'') then ''windows-x86_64''
      else if (system, arch) = (''macos'', ''aarch64'') then ''macos-aarch64''
      else if (system, arch) = (''macos'', ''x86_64'') then ''macos-x86_64''
      else if (system, arch) = (''linux'', ''x86_64'') then ''linux-x86_64''
      else ''unknown'')"

definition default_headers :: "'w network \<Rightarrow> headers" where
  "default_headers N = [''x-rsmsg-client-version'' \<mapsto> nw_version N,
     ''x-rsmsg-platform'' \<mapsto> platform_key (nw_os N) (nw_arch N),
     ''x-rsmsg-protocol-version'' \<mapsto> ''1'']"

definition auth_headers :: "'w network \<Rightarrow> device_auth \<Rightarrow> string + headers" where
  "auth_headers N auth =
     (if \<not> nw_header_ok N (da_device_uuid auth) then Inl ''invalid uuid header''
      else if \<not> nw_header_ok N (da_auth_token auth) then Inl ''invalid token header''
      else Inr [''x-device-uuid'' \<mapsto> da_device_uuid auth, ''x-device-token'' \<mapsto> da_auth_token auth])"

definition post :: "'w network \<Rightarrow> client_config \<Rightarrow> string \<Rightarrow> headers \<Rightarrow> request_body \<Rightarrow> ('w, string, http_response) comp" where
  "post N cfg path extra body =
     nw_send N (http_base cfg) \<lparr>rq_method = POST, rq_path = path, rq_headers = default_headers N ++ extra,
       rq_body = body, rq_length = nw_length N body\<rparr>"

definition post_auth :: "'w network \<Rightarrow> client_config \<Rightarrow> device_auth \<Rightarrow> string \<Rightarrow> request_body \<Rightarrow> ('w, string, http_response) comp" where
  "post_auth N cfg auth path body =
     bindS (lift_result (auth_headers N auth)) (\<lambda>extra. post N cfg path extra body)"

section \<open>Reading responses\<close>

definition is_success :: "nat \<Rightarrow> bool" where
  "is_success status \<longleftrightarrow> 200 \<le> status \<and> status < 300"

text \<open>The field \<open>error\<close> of a JSON body.\<close>

definition error_field :: "http_body \<Rightarrow> string option" where
  "error_field body = (case body of
     BError message \<Rightarrow> Some message
   | BUpgradeRequired v \<Rightarrow> Some ''client version is no longer supported''
   | BResponse b \<Rightarrow> None)"

definition api_error_message :: "'w network \<Rightarrow> nat \<Rightarrow> http_body \<Rightarrow> string" where
  "api_error_message N status body =
     (case error_field body of Some message \<Rightarrow> message | None \<Rightarrow> ''request failed with '' @ nw_status_text N status)"

definition failed_with :: "'w network \<Rightarrow> string \<Rightarrow> nat \<Rightarrow> http_body \<Rightarrow> string" where
  "failed_with N method status body = method @ '' failed with '' @ nw_status_text N status"

definition require_success :: "(nat \<Rightarrow> http_body \<Rightarrow> string) \<Rightarrow> http_response \<Rightarrow> ('w, string, unit) comp" where
  "require_success message response =
     reject_if (\<not> is_success (rs_status response)) (message (rs_status response) (rs_body response))"

definition read_json :: "(response_body \<Rightarrow> 'a option) \<Rightarrow> http_response \<Rightarrow> ('w, string, 'a) comp" where
  "read_json sel response =
     ok_or (case rs_body response of BResponse b \<Rightarrow> sel b | _ \<Rightarrow> None) ''error decoding response body''"

definition as_result :: "(nat \<Rightarrow> http_body \<Rightarrow> string) \<Rightarrow> (response_body \<Rightarrow> 'a option) \<Rightarrow>
    ('w, string, http_response) comp \<Rightarrow> ('w, string, 'a) comp" where
  "as_result message sel request =
     bindS request (\<lambda>response. bindS (require_success message response) (\<lambda>_. read_json sel response))"

section \<open>Methods\<close>

definition t_register_device :: "'w network \<Rightarrow> client_config \<Rightarrow> register_device_request \<Rightarrow> ('w, string, register_device_response) comp" where
  "t_register_device N cfg req =
     as_result (api_error_message N) (\<lambda>b. case b of PRegisterDevice r \<Rightarrow> Some r | _ \<Rightarrow> None)
       (post N cfg ''/v1/register_device'' Map.empty (QRegisterDevice req))"

definition t_user_login :: "'w network \<Rightarrow> client_config \<Rightarrow> user_login_request \<Rightarrow> ('w, string, user_login_response) comp" where
  "t_user_login N cfg req =
     as_result (api_error_message N) (\<lambda>b. case b of PUserLogin r \<Rightarrow> Some r | _ \<Rightarrow> None)
       (post N cfg ''/v1/user_login'' Map.empty (QUserLogin req))"

definition t_user_search :: "'w network \<Rightarrow> client_config \<Rightarrow> string \<Rightarrow> ('w, string, user_search_response) comp" where
  "t_user_search N cfg query =
     as_result (failed_with N ''user_search'') (\<lambda>b. case b of PUserSearch r \<Rightarrow> Some r | _ \<Rightarrow> None)
       (post N cfg ''/v1/user_search'' Map.empty (QUserSearch \<lparr>us_query = query\<rparr>))"

definition t_user_online :: "'w network \<Rightarrow> client_config \<Rightarrow> string \<Rightarrow> string \<Rightarrow> ('w, string, user_online_response) comp" where
  "t_user_online N cfg user_id device_id =
     as_result (failed_with N ''user_online'') (\<lambda>b. case b of PUserOnline r \<Rightarrow> Some r | _ \<Rightarrow> None)
       (post N cfg ''/v1/user_online'' Map.empty (QUserOnline \<lparr>uo_user_id = user_id, uo_device_id = device_id\<rparr>))"

definition t_device_login :: "'w network \<Rightarrow> client_config \<Rightarrow> device_login_request \<Rightarrow> ('w, string, device_login_response) comp" where
  "t_device_login N cfg req =
     as_result (api_error_message N) (\<lambda>b. case b of PDeviceLogin r \<Rightarrow> Some r | _ \<Rightarrow> None)
       (post N cfg ''/v1/device_login'' Map.empty (QDeviceLogin req))"

definition t_device_logout :: "'w network \<Rightarrow> client_config \<Rightarrow> device_auth \<Rightarrow> ('w, string, device_logout_response) comp" where
  "t_device_logout N cfg auth =
     as_result (failed_with N ''device_logout'') (\<lambda>b. case b of PDeviceLogout r \<Rightarrow> Some r | _ \<Rightarrow> None)
       (post_auth N cfg auth ''/v1/device_logout'' (QDeviceLogout \<lparr>do_device_uuid = da_device_uuid auth\<rparr>))"

definition t_upload_prekeys :: "'w network \<Rightarrow> client_config \<Rightarrow> device_auth \<Rightarrow> upload_prekeys_request \<Rightarrow> ('w, string, upload_prekeys_response) comp" where
  "t_upload_prekeys N cfg auth req =
     as_result (failed_with N ''upload_prekeys'') (\<lambda>b. case b of PUploadPrekeys r \<Rightarrow> Some r | _ \<Rightarrow> None)
       (post_auth N cfg auth ''/v1/upload_prekeys'' (QUploadPrekeys req))"

definition t_send_message :: "'w network \<Rightarrow> client_config \<Rightarrow> device_auth \<Rightarrow> send_message_request \<Rightarrow> ('w, string, send_message_response) comp" where
  "t_send_message N cfg auth req =
     as_result (api_error_message N) (\<lambda>b. case b of PSendMessage r \<Rightarrow> Some r | _ \<Rightarrow> None)
       (post_auth N cfg auth ''/v1/send_message'' (QSendMessage req))"

definition t_block_user :: "'w network \<Rightarrow> client_config \<Rightarrow> device_auth \<Rightarrow> string \<Rightarrow> ('w, string, block_user_response) comp" where
  "t_block_user N cfg auth user_id =
     as_result (api_error_message N) (\<lambda>b. case b of PBlockUser r \<Rightarrow> Some r | _ \<Rightarrow> None)
       (post_auth N cfg auth ''/v1/block_user'' (QBlockUser \<lparr>bu_user_id = user_id\<rparr>))"

definition t_unblock_user :: "'w network \<Rightarrow> client_config \<Rightarrow> device_auth \<Rightarrow> string \<Rightarrow> ('w, string, unblock_user_response) comp" where
  "t_unblock_user N cfg auth user_id =
     as_result (api_error_message N) (\<lambda>b. case b of PUnblockUser r \<Rightarrow> Some r | _ \<Rightarrow> None)
       (post_auth N cfg auth ''/v1/unblock_user'' (QUnblockUser \<lparr>uu_user_id = user_id\<rparr>))"

definition t_blocked_users :: "'w network \<Rightarrow> client_config \<Rightarrow> device_auth \<Rightarrow> ('w, string, blocked_users_response) comp" where
  "t_blocked_users N cfg auth =
     as_result (api_error_message N) (\<lambda>b. case b of PBlockedUsers r \<Rightarrow> Some r | _ \<Rightarrow> None)
       (post_auth N cfg auth ''/v1/blocked_users'' QNone)"

definition t_resolve_user :: "'w network \<Rightarrow> client_config \<Rightarrow> string \<Rightarrow> string \<Rightarrow> ('w, string, resolve_user_response) comp" where
  "t_resolve_user N cfg user_id device_id =
     as_result (failed_with N ''resolve_user'') (\<lambda>b. case b of PResolveUser r \<Rightarrow> Some r | _ \<Rightarrow> None)
       (post N cfg ''/v1/resolve_user'' Map.empty (QResolveUser \<lparr>ru_user_id = user_id, ru_device_id = device_id\<rparr>))"

definition t_resolve_device :: "'w network \<Rightarrow> client_config \<Rightarrow> string \<Rightarrow> ('w, string, resolve_device_response) comp" where
  "t_resolve_device N cfg device_uuid =
     as_result (failed_with N ''resolve_device'') (\<lambda>b. case b of PResolveDevice r \<Rightarrow> Some r | _ \<Rightarrow> None)
       (post N cfg ''/v1/resolve_device'' Map.empty (QResolveDevice \<lparr>rdev_device_uuid = device_uuid\<rparr>))"

definition t_message_status :: "'w network \<Rightarrow> client_config \<Rightarrow> device_auth \<Rightarrow> string list \<Rightarrow> ('w, string, message_status_response) comp" where
  "t_message_status N cfg auth message_ids =
     as_result (failed_with N ''message_status'') (\<lambda>b. case b of PMessageStatus r \<Rightarrow> Some r | _ \<Rightarrow> None)
       (post_auth N cfg auth ''/v1/message_status'' (QMessageStatus \<lparr>ms_message_ids = message_ids\<rparr>))"

definition t_send_call_signal :: "'w network \<Rightarrow> client_config \<Rightarrow> device_auth \<Rightarrow> send_call_signal_request \<Rightarrow> ('w, string, send_call_signal_response) comp" where
  "t_send_call_signal N cfg auth req =
     as_result (api_error_message N) (\<lambda>b. case b of PSendCallSignal r \<Rightarrow> Some r | _ \<Rightarrow> None)
       (post_auth N cfg auth ''/v1/send_call_signal'' (QSendCallSignal req))"

definition t_fetch_call_signals :: "'w network \<Rightarrow> client_config \<Rightarrow> device_auth \<Rightarrow> string option \<Rightarrow> nat option \<Rightarrow> ('w, string, fetch_call_signals_response) comp" where
  "t_fetch_call_signals N cfg auth call_id limit =
     as_result (api_error_message N) (\<lambda>b. case b of PFetchCallSignals r \<Rightarrow> Some r | _ \<Rightarrow> None)
       (post_auth N cfg auth ''/v1/fetch_call_signals'' (QFetchCallSignals \<lparr>fc_device_uuid = da_device_uuid auth, fc_call_id = call_id, fc_limit = limit\<rparr>))"

definition t_create_blob :: "'w network \<Rightarrow> client_config \<Rightarrow> device_auth \<Rightarrow> ('w, string, create_blob_response) comp" where
  "t_create_blob N cfg auth =
     as_result (failed_with N ''create_blob'') (\<lambda>b. case b of PCreateBlob r \<Rightarrow> Some r | _ \<Rightarrow> None)
       (post_auth N cfg auth ''/v1/create_blob'' QNone)"

definition t_user_register :: "'w network \<Rightarrow> client_config \<Rightarrow> user_register_request \<Rightarrow> ('w, string, user_register_response) comp" where
  "t_user_register N cfg req =
     as_result (\<lambda>status body. case error_field body of
         Some message \<Rightarrow> message | None \<Rightarrow> failed_with N ''user_register'' status body)
       (\<lambda>b. case b of PUserRegister r \<Rightarrow> Some r | _ \<Rightarrow> None)
       (post N cfg ''/v1/user_register'' Map.empty (QUserRegister req))"

text \<open>The \<open>with_context\<close> of this method replaces the outermost error message.\<close>

definition with_context :: "('w, string, 'a) comp \<Rightarrow> string \<Rightarrow> ('w, string, 'a) comp" where
  "with_context m context = (\<lambda>w. case m w of (Inl e, w') \<Rightarrow> (Inl context, w') | ok \<Rightarrow> ok)"

definition t_fetch_prekey_bundle :: "'w network \<Rightarrow> client_config \<Rightarrow> string \<Rightarrow> string \<Rightarrow>
    ('w, string, fetch_prekey_bundle_response) comp" where
  "t_fetch_prekey_bundle N cfg user_id device_id =
     (let url = http_base cfg @ ''/v1/fetch_prekey_bundle'' in
      bindS (with_context
        (post N cfg ''/v1/fetch_prekey_bundle'' Map.empty
          (QFetchPrekeyBundle \<lparr>fb_user_id = user_id, fb_device_id = device_id\<rparr>))
        (''request failed: POST '' @ url)) (\<lambda>response.
      bindS (require_success (api_error_message N) response) (\<lambda>_.
      with_context (read_json (\<lambda>b. case b of PFetchPrekeyBundle r \<Rightarrow> Some r | _ \<Rightarrow> None) response)
        (''invalid response: POST '' @ url))))"

definition envelope_of :: "pending_message_item \<Rightarrow> pending_envelope" where
  "envelope_of m = \<lparr>pe_message_id = pm_message_id m, pe_from_device_uuid = pm_from_device_uuid m,
     pe_envelope_b64 = pm_envelope_b64 m, pe_created_at_unix_ms = pm_created_at_unix_ms m\<rparr>"

definition t_fetch_pending :: "'w network \<Rightarrow> client_config \<Rightarrow> device_auth \<Rightarrow> int option \<Rightarrow>
    ('w, string, pending_envelope list) comp" where
  "t_fetch_pending N cfg auth limit =
     bindS (as_result (failed_with N ''fetch_pending'') (\<lambda>b. case b of PFetchPending r \<Rightarrow> Some r | _ \<Rightarrow> None)
       (post_auth N cfg auth ''/v1/fetch_pending''
         (QFetchPending \<lparr>fp_device_uuid = da_device_uuid auth, fp_limit = limit\<rparr>))) (\<lambda>payload.
     returnS (map envelope_of (fpr_messages payload)))"

definition t_ack_messages :: "'w network \<Rightarrow> client_config \<Rightarrow> device_auth \<Rightarrow> string list \<Rightarrow> ('w, string, unit) comp" where
  "t_ack_messages N cfg auth message_ids =
     bindS (post_auth N cfg auth ''/v1/ack_message''
         (QAckMessage \<lparr>am_device_uuid = da_device_uuid auth, am_message_ids = message_ids\<rparr>)) (\<lambda>response.
     require_success (failed_with N ''ack_message'') response)"

definition t_append_blob_chunk :: "'w network \<Rightarrow> client_config \<Rightarrow> device_auth \<Rightarrow> string \<Rightarrow> string \<Rightarrow>
    ('w, string, append_blob_chunk_response) comp" where
  "t_append_blob_chunk N cfg auth blob_id chunk_b64 =
     as_result (\<lambda>status body. failed_with N ''append_blob_chunk'' status body @ '': '' @ nw_body_text N body)
       (\<lambda>b. case b of PAppendBlobChunk r \<Rightarrow> Some r | _ \<Rightarrow> None)
       (post_auth N cfg auth ''/v1/append_blob_chunk''
         (QAppendBlobChunk \<lparr>ab_blob_id = blob_id, ab_chunk_b64 = chunk_b64\<rparr>))"

definition saturating_add :: "u64 \<Rightarrow> u64 \<Rightarrow> u64" where
  "saturating_add a b = (if a + b < a then - 1 else a + b)"

text \<open>A progress callback acts on the world.\<close>

fun read_chunks :: "(u64 \<Rightarrow> u64 \<Rightarrow> 'w \<Rightarrow> 'w) \<Rightarrow> u64 \<Rightarrow> u64 \<Rightarrow> bytes \<Rightarrow> (string + bytes) list \<Rightarrow>
    ('w, string, bytes) comp" where
  "read_chunks progress expected downloaded out [] = returnS out"
| "read_chunks progress expected downloaded out (Inl e # chunks) = failS e"
| "read_chunks progress expected downloaded out (Inr chunk # chunks) =
     (let downloaded = saturating_add downloaded (of_nat (length chunk)) in
      bindS (modifyS (progress downloaded expected)) (\<lambda>_.
      read_chunks progress expected downloaded (out @ chunk) chunks))"

definition t_fetch_blob_bytes_with_progress :: "'w network \<Rightarrow> client_config \<Rightarrow> device_auth \<Rightarrow> string \<Rightarrow>
    (u64 \<Rightarrow> u64 \<Rightarrow> 'w \<Rightarrow> 'w) \<Rightarrow> ('w, string, bytes) comp" where
  "t_fetch_blob_bytes_with_progress N cfg auth blob_id progress =
     bindS (post_auth N cfg auth ''/v1/fetch_blob_bytes'' (QFetchBlob \<lparr>fbl_blob_id = blob_id\<rparr>)) (\<lambda>response.
     bindS (require_success (failed_with N ''fetch_blob_bytes'') response) (\<lambda>_.
     let expected = unwrap_or (nw_content_length N response) 0;
         body = (case rs_body response of BResponse (PBytes data) \<Rightarrow> data | other \<Rightarrow> as_bytes (nw_body_text N other)) in
     bindS (modifyS (progress 0 expected)) (\<lambda>_.
     read_chunks progress expected 0 [] (nw_chunks N body))))"

text \<open>The loop over the frames of a WebSocket; the stream ends with the list.\<close>

fun ws_loop :: "'w network \<Rightarrow> ws_frame list \<Rightarrow> pending_envelope list \<Rightarrow> string + pending_envelope list" where
  "ws_loop N [] out = Inr out"
| "ws_loop N (FText text # frames) out =
     (if text = ''ready'' then Inr out
      else case nw_read_item N text of
        Some pending \<Rightarrow> ws_loop N frames (out @ [envelope_of pending])
      | None \<Rightarrow> ws_loop N frames out)"
| "ws_loop N (FPing payload sent # frames) out = (if sent then ws_loop N frames out else Inl ''send failed'')"
| "ws_loop N (FClose # frames) out = Inr out"
| "ws_loop N (FError e # frames) out = Inl e"
| "ws_loop N (FOther # frames) out = ws_loop N frames out"

text \<open>The upgrade request carries the two credentials and none of the default headers.\<close>

definition t_ws_once :: "'w network \<Rightarrow> client_config \<Rightarrow> device_auth \<Rightarrow> ('w, string, pending_envelope list) comp" where
  "t_ws_once N cfg auth =
     bindS (lift_result (auth_headers N auth)) (\<lambda>extra.
     bindS (nw_connect N (ws_base cfg) \<lparr>rq_method = GET, rq_path = ''/v1/ws'', rq_headers = extra,
       rq_body = QNone, rq_length = 0\<rparr>) (\<lambda>frames.
     lift_result (ws_loop N frames [])))"

section \<open>The server as the network\<close>

text \<open>Every request reaches the server and its answer comes back; \<open>dr\<close> are the server's random draws.\<close>

definition server_network :: "(http_request \<Rightarrow> http_response) \<Rightarrow> env \<Rightarrow> draws \<Rightarrow> server network \<Rightarrow> server network" where
  "server_network refuse E dr N = N\<lparr>nw_send := (\<lambda>base rq s. case handle_request refuse E dr rq s of
     (response, s') \<Rightarrow> (Inr response, s'))\<rparr>"

text \<open>The frames of a server session as the client sees them.\<close>

definition client_frame :: "(pending_message_item \<Rightarrow> string) \<Rightarrow> ws_out \<Rightarrow> ws_frame" where
  "client_frame show_item out = (case out of
     OReady \<Rightarrow> FText ''ready'' | OMessage m \<Rightarrow> FText (show_item m) | OPong payload \<Rightarrow> FOther)"

section \<open>Properties\<close>

lemma api_error_message_of_server:
  "api_error_message N (rs_status (into_response e)) (rs_body (into_response e)) = ae_message e"
  by (simp add: api_error_message_def into_response_def error_field_def)

lemma read_chunks_whole:
  "\<exists>w'. read_chunks progress expected downloaded out (map Inr chunks) w = (Inr (out @ concat chunks), w')"
proof (induction chunks arbitrary: downloaded out w)
  case (Cons chunk chunks)
  let ?downloaded = "saturating_add downloaded (of_nat (length chunk))"
  from Cons.IH [of ?downloaded "out @ chunk" "progress ?downloaded expected w"]
  show ?case by (simp add: Let_def)
qed simp

text \<open>
  The client's WebSocket drain never receives a message.  The server opens every session with
  the text \<open>ready\<close> before any message, and the client's loop stops at this text: whatever is
  pending, and whatever happens in the session, \<open>ws_once\<close> returns an empty list.
\<close>

lemma ws_once_returns_nothing:
  "ws_loop N (map (client_frame show_item) (fst (run_session E d evs s))) [] = Inr []"
  by (simp add: run_session_def open_session_def Let_def client_frame_def split: prod.split)

text \<open>
  Nor does the upgrade pass the version gate: it carries no version, so on a server that
  requires any version at all every \<open>ws_once\<close> request is answered with 426 and changes nothing.
\<close>

lemma ws_once_fails_version_gate:
  assumes "version_gt (min_client_version s) ''0.0.0''" "auth_headers N auth = Inr extra"
  shows "handle_request refuse E dr \<lparr>rq_method = GET, rq_path = ''/v1/ws'', rq_headers = extra,
      rq_body = QNone, rq_length = 0\<rparr> s = (upgrade_required (min_client_version s), s)"
proof -
  have "extra ''x-rsmsg-client-version'' = None"
    using assms(2) by (auto simp: auth_headers_def split: if_splits)
  then show ?thesis using assms(1) by (simp add: handle_request_def require_supported_client_def)
qed

definition network0 :: "'w network" where
  "network0 = \<lparr>nw_send = (\<lambda>base rq. failS ''offline''), nw_connect = (\<lambda>base rq. failS ''offline''),
     nw_length = (\<lambda>_. 10), nw_content_length = (\<lambda>_. None), nw_chunks = (\<lambda>bs. [Inr bs]),
     nw_body_text = (\<lambda>_. []), nw_status_text = decimal, nw_header_ok = (\<lambda>_. True),
     nw_read_item = (\<lambda>_. None), nw_version = ''0.1.0'', nw_os = ''linux'', nw_arch = ''x86_64''\<rparr>"

lemma ws_once_fails_version_gate_witness:
  "handle_request (\<lambda>_. \<lparr>rs_status = 422, rs_body = BResponse PEmpty\<rparr>) env0 (\<lambda>_. 0)
      \<lparr>rq_method = GET, rq_path = ''/v1/ws'',
       rq_headers = [''x-device-uuid'' \<mapsto> ''u'', ''x-device-token'' \<mapsto> ''t''], rq_body = QNone, rq_length = 0\<rparr>
      (server0\<lparr>min_client_version := ''0.1.0''\<rparr>) =
   (upgrade_required ''0.1.0'', server0\<lparr>min_client_version := ''0.1.0''\<rparr>)"
proof -
  have v: "version_gt (min_client_version (server0\<lparr>min_client_version := ''0.1.0''\<rparr>)) ''0.0.0''"
    by (simp add: version_gt_def parse_version_def is_separator_def parse_u64_def is_digit_def digits_value_def
        unwrap_or_default_def nth_part_def less_prod_def)
  have h: "auth_headers (network0 :: unit network) \<lparr>da_device_uuid = ''u'', da_auth_token = ''t''\<rparr> =
      Inr [''x-device-uuid'' \<mapsto> ''u'', ''x-device-token'' \<mapsto> ''t'']"
    by (simp add: auth_headers_def network0_def)
  from ws_once_fails_version_gate [OF v h] show ?thesis by simp
qed

end
