(* ===== verification/Client_Core.thy ===== *)
theory Client_Core
  imports Transport
begin

text \<open>
  \<open>core.rs\<close>: the client.  Its state holds the unlocked password, the ratchet sessions (a map
  behind a mutex; calls are serialised), the disk and the world of the network.  One
  definition per method of \<open>ClientCore\<close>.  Random bytes are drawn from a record of draws.
\<close>

section \<open>State\<close>

record ratchet_envelope =
  re_v :: "8 word"
  re_counter :: u64
  re_envelope_b64 :: string

record 'w client =
  cl_config :: client_config
  cl_password :: "string option"
  cl_sessions :: session_map
  cl_disk :: disk
  cl_world :: 'w

record 'w client_env =
  ce_vault :: vault_env
  ce_network :: "'w network"
  ce_sessions :: "stored_peer_session list codec"
  ce_keys :: "local_device_keys codec"
  ce_envelope :: "ratchet_envelope codec"
  ce_payload :: "encrypted_message_payload codec"

record client_draws =
  cd_nonce :: bytes          \<comment> \<open>24 bytes for a message\<close>
  cd_file_nonce :: bytes     \<comment> \<open>24 bytes for a file\<close>
  cd_file_key :: bytes       \<comment> \<open>32 bytes\<close>
  cd_salt :: bytes           \<comment> \<open>16 bytes for the vault\<close>
  cd_vault_nonce :: bytes    \<comment> \<open>24 bytes\<close>
  cd_identity :: bytes       \<comment> \<open>32 bytes each\<close>
  cd_signed :: bytes
  cd_signing :: bytes
  cd_uuid :: string          \<comment> \<open>a printed random uuid\<close>

type_synonym ('w, 'a) client_op = "('w client, string, 'a) comp"

abbreviation crypto :: "'w client_env \<Rightarrow> primitives" where
  "crypto X \<equiv> prim (ce_vault X)"

definition on_net :: "('w network \<Rightarrow> client_config \<Rightarrow> ('w, string, 'a) comp) \<Rightarrow> 'w client_env \<Rightarrow> ('w, 'a) client_op" where
  "on_net call X cl = (case call (ce_network X) (cl_config cl) (cl_world cl) of
     (r, w) \<Rightarrow> (r, cl\<lparr>cl_world := w\<rparr>))"

definition on_disk :: "(disk, string, 'a) comp \<Rightarrow> ('w, 'a) client_op" where
  "on_disk m cl = (case m (cl_disk cl) of (r, d) \<Rightarrow> (r, cl\<lparr>cl_disk := d\<rparr>))"

text \<open>\<open>let _ = \<dots>\<close>: the outcome is dropped, the effect stays.\<close>

definition ignore :: "('w, 'a) client_op \<Rightarrow> ('w, unit) client_op" where
  "ignore m cl = (Inr (), snd (m cl))"

section \<open>Keys and local storage\<close>

definition new_client :: "client_config \<Rightarrow> disk \<Rightarrow> 'w \<Rightarrow> 'w client" where
  "new_client config d w = \<lparr>cl_config = config, cl_password = None, cl_sessions = [], cl_disk = d, cl_world = w\<rparr>"

definition unlock_local_storage :: "'w client_env \<Rightarrow> string \<Rightarrow> 'w client \<Rightarrow> 'w client" where
  "unlock_local_storage X password cl =
     cl\<lparr>cl_password := Some password,
        cl_sessions := load_sessions (ce_vault X) (ce_sessions X) (session_store_path (cl_config cl))
          (Some password) (cl_disk cl)\<rparr>"

definition persist_sessions :: "'w client_env \<Rightarrow> client_draws \<Rightarrow> ('w, unit) client_op" where
  "persist_sessions X dr cl =
     on_disk (save_sessions (ce_vault X) (cd_salt dr) (cd_vault_nonce dr) (ce_sessions X)
       (session_store_path (cl_config cl)) (cl_sessions cl) (cl_password cl)) cl"

definition generate_local_device_keys :: "'w client_env \<Rightarrow> client_draws \<Rightarrow> local_device_keys" where
  "generate_local_device_keys X dr =
     (let identity = generate_x25519_keypair (crypto X) (cd_identity dr);
          signed = generate_x25519_keypair (crypto X) (cd_signed dr);
          signing = generate_ed25519_keypair (crypto X) (cd_signing dr) in
      \<lparr>identity_private_b64 = private_b64 identity, identity_public_b64 = public_b64 identity,
       signing_identity_private_b64 = Some (private_b64 signing),
       signing_identity_public_b64 = Some (public_b64 signing),
       signed_prekey_private_b64 = private_b64 signed, signed_prekey_public_b64 = public_b64 signed\<rparr>)"

definition save_local_keys :: "'w client_env \<Rightarrow> client_draws \<Rightarrow> local_device_keys \<Rightarrow> ('w, unit) client_op" where
  "save_local_keys X dr keys cl =
     on_disk (save_keys (ce_vault X) (cd_salt dr) (cd_vault_nonce dr) (ce_keys X)
       (key_store_path (cl_config cl)) keys (cl_password cl)) cl"

definition load_or_create_local_device_keys :: "'w client_env \<Rightarrow> client_draws \<Rightarrow> ('w, local_device_keys) client_op" where
  "load_or_create_local_device_keys X dr cl =
     (case load_keys (ce_vault X) (ce_keys X) (key_store_path (cl_config cl)) (cl_password cl) (cl_disk cl) of
        Some keys \<Rightarrow>
          (if signing_identity_private_b64 keys = None \<or> signing_identity_public_b64 keys = None then
             let signing = generate_ed25519_keypair (crypto X) (cd_signing dr);
                 keys = keys\<lparr>signing_identity_private_b64 := Some (private_b64 signing),
                             signing_identity_public_b64 := Some (public_b64 signing)\<rparr> in
             bindS (ignore (save_local_keys X dr keys)) (\<lambda>_.
             bindS (ignore (save_local_keys X dr keys)) (\<lambda>_. returnS keys)) cl
           else bindS (ignore (save_local_keys X dr keys)) (\<lambda>_. returnS keys) cl)
      | None \<Rightarrow>
          (let keys = generate_local_device_keys X dr in
           bindS (ignore (save_local_keys X dr keys)) (\<lambda>_. returnS keys) cl))"

definition build_register_request :: "'w client_env \<Rightarrow> string \<Rightarrow> string \<Rightarrow> local_device_keys \<Rightarrow>
    string + register_device_request" where
  "build_register_request X user_id device_id keys =
     bindR (ok_orR (signing_identity_private_b64 keys) ''missing signing identity private key'') (\<lambda>signing_private.
     bindR (ok_orR (signing_identity_public_b64 keys) ''missing signing identity public key'') (\<lambda>signing_public.
     bindR (sign_prekey_b64 (crypto X) signing_private (signed_prekey_public_b64 keys)) (\<lambda>signature.
     Inr \<lparr>rd_user_id = user_id, rd_device_id = device_id, rd_identity_key_b64 = identity_public_b64 keys,
          rd_signing_identity_key_b64 = signing_public,
          rd_signed_prekey_b64 = signed_prekey_public_b64 keys,
          rd_signed_prekey_signature_b64 = signature\<rparr>)))"

section \<open>Account calls\<close>

definition mapS :: "('a \<Rightarrow> 'b) \<Rightarrow> ('s, 'e, 'a) comp \<Rightarrow> ('s, 'e, 'b) comp" where
  "mapS f m = bindS m (\<lambda>x. returnS (f x))"

definition c_register_device :: "'w client_env \<Rightarrow> register_device_request \<Rightarrow> ('w, string) client_op" where
  "c_register_device X req = mapS rdr_device_uuid (on_net (\<lambda>N cfg. t_register_device N cfg req) X)"

definition c_register_user :: "'w client_env \<Rightarrow> string \<Rightarrow> string \<Rightarrow> string \<Rightarrow> ('w, bool) client_op" where
  "c_register_user X user_id password invite_code =
     mapS uregr_created (on_net (\<lambda>N cfg. t_user_register N cfg
       \<lparr>ureg_user_id = user_id, ureg_password = password, ureg_invite_code = invite_code\<rparr>) X)"

definition c_login_user :: "'w client_env \<Rightarrow> string \<Rightarrow> string \<Rightarrow> ('w, bool) client_op" where
  "c_login_user X user_id password =
     mapS ulr_ok (on_net (\<lambda>N cfg. t_user_login N cfg \<lparr>ul_user_id = user_id, ul_password = password\<rparr>) X)"

definition c_search_users :: "'w client_env \<Rightarrow> string \<Rightarrow> ('w, string list) client_op" where
  "c_search_users X query = mapS usr_users (on_net (\<lambda>N cfg. t_user_search N cfg query) X)"

definition c_is_user_online :: "'w client_env \<Rightarrow> string \<Rightarrow> string \<Rightarrow> ('w, bool) client_op" where
  "c_is_user_online X user_id device_id =
     mapS uor_online (on_net (\<lambda>N cfg. t_user_online N cfg user_id device_id) X)"

definition c_block_user :: "'w client_env \<Rightarrow> device_auth \<Rightarrow> string \<Rightarrow> ('w, bool) client_op" where
  "c_block_user X auth user_id = mapS bur_blocked (on_net (\<lambda>N cfg. t_block_user N cfg auth user_id) X)"

definition c_unblock_user :: "'w client_env \<Rightarrow> device_auth \<Rightarrow> string \<Rightarrow> ('w, bool) client_op" where
  "c_unblock_user X auth user_id = mapS uur_unblocked (on_net (\<lambda>N cfg. t_unblock_user N cfg auth user_id) X)"

definition c_blocked_users :: "'w client_env \<Rightarrow> device_auth \<Rightarrow> ('w, string list) client_op" where
  "c_blocked_users X auth = mapS bus_users (on_net (\<lambda>N cfg. t_blocked_users N cfg auth) X)"

definition c_login_device :: "'w client_env \<Rightarrow> string \<Rightarrow> string \<Rightarrow> ('w, device_auth) client_op" where
  "c_login_device X user_id device_id =
     mapS (\<lambda>r. \<lparr>da_device_uuid = dlr_device_uuid r, da_auth_token = dlr_auth_token r\<rparr>)
       (on_net (\<lambda>N cfg. t_device_login N cfg \<lparr>dl_user_id = user_id, dl_device_id = device_id\<rparr>) X)"

definition c_logout_device :: "'w client_env \<Rightarrow> device_auth \<Rightarrow> ('w, bool) client_op" where
  "c_logout_device X auth = mapS dor_revoked (on_net (\<lambda>N cfg. t_device_logout N cfg auth) X)"

definition c_upload_prekeys :: "'w client_env \<Rightarrow> device_auth \<Rightarrow> upload_prekeys_request \<Rightarrow> ('w, nat) client_op" where
  "c_upload_prekeys X auth req = mapS upr_inserted (on_net (\<lambda>N cfg. t_upload_prekeys N cfg auth req) X)"

definition c_resolve_user_device :: "'w client_env \<Rightarrow> string \<Rightarrow> string \<Rightarrow> ('w, string) client_op" where
  "c_resolve_user_device X user_id device_id =
     mapS rur_device_uuid (on_net (\<lambda>N cfg. t_resolve_user N cfg user_id device_id) X)"

definition c_resolve_device_user :: "'w client_env \<Rightarrow> string \<Rightarrow> ('w, string) client_op" where
  "c_resolve_device_user X device_uuid =
     mapS rdevr_user_id (on_net (\<lambda>N cfg. t_resolve_device N cfg device_uuid) X)"

section \<open>Sending\<close>

definition c_send_message :: "'w client_env \<Rightarrow> device_auth \<Rightarrow> send_message_request \<Rightarrow> ('w, bool) client_op" where
  "c_send_message X auth req = mapS smr_accepted (on_net (\<lambda>N cfg. t_send_message N cfg auth req) X)"

definition send_text_message_with_id :: "'w client_env \<Rightarrow> client_draws \<Rightarrow> device_auth \<Rightarrow> string \<Rightarrow> string \<Rightarrow>
    string \<Rightarrow> string \<Rightarrow> ('w, bool) client_op" where
  "send_text_message_with_id X dr auth to_device_uuid plaintext shared_key message_id =
     bindS (lift_result (encrypt_text_to_b64 (crypto X) (cd_nonce dr) shared_key plaintext)) (\<lambda>envelope_b64.
     c_send_message X auth \<lparr>sm_message_id = message_id, sm_from_device_uuid = da_device_uuid auth,
       sm_to_device_uuid = to_device_uuid, sm_envelope_b64 = envelope_b64\<rparr>)"

definition send_text_message :: "'w client_env \<Rightarrow> client_draws \<Rightarrow> device_auth \<Rightarrow> string \<Rightarrow> string \<Rightarrow>
    string \<Rightarrow> ('w, bool) client_op" where
  "send_text_message X dr auth to_device_uuid plaintext shared_key =
     send_text_message_with_id X dr auth to_device_uuid plaintext shared_key (cd_uuid dr)"

definition send_text_to_peer :: "'w client_env \<Rightarrow> client_draws \<Rightarrow> device_auth \<Rightarrow> string \<Rightarrow> string \<Rightarrow> ('w, bool) client_op" where
  "send_text_to_peer X dr auth peer_device_uuid plaintext cl =
     (case map_of (cl_sessions cl) peer_device_uuid of
        None \<Rightarrow> (Inr False, cl)
      | Some key \<Rightarrow> send_text_message X dr auth peer_device_uuid plaintext (shared_key_b64 key) cl)"

text \<open>The critical section of \<open>send_text_to_peer_with_id\<close>: one step of the sending chain.\<close>

definition seal_for_session :: "primitives \<Rightarrow> ratchet_envelope codec \<Rightarrow> bytes \<Rightarrow> string \<Rightarrow> peer_session \<Rightarrow>
    string + (string \<times> peer_session)" where
  "seal_for_session C J nonce plaintext session =
     bindR (ratchet_step_b64 C (send_chain_key_b64 session)) (\<lambda>(message_key, next_chain_key).
     bindR (encrypt_text_to_b64 C nonce message_key plaintext) (\<lambda>inner.
     let envelope = \<lparr>re_v = 2, re_counter = send_counter session, re_envelope_b64 = inner\<rparr> in
     Inr (enc64 C (as_bytes (to_json J envelope)),
          session\<lparr>send_chain_key_b64 := next_chain_key, send_counter := send_counter session + 1\<rparr>)))"

definition set_session :: "string \<Rightarrow> peer_session \<Rightarrow> 'w client \<Rightarrow> 'w client" where
  "set_session peer session cl = cl\<lparr>cl_sessions := AList.update peer session (cl_sessions cl)\<rparr>"

definition send_text_to_peer_with_id :: "'w client_env \<Rightarrow> client_draws \<Rightarrow> device_auth \<Rightarrow> string \<Rightarrow> string \<Rightarrow>
    string \<Rightarrow> ('w, bool) client_op" where
  "send_text_to_peer_with_id X dr auth peer_device_uuid plaintext message_id cl =
     (case map_of (cl_sessions cl) peer_device_uuid of
        None \<Rightarrow> (Inr False, cl)
      | Some session \<Rightarrow>
          (case seal_for_session (crypto X) (ce_envelope X) (cd_nonce dr) plaintext session of
             Inl e \<Rightarrow> (Inl e, cl)
           | Inr (envelope_b64, session') \<Rightarrow>
               (let (sent, cl1) = c_send_message X auth
                      \<lparr>sm_message_id = message_id, sm_from_device_uuid = da_device_uuid auth,
                       sm_to_device_uuid = peer_device_uuid, sm_envelope_b64 = envelope_b64\<rparr>
                      (set_session peer_device_uuid session' cl);
                    (_, cl2) = persist_sessions X dr cl1 in
                (sent, cl2))))"

definition send_contact_to_peer_with_id :: "'w client_env \<Rightarrow> client_draws \<Rightarrow> device_auth \<Rightarrow> string \<Rightarrow> string \<Rightarrow>
    ('w, bool) client_op" where
  "send_contact_to_peer_with_id X dr auth peer_device_uuid message_id =
     send_text_to_peer_with_id X dr auth peer_device_uuid (to_json (ce_payload X) (Contact 1)) message_id"

definition send_file_to_peer_with_id :: "'w client_env \<Rightarrow> client_draws \<Rightarrow> device_auth \<Rightarrow> string \<Rightarrow> string \<Rightarrow>
    bytes \<Rightarrow> string \<Rightarrow> ('w, bool) client_op" where
  "send_file_to_peer_with_id X dr auth peer_device_uuid name data message_id =
     send_text_to_peer_with_id X dr auth peer_device_uuid
       (to_json (ce_payload X) (File 1 name (of_nat (length data)) (Some (enc64 (crypto X) data)) None None))
       message_id"

definition send_call_invite_to_peer_with_id :: "'w client_env \<Rightarrow> client_draws \<Rightarrow> device_auth \<Rightarrow> string \<Rightarrow>
    string \<Rightarrow> bool \<Rightarrow> string \<Rightarrow> ('w, bool) client_op" where
  "send_call_invite_to_peer_with_id X dr auth peer_device_uuid call_id video message_id =
     send_text_to_peer_with_id X dr auth peer_device_uuid (to_json (ce_payload X) (Call 1 call_id video)) message_id"

section \<open>Files\<close>

definition CHUNK_SIZE :: nat where
  "CHUNK_SIZE = 256 * 1024"

text \<open>\<open>slice::chunks\<close>; it panics on 0, which never occurs.\<close>

function chunks_of :: "nat \<Rightarrow> 'a list \<Rightarrow> 'a list list" where
  "chunks_of n xs = (if xs = [] \<or> n = 0 then [] else take n xs # chunks_of n (drop n xs))"
  by pat_completeness auto

termination chunks_of
  by (relation "measure (\<lambda>(n, xs). length xs)") auto

declare chunks_of.simps [simp del]

definition report :: "(u64 \<Rightarrow> u64 \<Rightarrow> 'w \<Rightarrow> 'w) \<Rightarrow> u64 \<Rightarrow> u64 \<Rightarrow> ('w, unit) client_op" where
  "report progress done_bytes all_bytes = modifyS (\<lambda>cl. cl\<lparr>cl_world := progress done_bytes all_bytes (cl_world cl)\<rparr>)"

fun upload_chunks :: "'w client_env \<Rightarrow> device_auth \<Rightarrow> (u64 \<Rightarrow> u64 \<Rightarrow> 'w \<Rightarrow> 'w) \<Rightarrow> string \<Rightarrow> u64 \<Rightarrow> u64 \<Rightarrow>
    bytes list \<Rightarrow> ('w, unit) client_op" where
  "upload_chunks X auth progress i all_bytes uploaded [] = returnS ()"
| "upload_chunks X auth progress i all_bytes uploaded (chunk # chunks) =
     bindS (on_net (\<lambda>N cfg. t_append_blob_chunk N cfg auth i (enc64 (crypto X) chunk)) X) (\<lambda>_.
     let uploaded = min (saturating_add uploaded (of_nat (length chunk))) all_bytes in
     bindS (report progress uploaded all_bytes) (\<lambda>_.
     upload_chunks X auth progress i all_bytes uploaded chunks))"

definition upload_blob_chunked_with_progress :: "'w client_env \<Rightarrow> device_auth \<Rightarrow> bytes \<Rightarrow>
    (u64 \<Rightarrow> u64 \<Rightarrow> 'w \<Rightarrow> 'w) \<Rightarrow> ('w, string) client_op" where
  "upload_blob_chunked_with_progress X auth encrypted_blob progress =
     (let all_bytes = of_nat (length encrypted_blob) in
      bindS (on_net (\<lambda>N cfg. t_create_blob N cfg auth) X) (\<lambda>created.
      bindS (report progress 0 all_bytes) (\<lambda>_.
      bindS (upload_chunks X auth progress (cbr_blob_id created) all_bytes 0
        (chunks_of CHUNK_SIZE encrypted_blob)) (\<lambda>_.
      returnS (cbr_blob_id created)))))"

definition send_file_blob_to_peer_with_id_with_progress :: "'w client_env \<Rightarrow> client_draws \<Rightarrow> device_auth \<Rightarrow>
    string \<Rightarrow> string \<Rightarrow> bytes \<Rightarrow> string \<Rightarrow> (u64 \<Rightarrow> u64 \<Rightarrow> 'w \<Rightarrow> 'w) \<Rightarrow> ('w, bool) client_op" where
  "send_file_blob_to_peer_with_id_with_progress X dr auth peer_device_uuid name data message_id progress =
     (let file_key = generate_shared_key_b64 (crypto X) (cd_file_key dr) in
      bindS (lift_result (encrypt_bytes (crypto X) (cd_file_nonce dr) file_key data)) (\<lambda>encrypted_blob.
      bindS (upload_blob_chunked_with_progress X auth encrypted_blob progress) (\<lambda>i.
      send_text_to_peer_with_id X dr auth peer_device_uuid
        (to_json (ce_payload X) (File 2 name (of_nat (length data)) None (Some i) (Some file_key)))
        message_id)))"

definition send_file_blob_to_peer_with_id :: "'w client_env \<Rightarrow> client_draws \<Rightarrow> device_auth \<Rightarrow>
    string \<Rightarrow> string \<Rightarrow> bytes \<Rightarrow> string \<Rightarrow> ('w, bool) client_op" where
  "send_file_blob_to_peer_with_id X dr auth peer_device_uuid name data message_id =
     send_file_blob_to_peer_with_id_with_progress X dr auth peer_device_uuid name data message_id (\<lambda>_ _ w. w)"

definition fetch_file_blob_with_progress :: "'w client_env \<Rightarrow> device_auth \<Rightarrow> string \<Rightarrow> string \<Rightarrow>
    (u64 \<Rightarrow> u64 \<Rightarrow> 'w \<Rightarrow> 'w) \<Rightarrow> ('w, bytes) client_op" where
  "fetch_file_blob_with_progress X auth i file_key progress =
     bindS (on_net (\<lambda>N cfg. t_fetch_blob_bytes_with_progress N cfg auth i progress) X) (\<lambda>blob.
     lift_result (decrypt_bytes (crypto X) file_key blob))"

definition fetch_file_blob :: "'w client_env \<Rightarrow> device_auth \<Rightarrow> string \<Rightarrow> string \<Rightarrow> ('w, bytes) client_op" where
  "fetch_file_blob X auth i file_key = fetch_file_blob_with_progress X auth i file_key (\<lambda>_ _ w. w)"

section \<open>Receiving, calls and peer sessions\<close>

definition has_peer_session :: "string \<Rightarrow> 'w client \<Rightarrow> bool" where
  "has_peer_session peer cl \<longleftrightarrow> map_of (cl_sessions cl) peer \<noteq> None"

definition reset_peer_session :: "'w client_env \<Rightarrow> client_draws \<Rightarrow> string \<Rightarrow> 'w client \<Rightarrow> bool \<times> 'w client" where
  "reset_peer_session X dr peer cl =
     (let removed = map_of (cl_sessions cl) peer \<noteq> None;
          cl1 = cl\<lparr>cl_sessions := AList.delete peer (cl_sessions cl)\<rparr> in
      (removed, snd (persist_sessions X dr cl1)))"

definition c_fetch_pending :: "'w client_env \<Rightarrow> device_auth \<Rightarrow> int option \<Rightarrow> ('w, pending_envelope list) client_op" where
  "c_fetch_pending X auth limit = on_net (\<lambda>N cfg. t_fetch_pending N cfg auth limit) X"

definition c_ack_messages :: "'w client_env \<Rightarrow> device_auth \<Rightarrow> string list \<Rightarrow> ('w, unit) client_op" where
  "c_ack_messages X auth message_ids = on_net (\<lambda>N cfg. t_ack_messages N cfg auth message_ids) X"

definition c_message_statuses :: "'w client_env \<Rightarrow> device_auth \<Rightarrow> string list \<Rightarrow> ('w, outgoing_message_status list) client_op" where
  "c_message_statuses X auth message_ids =
     mapS (\<lambda>r. map (\<lambda>i. \<lparr>os_message_id = msi_message_id i, os_delivered = msi_delivered i, os_read = msi_read i\<rparr>)
         (msr_messages r))
       (on_net (\<lambda>N cfg. t_message_status N cfg auth message_ids) X)"

definition c_send_call_signal :: "'w client_env \<Rightarrow> device_auth \<Rightarrow> string \<Rightarrow> string \<Rightarrow> string \<Rightarrow> string \<Rightarrow> ('w, bool) client_op" where
  "c_send_call_signal X auth call_id to_device_uuid kind payload =
     mapS scr_accepted (on_net (\<lambda>N cfg. t_send_call_signal N cfg auth
       \<lparr>sc_call_id = call_id, sc_from_device_uuid = da_device_uuid auth, sc_to_device_uuid = to_device_uuid,
        sc_kind = kind, sc_payload = payload\<rparr>) X)"

definition c_fetch_call_signals :: "'w client_env \<Rightarrow> device_auth \<Rightarrow> string option \<Rightarrow> ('w, call_signal_item list) client_op" where
  "c_fetch_call_signals X auth call_id =
     mapS fcr_signals (on_net (\<lambda>N cfg. t_fetch_call_signals N cfg auth call_id (Some 100)) X)"

definition ws_drain_once :: "'w client_env \<Rightarrow> device_auth \<Rightarrow> ('w, pending_envelope list) client_op" where
  "ws_drain_once X auth = on_net (\<lambda>N cfg. t_ws_once N cfg auth) X"

definition fetch_peer_bundle :: "'w client_env \<Rightarrow> string \<Rightarrow> string \<Rightarrow> ('w, fetch_prekey_bundle_response) client_op" where
  "fetch_peer_bundle X peer_user_id peer_device_id =
     bindS (on_net (\<lambda>N cfg. t_fetch_prekey_bundle N cfg peer_user_id peer_device_id) X) (\<lambda>bundle.
     bindS (lift_result (verify_prekey_signature_b64 (crypto X) (pb_signing_identity_key_b64 bundle)
       (pb_signed_prekey_b64 bundle) (pb_signed_prekey_signature_b64 bundle))) (\<lambda>_.
     returnS bundle))"

definition fresh_session :: "string \<Rightarrow> peer_session" where
  "fresh_session key = \<lparr>shared_key_b64 = key, send_chain_key_b64 = key, recv_chain_key_b64 = key,
     send_counter = 0, recv_counter = 0\<rparr>"

definition derive_peer_shared_key_inner :: "'w client_env \<Rightarrow> client_draws \<Rightarrow> local_device_keys \<Rightarrow> string \<Rightarrow> string \<Rightarrow>
    bool \<Rightarrow> ('w, string \<times> fetch_prekey_bundle_response) client_op" where
  "derive_peer_shared_key_inner X dr local_keys peer_user_id peer_device_id replace_existing =
     bindS (fetch_peer_bundle X peer_user_id peer_device_id) (\<lambda>bundle.
     bindS (lift_result (derive_shared_key_b64 (crypto X) (identity_private_b64 local_keys)
       (pb_identity_key_b64 bundle))) (\<lambda>key.
     bindS (modifyS (\<lambda>cl. if replace_existing \<or> map_of (cl_sessions cl) (pb_device_uuid bundle) = None
       then set_session (pb_device_uuid bundle) (fresh_session key) cl else cl)) (\<lambda>_.
     bindS (ignore (persist_sessions X dr)) (\<lambda>_.
     returnS (key, bundle)))))"

definition derive_peer_shared_key where
  "derive_peer_shared_key X dr local_keys peer_user_id peer_device_id =
     derive_peer_shared_key_inner X dr local_keys peer_user_id peer_device_id False"

definition refresh_peer_shared_key where
  "refresh_peer_shared_key X dr local_keys peer_user_id peer_device_id =
     derive_peer_shared_key_inner X dr local_keys peer_user_id peer_device_id True"

section \<open>Decrypting\<close>

text \<open>The \<open>while\<close> loop over skipped messages.\<close>

lemma bindR_cong [fundef_cong]:
  "r = r' \<Longrightarrow> (\<And>x. r' = Inr x \<Longrightarrow> f x = f' x) \<Longrightarrow> bindR r f = bindR r' f'"
  by (cases r') simp_all

function skip_to :: "primitives \<Rightarrow> u64 \<Rightarrow> peer_session \<Rightarrow> string + peer_session" where
  "skip_to C counter next_session =
     (if recv_counter next_session < counter then
        bindR (ratchet_step_b64 C (recv_chain_key_b64 next_session)) (\<lambda>(skipped, next_chain_key).
        skip_to C counter (next_session\<lparr>recv_chain_key_b64 := next_chain_key,
          recv_counter := recv_counter next_session + 1\<rparr>))
      else Inr next_session)"
  by pat_completeness auto

lemma unat_plus_one: "(a :: u64) < b \<Longrightarrow> unat (a + 1) = unat a + 1"
proof -
  assume "a < b"
  then have "unat a + unat (1 :: u64) < 2 ^ 64"
    using unsigned_less [of b, where 'a = nat] by (simp add: word_less_nat_alt)
  then show ?thesis by (simp add: unat_add_lem [THEN iffD1])
qed

termination skip_to
proof (relation "measure (\<lambda>(C, counter, s). unat counter - unat (recv_counter s))", goal_cases)
  case (2 C counter s step mk ck)
  then show ?case by (simp add: unat_plus_one word_less_nat_alt)
qed simp

declare skip_to.simps [simp del]

definition read_envelope :: "primitives \<Rightarrow> ratchet_envelope codec \<Rightarrow> string \<Rightarrow> ratchet_envelope option" where
  "read_envelope C J envelope_b64 =
     Option.bind (Option.bind (dec64 C envelope_b64) from_utf8) (from_json J)"

definition open_ratchet :: "primitives \<Rightarrow> ratchet_envelope \<Rightarrow> peer_session \<Rightarrow> string + (string \<times> peer_session)" where
  "open_ratchet C envelope session =
     bindR (skip_to C (re_counter envelope) session) (\<lambda>next_session.
     if recv_counter next_session \<noteq> re_counter envelope then Inl ''stale ratchet message'' else
     bindR (ratchet_step_b64 C (recv_chain_key_b64 next_session)) (\<lambda>(message_key, next_chain_key).
     bindR (decrypt_text_from_b64 C message_key (re_envelope_b64 envelope)) (\<lambda>plaintext.
     Inr (plaintext, next_session\<lparr>recv_chain_key_b64 := next_chain_key,
       recv_counter := recv_counter next_session + 1\<rparr>))))"

definition decrypt_with_session :: "primitives \<Rightarrow> ratchet_envelope codec \<Rightarrow> string \<Rightarrow> (peer_session, string, string) comp" where
  "decrypt_with_session C J envelope_b64 session =
     (case dec64 C envelope_b64 of
        None \<Rightarrow> (Inl ''invalid base64'', session)
      | Some decoded \<Rightarrow>
          (case read_envelope C J envelope_b64 of
             Some envelope \<Rightarrow>
               (if re_v envelope = 2 then
                  (case open_ratchet C envelope session of
                     Inl e \<Rightarrow> (Inl e, session)
                   | Inr (plaintext, next_session) \<Rightarrow> (Inr plaintext, next_session))
                else (decrypt_text_from_b64 C (shared_key_b64 session) envelope_b64, session))
           | None \<Rightarrow> (decrypt_text_from_b64 C (shared_key_b64 session) envelope_b64, session)))"

definition decrypted :: "pending_envelope \<Rightarrow> string \<Rightarrow> decrypted_message" where
  "decrypted item plaintext = \<lparr>dm_message_id = pe_message_id item,
     dm_from_device_uuid = pe_from_device_uuid item, dm_plaintext = plaintext,
     dm_created_at_unix_ms = pe_created_at_unix_ms item\<rparr>"

definition decrypt_pending :: "primitives \<Rightarrow> pending_envelope list \<Rightarrow> string \<Rightarrow> decrypted_message list" where
  "decrypt_pending C pending shared_key =
     List.map_filter (\<lambda>item. case decrypt_text_from_b64 C shared_key (pe_envelope_b64 item) of
       Inl e \<Rightarrow> None | Inr plaintext \<Rightarrow> Some (decrypted item plaintext)) pending"

fun decrypt_items :: "primitives \<Rightarrow> ratchet_envelope codec \<Rightarrow> pending_envelope list \<Rightarrow> session_map \<Rightarrow>
    (decrypted_message list \<times> string list) \<times> session_map" where
  "decrypt_items C J [] sessions = (([], []), sessions)"
| "decrypt_items C J (item # items) sessions =
     (case map_of sessions (pe_from_device_uuid item) of
        None \<Rightarrow> decrypt_items C J items sessions
      | Some session \<Rightarrow>
          (case decrypt_with_session C J (pe_envelope_b64 item) session of
             (Inl e, session') \<Rightarrow>
               decrypt_items C J items (AList.update (pe_from_device_uuid item) session' sessions)
           | (Inr plaintext, session') \<Rightarrow>
               (let ((out, ids), sessions') =
                  decrypt_items C J items (AList.update (pe_from_device_uuid item) session' sessions) in
                ((decrypted item plaintext # out, pe_message_id item # ids), sessions'))))"

definition decrypt_pending_with_sessions :: "'w client_env \<Rightarrow> client_draws \<Rightarrow> pending_envelope list \<Rightarrow>
    'w client \<Rightarrow> (decrypted_message list \<times> string list) \<times> 'w client" where
  "decrypt_pending_with_sessions X dr pending cl =
     (let (result, sessions) = decrypt_items (crypto X) (ce_envelope X) pending (cl_sessions cl) in
      (result, snd (persist_sessions X dr (cl\<lparr>cl_sessions := sessions\<rparr>))))"

end
