(* ===== verification/Ratchet.thy ===== *)
theory Ratchet
  imports Client_Core
begin

text \<open>
  What the ratchet of \<open>core.rs\<close> guarantees: an abstract key chain, in which sender and receiver
  are at some position each, explains what sealing and opening do.  Lost messages are skipped,
  replayed and overtaken ones refused, and failures change nothing.
\<close>

section \<open>Chains of keys\<close>

fun chain_at :: "('k \<Rightarrow> 'e + ('m \<times> 'k)) \<Rightarrow> nat \<Rightarrow> 'k \<Rightarrow> 'e + 'k" where
  "chain_at step 0 k = Inr k"
| "chain_at step (Suc n) k = bindR (step k) (\<lambda>(m, k'). chain_at step n k')"

text \<open>The contract of a key derivation step: from a good key it never fails and yields a good key.\<close>

locale kdf_chain =
  fixes good :: "'k \<Rightarrow> bool" and kdf :: "'k \<Rightarrow> 'e + ('m \<times> 'k)"
  assumes step_good: "good k \<Longrightarrow> \<exists>m k'. kdf k = Inr (m, k') \<and> good k'"
begin

lemma chain_good: "good k \<Longrightarrow> \<exists>k'. chain_at kdf n k = Inr k' \<and> good k'"
proof (induction n arbitrary: k)
  case (Suc n)
  obtain m k' where "kdf k = Inr (m, k')" "good k'" using step_good [OF Suc.prems] by blast
  then show ?case using Suc.IH by simp
qed simp

lemma chain_add: "chain_at kdf (m + n) k = bindR (chain_at kdf m k) (chain_at kdf n)"
proof (induction m arbitrary: k)
  case (Suc m)
  show ?case using Suc.IH by (cases "kdf k") (auto split: prod.split)
qed simp

lemma chain_step: "chain_at kdf n k = Inr k1 \<Longrightarrow> kdf k1 = Inr (m, k2) \<Longrightarrow> chain_at kdf (Suc n) k = Inr k2"
  using chain_add [of n 1 k] by simp

lemma chain_inside:
  assumes "chain_at kdf m k = Inr k1" "chain_at kdf n k = Inr k2" "m \<le> n"
  shows "chain_at kdf (n - m) k1 = Inr k2"
  using chain_add [of m "n - m" k] assms by simp

end

definition good_key :: "primitives \<Rightarrow> string \<Rightarrow> bool" where
  "good_key C key \<longleftrightarrow> primitive_laws C \<and> (\<exists>k. decode_key C key = Inr k)"

interpretation ratchet: kdf_chain "good_key C" "ratchet_step_b64 C" for C
  by unfold_locales (metis good_key_def ratchet_step_total)

section \<open>Skipping\<close>

text \<open>The loop ends at the counter of the message, at the key of this position.\<close>

lemma skip_to_reaches:
  assumes "good_key C (recv_chain_key_b64 s)" "recv_counter s \<le> counter"
  shows "\<exists>k. chain_at (ratchet_step_b64 C) (unat counter - unat (recv_counter s)) (recv_chain_key_b64 s) = Inr k \<and>
    skip_to C counter s = Inr (s\<lparr>recv_chain_key_b64 := k, recv_counter := counter\<rparr>)"
  using assms
proof (induction "unat counter - unat (recv_counter s)" arbitrary: s)
  case 0
  then have "counter \<le> recv_counter s" by (simp add: word_le_nat_alt)
  then have "recv_counter s = counter" using 0 by simp
  then show ?case by (subst skip_to.simps) simp
next
  case (Suc n)
  then have less: "recv_counter s < counter" by (simp add: word_less_nat_alt)
  obtain mk ck where step: "ratchet_step_b64 C (recv_chain_key_b64 s) = Inr (mk, ck)" "good_key C ck"
    using ratchet.step_good [OF Suc.prems(1)] by auto
  let ?s = "s\<lparr>recv_chain_key_b64 := ck, recv_counter := recv_counter s + 1\<rparr>"
  note u = unat_plus_one [OF less]
  have n: "n = unat counter - unat (recv_counter ?s)" "recv_counter ?s \<le> counter"
    using Suc.hyps(2) u by (simp_all add: word_le_nat_alt)
  obtain k where k: "chain_at (ratchet_step_b64 C) n ck = Inr k"
    "skip_to C counter ?s = Inr (?s\<lparr>recv_chain_key_b64 := k, recv_counter := counter\<rparr>)"
    using Suc.hyps(1) [OF n(1) _ n(2)] step(2) n(1) by auto
  show ?case
    using k step(1) less by (subst Suc.hyps(2) [symmetric], subst skip_to.simps) simp
qed

lemma skip_to_Inr:
  "skip_to C counter s = Inr s' \<Longrightarrow>
   recv_counter s' = max (recv_counter s) counter \<and> send_chain_key_b64 s' = send_chain_key_b64 s \<and>
   send_counter s' = send_counter s \<and> shared_key_b64 s' = shared_key_b64 s"
proof (induction C counter s rule: skip_to.induct)
  case (1 C counter s)
  show ?case
  proof (cases "recv_counter s < counter")
    case True
    then obtain mk ck where step: "ratchet_step_b64 C (recv_chain_key_b64 s) = Inr (mk, ck)"
      and rec: "skip_to C counter (s\<lparr>recv_chain_key_b64 := ck, recv_counter := recv_counter s + 1\<rparr>) = Inr s'"
      using 1(2) by (subst (asm) skip_to.simps) (auto simp: result_simps)
    have "recv_counter s + 1 \<le> counter"
      using unat_plus_one [OF True] True by (simp add: word_le_nat_alt word_less_nat_alt)
    then show ?thesis using 1(1) [OF True step refl rec] less_imp_le [OF True] by (simp add: max_absorb2)
  next
    case False
    then have "skip_to C counter s = Inr s" by (subst skip_to.simps) simp
    then show ?thesis using 1(2) False by (simp add: max_def not_less)
  qed
qed

section \<open>Sender and receiver on one chain\<close>

definition synced :: "primitives \<Rightarrow> string \<Rightarrow> peer_session \<Rightarrow> peer_session \<Rightarrow> bool" where
  "synced C root s r \<longleftrightarrow> good_key C root \<and>
     chain_at (ratchet_step_b64 C) (unat (send_counter s)) root = Inr (send_chain_key_b64 s) \<and>
     chain_at (ratchet_step_b64 C) (unat (recv_counter r)) root = Inr (recv_chain_key_b64 r)"

lemma synced_fresh: "good_key C key \<Longrightarrow> synced C key (fresh_session key) (fresh_session key)"
  by (simp add: synced_def fresh_session_def)

lemma seal_Inr:
  assumes "seal_for_session C J nonce p s = Inr (e, s')"
  obtains mk ck inner where "ratchet_step_b64 C (send_chain_key_b64 s) = Inr (mk, ck)"
    "encrypt_text_to_b64 C nonce mk p = Inr inner"
    "e = enc64 C (as_bytes (to_json J \<lparr>re_v = 2, re_counter = send_counter s, re_envelope_b64 = inner\<rparr>))"
    "s' = s\<lparr>send_chain_key_b64 := ck, send_counter := send_counter s + 1\<rparr>"
  using assms by (auto simp: seal_for_session_def result_simps Let_def)

lemma read_sealed:
  assumes "primitive_laws C" "json_laws J"
  shows "read_envelope C J (enc64 C (as_bytes (to_json J x))) = Some x"
  using assms by (simp add: read_envelope_def primitive_laws_def json_file) (simp add: json_laws_def)

lemma sent_once:
  assumes "synced C root s r" "unat (send_counter s) + 1 < 2 ^ 64"
    and "seal_for_session C J nonce p s = Inr (e, s')"
  shows "synced C root s' r" "unat (send_counter s') = unat (send_counter s) + 1"
proof -
  obtain mk ck where step: "ratchet_step_b64 C (send_chain_key_b64 s) = Inr (mk, ck)"
    and s': "s' = s\<lparr>send_chain_key_b64 := ck, send_counter := send_counter s + 1\<rparr>"
    using assms(3) by (rule seal_Inr)
  show u: "unat (send_counter s') = unat (send_counter s) + 1"
    using assms(2) by (simp add: s' unat_add_lem [THEN iffD1])
  show "synced C root s' r"
    using assms(1) ratchet.chain_step [of C _ root, OF _ step] u by (auto simp: synced_def s')
qed

text \<open>A sealed message opens at any receiver that is not ahead of it, and brings it just past it.\<close>

lemma sealed_opens:
  assumes "json_laws J" "synced C root s r" "recv_counter r \<le> send_counter s"
    and "unat (send_counter s) + 1 < 2 ^ 64" "length nonce = 24" "is_utf8 p"
    and "seal_for_session C J nonce p s = Inr (e, s')"
  shows "\<exists>r'. decrypt_with_session C J e r = (Inr p, r') \<and> synced C root s' r' \<and>
    recv_counter r' = send_counter s'"
proof -
  have laws: "primitive_laws C" and root: "good_key C root"
    using assms(2) by (simp_all add: synced_def good_key_def)
  obtain mk ck inner where step: "ratchet_step_b64 C (send_chain_key_b64 s) = Inr (mk, ck)"
    and enc: "encrypt_text_to_b64 C nonce mk p = Inr inner"
    and e: "e = enc64 C (as_bytes (to_json J \<lparr>re_v = 2, re_counter = send_counter s, re_envelope_b64 = inner\<rparr>))"
    and s': "s' = s\<lparr>send_chain_key_b64 := ck, send_counter := send_counter s + 1\<rparr>"
    using assms(7) by (rule seal_Inr)
  have good: "good_key C (recv_chain_key_b64 r)"
    using ratchet.chain_good [OF root, of "unat (recv_counter r)"] assms(2) by (simp add: synced_def)
  have pos: "chain_at (ratchet_step_b64 C) (unat (send_counter s) - unat (recv_counter r)) (recv_chain_key_b64 r)
      = Inr (send_chain_key_b64 s)"
    using assms(2,3) by (intro ratchet.chain_inside) (auto simp: synced_def word_le_nat_alt)
  then have skip: "skip_to C (send_counter s) r =
      Inr (r\<lparr>recv_chain_key_b64 := send_chain_key_b64 s, recv_counter := send_counter s\<rparr>)"
    using skip_to_reaches [OF good assms(3)] by auto
  let ?r' = "r\<lparr>recv_chain_key_b64 := ck, recv_counter := send_counter s + 1\<rparr>"
  have "decrypt_text_from_b64 C mk inner = Inr p"
    using decrypt_encrypt_text [OF laws assms(5) enc assms(6)] .
  then have "decrypt_with_session C J e r = (Inr p, ?r')"
    using read_sealed [OF laws assms(1)] laws skip step
    by (simp add: decrypt_with_session_def e open_ratchet_def primitive_laws_def)
  moreover have "synced C root s' ?r'"
    using sent_once(1) [OF assms(2,4,7)] by (simp add: synced_def s')
  ultimately show ?thesis by (auto simp: s')
qed

section \<open>Whole conversations\<close>

fun seal_all :: "primitives \<Rightarrow> ratchet_envelope codec \<Rightarrow> (bytes \<times> string) list \<Rightarrow> peer_session \<Rightarrow> string + string list" where
  "seal_all C J [] s = Inr []"
| "seal_all C J ((nonce, p) # msgs) s =
     bindR (seal_for_session C J nonce p s) (\<lambda>(e, s'). bindR (seal_all C J msgs s') (\<lambda>es. Inr (e # es)))"

fun open_all :: "primitives \<Rightarrow> ratchet_envelope codec \<Rightarrow> string list \<Rightarrow> peer_session \<Rightarrow> (string + string) list" where
  "open_all C J [] r = []"
| "open_all C J (e # es) r = (let (p, r') = decrypt_with_session C J e r in p # open_all C J es r')"

lemma conversation_synced:
  assumes "json_laws J" "synced C root s r" "recv_counter r \<le> send_counter s"
    and "unat (send_counter s) + length msgs < 2 ^ 64"
    and "\<forall>(nonce, p)\<in>set msgs. length nonce = 24 \<and> is_utf8 p"
    and "seal_all C J msgs s = Inr es"
  shows "open_all C J (nths es arrived) r = map Inr (nths (map snd msgs) arrived)"
  using assms(2-6)
proof (induction msgs arbitrary: s r es arrived)
  case (Cons msg msgs)
  obtain nonce p where m: "msg = (nonce, p)" by (cases msg)
  obtain e s' es' where seal: "seal_for_session C J nonce p s = Inr (e, s')"
    and rest: "seal_all C J msgs s' = Inr es'" and es: "es = e # es'"
    using Cons.prems(5) by (auto simp: m result_simps)
  have np: "length nonce = 24" "is_utf8 p" and others: "\<forall>(nonce, p)\<in>set msgs. length nonce = 24 \<and> is_utf8 p"
    using Cons.prems(4) by (auto simp: m)
  have one: "unat (send_counter s) + 1 < 2 ^ 64" using Cons.prems(3) by simp
  note sent = sent_once [OF Cons.prems(1) one seal]
  have room: "unat (send_counter s') + length msgs < 2 ^ 64" using Cons.prems(3) sent(2) by simp
  let ?later = "{j. Suc j \<in> arrived}"
  show ?case
  proof (cases "0 \<in> arrived")
    case True
    obtain r' where r': "decrypt_with_session C J e r = (Inr p, r')" "synced C root s' r'"
      "recv_counter r' = send_counter s'"
      using sealed_opens [OF assms(1) Cons.prems(1,2) one np seal] by blast
    then show ?thesis
      using Cons.IH [OF r'(2) _ room others rest, of ?later] True by (simp add: es m nths_Cons)
  next
    case False
    have "recv_counter r \<le> send_counter s'"
      using Cons.prems(2) sent(2) by (simp add: word_le_nat_alt)
    then show ?thesis
      using Cons.IH [OF sent(1) _ room others rest, of ?later] False by (simp add: es m nths_Cons)
  qed
qed simp

section \<open>Properties\<close>

text \<open>
  C23.  A conversation survives losses.  Two devices hold a fresh session on the same key.  One
  seals a sequence of texts; whichever of the envelopes arrive, in the order they were sent, the
  other opens every one of them and reads exactly the text that was put in.
\<close>

theorem conversation_in_order:
  assumes "primitive_laws C" "json_laws J" "decode_key C key = Inr k"
    and "seal_all C J msgs (fresh_session key) = Inr envelopes"
    and "\<forall>(nonce, p)\<in>set msgs. length nonce = 24 \<and> is_utf8 p" "length msgs < 2 ^ 64"
  shows "open_all C J (nths envelopes arrived) (fresh_session key) = map Inr (nths (map snd msgs) arrived)"
proof (rule conversation_synced [OF assms(2) synced_fresh _ _ assms(5,4)])
  show "good_key C key" using assms(1,3) by (simp add: good_key_def)
qed (use assms(6) in \<open>simp_all add: fresh_session_def\<close>)

text \<open>
  C24.  What opening does to a session.  On every failure the session stays as it was.  On
  success a ratchet message was not older than the receiving counter, which then stands just
  after it; a message under the shared key leaves the session alone.  The sending side is
  never touched.
\<close>

theorem decrypt_outcome:
  "case decrypt_with_session C J e s of
     (Inl m, s') \<Rightarrow> s' = s
   | (Inr p, s') \<Rightarrow> send_chain_key_b64 s' = send_chain_key_b64 s \<and> send_counter s' = send_counter s \<and>
       shared_key_b64 s' = shared_key_b64 s \<and>
       (case read_envelope C J e of
          Some envelope \<Rightarrow>
            if re_v envelope = 2
            then recv_counter s \<le> re_counter envelope \<and> recv_counter s' = re_counter envelope + 1
            else s' = s \<and> decrypt_text_from_b64 C (shared_key_b64 s) e = Inr p
        | None \<Rightarrow> s' = s \<and> decrypt_text_from_b64 C (shared_key_b64 s) e = Inr p)"
proof (cases "\<exists>envelope. read_envelope C J e = Some envelope \<and> re_v envelope = 2")
  case False
  then show ?thesis
    by (cases "dec64 C e"; cases "decrypt_text_from_b64 C (shared_key_b64 s) e")
      (auto simp: decrypt_with_session_def split: option.splits)
next
  case True
  then obtain envelope where env: "read_envelope C J e = Some envelope" "re_v envelope = 2" by blast
  then obtain bs where bs: "dec64 C e = Some bs" by (cases "dec64 C e") (auto simp: read_envelope_def)
  show ?thesis
  proof (cases "open_ratchet C envelope s")
    case (Inl m)
    then show ?thesis using env bs by (simp add: decrypt_with_session_def)
  next
    case (Inr out)
    then obtain next_session mk ck where skip: "skip_to C (re_counter envelope) s = Inr next_session"
      "recv_counter next_session = re_counter envelope"
      "snd out = next_session\<lparr>recv_chain_key_b64 := ck, recv_counter := recv_counter next_session + 1\<rparr>"
      by (auto simp: open_ratchet_def result_simps split: if_splits)
    then show ?thesis
      using skip_to_Inr [OF skip(1)] env bs Inr
      by (cases out) (auto simp: decrypt_with_session_def max_def split: if_splits)
  qed
qed

lemma opened_counter:
  assumes "decrypt_with_session C J e s = (Inr p, s')"
    and "read_envelope C J e = Some envelope" "re_v envelope = 2"
  shows "recv_counter s' = re_counter envelope + 1"
proof -
  obtain bs where bs: "dec64 C e = Some bs" using assms(2) by (cases "dec64 C e") (auto simp: read_envelope_def)
  then obtain next_session ck where "recv_counter next_session = re_counter envelope"
    "s' = next_session\<lparr>recv_chain_key_b64 := ck, recv_counter := recv_counter next_session + 1\<rparr>"
    using assms by (auto simp: decrypt_with_session_def open_ratchet_def result_simps split: sum.splits if_splits)
  then show ?thesis by simp
qed

lemma stale_refused:
  assumes "read_envelope C J e = Some envelope" "re_v envelope = 2" "re_counter envelope < recv_counter s"
  shows "decrypt_with_session C J e s = (Inl ''stale ratchet message'', s)"
proof -
  obtain bs where bs: "dec64 C e = Some bs" using assms(1) by (cases "dec64 C e") (auto simp: read_envelope_def)
  have "skip_to C (re_counter envelope) s = Inr s"
    using assms(3) by (subst skip_to.simps) auto
  moreover have "recv_counter s \<noteq> re_counter envelope" using assms(3) by auto
  ultimately show ?thesis using assms bs by (simp add: decrypt_with_session_def open_ratchet_def)
qed

text \<open>
  C25.  No replay.  Once a ratchet message has been opened, this message and every ratchet
  message with a smaller or the same counter is refused as stale, without changing the session.
\<close>

theorem replay_refused:
  assumes "decrypt_with_session C J e s = (Inr p, s')"
    and "read_envelope C J e = Some envelope" "re_v envelope = 2" "re_counter envelope \<noteq> - 1"
    and "read_envelope C J e' = Some envelope'" "re_v envelope' = 2" "re_counter envelope' \<le> re_counter envelope"
  shows "decrypt_with_session C J e' s' = (Inl ''stale ratchet message'', s')"
proof (rule stale_refused [OF assms(5,6)])
  have "re_counter envelope < - 1" using assms(4) by (simp add: order.not_eq_order_implies_strict)
  then have "re_counter envelope < recv_counter s'"
    using opened_counter [OF assms(1-3)] unat_plus_one by (simp add: word_less_nat_alt)
  with assms(7) show "re_counter envelope' < recv_counter s'" by simp
qed

text \<open>
  Both directions share one chain.  A fresh session sends and receives on the same chain
  key, so a device accepts its own first message when it is returned to it: whoever relays
  envelopes (the server) can pass a device's own text off as an answer of its peer.
\<close>

lemma reflected_message_opens:
  assumes "primitive_laws C" "json_laws J" "decode_key C key = Inr k" "length nonce = 24" "is_utf8 p"
    and "seal_for_session C J nonce p (fresh_session key) = Inr (e, s)"
  shows "fst (decrypt_with_session C J e s) = Inr p"
proof -
  have fresh: "synced C key (fresh_session key) (fresh_session key)"
    using assms(1,3) by (intro synced_fresh) (simp add: good_key_def)
  have "recv_chain_key_b64 s = recv_chain_key_b64 (fresh_session key)" "recv_counter s = recv_counter (fresh_session key)"
    using assms(6) by (auto elim!: seal_Inr)
  then have "synced C key (fresh_session key) s" "recv_counter s \<le> send_counter (fresh_session key)"
    using fresh by (simp_all add: synced_def) (simp add: fresh_session_def)
  from sealed_opens [OF assms(2) this _ assms(4,5,6)] show ?thesis
    by (auto simp: fresh_session_def)
qed

section \<open>Worked examples\<close>

definition envelope_codec0 :: "ratchet_envelope codec" where
  "envelope_codec0 = tagged_codec CHR ''S''
     (\<lambda>x. [[char_of (unat (re_v x))], count_text (re_counter x), re_envelope_b64 x])
     (\<lambda>ss. case ss of [[v], n, b] \<Rightarrow> Some \<lparr>re_v = of_nat (of_char v), re_counter = count_of_text n, re_envelope_b64 = b\<rparr>
                    | _ \<Rightarrow> None)"

lemma envelope_codec0_laws: "json_laws envelope_codec0"
  unfolding envelope_codec0_def
  by (intro tagged_codec_laws) (simp_all only: list.case byte_char_id count_text_inverse, simp_all)

definition key0 :: string where
  "key0 = enc64 primitives0 key_a"

lemma key0_ok: "decode_key primitives0 key0 = Inr key_a"
  by (simp add: key0_def decode_key_encoded [OF primitives0_laws])

text \<open>The sample cipher accepts every text.\<close>

lemma seal_primitives0: "seal primitives0 k n p = Some (k @ p)"
  by (simp add: primitives0_def)

lemma seal0_total: "decode_key primitives0 (send_chain_key_b64 s) = Inr k \<Longrightarrow>
   \<exists>e s' k'. seal_for_session primitives0 J nonce p s = Inr (e, s') \<and>
     decode_key primitives0 (send_chain_key_b64 s') = Inr k'"
  using encoded_keys(5) [OF primitives0_laws]
  by (simp add: seal_for_session_def ratchet_step_b64_def encrypt_text_to_b64_def encrypt_bytes_to_b64_def
      encrypt_bytes_def seal_primitives0 Let_def)

lemma seal_all0_total: "decode_key primitives0 (send_chain_key_b64 s) = Inr k \<Longrightarrow>
   \<exists>es. seal_all primitives0 J msgs s = Inr es"
proof (induction msgs arbitrary: s k)
  case (Cons msg msgs)
  obtain nonce p where m: "msg = (nonce, p)" by (cases msg)
  show ?case using seal0_total [OF Cons.prems, of J nonce p] Cons.IH by (fastforce simp: m)
qed simp

lemma seal_fresh0: "seal_for_session primitives0 J nonce p (fresh_session key0) =
    Inr (fst (projr (seal_for_session primitives0 J nonce p (fresh_session key0))),
         snd (projr (seal_for_session primitives0 J nonce p (fresh_session key0))))"
  using seal0_total [of "fresh_session key0" key_a J nonce p] key0_ok by (auto simp: fresh_session_def)

lemma hi_utf8: "is_utf8 ''hi''" "is_utf8 ''yes''" "is_utf8 ''bye''"
  by (simp_all add: is_utf8_def as_bytes_def)

lemma conversation_in_order_witness:
  "open_all primitives0 envelope_codec0
     (nths (projr (seal_all primitives0 envelope_codec0
       [(nonce0, ''hi''), (nonce0, ''yes''), (nonce0, ''bye'')] (fresh_session key0))) {0, 2}) (fresh_session key0) =
   map Inr (nths (map snd [(nonce0, ''hi''), (nonce0, ''yes''), (nonce0, ''bye'')]) {0, 2})"
proof (rule conversation_in_order [OF primitives0_laws envelope_codec0_laws key0_ok])
  show "seal_all primitives0 envelope_codec0 [(nonce0, ''hi''), (nonce0, ''yes''), (nonce0, ''bye'')] (fresh_session key0) =
    Inr (projr (seal_all primitives0 envelope_codec0 [(nonce0, ''hi''), (nonce0, ''yes''), (nonce0, ''bye'')] (fresh_session key0)))"
    using seal_all0_total [of "fresh_session key0" key_a envelope_codec0] key0_ok
    by (metis fresh_session_def peer_session.select_convs(2) sum.sel(2))
qed (simp_all add: hi_utf8)

lemma reflected_message_opens_witness:
  "(let (e, s) = projr (seal_for_session primitives0 envelope_codec0 nonce0 ''hi'' (fresh_session key0)) in
    fst (decrypt_with_session primitives0 envelope_codec0 e s)) = Inr ''hi''"
  using reflected_message_opens [OF primitives0_laws envelope_codec0_laws key0_ok _ hi_utf8(1) seal_fresh0]
  by (simp add: case_prod_beta)

lemma replay_refused_witness:
  "(let e = fst (projr (seal_for_session primitives0 envelope_codec0 nonce0 ''hi'' (fresh_session key0)));
        r = snd (decrypt_with_session primitives0 envelope_codec0 e (fresh_session key0)) in
    decrypt_with_session primitives0 envelope_codec0 e r) =
   (Inl ''stale ratchet message'',
    snd (decrypt_with_session primitives0 envelope_codec0
      (fst (projr (seal_for_session primitives0 envelope_codec0 nonce0 ''hi'' (fresh_session key0)))) (fresh_session key0)))"
proof -
  let ?e = "fst (projr (seal_for_session primitives0 envelope_codec0 nonce0 ''hi'' (fresh_session key0)))"
  let ?r = "snd (decrypt_with_session primitives0 envelope_codec0 ?e (fresh_session key0))"
  have fresh: "synced primitives0 key0 (fresh_session key0) (fresh_session key0)"
    using primitives0_laws key0_ok by (intro synced_fresh) (simp add: good_key_def)
  have open1: "decrypt_with_session primitives0 envelope_codec0 ?e (fresh_session key0) = (Inr ''hi'', ?r)"
    using sealed_opens [OF envelope_codec0_laws fresh _ _ sample_lengths(3) hi_utf8(1) seal_fresh0]
    by (auto simp: fresh_session_def)
  obtain inner where "?e = enc64 primitives0 (as_bytes (to_json envelope_codec0
      \<lparr>re_v = 2, re_counter = send_counter (fresh_session key0), re_envelope_b64 = inner\<rparr>))"
    using seal_fresh0 by (rule seal_Inr)
  then have read: "read_envelope primitives0 envelope_codec0 ?e =
      Some \<lparr>re_v = 2, re_counter = 0, re_envelope_b64 = inner\<rparr>"
    using read_sealed [OF primitives0_laws envelope_codec0_laws] by (simp add: fresh_session_def)
  show ?thesis
    using replay_refused [OF open1 read _ _ read] by (simp add: Let_def)
qed

end
