(* ===== verification/End_To_End.thy ===== *)
theory End_To_End
  imports Ratchet
begin

text \<open>
  The two sides together: clients whose network is the server.  A text typed on one device is
  read on the other, and a file uploaded in chunks by one is downloaded and decrypted by the
  other.  The server's base64 is the clients' base64 (the same crate).
\<close>

section \<open>A client connected to the server\<close>

definition connected :: "(http_request \<Rightarrow> http_response) \<Rightarrow> env \<Rightarrow> draws \<Rightarrow> server client_env \<Rightarrow> bool" where
  "connected refuse E dr X \<longleftrightarrow> primitive_laws (crypto X) \<and> json_laws (ce_envelope X) \<and>
     (\<exists>N. ce_network X = server_network refuse E dr N) \<and>
     b64_encode E = enc64 (crypto X) \<and> b64_decode E = dec64 (crypto X) \<and>
     (\<forall>rq. 400 \<le> rs_status (refuse rq))"

lemma connected_b64: "connected refuse E dr X \<Longrightarrow> b64_laws E"
  by (simp add: connected_def b64_laws_def primitive_laws_def)

lemma reply_Inr:
  assumes "reply f m s = (resp, s')" "rs_body resp = BResponse b"
  obtains x where "m s = (Inr x, s')" "b = f x"
  using assms by (cases "m s") (auto simp: reply_def into_response_def split: sum.splits)

text \<open>A successful answer to a POST comes from the handler of its route.\<close>

lemma server_answer:
  assumes "connected refuse E dr X"
    and "post_auth (ce_network X) cfg auth path q w = (Inr resp, w')" "is_success (rs_status resp)"
  obtains extra rq rt where "auth_headers (ce_network X) auth = Inr extra"
    "rq_headers rq = default_headers (ce_network X) ++ extra" "rq_body rq = q"
    "find_route POST path = Some rt"
    "run_route rt refuse E dr (rq_headers rq) rq w = (resp, w')"
proof -
  obtain N where N: "ce_network X = server_network refuse E dr N" and ref: "\<And>rq. 400 \<le> rs_status (refuse rq)"
    using assms(1) by (auto simp: connected_def)
  obtain extra where extra: "auth_headers (ce_network X) auth = Inr extra"
    using assms(2) by (auto simp: post_auth_def bindS_apply split: prod.splits sum.splits)
  let ?rq = "\<lparr>rq_method = POST, rq_path = path, rq_headers = default_headers (ce_network X) ++ extra,
       rq_body = q, rq_length = nw_length (ce_network X) q\<rparr>"
  have h: "handle_request refuse E dr ?rq w = (resp, w')"
    using assms(2) extra by (auto simp: post_auth_def post_def N server_network_def split: prod.splits)
  have "\<exists>rt. find_route POST path = Some rt \<and> run_route rt refuse E dr (rq_headers ?rq) ?rq w = (resp, w')"
    using h assms(3) ref [of ?rq]
    by (cases rule: handle_request_cases [of refuse E dr ?rq w])
      (auto simp: is_success_def upgrade_required_def)
  with extra show ?thesis using that [of extra ?rq] by auto
qed

lemma as_result_Inr:
  assumes "as_result msg sel m w = (Inr x, w')"
  obtains resp b where "m w = (Inr resp, w')" "is_success (rs_status resp)" "rs_body resp = BResponse b" "sel b = Some x"
proof -
  obtain resp where m: "m w = (Inr resp, w')" "is_success (rs_status resp)"
    and body: "(case rs_body resp of BResponse b \<Rightarrow> sel b | _ \<Rightarrow> None) = Some x"
    using assms
    by (auto simp: as_result_def bindS_Inr_iff require_success_def read_json_def reject_if_Inr_iff ok_or_Inr_iff)
  with that show ?thesis by (cases "rs_body resp") auto
qed

lemma server_post:
  assumes "connected refuse E dr X"
    and "as_result msg sel (post_auth (ce_network X) cfg auth path q) w = (Inr x, w')"
  obtains extra rq rt resp b where "auth_headers (ce_network X) auth = Inr extra"
    "rq_headers rq = default_headers (ce_network X) ++ extra" "rq_body rq = q"
    "find_route POST path = Some rt"
    "run_route rt refuse E dr (rq_headers rq) rq w = (resp, w')"
    "is_success (rs_status resp)" "rs_body resp = BResponse b" "sel b = Some x"
proof -
  obtain resp b where m: "post_auth (ce_network X) cfg auth path q w = (Inr resp, w')"
    and ok: "is_success (rs_status resp)" and b: "rs_body resp = BResponse b" "sel b = Some x"
    using assms(2) by (rule as_result_Inr)
  from server_answer [OF assms(1) m ok] that ok b show ?thesis by metis
qed

lemma refused_fails: "connected refuse E dr X \<Longrightarrow> \<not> is_success (rs_status (refuse rq))"
  by (auto simp: connected_def is_success_def not_less intro: order_trans [of 300 400])

text \<open>So the body that was sent is the body the handler saw.\<close>

lemma limited_body_cases: "limited_body rq = rq_body rq \<or> limited_body rq = QNone"
  by (simp add: limited_body_def)

section \<open>Messages\<close>

lemma routes:
  "find_route POST ''/v1/send_message'' = Some RSendMessage"
  "find_route POST ''/v1/fetch_pending'' = Some RFetchPending"
  "find_route POST ''/v1/create_blob'' = Some RCreateBlob"
  "find_route POST ''/v1/append_blob_chunk'' = Some RAppendBlobChunk"
  "find_route POST ''/v1/fetch_blob_bytes'' = Some RFetchBlobBytes"
  by (simp_all add: find_route_def route_table_def)

lemma on_net_Inr:
  "on_net call X cl = (Inr x, cl') \<longleftrightarrow>
   (\<exists>w. call (ce_network X) (cl_config cl) (cl_world cl) = (Inr x, w) \<and> cl' = cl\<lparr>cl_world := w\<rparr>)"
  by (auto simp: on_net_def split: prod.splits)

lemma server_sent:
  assumes "connected refuse E dr X" "c_send_message X auth req cl = (Inr accepted, cl')"
  obtains h r w where "h_send_message E dr h req (cl_world cl) = (Inr r, w)" "smr_accepted r = accepted"
    "cl' = cl\<lparr>cl_world := w\<rparr>"
proof -
  obtain r w where t: "t_send_message (ce_network X) (cl_config cl) auth req (cl_world cl) = (Inr r, w)"
    and r: "smr_accepted r = accepted" "cl' = cl\<lparr>cl_world := w\<rparr>"
    using assms(2) by (auto simp: c_send_message_def mapS_def bindS_Inr_iff on_net_Inr)
  from server_post [OF assms(1) t [unfolded t_send_message_def]]
  obtain rq resp b where rq: "rq_body rq = QSendMessage req"
    and run: "run_route RSendMessage refuse E dr (rq_headers rq) rq (cl_world cl) = (resp, w)"
    and ok: "is_success (rs_status resp)" "rs_body resp = BResponse b"
    and b: "(case b of PSendMessage r \<Rightarrow> Some r | _ \<Rightarrow> None) = Some r"
    by (metis routes(1) option.inject)
  have "reply PSendMessage (h_send_message E dr (rq_headers rq) req) (cl_world cl) = (resp, w)"
    using run ok(1) rq refused_fails [OF assms(1)] limited_body_cases [of rq] by auto
  then obtain r' where "h_send_message E dr (rq_headers rq) req (cl_world cl) = (Inr r', w)" "b = PSendMessage r'"
    using ok(2) by (rule reply_Inr)
  with b r that show ?thesis by simp
qed

lemma server_fetched:
  assumes "connected refuse E dr X" "c_fetch_pending X auth limit cl = (Inr items, cl')"
  obtains h r w where
    "h_fetch_pending E h \<lparr>fp_device_uuid = da_device_uuid auth, fp_limit = limit\<rparr> (cl_world cl) = (Inr r, w)"
    "items = map envelope_of (fpr_messages r)" "cl' = cl\<lparr>cl_world := w\<rparr>"
proof -
  let ?p = "\<lparr>fp_device_uuid = da_device_uuid auth, fp_limit = limit\<rparr>"
  let ?sel = "\<lambda>b. case b of PFetchPending r \<Rightarrow> Some r | _ \<Rightarrow> None"
  obtain r w where t: "as_result (failed_with (ce_network X) ''fetch_pending'') ?sel
       (post_auth (ce_network X) (cl_config cl) auth ''/v1/fetch_pending'' (QFetchPending ?p)) (cl_world cl) = (Inr r, w)"
    and r: "items = map envelope_of (fpr_messages r)" "cl' = cl\<lparr>cl_world := w\<rparr>"
    using assms(2) by (auto simp: c_fetch_pending_def t_fetch_pending_def bindS_Inr_iff on_net_Inr)
  from server_post [OF assms(1) t]
  obtain rq resp b where rq: "rq_body rq = QFetchPending ?p"
    and run: "run_route RFetchPending refuse E dr (rq_headers rq) rq (cl_world cl) = (resp, w)"
    and ok: "is_success (rs_status resp)" "rs_body resp = BResponse b" and b: "?sel b = Some r"
    by (metis routes(2) option.inject)
  have "reply PFetchPending (h_fetch_pending E (rq_headers rq) ?p) (cl_world cl) = (resp, w)"
    using run ok(1) rq refused_fails [OF assms(1)] limited_body_cases [of rq] by auto
  then obtain r' where "h_fetch_pending E (rq_headers rq) ?p (cl_world cl) = (Inr r', w)" "b = PFetchPending r'"
    using ok(2) by (rule reply_Inr)
  with b r that show ?thesis by simp
qed

text \<open>A message posted into an empty mailbox is what the next fetch returns, and all it returns.\<close>

lemma posted_then_fetched:
  assumes "h_send_message E dr h p s = (Inr r, s1)" "smr_accepted r"
    and "parse_uuid E (sm_to_device_uuid p) = Some dest" "pending_ids (tables s) dest = []"
    and "h_fetch_pending E h' q s2 = (Inr r', s3)" "tables s2 = tables s1"
    and "parse_uuid E (fp_device_uuid q) = Some dest"
  shows "\<exists>d envelope created. parse_uuid E (sm_from_device_uuid p) = Some d \<and>
    b64_decode E (sm_envelope_b64 p) = Some envelope \<and>
    fpr_messages r' = [\<lparr>pm_message_id = sm_message_id p, pm_from_device_uuid = show_uuid E d,
      pm_envelope_b64 = b64_encode E envelope, pm_created_at_unix_ms = created\<rparr>]"
proof -
  obtain d envelope where d: "parse_uuid E (sm_from_device_uuid p) = Some d"
    and e: "b64_decode E (sm_envelope_b64 p) = Some envelope"
    and ins: "can_insert (dr 0) (sm_message_id p) d dest (tables s)"
    and t1: "tables s1 = post_message (clock s) (dr 0) (sm_message_id p) d dest envelope (tables s)"
    using assms(1-3) by (auto elim!: h_send_message_Inr)
  let ?row = "\<lparr>mr_id = dr 0, mr_message_id = sm_message_id p, mr_from_device = d, mr_to_device = dest,
      mr_envelope_bytes = envelope, mr_created_at = clock s, mr_delivered_at = None, mr_acked_at = None\<rparr>"
  have "filter (\<lambda>m. mr_to_device m = dest \<and> mr_acked_at m = None) (t_messages (tables s)) = []"
    (is "?old = []")
  proof -
    have "length (pending_rows (tables s) dest) = 0" using assms(4) by (simp add: pending_ids_def)
    then have "length ?old = 0" by (simp only: pending_rows_def length_sort)
    then show ?thesis by simp
  qed
  then have rows: "pending_rows (tables s1) dest = [?row]"
    unfolding t1 post_message_row [OF ins] by (simp add: pending_rows_def)
  obtain d' token s0 where f: "fetch_pending E d' q s0 = (Inr r', s3)" and fr: "tables s0 = tables s2"
    using assms(5) unfolding h_fetch_pending_def by (rule authorized_Inr)
  have "d' = dest" using fetch_pending_Inr(3) [OF f] assms(7) by simp
  moreover have "1 \<le> page (fp_limit q)" 
    unfolding page_def using clamp_range [of 1 500 "case fp_limit q of Some n \<Rightarrow> n | None \<Rightarrow> 100"] by linarith
  ultimately have "fpr_messages r' = [pending_item E (row_of ?row)]"
    using fetch_pending_Inr(1) [OF f] rows assms(6) fr by (simp add: take_Cons')
  then show ?thesis using d e by (auto simp: pending_item_def row_of_def)
qed

lemma persist_frame: "\<exists>d. snd (persist_sessions X dr cl) = cl\<lparr>cl_disk := d\<rparr>"
  by (auto simp: persist_sessions_def on_disk_def split: prod.splits)

lemma sent_to_peer:
  assumes "send_text_to_peer_with_id X dr auth peer text i cl = (Inr True, cl')"
  obtains s s' envelope cl1 where "map_of (cl_sessions cl) peer = Some s"
    "seal_for_session (crypto X) (ce_envelope X) (cd_nonce dr) text s = Inr (envelope, s')"
    "c_send_message X auth \<lparr>sm_message_id = i, sm_from_device_uuid = da_device_uuid auth,
       sm_to_device_uuid = peer, sm_envelope_b64 = envelope\<rparr> (set_session peer s' cl) = (Inr True, cl1)"
    "cl_world cl' = cl_world cl1" "cl_sessions cl' = cl_sessions cl1"
proof -
  obtain s where s: "map_of (cl_sessions cl) peer = Some s"
    using assms by (cases "map_of (cl_sessions cl) peer") (simp_all add: send_text_to_peer_with_id_def)
  obtain envelope s' where seal: "seal_for_session (crypto X) (ce_envelope X) (cd_nonce dr) text s = Inr (envelope, s')"
    using assms s by (cases "seal_for_session (crypto X) (ce_envelope X) (cd_nonce dr) text s")
      (auto simp: send_text_to_peer_with_id_def)
  let ?req = "\<lparr>sm_message_id = i, sm_from_device_uuid = da_device_uuid auth,
       sm_to_device_uuid = peer, sm_envelope_b64 = envelope\<rparr>"
  obtain sent cl1 where send: "c_send_message X auth ?req (set_session peer s' cl) = (sent, cl1)"
    by (cases "c_send_message X auth ?req (set_session peer s' cl)")
  have "sent = Inr True" "cl' = snd (persist_sessions X dr cl1)"
    using assms s seal send by (simp_all add: send_text_to_peer_with_id_def Let_def case_prod_beta)
  then show ?thesis using that s seal send persist_frame [of X dr cl1] by auto
qed

text \<open>
  C21.  A text arrives.  Two clients hold sessions on the same chain, the recipient's mailbox is
  empty.  When sending a text has succeeded and the recipient then fetches, decrypting what it
  fetched yields exactly this text, under its id and the sender's device, to be acknowledged;
  and the two sessions are again at the same position of the chain, for the next message.
\<close>

theorem text_end_to_end:
  assumes "connected refuse E dr X" "connected refuse E dr' Y"
    and "crypto Y = crypto X" "ce_envelope Y = ce_envelope X"
    and "map_of (cl_sessions a) (da_device_uuid auth_b) = Some s"
    and "parse_uuid E (da_device_uuid auth_a) = Some d" "map_of (cl_sessions b) (show_uuid E d) = Some r"
    and "synced (crypto X) root s r" "recv_counter r \<le> send_counter s" "unat (send_counter s) + 1 < 2 ^ 64"
    and "length (cd_nonce dra) = 24" "is_utf8 text"
    and "parse_uuid E (da_device_uuid auth_b) = Some dest" "pending_ids (tables (cl_world a)) dest = []"
    and "send_text_to_peer_with_id X dra auth_a (da_device_uuid auth_b) text i a = (Inr True, a')"
    and "tables (cl_world b) = tables (cl_world a')"
    and "c_fetch_pending Y auth_b limit b = (Inr items, b')"
  shows "\<exists>m b'' s' r'. decrypt_pending_with_sessions Y drb items b' = (([m], [i]), b'') \<and>
    dm_plaintext m = text \<and> dm_message_id m = i \<and> dm_from_device_uuid m = show_uuid E d \<and>
    map_of (cl_sessions a') (da_device_uuid auth_b) = Some s' \<and>
    map_of (cl_sessions b'') (show_uuid E d) = Some r' \<and>
    synced (crypto X) root s' r' \<and> recv_counter r' = send_counter s'"
proof -
  have J: "json_laws (ce_envelope X)" and dec: "b64_decode E = dec64 (crypto X)" "b64_encode E = enc64 (crypto X)"
    and laws: "primitive_laws (crypto X)"
    using assms(1) by (simp_all add: connected_def)
  obtain s' envelope a1 where seal: "seal_for_session (crypto X) (ce_envelope X) (cd_nonce dra) text s = Inr (envelope, s')"
    and send: "c_send_message X auth_a \<lparr>sm_message_id = i, sm_from_device_uuid = da_device_uuid auth_a,
       sm_to_device_uuid = da_device_uuid auth_b, sm_envelope_b64 = envelope\<rparr>
       (set_session (da_device_uuid auth_b) s' a) = (Inr True, a1)"
    and a': "cl_world a' = cl_world a1" "cl_sessions a' = cl_sessions a1"
    using sent_to_peer [OF assms(15)] assms(5) by (metis option.inject)
  obtain h rs w where hs: "h_send_message E dr h \<lparr>sm_message_id = i, sm_from_device_uuid = da_device_uuid auth_a,
       sm_to_device_uuid = da_device_uuid auth_b, sm_envelope_b64 = envelope\<rparr> (cl_world a) = (Inr rs, w)"
    and rs: "smr_accepted rs" and a1: "a1 = (set_session (da_device_uuid auth_b) s' a)\<lparr>cl_world := w\<rparr>"
    using server_sent [OF assms(1) send] by (auto simp: set_session_def)
  obtain h' rf w' where hf: "h_fetch_pending E h' \<lparr>fp_device_uuid = da_device_uuid auth_b, fp_limit = limit\<rparr>
       (cl_world b) = (Inr rf, w')"
    and items: "items = map envelope_of (fpr_messages rf)" and b': "b' = b\<lparr>cl_world := w'\<rparr>"
    using assms(2,17) by (rule server_fetched)
  obtain bytes created where "dec64 (crypto X) envelope = Some bytes"
    and "fpr_messages rf = [\<lparr>pm_message_id = i, pm_from_device_uuid = show_uuid E d,
      pm_envelope_b64 = enc64 (crypto X) bytes, pm_created_at_unix_ms = created\<rparr>]"
    using posted_then_fetched [OF hs rs _ assms(14) hf] assms(6,13,16) a' a1 dec by auto
  moreover obtain bs where "envelope = enc64 (crypto X) bs" using seal by (auto elim!: seal_Inr)
  ultimately have one: "items = [\<lparr>pe_message_id = i, pe_from_device_uuid = show_uuid E d,
      pe_envelope_b64 = envelope, pe_created_at_unix_ms = created\<rparr>]"
    using laws items by (simp add: primitive_laws_def envelope_of_def)
  obtain r' where r': "decrypt_with_session (crypto X) (ce_envelope X) envelope r = (Inr text, r')"
    "synced (crypto X) root s' r'" "recv_counter r' = send_counter s'"
    using sealed_opens [OF J assms(8-12) seal] by blast
  obtain disk where "snd (persist_sessions Y drb (b'\<lparr>cl_sessions := AList.update (show_uuid E d) r' (cl_sessions b)\<rparr>)) =
      b'\<lparr>cl_sessions := AList.update (show_uuid E d) r' (cl_sessions b), cl_disk := disk\<rparr>"
    using persist_frame by blast
  then show ?thesis
    using r' assms(3,4,7) a' a1 b'
    by (simp add: decrypt_pending_with_sessions_def one decrypted_def set_session_def update_conv')
qed

section \<open>Files\<close>

lemma concat_chunks_of: "0 < n \<Longrightarrow> concat (chunks_of n xs) = xs"
  by (induction n xs rule: chunks_of.induct) (subst chunks_of.simps, simp)

lemma read_chunks_Inr:
  "read_chunks progress expected downloaded out chunks w = (Inr bs, w') \<Longrightarrow>
   \<exists>cs. chunks = map Inr cs \<and> bs = out @ concat cs"
proof (induction progress expected downloaded out chunks arbitrary: w rule: read_chunks.induct)
  case (1 progress expected downloaded out)
  then show ?case by simp
next
  case (2 progress expected downloaded out e chunks)
  then show ?case by simp
next
  case (3 progress expected downloaded out chunk chunks)
  from 3(2) obtain cs where "chunks = map Inr cs" "bs = (out @ chunk) @ concat cs"
    using 3(1) [OF refl] by (auto simp: Let_def)
  then show ?case by (intro exI [of _ "chunk # cs"]) simp
qed

text \<open>The chunks of a complete download make up the body.\<close>

definition chunk_laws :: "'w network \<Rightarrow> bool" where
  "chunk_laws N \<longleftrightarrow> (\<forall>bs cs. nw_chunks N bs = map Inr cs \<longrightarrow> concat cs = bs)"

lemma appended_chunk:
  assumes "connected refuse E dr X" "uuid_laws E" "auth_headers (ce_network X) auth = Inr extra"
    and "presents E (default_headers (ce_network X) ++ extra) d token" "owned_blob (tables w) d i data"
    and "t_append_blob_chunk (ce_network X) cfg auth (show_uuid E i) (enc64 (crypto X) c) w = (Inr r, w')"
  shows "owned_blob (tables w') d i (data @ c)"
proof -
  let ?p = "\<lparr>ab_blob_id = show_uuid E i, ab_chunk_b64 = enc64 (crypto X) c\<rparr>"
  from server_post [OF assms(1) assms(6) [unfolded t_append_blob_chunk_def]]
  obtain rq resp b where rq: "rq_body rq = QAppendBlobChunk ?p" "rq_headers rq = default_headers (ce_network X) ++ extra"
    and run: "run_route RAppendBlobChunk refuse E dr (rq_headers rq) rq w = (resp, w')"
    and ok: "is_success (rs_status resp)" "rs_body resp = BResponse b"
    by (metis routes(4) option.inject sum.inject(2) assms(3))
  have "reply PAppendBlobChunk (h_append_blob_chunk E (rq_headers rq) ?p) w = (resp, w')"
    using run ok(1) rq refused_fails [OF assms(1)] limited_body_cases [of rq] by auto
  then obtain r' where "h_append_blob_chunk E (rq_headers rq) ?p w = (Inr r', w')"
    using ok(2) by (rule reply_Inr)
  then show ?thesis
    using append_Inr_owned [OF connected_b64 [OF assms(1)] _ assms(2) _ assms(5), of "rq_headers rq" c r' w'] rq(2) assms(1,4)
    by (simp add: connected_def)
qed

lemma uploaded_chunks:
  assumes "connected refuse E dr X" "uuid_laws E" "auth_headers (ce_network X) auth = Inr extra"
    and "presents E (default_headers (ce_network X) ++ extra) d token"
  shows "owned_blob (tables (cl_world cl)) d i data \<Longrightarrow>
    upload_chunks X auth (\<lambda>_ _ w. w) (show_uuid E i) all_bytes uploaded chunks cl = (Inr u, cl') \<Longrightarrow>
    owned_blob (tables (cl_world cl')) d i (data @ concat chunks)"
proof (induction chunks arbitrary: uploaded data cl)
  case (Cons c cs)
  obtain r w where one: "t_append_blob_chunk (ce_network X) (cl_config cl) auth (show_uuid E i) (enc64 (crypto X) c)
       (cl_world cl) = (Inr r, w)"
    and rest: "upload_chunks X auth (\<lambda>_ _ w. w) (show_uuid E i) all_bytes
      (min (saturating_add uploaded (of_nat (length c))) all_bytes) cs (cl\<lparr>cl_world := w\<rparr>) = (Inr u, cl')"
    using Cons.prems(2) by (auto simp: bindS_Inr_iff on_net_Inr Let_def report_def)
  have "owned_blob (tables (cl_world (cl\<lparr>cl_world := w\<rparr>))) d i (data @ c)"
    using appended_chunk [OF assms Cons.prems(1) one] by simp
  from Cons.IH [OF this rest] show ?case by simp
qed simp

lemma uploaded_blob:
  assumes "connected refuse E dr X" "uuid_laws E" "tables_wf (tables (cl_world a))"
    and "upload_blob_chunked_with_progress X auth blob (\<lambda>_ _ w. w) a = (Inr i, a')"
  shows "\<exists>d. i = show_uuid E (dr 0) \<and> owned_blob (tables (cl_world a')) d (dr 0) blob"
proof -
  obtain created w u where create: "t_create_blob (ce_network X) (cl_config a) auth (cl_world a) = (Inr created, w)"
    and up: "upload_chunks X auth (\<lambda>_ _ w. w) (cbr_blob_id created) (of_nat (length blob)) 0
        (chunks_of CHUNK_SIZE blob) (a\<lparr>cl_world := w\<rparr>) = (Inr u, a')"
    and i: "i = cbr_blob_id created"
    using assms(4)
    by (auto simp: upload_blob_chunked_with_progress_def Let_def bindS_Inr_iff on_net_Inr report_def)
  from server_post [OF assms(1) create [unfolded t_create_blob_def]]
  obtain extra rq resp b where rq: "auth_headers (ce_network X) auth = Inr extra" "rq_headers rq = default_headers (ce_network X) ++ extra"
    and run: "run_route RCreateBlob refuse E dr (rq_headers rq) rq (cl_world a) = (resp, w)"
    and ok: "rs_body resp = BResponse b" "(case b of PCreateBlob r \<Rightarrow> Some r | _ \<Rightarrow> None) = Some created"
    by (metis routes(3) option.inject)
  obtain r where r: "h_create_blob E dr (rq_headers rq) (cl_world a) = (Inr r, w)" "b = PCreateBlob r"
    using run ok(1) by (auto elim: reply_Inr)
  obtain d token where pr: "presents E (rq_headers rq) d token" and id: "cbr_blob_id r = show_uuid E (dr 0)"
    and own: "owned_blob (tables w) d (dr 0) []"
    using r(1) assms(3) by (rule create_blob_owned)
  have c: "cbr_blob_id created = show_uuid E (dr 0)" using ok(2) r(2) id by simp
  have own': "owned_blob (tables (cl_world (a\<lparr>cl_world := w\<rparr>))) d (dr 0) []" using own by simp
  have "concat (chunks_of CHUNK_SIZE blob) = blob" by (rule concat_chunks_of) (simp add: CHUNK_SIZE_def)
  then have "owned_blob (tables (cl_world a')) d (dr 0) blob"
    using uploaded_chunks [OF assms(1,2) rq(1) pr [unfolded rq(2)] own' up [unfolded c]] by simp
  with i c show ?thesis by auto
qed

lemma fetch_bytes_error: "h_fetch_blob_bytes E h p s = (Inl e, s') \<Longrightarrow> \<not> is_success (ae_status e)"
proof -
  assume h: "h_fetch_blob_bytes E h p s = (Inl e, s')"
  show ?thesis
  proof (cases "authorize_device E h s")
    case (Pair r s1)
    show ?thesis
    proof (cases r)
      case (Inl e')
      then show ?thesis using h Pair authorize_Inl_status [of E h s e' s1]
        by (auto simp: h_fetch_blob_bytes_def bindS_apply is_success_def api_error_database_def api_error_def)
    next
      case (Inr d)
      then have "fetch_blob_bytes E p s1 = (Inl e, s')" using h Pair by (simp add: h_fetch_blob_bytes_def bindS_apply)
      then show ?thesis
        by (auto simp: fetch_blob_bytes_def bindS_apply ok_or_def run_sql_def select_blob_def api_error_def
            api_error_database_def is_success_def split: option.splits if_splits prod.splits sum.splits)
    qed
  qed
qed

lemma downloaded_blob:
  assumes "connected refuse E dr Y" "uuid_laws E" "chunk_laws (ce_network Y)" "owned_blob (tables (cl_world b)) d i blob"
    and "on_net (\<lambda>N cfg. t_fetch_blob_bytes_with_progress N cfg auth (show_uuid E i) progress) Y b = (Inr bs, b')"
  shows "bs = blob"
proof -
  let ?N = "ce_network Y" and ?p = "\<lparr>fbl_blob_id = show_uuid E i\<rparr>"
  obtain resp w1 w2 chunks expected where post: "post_auth ?N (cl_config b) auth ''/v1/fetch_blob_bytes'' (QFetchBlob ?p)
       (cl_world b) = (Inr resp, w1)" and ok: "is_success (rs_status resp)"
    and read: "read_chunks progress expected 0 [] (nw_chunks ?N (case rs_body resp of
        BResponse (PBytes data) \<Rightarrow> data | other \<Rightarrow> as_bytes (nw_body_text ?N other))) w2 = (Inr bs, cl_world b')"
    using assms(5)
    by (auto simp: on_net_Inr t_fetch_blob_bytes_with_progress_def bindS_Inr_iff require_success_def
        reject_if_Inr_iff Let_def)
  from server_answer [OF assms(1) post ok]
  obtain rq where rq: "rq_body rq = QFetchBlob ?p"
    and run: "run_route RFetchBlobBytes refuse E dr (rq_headers rq) rq (cl_world b) = (resp, w1)"
    by (metis routes(5) option.inject)
  have rep: "reply PBytes (h_fetch_blob_bytes E (rq_headers rq) ?p) (cl_world b) = (resp, w1)"
    using run ok rq refused_fails [OF assms(1)] limited_body_cases [of rq] by auto
  obtain data where h: "h_fetch_blob_bytes E (rq_headers rq) ?p (cl_world b) = (Inr data, w1)"
    and body: "rs_body resp = BResponse (PBytes data)"
  proof (cases "h_fetch_blob_bytes E (rq_headers rq) ?p (cl_world b)")
    case (Pair r w)
    then show ?thesis using rep ok that fetch_bytes_error [of E "rq_headers rq" ?p "cl_world b" _ w]
      by (cases r) (auto simp: reply_def into_response_def)
  qed
  obtain d' token' s5 where f: "fetch_blob_bytes E ?p s5 = (Inr data, w1)" and t5: "tables s5 = tables (cl_world b)"
    using h unfolding h_fetch_blob_bytes_def by (rule authorized_Inr)
  obtain s6 where q: "run_sql (select_blob i) s5 = (Inr (Some data), s6)"
    using f assms(2) by (auto simp: fetch_blob_bytes_def bindS_Inr_iff ok_or_Inr_iff uuid_laws_def)
  have "data = blob"
    using run_sql_Inr_frame(1) [OF q] select_blob_owned [OF assms(4), of "clock s5"] t5 by simp
  then show ?thesis
    using read_chunks_Inr [OF read] assms(3) body by (auto simp: chunk_laws_def)
qed

text \<open>
  C22.  A file arrives.  Encrypted under its file key and uploaded in chunks of 256 KiB by one
  client, then downloaded under the returned id by another and decrypted with this key, a file
  comes back byte for byte, whatever its length and however the download is cut into chunks.
\<close>

theorem file_end_to_end:
  assumes "connected refuse E dr X" "connected refuse E dr' Y" "crypto Y = crypto X"
    and "uuid_laws E" "chunk_laws (ce_network Y)" "tables_wf (tables (cl_world a))"
    and "length nonce = 24" "encrypt_bytes (crypto X) nonce file_key data = Inr blob"
    and "upload_blob_chunked_with_progress X auth_a blob (\<lambda>_ _ w. w) a = (Inr i, a')"
    and "tables (cl_world b) = tables (cl_world a')"
    and "fetch_file_blob Y auth_b i file_key b = (Inr out, b')"
  shows "out = data"
proof -
  obtain d where d: "i = show_uuid E (dr 0)" "owned_blob (tables (cl_world b)) d (dr 0) blob"
    using uploaded_blob [OF assms(1,4,6,9)] assms(10) by auto
  obtain bs where get: "on_net (\<lambda>N cfg. t_fetch_blob_bytes_with_progress N cfg auth_b i (\<lambda>_ _ w. w)) Y b = (Inr bs, b')"
    and dec: "decrypt_bytes (crypto Y) file_key bs = Inr out"
    using assms(11) by (auto simp: fetch_file_blob_def fetch_file_blob_with_progress_def bindS_Inr_iff)
  have "bs = blob" using downloaded_blob [OF assms(2,4,5) d(2)] get d(1) by simp
  moreover have "decrypt_bytes (crypto X) file_key blob = Inr data"
    using decrypt_encrypt [OF _ assms(7,8)] assms(1) by (simp add: connected_def)
  ultimately show ?thesis using dec assms(3) by simp
qed

section \<open>Two connected clients\<close>

definition refuse0 :: "http_request \<Rightarrow> http_response" where
  "refuse0 rq = \<lparr>rs_status = 422, rs_body = BResponse PEmpty\<rparr>"

definition client_env0 :: "server client_env" where
  "client_env0 = \<lparr>ce_vault = vault_env0, ce_network = server_network refuse0 env0 (\<lambda>_. 9) network0,
     ce_sessions = sessions_codec0, ce_keys = tagged_codec CHR ''S'' (\<lambda>_. []) (\<lambda>_. None),
     ce_envelope = envelope_codec0, ce_payload = tagged_codec CHR ''S'' (\<lambda>_. []) (\<lambda>_. None)\<rparr>"

lemma client_env0_simps [simp]:
  "crypto client_env0 = primitives0" "ce_envelope client_env0 = envelope_codec0"
  "ce_network client_env0 = server_network refuse0 env0 (\<lambda>_. 9) network0"
  by (simp_all add: client_env0_def vault_env0_def)

lemma b64_env0: "b64_encode env0 = enc64 primitives0" "b64_decode env0 = dec64 primitives0"
  by (simp_all add: fun_eq_iff primitives0_def bytes_text_def as_bytes_def)

lemma client_env0_connected: "connected refuse0 env0 (\<lambda>_. 9) client_env0"
  unfolding connected_def b64_env0
  using primitives0_laws envelope_codec0_laws by (auto simp: refuse0_def)

definition auth_a :: device_auth where
  "auth_a = \<lparr>da_device_uuid = ''x'', da_auth_token = ''T''\<rparr>"

definition auth_b :: device_auth where
  "auth_b = \<lparr>da_device_uuid = ''xx'', da_auth_token = ''U''\<rparr>"

definition draws0 :: client_draws where
  "draws0 = \<lparr>cd_nonce = nonce0, cd_file_nonce = nonce0, cd_file_key = key_b, cd_salt = replicate 16 5,
     cd_vault_nonce = nonce0, cd_identity = key_a, cd_signed = key_a, cd_signing = key_a, cd_uuid = ''m2''\<rparr>"

definition config0 :: client_config where
  "config0 = \<lparr>http_base = ''http://h'', ws_base = ''ws://h'', session_store_path = ''s'', key_store_path = ''k''\<rparr>"

definition client0 :: "string \<Rightarrow> server \<Rightarrow> server client" where
  "client0 peer sv = \<lparr>cl_config = config0, cl_password = None, cl_sessions = [(peer, fresh_session key0)],
     cl_disk = disk0, cl_world = sv\<rparr>"

lemma sample_auth [simp]:
  "da_device_uuid auth_a = ''x''" "da_auth_token auth_a = ''T''"
  "da_device_uuid auth_b = ''xx''" "da_auth_token auth_b = ''U''"
  "cd_nonce draws0 = nonce0" "cl_sessions (client0 peer sv) = [(peer, fresh_session key0)]"
  "cl_world (client0 peer sv) = sv"
  by (simp_all add: auth_a_def auth_b_def draws0_def client0_def)

text \<open>The open gate of the sample server, and a POST to it.\<close>

lemma gate0: "min_client_version s = ''0.0.0'' \<Longrightarrow> require_supported_client rq run s = run rq s"
  by (simp add: require_supported_client_def version_gt_def)

definition sample_headers :: "device_auth \<Rightarrow> headers" where
  "sample_headers auth = default_headers (network0 :: server network) ++
     [''x-device-uuid'' \<mapsto> da_device_uuid auth, ''x-device-token'' \<mapsto> da_auth_token auth]"

lemma sample_headers [simp]:
  "sample_headers auth ''x-device-uuid'' = Some (da_device_uuid auth)"
  "sample_headers auth ''x-device-token'' = Some (da_auth_token auth)"
  by (simp_all add: sample_headers_def)

lemma post_auth0:
  assumes "min_client_version s = ''0.0.0''" "find_route POST path = Some rt"
    and "run_route rt refuse0 env0 (\<lambda>_. 9) (sample_headers auth)
        \<lparr>rq_method = POST, rq_path = path, rq_headers = sample_headers auth,
         rq_body = q, rq_length = 10\<rparr> s = (\<lparr>rs_status = 200, rs_body = BResponse b\<rparr>, s')"
  shows "post_auth (ce_network client_env0) cfg auth path q s = (Inr \<lparr>rs_status = 200, rs_body = BResponse b\<rparr>, s')"
proof -
  have d: "default_headers (server_network refuse0 env0 (\<lambda>_. 9) network0) = default_headers (network0 :: server network)"
    by (simp add: default_headers_def server_network_def)
  have a: "auth_headers (server_network refuse0 env0 (\<lambda>_. 9) network0) auth =
      Inr [''x-device-uuid'' \<mapsto> da_device_uuid auth, ''x-device-token'' \<mapsto> da_auth_token auth]"
    by (simp add: auth_headers_def server_network_def network0_def)
  have l: "nw_length (server_network refuse0 env0 (\<lambda>_. 9) network0) q = 10"
    by (simp add: server_network_def network0_def)
  show ?thesis
    using assms
    by (simp add: post_auth_def post_def a d l)
      (simp add: server_network_def handle_request_def gate0 sample_headers_def)
qed

lemma post0:
  assumes "post_auth (ce_network client_env0) cfg auth path q s = (Inr \<lparr>rs_status = 200, rs_body = BResponse b\<rparr>, s')"
    and "sel b = Some x"
  shows "as_result msg sel (post_auth (ce_network client_env0) cfg auth path q) s = (Inr x, s')"
  using assms by (simp add: as_result_def bindS_apply require_success_def is_success_def read_json_def)

lemma limited0: "limited_body \<lparr>rq_method = m, rq_path = p, rq_headers = h, rq_body = q, rq_length = 10\<rparr> = q"
  by (simp add: limited_body_def MAX_REQUEST_BODY_BYTES_def)

definition row0 :: "string \<Rightarrow> message_row" where
  "row0 e = \<lparr>mr_id = 9, mr_message_id = ''m1'', mr_from_device = 1, mr_to_device = 2,
     mr_envelope_bytes = as_bytes e, mr_created_at = 0, mr_delivered_at = None, mr_acked_at = None\<rparr>"

definition sent0 :: "string \<Rightarrow> server" where
  "sent0 e = server0\<lparr>device_last_seen := [1 \<mapsto> 0], tables := tables0\<lparr>t_messages := [row0 e]\<rparr>\<rparr>"

lemma c_send0:
  "cl_world cl = server0 \<Longrightarrow> c_send_message client_env0 auth_a \<lparr>sm_message_id = ''m1'', sm_from_device_uuid = ''x'',
     sm_to_device_uuid = ''xx'', sm_envelope_b64 = e\<rparr> cl = (Inr True, cl\<lparr>cl_world := sent0 e\<rparr>)"
proof -
  assume w: "cl_world cl = server0"
  let ?p = "\<lparr>sm_message_id = ''m1'', sm_from_device_uuid = ''x'', sm_to_device_uuid = ''xx'', sm_envelope_b64 = e\<rparr>"
  have "t_send_message (ce_network client_env0) (cl_config cl) auth_a ?p server0 = (Inr \<lparr>smr_accepted = True\<rparr>, sent0 e)"
    unfolding t_send_message_def
    by (rule post0 [OF post_auth0 [where rt = RSendMessage and b = "PSendMessage \<lparr>smr_accepted = True\<rparr>"]])
      (simp_all add: routes limited0 reply_def eval_simps device_exists_def find_user_id_by_device_uuid_def
        block_direction_def insert_message_def device_ids_def sent0_def row0_def as_bytes_def)
  then show ?thesis using w by (simp add: c_send_message_def mapS_def bindS_apply on_net_def)
qed

lemma c_fetch0:
  "\<exists>items b'. c_fetch_pending client_env0 auth_b None (client0 ''x'' (sent0 e)) = (Inr items, b')"
proof -
  let ?q = "\<lparr>fp_device_uuid = ''xx'', fp_limit = None\<rparr>"
  let ?h = "sample_headers auth_b"
  have "\<exists>r s'. h_fetch_pending env0 ?h ?q (sent0 e) = (Inr r, s')"
    by (simp add: sent0_def row0_def eval_simps fetch_pending_locked_def mark_delivered_def
        clamp_def pending_rows_def)
  then obtain r s' where h: "h_fetch_pending env0 ?h ?q (sent0 e) = (Inr r, s')" by blast
  have "as_result (failed_with (ce_network client_env0) ''fetch_pending'') (\<lambda>b. case b of PFetchPending r \<Rightarrow> Some r | _ \<Rightarrow> None)
       (post_auth (ce_network client_env0) config0 auth_b ''/v1/fetch_pending'' (QFetchPending ?q)) (sent0 e) = (Inr r, s')"
    by (rule post0 [OF post_auth0 [where rt = RFetchPending and b = "PFetchPending r"]])
      (use h in \<open>simp_all add: routes limited0 reply_def\<close>, simp add: sent0_def)
  then show ?thesis
    by (simp add: c_fetch_pending_def on_net_def t_fetch_pending_def bindS_apply client0_def)
qed

lemma text_end_to_end_witness:
  "\<exists>m b'' s' r'. decrypt_pending_with_sessions client_env0 draws0
      (projr (fst (c_fetch_pending client_env0 auth_b None (client0 ''x''
        (cl_world (snd (send_text_to_peer_with_id client_env0 draws0 auth_a ''xx'' ''hi'' ''m1'' (client0 ''xx'' server0))))))))
      (snd (c_fetch_pending client_env0 auth_b None (client0 ''x''
        (cl_world (snd (send_text_to_peer_with_id client_env0 draws0 auth_a ''xx'' ''hi'' ''m1'' (client0 ''xx'' server0)))))))
      = (([m], [''m1'']), b'') \<and>
    dm_plaintext m = ''hi'' \<and> dm_message_id m = ''m1'' \<and> dm_from_device_uuid m = ''x'' \<and>
    map_of (cl_sessions (snd (send_text_to_peer_with_id client_env0 draws0 auth_a ''xx'' ''hi'' ''m1'' (client0 ''xx'' server0))))
      ''xx'' = Some s' \<and>
    map_of (cl_sessions b'') ''x'' = Some r' \<and>
    synced primitives0 key0 s' r' \<and> recv_counter r' = send_counter s'"
proof -
  let ?a = "client0 ''xx'' server0"
  let ?send = "send_text_to_peer_with_id client_env0 draws0 auth_a ''xx'' ''hi'' ''m1'' ?a"
  let ?b = "client0 ''x'' (cl_world (snd ?send))"
  let ?fetch = "c_fetch_pending client_env0 auth_b None ?b"
  obtain e s' where seal: "seal_for_session primitives0 envelope_codec0 nonce0 ''hi'' (fresh_session key0) = Inr (e, s')"
    using seal_fresh0 by blast
  have send: "c_send_message client_env0 auth_a \<lparr>sm_message_id = ''m1'', sm_from_device_uuid = ''x'',
     sm_to_device_uuid = ''xx'', sm_envelope_b64 = e\<rparr> (set_session ''xx'' s' ?a) =
     (Inr True, (set_session ''xx'' s' ?a)\<lparr>cl_world := sent0 e\<rparr>)"
    by (rule c_send0) (simp add: set_session_def)
  have "?send = (Inr True, snd (persist_sessions client_env0 draws0 ((set_session ''xx'' s' ?a)\<lparr>cl_world := sent0 e\<rparr>)))"
    using seal send by (simp add: send_text_to_peer_with_id_def Let_def case_prod_beta)
  then have s: "?send = (Inr True, snd ?send)" "cl_world (snd ?send) = sent0 e"
    using persist_frame [of client_env0 draws0 "(set_session ''xx'' s' ?a)\<lparr>cl_world := sent0 e\<rparr>"] by auto
  have f: "?fetch = (Inr (projr (fst ?fetch)), snd ?fetch)"
    using c_fetch0 [of e] s(2) by (metis fst_conv snd_conv sum.sel(2))
  have sync: "synced (crypto client_env0) key0 (fresh_session key0) (fresh_session key0)"
    using primitives0_laws key0_ok by (simp add: synced_fresh good_key_def)
  have x: "show_uuid env0 1 = ''x''" by simp
  show ?thesis
    using text_end_to_end [OF client_env0_connected client_env0_connected refl refl, of ?a auth_b "fresh_session key0"
        auth_a 1 ?b "fresh_session key0" key0 draws0 "''hi''" 2 "''m1''" "snd ?send" None "projr (fst ?fetch)" "snd ?fetch" draws0]
      sync s f x hi_utf8(1)
    by (simp add: fresh_session_def pending_ids_def pending_rows_def)
qed

lemma encrypt0: "encrypt_bytes primitives0 nonce0 key0 data = Inr (nonce0 @ key_a @ data)"
  by (simp add: encrypt_bytes_def key0_ok seal_primitives0)

lemma chunk_laws0: "chunk_laws (ce_network client_env0)"
  by (auto simp: chunk_laws_def server_network_def network0_def)

definition created0 :: server where
  "created0 = server0\<lparr>device_last_seen := [1 \<mapsto> 0], tables := tables0\<lparr>t_blobs :=
     [\<lparr>bl_id = 9, bl_owner_device = 1, bl_data = [], bl_created_at = 0\<rparr>]\<rparr>\<rparr>"

definition uploaded0 :: "bytes \<Rightarrow> server" where
  "uploaded0 blob = server0\<lparr>device_last_seen := [1 \<mapsto> 0], tables := tables0\<lparr>t_blobs :=
     [\<lparr>bl_id = 9, bl_owner_device = 1, bl_data = blob, bl_created_at = 0\<rparr>]\<rparr>\<rparr>"

lemmas blob_eval = limited0 reply_def eval_simps insert_empty_blob_def insert_blob_def append_blob_def select_blob_def
  device_ids_def MAX_BLOB_BYTES_def MAX_BLOB_CHUNK_BYTES_def

lemma upload0:
  assumes "blob \<noteq> []" "length blob < 1000"
  shows "\<exists>cl. upload_blob_chunked_with_progress client_env0 auth_a blob (\<lambda>_ _ w. w) (client0 ''xx'' server0) =
      (Inr (show_uuid env0 9), cl) \<and> cl_world cl = uploaded0 blob"
proof -
  have create: "t_create_blob (ce_network client_env0) config0 auth_a server0 =
      (Inr \<lparr>cbr_blob_id = show_uuid env0 9\<rparr>, created0)"
    unfolding t_create_blob_def
    by (rule post0 [OF post_auth0 [where rt = RCreateBlob and b = "PCreateBlob \<lparr>cbr_blob_id = show_uuid env0 9\<rparr>"]])
      (simp_all add: routes blob_eval created0_def)
  have append: "t_append_blob_chunk (ce_network client_env0) config0 auth_a (show_uuid env0 9) (enc64 primitives0 blob) created0 =
      (Inr \<lparr>abr_size = length blob\<rparr>, uploaded0 blob)"
    unfolding t_append_blob_chunk_def
  proof (rule post0 [OF post_auth0 [where rt = RAppendBlobChunk and b = "PAppendBlobChunk \<lparr>abr_size = length blob\<rparr>"]])
    have "as_bytes (enc64 primitives0 blob) = blob" by (simp add: primitives0_def)
    then have "map (\<lambda>c. word_of_nat (of_char c)) (enc64 primitives0 blob) = blob" by (simp add: as_bytes_def)
    then show "run_route RAppendBlobChunk refuse0 env0 (\<lambda>_. 9) (sample_headers auth_a)
        \<lparr>rq_method = POST, rq_path = ''/v1/append_blob_chunk'', rq_headers = sample_headers auth_a,
         rq_body = QAppendBlobChunk \<lparr>ab_blob_id = show_uuid env0 9, ab_chunk_b64 = enc64 primitives0 blob\<rparr>,
         rq_length = 10\<rparr> created0 = (\<lparr>rs_status = 200, rs_body = BResponse (PAppendBlobChunk \<lparr>abr_size = length blob\<rparr>)\<rparr>, uploaded0 blob)"
      using assms(2) by (simp add: blob_eval created0_def uploaded0_def)
  qed (simp_all add: routes created0_def)
  have "chunks_of CHUNK_SIZE blob = [blob]"
    using assms by (subst chunks_of.simps) (simp add: CHUNK_SIZE_def, subst chunks_of.simps, simp)
  then show ?thesis
    using create append
    by (simp add: upload_blob_chunked_with_progress_def Let_def bindS_apply on_net_def client0_def report_def)
qed

lemma file_end_to_end_witness:
  "projr (fst (fetch_file_blob client_env0 auth_b (show_uuid env0 9) key0 (client0 ''x''
      (cl_world (snd (upload_blob_chunked_with_progress client_env0 auth_a (nonce0 @ key_a @ [1, 2, 3]) (\<lambda>_ _ w. w)
        (client0 ''xx'' server0))))))) = [1, 2, 3]"
proof -
  let ?blob = "nonce0 @ key_a @ [1, 2, 3]"
  let ?up = "upload_blob_chunked_with_progress client_env0 auth_a ?blob (\<lambda>_ _ w. w) (client0 ''xx'' server0)"
  have "?blob \<noteq> []" "length ?blob < 1000" by simp_all
  from upload0 [OF this] obtain cl where up: "?up = (Inr (show_uuid env0 9), cl)" and w: "cl_world cl = uploaded0 ?blob"
    by blast
  let ?p = "\<lparr>fbl_blob_id = show_uuid env0 9\<rparr>"
  let ?s' = "(uploaded0 ?blob)\<lparr>device_last_seen := [1 \<mapsto> 0, 2 \<mapsto> 0]\<rparr>"
  have h: "h_fetch_blob_bytes env0 (sample_headers auth_b) ?p (uploaded0 ?blob) = (Inr ?blob, ?s')"
    by (simp add: blob_eval uploaded0_def fun_upd_twist)
  have post: "post_auth (ce_network client_env0) config0 auth_b ''/v1/fetch_blob_bytes'' (QFetchBlob ?p) (uploaded0 ?blob) =
      (Inr \<lparr>rs_status = 200, rs_body = BResponse (PBytes ?blob)\<rparr>, ?s')"
    by (rule post_auth0 [where rt = RFetchBlobBytes])
      (use h in \<open>simp_all add: routes limited0 reply_def\<close>, simp add: uploaded0_def)
  have net: "nw_chunks (server_network refuse0 env0 (\<lambda>_. 9) network0) bs = [Inr bs]" for bs
    by (simp add: server_network_def network0_def)
  have get: "t_fetch_blob_bytes_with_progress (ce_network client_env0) config0 auth_b (show_uuid env0 9) (\<lambda>_ _ w. w)
      (uploaded0 ?blob) = (Inr ?blob, ?s')"
    unfolding t_fetch_blob_bytes_with_progress_def bindS_apply post
    by (simp add: require_success_def is_success_def Let_def net)
  have dec: "decrypt_bytes primitives0 key0 ?blob = Inr [1, 2, 3]"
    by (rule decrypt_encrypt [OF primitives0_laws sample_lengths(3) encrypt0])
  have "fetch_file_blob client_env0 auth_b (show_uuid env0 9) key0 (client0 ''x'' (cl_world cl)) =
      (Inr [1, 2, 3], (client0 ''x'' (cl_world cl))\<lparr>cl_world := ?s'\<rparr>)"
    using get dec w
    by (simp add: fetch_file_blob_def fetch_file_blob_with_progress_def bindS_apply on_net_def client0_def)
  then have f: "fetch_file_blob client_env0 auth_b (show_uuid env0 9) key0 (client0 ''x'' (cl_world (snd ?up))) =
     (Inr (projr (fst (fetch_file_blob client_env0 auth_b (show_uuid env0 9) key0 (client0 ''x'' (cl_world (snd ?up)))))),
      snd (fetch_file_blob client_env0 auth_b (show_uuid env0 9) key0 (client0 ''x'' (cl_world (snd ?up)))))"
    unfolding up by simp
  have enc: "encrypt_bytes (crypto client_env0) nonce0 key0 [1, 2, 3] = Inr ?blob" by (simp add: encrypt0)
  have t: "tables_wf (tables (cl_world (client0 ''xx'' server0)))" by (simp add: tables0_wf)
  show ?thesis
    by (rule file_end_to_end [OF client_env0_connected client_env0_connected refl env0_uuid_laws chunk_laws0 t
        sample_lengths(3) enc up _ f]) (simp add: up)
qed

end
