(* ===== verification/Api_Types.thy ===== *)
theory Api_Types
  imports End_To_End
begin

text \<open>
  Client and server agree on the types of the API: every error of a handler is answered with a
  status of 400 or more, so a success carries the type the client's method decodes.
\<close>

section \<open>Errors have error statuses\<close>

definition errs :: "('s, api_error, 'a) comp \<Rightarrow> bool" where
  "errs m \<longleftrightarrow> (\<forall>s e s'. m s = (Inl e, s') \<longrightarrow> 400 \<le> ae_status e)"

named_theorems errs_rules \<open>computations that fail with an error status\<close>

lemma errs_basic [errs_rules]:
  "errs (returnS x)" "errs (readS g)" "errs (modifyS f)" "400 \<le> ae_status e \<Longrightarrow> errs (failS e)"
  "400 \<le> ae_status e \<Longrightarrow> errs (ok_or opt e)" "400 \<le> ae_status e \<Longrightarrow> errs (reject_if b e)"
  by (auto simp: errs_def ok_or_def reject_if_def split: option.splits)

lemma ae_status_api_error [simp]: "ae_status (api_error n msg) = n" "400 \<le> ae_status api_error_database"
  by (simp_all add: api_error_def api_error_database_def)

lemma errs_bindS [errs_rules]:
  assumes "errs m" "\<And>x. errs (f x)"
  shows "errs (bindS m f)"
  unfolding errs_def
proof (intro allI impI)
  fix s e s'
  assume b: "bindS m f s = (Inl e, s')"
  obtain r s1 where m: "m s = (r, s1)" by (cases "m s")
  from b m have "r = Inl e \<or> (\<exists>x. f x s1 = (Inl e, s'))" by (cases r) (auto simp: bindS_apply)
  then show "400 \<le> ae_status e" using assms m unfolding errs_def by blast
qed

lemma errs_if [errs_rules]: "errs m \<Longrightarrow> errs n \<Longrightarrow> errs (if b then m else n)"
  by simp

lemma errs_case_option [errs_rules]: "errs m \<Longrightarrow> (\<And>x. errs (f x)) \<Longrightarrow> errs (case opt of None \<Rightarrow> m | Some x \<Rightarrow> f x)"
  by (cases opt) simp_all

lemma errs_case_prod [errs_rules]: "(\<And>a b. errs (f a b)) \<Longrightarrow> errs (case p of (a, b) \<Rightarrow> f a b)"
  by (cases p) simp

lemma errs_run_sql [errs_rules]: "errs (run_sql q)"
  by (auto simp: errs_def run_sql_def split: prod.splits sum.splits if_splits)

lemma errs_transaction [errs_rules]:
  assumes "errs m"
  shows "errs (transaction m)"
  unfolding errs_def
proof (intro allI impI)
  fix s e s'
  assume t: "transaction m s = (Inl e, s')"
  then have "(\<exists>s1 s2. m s1 = (Inl e, s2)) \<or> e = api_error_database"
    by (auto simp: transaction_def split: prod.splits sum.splits if_splits)
  then show "400 \<le> ae_status e" using assms unfolding errs_def by auto
qed

lemma errs_mark_online [errs_rules]: "errs (mark_online d)"
  unfolding mark_online_def by (intro errs_rules)

lemma errs_authorize [errs_rules]: "errs (authorize_device E h)"
  unfolding authorize_device_def by (intro errs_rules) simp_all

lemma errs_parse_invite [errs_rules]: "errs (lift_result (parse_invite_code E c))"
  by (auto simp: errs_def parse_invite_code_def Let_def split: option.splits prod.splits if_splits)

lemma errs_device_handlers:
  "errs (h_register_device E dr p1)" "errs (h_device_login E dr p3)" "errs (h_device_logout E h p4)"
  unfolding h_register_device_def register_device_def
    h_device_login_def device_login_def h_device_logout_def device_logout_def Let_def
  by (intro errs_rules; simp)+

lemma errs_upload: "errs (upload_items E d items n)"
  by (induction items arbitrary: n) (auto intro!: errs_rules)

lemma errs_upload_prekeys: "errs (h_upload_prekeys E h p)"
  unfolding h_upload_prekeys_def upload_prekeys_def by (intro errs_rules errs_upload; simp)

lemma errs_login: "errs (h_user_login E p)"
proof -
  have "errs (login E p)" unfolding login_def by (intro errs_rules; simp)
  then show ?thesis
    by (auto simp: errs_def h_user_login_def Let_def split: prod.splits sum.splits if_splits)
qed

lemma errs_user_handlers:
  "errs (h_user_register E dr p1)" "errs (h_resolve_user E p2)" "errs (h_resolve_device E p3)"
  "errs (h_user_search E p4)" "errs (h_user_online p5)" "errs (h_block_user E h p6)"
  "errs (h_unblock_user E h p7)" "errs (h_blocked_users E h)"
  unfolding h_user_register_def register_def hash_password_def h_resolve_user_def resolve_user_def
    h_resolve_device_def resolve_device_def h_user_search_def user_search_def h_user_online_def
    user_online_def h_block_user_def block_user_def current_user_id_def validate_block_target_def
    h_unblock_user_def unblock_user_def h_blocked_users_def blocked_users_def Let_def
  by (intro errs_rules; simp)+

lemma errs_block_gate [errs_rules]: "errs (block_gate a b)"
  unfolding block_gate_def by (intro errs_rules; simp)

lemma errs_mark_all [errs_rules]: "errs (mark_all rows)"
proof (induction rows)
  case Nil
  show ?case by (simp add: errs_def)
next
  case (Cons row rows)
  then show ?case unfolding mark_all.simps by (intro errs_rules)
qed

lemma errs_prekey_bundle: "errs (h_fetch_prekey_bundle E p)"
  unfolding h_fetch_prekey_bundle_def fetch_prekey_bundle_def
  by (intro errs_rules) (auto split: prod.split intro!: errs_rules)

lemma errs_messaging_handlers:
  "errs (h_send_message E dr h p2)" "errs (h_fetch_pending E h p3)"
  "errs (h_message_status E h p5)"
  unfolding h_send_message_def send_message_def
    h_fetch_pending_def fetch_pending_def drain_pending_messages_def h_message_status_def message_status_def
  by (intro errs_rules; simp)+

lemma errs_blob_handlers:
  "errs (h_create_blob E dr h)" "errs (h_append_blob_chunk E h p3)" "errs (h_fetch_blob_bytes E h p4)"
  unfolding h_create_blob_def create_blob_def h_append_blob_chunk_def append_blob_chunk_def
    h_fetch_blob_bytes_def fetch_blob_bytes_def
  by (intro errs_rules; simp)+

lemma errs_signal_handlers: "errs (h_send_call_signal E h p1)" "errs (h_fetch_call_signals E h p2)"
  unfolding h_send_call_signal_def send_call_signal_def h_fetch_call_signals_def fetch_call_signals_def Let_def
  by (intro errs_rules; simp)+

section \<open>A success is decoded\<close>

text \<open>Whenever the answer to \<open>request\<close> is a success, \<open>call\<close> returns a value.\<close>

definition decodes :: "('w, string, http_response) comp \<Rightarrow> ('w, string, 'a) comp \<Rightarrow> bool" where
  "decodes request call \<longleftrightarrow> (\<forall>w resp w'. request w = (Inr resp, w') \<longrightarrow> is_success (rs_status resp) \<longrightarrow>
     (\<exists>x w''. call w = (Inr x, w'')))"

lemma reply_success:
  assumes "errs m" "is_success (rs_status (fst (reply f m s)))"
  shows "\<exists>x. rs_body (fst (reply f m s)) = BResponse (f x)"
proof -
  obtain r s' where m: "m s = (r, s')" by (cases "m s")
  show ?thesis
  proof (cases r)
    case (Inl e)
    then have "400 \<le> ae_status e" using assms(1) m unfolding errs_def by blast
    then show ?thesis using assms(2) by (simp add: reply_def m Inl into_response_def is_success_def)
  qed (auto simp: reply_def m)
qed

lemma as_result_decodes:
  assumes "\<And>w resp w'. request w = (Inr resp, w') \<Longrightarrow> is_success (rs_status resp) \<Longrightarrow>
      \<exists>b x. rs_body resp = BResponse b \<and> sel b = Some x"
  shows "decodes request (as_result msg sel request)"
  using assms unfolding decodes_def
  by (fastforce simp: as_result_def bindS_apply require_success_def read_json_def)

text \<open>What a success of the route looks like, for a network that is the server.\<close>

lemma post_route:
  assumes "\<forall>rq. 400 \<le> rs_status (refuse rq)" "find_route POST path = Some rt"
    and "post (server_network refuse E dr N) cfg path extra q w = (Inr resp, w')" "is_success (rs_status resp)"
  shows "\<exists>rq h. rq_body rq = q \<and> run_route rt refuse E dr h rq w = (resp, w')"
proof -
  let ?net = "server_network refuse E dr N"
  let ?rq = "\<lparr>rq_method = POST, rq_path = path, rq_headers = default_headers ?net ++ extra,
       rq_body = q, rq_length = nw_length ?net q\<rparr>"
  have h: "handle_request refuse E dr ?rq w = (resp, w')"
    using assms(3) by (auto simp: post_def server_network_def split: prod.splits)
  have "run_route rt refuse E dr (rq_headers ?rq) ?rq w = (resp, w')"
    using h spec [OF assms(1), of ?rq] assms(2,4)
    by (cases rule: handle_request_cases [of refuse E dr ?rq w]) (auto simp: is_success_def upgrade_required_def)
  moreover have "rq_body ?rq = q" by simp
  ultimately show ?thesis by blast
qed

definition route_gives :: "route \<Rightarrow> request_body \<Rightarrow> (response_body \<Rightarrow> 'a option) \<Rightarrow> bool" where
  "route_gives rt q sel \<longleftrightarrow> (\<forall>refuse E dr h rq w. rq_body rq = q \<longrightarrow> (\<forall>rq. 400 \<le> rs_status (refuse rq)) \<longrightarrow>
     is_success (rs_status (fst (run_route rt refuse E dr h rq w))) \<longrightarrow>
     (\<exists>b x. rs_body (fst (run_route rt refuse E dr h rq w)) = BResponse b \<and> sel b = Some x))"

lemma route_givesI:
  assumes "\<And>refuse E dr h rq w. rq_body rq = q \<Longrightarrow> run_route rt refuse E dr h rq w =
      (if rq_length rq \<le> MAX_REQUEST_BODY_BYTES then reply f (m E dr h) w else (refuse rq, w))"
    and "\<And>E dr h. errs (m E dr h)" "\<And>x. \<exists>y. sel (f x) = Some y"
  shows "route_gives rt q sel"
  unfolding route_gives_def
proof (intro allI impI)
  fix refuse E dr h rq w
  assume rq: "rq_body rq = q" and refused: "\<forall>rq. 400 \<le> rs_status (refuse rq)"
    and ok: "is_success (rs_status (fst (run_route rt refuse E dr h rq w)))"
  have "rq_length rq \<le> MAX_REQUEST_BODY_BYTES"
  proof (rule ccontr)
    assume "\<not> ?thesis"
    then have "is_success (rs_status (refuse rq))" using ok by (simp add: assms(1) [OF rq])
    moreover have "400 \<le> rs_status (refuse rq)" using refused by blast
    ultimately show False by (simp add: is_success_def)
  qed
  then have run: "run_route rt refuse E dr h rq w = reply f (m E dr h) w" by (simp add: assms(1) [OF rq])
  show "\<exists>b x. rs_body (fst (run_route rt refuse E dr h rq w)) = BResponse b \<and> sel b = Some x"
    using reply_success [OF assms(2), of f E dr h w] ok assms(3) unfolding run by metis
qed

lemma decodes_post:
  assumes "\<forall>rq. 400 \<le> rs_status (refuse rq)" "find_route POST path = Some rt" "route_gives rt q sel"
  shows "decodes (post (server_network refuse E dr N) cfg path extra q)
    (as_result msg sel (post (server_network refuse E dr N) cfg path extra q))"
proof (rule as_result_decodes)
  fix w resp w'
  assume "post (server_network refuse E dr N) cfg path extra q w = (Inr resp, w')" and ok: "is_success (rs_status resp)"
  then obtain rq h where "rq_body rq = q" "run_route rt refuse E dr h rq w = (resp, w')"
    using post_route [OF assms(1,2)] by blast
  then show "\<exists>b x. rs_body resp = BResponse b \<and> sel b = Some x"
    using assms(1,3) ok unfolding route_gives_def by (metis fst_conv)
qed

lemma post_auth_answer:
  assumes "\<forall>rq. 400 \<le> rs_status (refuse rq)" "find_route POST path = Some rt" "route_gives rt q sel"
    and "post_auth (server_network refuse E dr N) cfg auth path q w = (Inr resp, w')" "is_success (rs_status resp)"
  shows "\<exists>b x. rs_body resp = BResponse b \<and> sel b = Some x"
proof -
  obtain extra where "post (server_network refuse E dr N) cfg path extra q w = (Inr resp, w')"
    using assms(4) by (auto simp: post_auth_def comp_simps)
  then obtain rq h where "rq_body rq = q" "run_route rt refuse E dr h rq w = (resp, w')"
    using post_route [OF assms(1,2)] assms(5) by blast
  then show ?thesis using assms(1,3,5) unfolding route_gives_def by (metis fst_conv)
qed

lemma decodes_post_auth:
  assumes "\<forall>rq. 400 \<le> rs_status (refuse rq)" "find_route POST path = Some rt" "route_gives rt q sel"
  shows "decodes (post_auth (server_network refuse E dr N) cfg auth path q)
    (as_result msg sel (post_auth (server_network refuse E dr N) cfg auth path q))"
  using post_auth_answer [OF assms] by (rule as_result_decodes)

lemma gives_register_device: "route_gives RRegisterDevice (QRegisterDevice p) (\<lambda>b. case b of PRegisterDevice r \<Rightarrow> Some r | _ \<Rightarrow> None)"
  by (rule route_givesI [where f = PRegisterDevice and m = "\<lambda>E dr h. h_register_device E dr p"]; simp add: limited_body_def errs_device_handlers(1))

lemma gives_user_login: "route_gives RUserLogin (QUserLogin p) (\<lambda>b. case b of PUserLogin r \<Rightarrow> Some r | _ \<Rightarrow> None)"
  by (rule route_givesI [where f = PUserLogin and m = "\<lambda>E dr h. h_user_login E p"]; simp add: limited_body_def errs_login)

lemma gives_user_search: "route_gives RUserSearch (QUserSearch p) (\<lambda>b. case b of PUserSearch r \<Rightarrow> Some r | _ \<Rightarrow> None)"
  by (rule route_givesI [where f = PUserSearch and m = "\<lambda>E dr h. h_user_search E p"]; simp add: limited_body_def errs_user_handlers(4))

lemma gives_user_online: "route_gives RUserOnline (QUserOnline p) (\<lambda>b. case b of PUserOnline r \<Rightarrow> Some r | _ \<Rightarrow> None)"
  by (rule route_givesI [where f = PUserOnline and m = "\<lambda>E dr h. h_user_online p"]; simp add: limited_body_def errs_user_handlers(5))

lemma gives_device_login: "route_gives RDeviceLogin (QDeviceLogin p) (\<lambda>b. case b of PDeviceLogin r \<Rightarrow> Some r | _ \<Rightarrow> None)"
  by (rule route_givesI [where f = PDeviceLogin and m = "\<lambda>E dr h. h_device_login E dr p"]; simp add: limited_body_def errs_device_handlers(2))

lemma gives_device_logout: "route_gives RDeviceLogout (QDeviceLogout p) (\<lambda>b. case b of PDeviceLogout r \<Rightarrow> Some r | _ \<Rightarrow> None)"
  by (rule route_givesI [where f = PDeviceLogout and m = "\<lambda>E dr h. h_device_logout E h p"]; simp add: limited_body_def errs_device_handlers(3))

lemma gives_upload_prekeys: "route_gives RUploadPrekeys (QUploadPrekeys p) (\<lambda>b. case b of PUploadPrekeys r \<Rightarrow> Some r | _ \<Rightarrow> None)"
  by (rule route_givesI [where f = PUploadPrekeys and m = "\<lambda>E dr h. h_upload_prekeys E h p"]; simp add: limited_body_def errs_upload_prekeys)

lemma gives_send_message: "route_gives RSendMessage (QSendMessage p) (\<lambda>b. case b of PSendMessage r \<Rightarrow> Some r | _ \<Rightarrow> None)"
  by (rule route_givesI [where f = PSendMessage and m = "\<lambda>E dr h. h_send_message E dr h p"]; simp add: limited_body_def errs_messaging_handlers(1))

lemma gives_block_user: "route_gives RBlockUser (QBlockUser p) (\<lambda>b. case b of PBlockUser r \<Rightarrow> Some r | _ \<Rightarrow> None)"
  by (rule route_givesI [where f = PBlockUser and m = "\<lambda>E dr h. h_block_user E h p"]; simp add: limited_body_def errs_user_handlers(6))

lemma gives_unblock_user: "route_gives RUnblockUser (QUnblockUser p) (\<lambda>b. case b of PUnblockUser r \<Rightarrow> Some r | _ \<Rightarrow> None)"
  by (rule route_givesI [where f = PUnblockUser and m = "\<lambda>E dr h. h_unblock_user E h p"]; simp add: limited_body_def errs_user_handlers(7))

lemma gives_resolve_user: "route_gives RResolveUser (QResolveUser p) (\<lambda>b. case b of PResolveUser r \<Rightarrow> Some r | _ \<Rightarrow> None)"
  by (rule route_givesI [where f = PResolveUser and m = "\<lambda>E dr h. h_resolve_user E p"]; simp add: limited_body_def errs_user_handlers(2))

lemma gives_resolve_device: "route_gives RResolveDevice (QResolveDevice p) (\<lambda>b. case b of PResolveDevice r \<Rightarrow> Some r | _ \<Rightarrow> None)"
  by (rule route_givesI [where f = PResolveDevice and m = "\<lambda>E dr h. h_resolve_device E p"]; simp add: limited_body_def errs_user_handlers(3))

lemma gives_message_status: "route_gives RMessageStatus (QMessageStatus p) (\<lambda>b. case b of PMessageStatus r \<Rightarrow> Some r | _ \<Rightarrow> None)"
  by (rule route_givesI [where f = PMessageStatus and m = "\<lambda>E dr h. h_message_status E h p"]; simp add: limited_body_def errs_messaging_handlers(3))

lemma gives_send_call_signal: "route_gives RSendCallSignal (QSendCallSignal p) (\<lambda>b. case b of PSendCallSignal r \<Rightarrow> Some r | _ \<Rightarrow> None)"
  by (rule route_givesI [where f = PSendCallSignal and m = "\<lambda>E dr h. h_send_call_signal E h p"]; simp add: limited_body_def errs_signal_handlers(1))

lemma gives_fetch_call_signals: "route_gives RFetchCallSignals (QFetchCallSignals p) (\<lambda>b. case b of PFetchCallSignals r \<Rightarrow> Some r | _ \<Rightarrow> None)"
  by (rule route_givesI [where f = PFetchCallSignals and m = "\<lambda>E dr h. h_fetch_call_signals E h p"]; simp add: limited_body_def errs_signal_handlers(2))

lemma gives_user_register: "route_gives RUserRegister (QUserRegister p) (\<lambda>b. case b of PUserRegister r \<Rightarrow> Some r | _ \<Rightarrow> None)"
  by (rule route_givesI [where f = PUserRegister and m = "\<lambda>E dr h. h_user_register E dr p"]; simp add: limited_body_def errs_user_handlers(1))

lemma gives_fetch_pending: "route_gives RFetchPending (QFetchPending p) (\<lambda>b. case b of PFetchPending r \<Rightarrow> Some r | _ \<Rightarrow> None)"
  by (rule route_givesI [where f = PFetchPending and m = "\<lambda>E dr h. h_fetch_pending E h p"]; simp add: limited_body_def errs_messaging_handlers(2))

lemma gives_append_blob_chunk: "route_gives RAppendBlobChunk (QAppendBlobChunk p) (\<lambda>b. case b of PAppendBlobChunk r \<Rightarrow> Some r | _ \<Rightarrow> None)"
  by (rule route_givesI [where f = PAppendBlobChunk and m = "\<lambda>E dr h. h_append_blob_chunk E h p"]; simp add: limited_body_def errs_blob_handlers(2))

lemma gives_fetch_blob_bytes: "route_gives RFetchBlobBytes (QFetchBlob p) (\<lambda>b. case b of PBytes r \<Rightarrow> Some r | _ \<Rightarrow> None)"
  by (rule route_givesI [where f = PBytes and m = "\<lambda>E dr h. h_fetch_blob_bytes E h p"]; simp add: limited_body_def errs_blob_handlers(3))

lemma gives_fetch_prekey_bundle: "route_gives RFetchPrekeyBundle (QFetchPrekeyBundle p) (\<lambda>b. case b of PFetchPrekeyBundle r \<Rightarrow> Some r | _ \<Rightarrow> None)"
  by (rule route_givesI [where f = PFetchPrekeyBundle and m = "\<lambda>E dr h. h_fetch_prekey_bundle E p"]; simp add: limited_body_def errs_prekey_bundle)

lemma bodyless_types:
  "route_gives RBlockedUsers q (\<lambda>b. case b of PBlockedUsers r \<Rightarrow> Some r | _ \<Rightarrow> None)"
  "route_gives RCreateBlob q (\<lambda>b. case b of PCreateBlob r \<Rightarrow> Some r | _ \<Rightarrow> None)"
  using reply_success [OF errs_user_handlers(8), of PBlockedUsers] reply_success [OF errs_blob_handlers(1), of PCreateBlob]
  unfolding route_gives_def run_route.simps by fastforce+

section \<open>The calls of the client\<close>

lemma api_routes:
  "find_route POST ''/v1/register_device'' = Some RRegisterDevice" "find_route POST ''/v1/user_register'' = Some RUserRegister"
  "find_route POST ''/v1/user_login'' = Some RUserLogin" "find_route POST ''/v1/user_search'' = Some RUserSearch"
  "find_route POST ''/v1/user_online'' = Some RUserOnline" "find_route POST ''/v1/device_login'' = Some RDeviceLogin"
  "find_route POST ''/v1/resolve_user'' = Some RResolveUser" "find_route POST ''/v1/resolve_device'' = Some RResolveDevice"
  "find_route POST ''/v1/fetch_prekey_bundle'' = Some RFetchPrekeyBundle" "find_route POST ''/v1/device_logout'' = Some RDeviceLogout"
  "find_route POST ''/v1/upload_prekeys'' = Some RUploadPrekeys" "find_route POST ''/v1/message_status'' = Some RMessageStatus"
  "find_route POST ''/v1/block_user'' = Some RBlockUser" "find_route POST ''/v1/unblock_user'' = Some RUnblockUser"
  "find_route POST ''/v1/blocked_users'' = Some RBlockedUsers" "find_route POST ''/v1/send_call_signal'' = Some RSendCallSignal"
  "find_route POST ''/v1/fetch_call_signals'' = Some RFetchCallSignals"
  by (simp_all add: find_route_def route_table_def)

lemma decodes_bind: "decodes request call \<Longrightarrow> decodes request (bindS call (\<lambda>x. returnS (f x)))"
  unfolding decodes_def by (fastforce simp: bindS_apply)

lemma decodes_prekeys:
  assumes "\<forall>rq. 400 \<le> rs_status (refuse rq)"
  shows "decodes (post (server_network refuse E dr N) cfg ''/v1/fetch_prekey_bundle'' Map.empty
      (QFetchPrekeyBundle \<lparr>fb_user_id = u, fb_device_id = d\<rparr>)) (t_fetch_prekey_bundle (server_network refuse E dr N) cfg u d)"
  unfolding decodes_def
proof (intro allI impI)
  fix w resp w'
  let ?net = "server_network refuse E dr N"
  assume p: "post ?net cfg ''/v1/fetch_prekey_bundle'' Map.empty
      (QFetchPrekeyBundle \<lparr>fb_user_id = u, fb_device_id = d\<rparr>) w = (Inr resp, w')" and ok: "is_success (rs_status resp)"
  obtain rq h where "rq_body rq = QFetchPrekeyBundle \<lparr>fb_user_id = u, fb_device_id = d\<rparr>"
    "run_route RFetchPrekeyBundle refuse E dr h rq w = (resp, w')"
    using post_route [OF assms api_routes(9) p ok] by blast
  then obtain b x where "rs_body resp = BResponse b" "(case b of PFetchPrekeyBundle r \<Rightarrow> Some r | _ \<Rightarrow> None) = Some x"
    using gives_fetch_prekey_bundle assms ok unfolding route_gives_def by (metis fst_conv)
  then show "\<exists>x w''. t_fetch_prekey_bundle ?net cfg u d w = (Inr x, w'')"
    using p ok by (auto simp: t_fetch_prekey_bundle_def Let_def bindS_apply with_context_def require_success_def read_json_def)
qed

lemma decodes_ack: "decodes (post_auth N cfg auth ''/v1/ack_message''
     (QAckMessage \<lparr>am_device_uuid = da_device_uuid auth, am_message_ids = ids\<rparr>)) (t_ack_messages N cfg auth ids)"
  by (simp add: decodes_def t_ack_messages_def bindS_apply require_success_def)

text \<open>The two calls without JSON: the download of a blob and the WebSocket drain.\<close>

lemma route_fetch_blob_bytes: "find_route POST ''/v1/fetch_blob_bytes'' = Some RFetchBlobBytes"
  by (simp add: find_route_def route_table_def)

lemma decodes_download:
  assumes "\<forall>rq. 400 \<le> rs_status (refuse rq)"
    and "post_auth (server_network refuse E dr N) cfg auth ''/v1/fetch_blob_bytes'' (QFetchBlob \<lparr>fbl_blob_id = blob\<rparr>) w = (Inr resp, w')"
    and "is_success (rs_status resp)"
  obtains data where "rs_body resp = BResponse (PBytes data)"
    "\<And>chunks. nw_chunks N data = map Inr chunks \<Longrightarrow> \<exists>w''.
      t_fetch_blob_bytes_with_progress (server_network refuse E dr N) cfg auth blob progress w = (Inr (concat chunks), w'')"
proof -
  let ?net = "server_network refuse E dr N"
  obtain b x where "rs_body resp = BResponse b" "(case b of PBytes r \<Rightarrow> Some r | _ \<Rightarrow> None) = Some x"
    using post_auth_answer [OF assms(1) route_fetch_blob_bytes gives_fetch_blob_bytes assms(2,3)] by blast
  then have body: "rs_body resp = BResponse (PBytes x)" by (cases b) simp_all
  have "\<exists>w''. t_fetch_blob_bytes_with_progress ?net cfg auth blob progress w = (Inr (concat chunks), w'')"
    if "nw_chunks N x = map Inr chunks" for chunks
    using read_chunks_whole [of progress "unwrap_or (nw_content_length N resp) 0" 0 "[]" chunks
        "progress 0 (unwrap_or (nw_content_length N resp) 0) w'"] assms(2,3) that body
    by (simp add: t_fetch_blob_bytes_with_progress_def bindS_apply require_success_def Let_def)
      (simp add: server_network_def)
  with body show ?thesis using that by blast
qed

lemma ws_once_of_session:
  assumes "auth_headers N auth = Inr extra"
    and "nw_connect N (ws_base cfg) \<lparr>rq_method = GET, rq_path = ''/v1/ws'', rq_headers = extra,
      rq_body = QNone, rq_length = 0\<rparr> w = (Inr (map (client_frame show_item) (fst (run_session E d evs s))), w')"
  shows "t_ws_once N cfg auth w = (Inr [], w')"
  using assms by (simp add: t_ws_once_def bindS_apply ws_once_returns_nothing)

lemma download_conjunct:
  assumes "\<forall>rq. 400 \<le> rs_status (refuse rq)"
  shows "\<forall>w resp w'. post_auth (server_network refuse E dr N) cfg auth ''/v1/fetch_blob_bytes'' (QFetchBlob \<lparr>fbl_blob_id = blob\<rparr>) w =
        (Inr resp, w') \<and> is_success (rs_status resp) \<longrightarrow>
      (\<exists>data. rs_body resp = BResponse (PBytes data) \<and> (\<forall>chunks. nw_chunks N data = map Inr chunks \<longrightarrow>
         (\<exists>w''. t_fetch_blob_bytes_with_progress (server_network refuse E dr N) cfg auth blob progress w = (Inr (concat chunks), w''))))"
  by (intro allI impI) (elim conjE, rule decodes_download [OF assms, where progress = progress], assumption+, blast)

lemma ws_conjunct:
  "\<forall>extra w w' dev evs s. auth_headers N auth = Inr extra \<and>
        nw_connect N (ws_base cfg) \<lparr>rq_method = GET, rq_path = ''/v1/ws'', rq_headers = extra, rq_body = QNone, rq_length = 0\<rparr> w =
          (Inr (map (client_frame show_item) (fst (run_session E dev evs s))), w') \<longrightarrow>
      t_ws_once N cfg auth w = (Inr [], w')"
  by (intro allI impI) (elim conjE, rule ws_once_of_session)

text \<open>
  C27.  Client and server agree on the types of the API, for all 24 calls of the client's
  transport.  For the 22 calls with a JSON answer (the acknowledgement, whose answer is not
  read, among them): whenever the server answers the request with a success, the answer has
  the type that the call decodes, and the call returns a value.  A successful answer to the
  download of a blob is bytes, and the call returns the chunks of them that arrive, when all
  arrive.  The WebSocket drain, when the connection delivers the frames of a session of the
  server, returns without an error, always the empty list.
\<close>

theorem api_answers_decode:
  assumes "\<forall>rq. 400 \<le> rs_status (refuse rq)" "net = server_network refuse E dr N"
  shows "decodes (post net cfg ''/v1/register_device'' Map.empty (QRegisterDevice req1)) (t_register_device net cfg req1) \<and>
    decodes (post net cfg ''/v1/user_register'' Map.empty (QUserRegister req2)) (t_user_register net cfg req2) \<and>
    decodes (post net cfg ''/v1/user_login'' Map.empty (QUserLogin req3)) (t_user_login net cfg req3) \<and>
    decodes (post net cfg ''/v1/user_search'' Map.empty (QUserSearch \<lparr>us_query = text\<rparr>)) (t_user_search net cfg text) \<and>
    decodes (post net cfg ''/v1/user_online'' Map.empty (QUserOnline \<lparr>uo_user_id = u, uo_device_id = d\<rparr>)) (t_user_online net cfg u d) \<and>
    decodes (post net cfg ''/v1/device_login'' Map.empty (QDeviceLogin req4)) (t_device_login net cfg req4) \<and>
    decodes (post net cfg ''/v1/resolve_user'' Map.empty (QResolveUser \<lparr>ru_user_id = u, ru_device_id = d\<rparr>)) (t_resolve_user net cfg u d) \<and>
    decodes (post net cfg ''/v1/resolve_device'' Map.empty (QResolveDevice \<lparr>rdev_device_uuid = d\<rparr>)) (t_resolve_device net cfg d) \<and>
    decodes (post net cfg ''/v1/fetch_prekey_bundle'' Map.empty (QFetchPrekeyBundle \<lparr>fb_user_id = u, fb_device_id = d\<rparr>)) (t_fetch_prekey_bundle net cfg u d) \<and>
    decodes (post_auth net cfg auth ''/v1/device_logout'' (QDeviceLogout \<lparr>do_device_uuid = da_device_uuid auth\<rparr>)) (t_device_logout net cfg auth) \<and>
    decodes (post_auth net cfg auth ''/v1/upload_prekeys'' (QUploadPrekeys req5)) (t_upload_prekeys net cfg auth req5) \<and>
    decodes (post_auth net cfg auth ''/v1/send_message'' (QSendMessage req6)) (t_send_message net cfg auth req6) \<and>
    decodes (post_auth net cfg auth ''/v1/fetch_pending'' (QFetchPending \<lparr>fp_device_uuid = da_device_uuid auth, fp_limit = limit\<rparr>)) (t_fetch_pending net cfg auth limit) \<and>
    decodes (post_auth net cfg auth ''/v1/ack_message'' (QAckMessage \<lparr>am_device_uuid = da_device_uuid auth, am_message_ids = ids\<rparr>)) (t_ack_messages net cfg auth ids) \<and>
    decodes (post_auth net cfg auth ''/v1/message_status'' (QMessageStatus \<lparr>ms_message_ids = ids\<rparr>)) (t_message_status net cfg auth ids) \<and>
    decodes (post_auth net cfg auth ''/v1/block_user'' (QBlockUser \<lparr>bu_user_id = u\<rparr>)) (t_block_user net cfg auth u) \<and>
    decodes (post_auth net cfg auth ''/v1/unblock_user'' (QUnblockUser \<lparr>uu_user_id = u\<rparr>)) (t_unblock_user net cfg auth u) \<and>
    decodes (post_auth net cfg auth ''/v1/blocked_users'' QNone) (t_blocked_users net cfg auth) \<and>
    decodes (post_auth net cfg auth ''/v1/send_call_signal'' (QSendCallSignal req7)) (t_send_call_signal net cfg auth req7) \<and>
    decodes (post_auth net cfg auth ''/v1/fetch_call_signals'' (QFetchCallSignals \<lparr>fc_device_uuid = da_device_uuid auth, fc_call_id = call_id, fc_limit = size_limit\<rparr>)) (t_fetch_call_signals net cfg auth call_id size_limit) \<and>
    decodes (post_auth net cfg auth ''/v1/create_blob'' QNone) (t_create_blob net cfg auth) \<and>
    decodes (post_auth net cfg auth ''/v1/append_blob_chunk'' (QAppendBlobChunk \<lparr>ab_blob_id = blob, ab_chunk_b64 = chunk\<rparr>)) (t_append_blob_chunk net cfg auth blob chunk) \<and>
    (\<forall>w resp w'. post_auth net cfg auth ''/v1/fetch_blob_bytes'' (QFetchBlob \<lparr>fbl_blob_id = blob\<rparr>) w = (Inr resp, w') \<and>
        is_success (rs_status resp) \<longrightarrow>
      (\<exists>data. rs_body resp = BResponse (PBytes data) \<and> (\<forall>chunks. nw_chunks N data = map Inr chunks \<longrightarrow>
         (\<exists>w''. t_fetch_blob_bytes_with_progress net cfg auth blob progress w = (Inr (concat chunks), w''))))) \<and>
    (\<forall>extra w w' dev evs s. auth_headers net auth = Inr extra \<and>
        nw_connect net (ws_base cfg) \<lparr>rq_method = GET, rq_path = ''/v1/ws'', rq_headers = extra, rq_body = QNone, rq_length = 0\<rparr> w =
          (Inr (map (client_frame show_item) (fst (run_session E dev evs s))), w') \<longrightarrow>
      t_ws_once net cfg auth w = (Inr [], w'))"
  unfolding assms(2)
  by (intro conjI download_conjunct ws_conjunct decodes_prekeys decodes_ack assms(1);
      unfold t_register_device_def t_user_register_def t_user_login_def t_user_search_def t_user_online_def
        t_device_login_def t_resolve_user_def t_resolve_device_def t_device_logout_def t_upload_prekeys_def
        t_send_message_def t_fetch_pending_def t_message_status_def t_block_user_def t_unblock_user_def
        t_blocked_users_def t_send_call_signal_def t_fetch_call_signals_def t_create_blob_def t_append_blob_chunk_def;
      intro decodes_bind decodes_post decodes_post_auth assms(1);
      rule api_routes routes gives_register_device gives_user_register gives_user_login gives_user_search gives_user_online
        gives_device_login gives_resolve_user gives_resolve_device gives_device_logout gives_upload_prekeys gives_send_message
        gives_fetch_pending gives_message_status gives_block_user gives_unblock_user bodyless_types gives_send_call_signal
        gives_fetch_call_signals gives_append_blob_chunk)

lemma api_answers_decode_witness:
  "\<exists>x w'. t_user_online (server_network refuse0 env0 (\<lambda>_. 9) network0) config0 ''eve'' ''main'' server0 = (Inr x, w')"
proof -
  let ?net = "server_network refuse0 env0 (\<lambda>_. 9) network0"
  let ?q = "\<lparr>uo_user_id = ''eve'', uo_device_id = ''main''\<rparr>"
  have all: "\<forall>rq. 400 \<le> rs_status (refuse0 rq)" by (simp add: refuse0_def)
  have "decodes (post ?net config0 ''/v1/user_online'' Map.empty (QUserOnline ?q))
      (t_user_online ?net config0 ''eve'' ''main'')"
    by (intro api_answers_decode [OF all refl, THEN conjunct2, THEN conjunct2, THEN conjunct2, THEN conjunct2, THEN conjunct1])
  moreover have "handle_request refuse0 env0 (\<lambda>_. 9) \<lparr>rq_method = POST, rq_path = ''/v1/user_online'',
        rq_headers = h, rq_body = QUserOnline ?q, rq_length = 10\<rparr> server0 =
      (\<lparr>rs_status = 200, rs_body = BResponse (PUserOnline \<lparr>uor_online = False\<rparr>)\<rparr>, server0)" for h
    by (simp add: handle_request_def gate0 api_routes)
      (simp add: limited_body_def MAX_REQUEST_BODY_BYTES_def reply_def eval_simps h_user_online_def user_online_def find_device_uuid_def)
  then have "post ?net config0 ''/v1/user_online'' Map.empty (QUserOnline ?q) server0 =
      (Inr \<lparr>rs_status = 200, rs_body = BResponse (PUserOnline \<lparr>uor_online = False\<rparr>)\<rparr>, server0)"
    by (simp add: post_def server_network_def) (simp add: network0_def)
  ultimately show ?thesis unfolding decodes_def by (fastforce simp: is_success_def)
qed

end
