(* ===== verification/Ratchet_Cost.thy ===== *)
theory Ratchet_Cost
  imports Ratchet
begin

text \<open>
  How long the receiver skips: the loop of \<open>decrypt_with_session\<close> once more, with the number of
  rounds it may take.  The counter of an envelope is read before anything of the envelope is
  authenticated, so the sender of the envelope alone decides on the number.
\<close>

primrec skip_loop :: "primitives \<Rightarrow> nat \<Rightarrow> u64 \<Rightarrow> peer_session \<Rightarrow> (string + peer_session) option" where
  "skip_loop C 0 counter session = (if recv_counter session < counter then None else Some (Inr session))"
| "skip_loop C (Suc rounds) counter session =
     (if recv_counter session < counter then
        (case ratchet_step_b64 C (recv_chain_key_b64 session) of
           Inl e \<Rightarrow> Some (Inl e)
         | Inr (skipped, next_chain_key) \<Rightarrow>
             skip_loop C rounds counter (session\<lparr>recv_chain_key_b64 := next_chain_key,
               recv_counter := recv_counter session + 1\<rparr>))
      else Some (Inr session))"

lemma skip_loop_enough:
  "unat counter - unat (recv_counter session) \<le> rounds \<Longrightarrow> skip_loop C rounds counter session = Some (skip_to C counter session)"
proof (induction rounds arbitrary: session)
  case 0
  then show ?case by (subst skip_to.simps) (simp add: word_less_nat_alt)
next
  case (Suc rounds)
  show ?case
  proof (cases "recv_counter session < counter")
    case True
    then have "unat counter - unat (recv_counter session + 1) \<le> rounds"
      using Suc.prems unat_plus_one [OF True] by simp
    then show ?thesis using True Suc.IH
      by (subst skip_to.simps) (auto split: sum.split prod.split)
  qed (subst skip_to.simps, simp)
qed

lemma skip_loop_short:
  assumes "good_key C (recv_chain_key_b64 session)" "rounds < unat counter - unat (recv_counter session)"
  shows "skip_loop C rounds counter session = None"
  using assms
proof (induction rounds arbitrary: session)
  case 0
  then show ?case by (simp add: word_less_nat_alt)
next
  case (Suc rounds)
  then have less: "recv_counter session < counter" by (simp add: word_less_nat_alt)
  obtain mk ck where "ratchet_step_b64 C (recv_chain_key_b64 session) = Inr (mk, ck)" "good_key C ck"
    using ratchet.step_good [OF Suc.prems(1)] by auto
  then show ?case using Suc less unat_plus_one [OF less] by simp
qed

text \<open>
  C28.  Skipping terminates, after exactly as many key derivations as the envelope is ahead of the
  session: with fewer rounds the loop is not done, with as many it has its result.  Nothing bounds
  the distance but the 64 bits of the counter.
\<close>

theorem skip_terminates:
  assumes "good_key C (recv_chain_key_b64 session)"
  shows "skip_loop C rounds counter session =
    (if unat counter - unat (recv_counter session) \<le> rounds then Some (skip_to C counter session) else None)"
  using skip_loop_enough skip_loop_short [OF assms] by simp

lemma skip_terminates_witness:
  "skip_loop primitives0 (10 ^ 9) (- 1) (fresh_session key0) = None \<and>
   skip_loop primitives0 2 2 (fresh_session key0) = Some (skip_to primitives0 2 (fresh_session key0))"
proof -
  have good: "good_key primitives0 (recv_chain_key_b64 (fresh_session key0))"
    using key0_ok primitives0_laws by (simp add: fresh_session_def good_key_def)
  have "unat (- 1 :: u64) = 2 ^ 64 - 1" by (simp add: unsigned_minus_1_eq_mask mask_eq_exp_minus_1)
  then show ?thesis
    using skip_terminates [OF good, of "10 ^ 9" "- 1"] skip_terminates [OF good, of 2 2]
    by (simp add: fresh_session_def)
qed

end
