(* ===== verification/Float32.thy ===== *)
theory Float32
  imports Prelude "HOL-Library.Log_Nat"
begin

text \<open>
  The arithmetic of Rust's \<open>f32\<close>, used in \<open>client-ui/src/media.rs\<close>: the IEEE-754 binary32 numbers, as their bit patterns, with the operations the audio code
  uses, rounding to nearest and a half to even.  Every finite value is a whole multiple of \<open>2 ^ -149\<close>;
  the operations compute with these multiples exactly and round once.  Rust leaves the payload of a
  NaN open; here it is always the same.
\<close>

section \<open>Bit patterns\<close>

type_synonym f32 = u32

definition f_neg :: "f32 \<Rightarrow> bool" where "f_neg x \<longleftrightarrow> 2 ^ 31 \<le> unat x"

definition f_mag :: "f32 \<Rightarrow> nat" where "f_mag x = unat x mod 2 ^ 31"

definition INF_MAG :: nat where "INF_MAG = 0x7F800000"

definition is_nan :: "f32 \<Rightarrow> bool" where "is_nan x \<longleftrightarrow> INF_MAG < f_mag x"

definition is_inf :: "f32 \<Rightarrow> bool" where "is_inf x \<longleftrightarrow> f_mag x = INF_MAG"

definition f_make :: "bool \<Rightarrow> nat \<Rightarrow> f32" where
  "f_make neg m = of_nat (if neg then 2 ^ 31 + m else m)"

definition f_nan :: f32 where "f_nan = f_make False 0x7FC00000"

lemma f_mag_less: "f_mag x < 2 ^ 31"
  by (simp add: f_mag_def)

lemma make_fields [simp]:
  "m < 2 ^ 31 \<Longrightarrow> f_mag (f_make neg m) = m" "m < 2 ^ 31 \<Longrightarrow> f_neg (f_make neg m) = neg"
  by (auto simp: f_make_def f_mag_def f_neg_def unat_of_nat)

lemma make_mag [simp]: "f_mag (f_make neg (f_mag x)) = f_mag x" "f_neg (f_make neg (f_mag x)) = neg"
  using make_fields [OF f_mag_less] by simp_all

lemma make_id: "f_make (f_neg x) (f_mag x) = x"
proof -
  have u: "unat x < 2 ^ 32" using unsigned_less [of x, where 'a = nat] by simp
  have "(if f_neg x then 2 ^ 31 + f_mag x else f_mag x) = unat x"
    using u by (auto simp: f_neg_def f_mag_def mod_if not_less le_mod_geq)
  then show ?thesis by (simp add: f_make_def)
qed

section \<open>Values\<close>

text \<open>The magnitude of a finite number in multiples of \<open>2 ^ -149\<close>.\<close>

definition mag_units :: "nat \<Rightarrow> nat" where
  "mag_units m = (let e = m div 2 ^ 23; f = m mod 2 ^ 23 in if e = 0 then f else (2 ^ 23 + f) * 2 ^ (e - 1))"

definition f_units :: "f32 \<Rightarrow> int" where
  "f_units x = (if f_neg x then - int (mag_units (f_mag x)) else int (mag_units (f_mag x)))"

text \<open>A half goes to the even number.\<close>

definition round_even :: "nat \<Rightarrow> nat \<Rightarrow> nat" where
  "round_even n d = (let q = n div d; r = n mod d
     in if 2 * r < d \<or> (2 * r = d \<and> even q) then q else q + 1)"

text \<open>The magnitude nearest to \<open>n / d\<close> multiples; the carry out of the 24 bits enters the exponent.\<close>

definition round_mag :: "nat \<Rightarrow> nat \<Rightarrow> nat" where
  "round_mag n d = (let k = floorlog 2 (n div d) - 24 in min INF_MAG (k * 2 ^ 23 + round_even n (d * 2 ^ k)))"

section \<open>Operations\<close>

definition f_abs :: "f32 \<Rightarrow> f32" where "f_abs x = f_make False (f_mag x)"

definition f_minus :: "f32 \<Rightarrow> f32" where "f_minus x = f_make (\<not> f_neg x) (f_mag x)"

definition f_add :: "f32 \<Rightarrow> f32 \<Rightarrow> f32" where
  "f_add x y =
     (if is_nan x \<or> is_nan y then f_nan
      else if is_inf x then (if is_inf y \<and> f_neg x \<noteq> f_neg y then f_nan else x)
      else if is_inf y then y
      else let s = f_units x + f_units y
           in if s = 0 then f_make (f_neg x \<and> f_neg y) 0 else f_make (s < 0) (round_mag (nat \<bar>s\<bar>) 1))"

definition f_sub :: "f32 \<Rightarrow> f32 \<Rightarrow> f32" where "f_sub x y = f_add x (f_minus y)"

definition f_mul :: "f32 \<Rightarrow> f32 \<Rightarrow> f32" where
  "f_mul x y =
     (let neg = (f_neg x \<noteq> f_neg y) in
      if is_nan x \<or> is_nan y then f_nan
      else if is_inf x \<or> is_inf y then (if f_mag x = 0 \<or> f_mag y = 0 then f_nan else f_make neg INF_MAG)
      else f_make neg (round_mag (mag_units (f_mag x) * mag_units (f_mag y)) (2 ^ 149)))"

definition f_div :: "f32 \<Rightarrow> f32 \<Rightarrow> f32" where
  "f_div x y =
     (let neg = (f_neg x \<noteq> f_neg y) in
      if is_nan x \<or> is_nan y then f_nan
      else if is_inf x then (if is_inf y then f_nan else f_make neg INF_MAG)
      else if is_inf y then f_make neg 0
      else if f_mag y = 0 then (if f_mag x = 0 then f_nan else f_make neg INF_MAG)
      else f_make neg (round_mag (mag_units (f_mag x) * 2 ^ 149) (mag_units (f_mag y))))"

text \<open>Both zeros are equal; a NaN compares with nothing.\<close>

definition f_key :: "f32 \<Rightarrow> int" where
  "f_key x = (if f_neg x then - int (f_mag x) else int (f_mag x))"

definition f_lt :: "f32 \<Rightarrow> f32 \<Rightarrow> bool" where
  "f_lt x y \<longleftrightarrow> \<not> is_nan x \<and> \<not> is_nan y \<and> f_key x < f_key y"

definition f_max :: "f32 \<Rightarrow> f32 \<Rightarrow> f32" where
  "f_max x y = (if is_nan x then y else if is_nan y then x else if f_lt x y then y else x)"

definition f_clamp :: "f32 \<Rightarrow> f32 \<Rightarrow> f32 \<Rightarrow> f32" where
  "f_clamp lo hi x = (let x = (if f_lt x lo then lo else x) in if f_lt hi x then hi else x)"

subsection \<open>Conversions\<close>

definition f_of_nat :: "nat \<Rightarrow> f32" where "f_of_nat n = f_make False (round_mag (n * 2 ^ 149) 1)"

definition f_of_int :: "int \<Rightarrow> f32" where
  "f_of_int i = (if i < 0 then f_minus (f_of_nat (nat (- i))) else f_of_nat (nat i))"

text \<open>\<open>floor\<close>: from \<open>2 ^ 23\<close> on every number is whole; a negative zero stays.\<close>

definition f_floor :: "f32 \<Rightarrow> f32" where
  "f_floor x =
     (if is_nan x \<or> is_inf x \<or> 2 ^ 172 \<le> mag_units (f_mag x) then x
      else let q = f_units x div 2 ^ 149 in if q = 0 then f_make (f_neg x) 0 else f_of_int q)"

text \<open>\<open>as\<close> truncates towards zero and saturates; a NaN becomes 0.\<close>

definition f_trunc :: "int \<Rightarrow> int \<Rightarrow> f32 \<Rightarrow> int" where
  "f_trunc lo hi x =
     (if is_nan x then 0
      else if is_inf x then (if f_neg x then lo else hi)
      else let n = int (mag_units (f_mag x) div 2 ^ 149) in max lo (min hi (if f_neg x then - n else n)))"

text \<open>A decimal literal: the nearest number to \<open>n / d\<close>.\<close>

definition f_lit :: "nat \<Rightarrow> nat \<Rightarrow> f32" where "f_lit n d = f_make False (round_mag (n * 2 ^ 149) d)"

text \<open>Rules that evaluate the operations on numerals.\<close>

lemma floorlog_numeral [simp]: "floorlog 2 (numeral n) = Suc (floorlog 2 (numeral n div 2))" "floorlog 2 (Suc 0) = 1"
  by (simp_all add: compute_floorlog)

lemmas f_eval = f_lit_def f_of_nat_def f_add_def f_mul_def f_div_def f_make_def f_mag_def f_neg_def is_nan_def is_inf_def
  f_units_def mag_units_def round_mag_def round_even_def INF_MAG_def Let_def

lemma f_lit_examples:
  "f_lit 1 1 = 0x3F800000" "f_lit 1 2 = 0x3F000000" "f_lit 18 100 = 0x3E3851EC" "f_lit 995 1000 = 0x3F7EB852"
  "f_of_nat 16777217 = 0x4B800000" "f_add (f_lit 1 10) (f_lit 2 10) = 0x3E99999A"
  "f_div (f_of_nat 1) (f_of_nat 3) = 0x3EAAAAAB" "f_mul (f_lit 1 10) (f_lit 1 10) = 0x3C23D70B"
  by (simp_all add: f_eval)

section \<open>Rounding\<close>

lemma round_even_half: "0 < d \<Longrightarrow> 2 * round_even n d * d \<le> 2 * n + d \<and> 2 * n \<le> 2 * round_even n d * d + d"
proof -
  assume d: "0 < d"
  obtain q r where qr: "q = n div d" "r = n mod d" by blast
  have n: "n = q * d + r" and r: "r < d" using d by (simp_all add: qr)
  show ?thesis using r by (auto simp: round_even_def Let_def qr [symmetric] n algebra_simps)
qed

lemma round_even_div: "n div d \<le> round_even n d" "round_even n d \<le> n div d + 1"
  by (simp_all add: round_even_def Let_def)

lemma div_mod_block: "f < b \<Longrightarrow> (b * n + f) div b = n" "f < b \<Longrightarrow> (b * n + f) mod b = f" for b :: nat
  by simp_all

lemma mag_units_norm:
  assumes "q \<le> 2 ^ 24" "k = 0 \<or> 2 ^ 23 \<le> q"
  shows "mag_units (k * 2 ^ 23 + q) = q * 2 ^ k"
proof -
  consider "q < 2 ^ 23" | "2 ^ 23 \<le> q" "q < 2 ^ 24" | "q = 2 ^ 24" using assms(1) by linarith
  then show ?thesis
  proof cases
    case 1
    then show ?thesis using assms(2) by (simp add: mag_units_def)
  next
    case 2
    then obtain f where f: "q = 2 ^ 23 + f" "f < 2 ^ 23" using le_Suc_ex by fastforce
    have "k * 2 ^ 23 + q = 2 ^ 23 * Suc k + f" by (simp add: f(1))
    then have "(k * 2 ^ 23 + q) div 2 ^ 23 = Suc k" "(k * 2 ^ 23 + q) mod 2 ^ 23 = f"
      using div_mod_block [OF f(2), of "Suc k"] by simp_all
    then show ?thesis by (simp add: mag_units_def f(1))
  next
    case 3
    have "k * 2 ^ 23 + q = 2 ^ 23 * Suc (Suc k) + 0" by (simp add: 3)
    then have "(k * 2 ^ 23 + q) div 2 ^ 23 = Suc (Suc k)" "(k * 2 ^ 23 + q) mod 2 ^ 23 = 0"
      using div_mod_block [of 0 "2 ^ 23" "Suc (Suc k)"] by simp_all
    then show ?thesis by (simp add: mag_units_def 3)
  qed
qed

text \<open>The 24 bits and the exponent that rounding chooses.\<close>

lemma round_mag_bits:
  assumes "0 < d"
  obtains k q where "k = floorlog 2 (n div d) - 24" "q = round_even n (d * 2 ^ k)"
    "round_mag n d = min INF_MAG (k * 2 ^ 23 + q)" "q \<le> 2 ^ 24" "k = 0 \<or> 2 ^ 23 \<le> q"
    "2 * (q * 2 ^ k * d) \<le> 2 * n + d * 2 ^ k" "2 * n \<le> 2 * (q * 2 ^ k * d) + d * 2 ^ k" "k = 0 \<or> 2 ^ 23 * (d * 2 ^ k) \<le> n"
proof -
  define k where "k = floorlog 2 (n div d) - 24"
  define q where "q = round_even n (d * 2 ^ k)"
  have div: "n div (d * 2 ^ k) = (n div d) div 2 ^ k" by (simp add: div_mult2_eq)
  have "n div d < 2 ^ (k + 24)"
  proof (cases "n div d = 0")
    case False
    then have "n div d < 2 ^ floorlog 2 (n div d)" using floorlog_bounds [of "n div d" 2] by simp
    also have "\<dots> \<le> 2 ^ (k + 24)" by (rule power_increasing) (simp_all add: k_def)
    finally show ?thesis .
  qed simp
  then have "(n div d) div 2 ^ k < 2 ^ 24"
    by (simp add: div_less_iff_less_mult power_add mult.commute)
  then have q24: "q \<le> 2 ^ 24" using round_even_div(2) [of n "d * 2 ^ k"] unfolding div q_def by linarith
  have low: "k = 0 \<or> 2 ^ 23 * 2 ^ k \<le> n div d"
  proof (cases "k = 0")
    case False
    then have "floorlog 2 (n div d) = k + 24" by (simp add: k_def)
    moreover from this have "0 < n div d" by (metis add_eq_0_iff_both_eq_0 floorlog_def gr_zeroI zero_neq_numeral)
    ultimately show ?thesis using floorlog_bounds [of "n div d" 2] by (simp add: power_add mult.commute)
  qed simp
  have q23: "k = 0 \<or> 2 ^ 23 \<le> q"
    using low round_even_div(1) [of n "d * 2 ^ k"] div_le_mono [of "2 ^ 23 * 2 ^ k" "n div d" "2 ^ k"]
    unfolding div q_def by fastforce
  have "k = 0 \<or> 2 ^ 23 * (d * 2 ^ k) \<le> n"
    using low assms by (auto simp: less_eq_div_iff_mult_less_eq mult_ac)
  moreover have "2 * (q * 2 ^ k * d) \<le> 2 * n + d * 2 ^ k" "2 * n \<le> 2 * (q * 2 ^ k * d) + d * 2 ^ k"
    using round_even_half [of "d * 2 ^ k" n] assms by (simp_all add: q_def mult_ac)
  ultimately show ?thesis using that [of k q] q24 q23 k_def q_def by (simp add: round_mag_def Let_def)
qed

lemma mag_units_mono:
  assumes "a \<le> b"
  shows "mag_units a \<le> mag_units b"
proof -
  let ?e = "\<lambda>m. m div 2 ^ 23 :: nat" and ?f = "\<lambda>m. m mod 2 ^ 23 :: nat"
  have f: "?f a < 2 ^ 23" "?f b < 2 ^ 23" by simp_all
  consider "?e a = ?e b" | "?e a < ?e b" using div_le_mono [OF assms, of "2 ^ 23"] by linarith
  then show ?thesis
  proof cases
    case 1
    then have "?f a \<le> ?f b"
      using assms div_mult_mod_eq [of a "2 ^ 23"] div_mult_mod_eq [of b "2 ^ 23"] by (metis add_le_cancel_left)
    then show ?thesis using 1 assms by (auto simp: mag_units_def Let_def)
  next
    case 2
    have "mag_units a \<le> 2 ^ 23 * 2 ^ ?e a"
    proof (cases "?e a")
      case (Suc n)
      then show ?thesis using f(1) by (simp add: mag_units_def Let_def)
    qed (use f(1) in \<open>simp add: mag_units_def Let_def\<close>)
    also have "\<dots> \<le> 2 ^ 23 * 2 ^ (?e b - 1)" using 2 by (intro mult_left_mono power_increasing) simp_all
    also have "\<dots> \<le> mag_units b" using 2 by (simp add: mag_units_def Let_def)
    finally show ?thesis .
  qed
qed

text \<open>Half a unit in the last place: a relative error of \<open>2 ^ -24\<close>, or half a multiple.\<close>

lemma round_mag_upper:
  assumes "0 < d"
  shows "2 ^ 24 * (mag_units (round_mag n d) * d) \<le> n * (2 ^ 24 + 1) + 2 ^ 23 * d"
proof -
  obtain k q where b: "round_mag n d = min INF_MAG (k * 2 ^ 23 + q)" "q \<le> 2 ^ 24" "k = 0 \<or> 2 ^ 23 \<le> q"
    "2 * (q * 2 ^ k * d) \<le> 2 * n + d * 2 ^ k" "k = 0 \<or> 2 ^ 23 * (d * 2 ^ k) \<le> n"
    using round_mag_bits [OF assms, of n] by metis
  have "mag_units (round_mag n d) \<le> q * 2 ^ k"
    unfolding b(1) mag_units_norm [OF b(2,3), symmetric] by (rule mag_units_mono) simp
  then have "2 ^ 24 * (mag_units (round_mag n d) * d) \<le> 2 ^ 24 * (q * 2 ^ k * d)"
    by (intro mult_left_mono mult_right_mono) simp_all
  also have "2 ^ 24 * (q * 2 ^ k * d) \<le> n * (2 ^ 24 + 1) + 2 ^ 23 * d"
    using b(4,5) by (cases "k = 0") auto
  finally show ?thesis .
qed

lemma round_mag_le: "round_mag n d \<le> INF_MAG"
  by (simp add: round_mag_def Let_def)

lemma round_mag_finite:
  assumes "0 < d" "n < d * 2 ^ 276"
  shows "round_mag n d < INF_MAG"
proof (rule ccontr)
  assume "\<not> ?thesis"
  moreover obtain k q where b: "round_mag n d = min INF_MAG (k * 2 ^ 23 + q)" "q \<le> 2 ^ 24" "k = 0 \<or> 2 ^ 23 * (d * 2 ^ k) \<le> n"
    using round_mag_bits [OF assms(1), of n] by metis
  ultimately have "255 * 2 ^ 23 \<le> k * 2 ^ 23 + q" by (simp add: INF_MAG_def)
  then have "253 \<le> k" using b(2) by simp
  then have "(2::nat) ^ 253 \<le> 2 ^ k" by (rule power_increasing) simp
  then have "d * 2 ^ 276 \<le> 2 ^ 23 * (d * 2 ^ k)" by simp
  also have "\<dots> \<le> n" using b(3) \<open>253 \<le> k\<close> by simp
  finally show False using assms(2) by (meson not_less)
qed

lemma mag_round [simp]: "f_mag (f_make neg (round_mag n d)) = round_mag n d" "f_neg (f_make neg (round_mag n d)) = neg"
proof -
  have "round_mag n d < 2 ^ 31" using round_mag_le [of n d] by (simp add: INF_MAG_def)
  then show "f_mag (f_make neg (round_mag n d)) = round_mag n d" "f_neg (f_make neg (round_mag n d)) = neg" by simp_all
qed

section \<open>Numbers that are not NaN\<close>

lemma not_nan_make [simp]: "m \<le> INF_MAG \<Longrightarrow> \<not> is_nan (f_make neg m)"
  by (simp add: is_nan_def INF_MAG_def)

lemma not_nan_round [simp]: "\<not> is_nan (f_make neg (round_mag n d))"
  by (rule not_nan_make) (rule round_mag_le)

lemma not_nan_ops:
  "\<not> is_nan x \<Longrightarrow> \<not> is_nan (f_abs x)" "\<not> is_nan x \<Longrightarrow> \<not> is_nan (f_minus x)"
  "\<not> is_nan (f_of_nat n)" "\<not> is_nan (f_lit n d)"
  by (simp_all add: f_abs_def f_minus_def f_of_nat_def f_lit_def) (simp_all add: is_nan_def)

lemma not_nan_add:
  "\<not> is_nan x \<Longrightarrow> \<not> is_nan y \<Longrightarrow> \<not> is_inf x \<or> \<not> is_inf y \<or> f_neg x = f_neg y \<Longrightarrow> \<not> is_nan (f_add x y)"
  by (auto simp: f_add_def Let_def)

lemma not_nan_mul:
  "\<not> is_nan x \<Longrightarrow> \<not> is_nan y \<Longrightarrow> \<not> is_inf x \<Longrightarrow> \<not> is_inf y \<Longrightarrow> \<not> is_nan (f_mul x y)"
  by (simp add: f_mul_def Let_def)

lemma not_nan_div:
  "\<not> is_nan x \<Longrightarrow> \<not> is_nan y \<Longrightarrow> \<not> is_inf x \<Longrightarrow> f_mag y \<noteq> 0 \<Longrightarrow> \<not> is_nan (f_div x y)"
  by (simp add: f_div_def Let_def)

lemma f_clamp_range:
  assumes "\<not> is_nan x" "\<not> is_nan lo" "\<not> is_nan hi" "f_key lo \<le> f_key hi"
  shows "\<not> is_nan (f_clamp lo hi x)" "f_key lo \<le> f_key (f_clamp lo hi x)" "f_key (f_clamp lo hi x) \<le> f_key hi"
  using assms by (auto simp: f_clamp_def f_lt_def Let_def)

lemma f_clamp_nan: "is_nan x \<Longrightarrow> f_clamp lo hi x = x"
  by (simp add: f_clamp_def f_lt_def)

section \<open>Exact results\<close>

lemma round_even_dvd: "d dvd n \<Longrightarrow> 0 < d \<Longrightarrow> round_even n d = n div d"
  by (auto simp: round_even_def Let_def)

text \<open>Whole numbers below \<open>2 ^ 24\<close> are numbers.\<close>

lemma f_of_nat_exact:
  assumes "n < 2 ^ 24"
  shows "mag_units (f_mag (f_of_nat n)) = n * 2 ^ 149" "f_mag (f_of_nat n) < INF_MAG"
proof -
  obtain k q where b: "k = floorlog 2 (n * 2 ^ 149 div 1) - 24" "q = round_even (n * 2 ^ 149) (1 * 2 ^ k)"
    "round_mag (n * 2 ^ 149) 1 = min INF_MAG (k * 2 ^ 23 + q)" "q \<le> 2 ^ 24" "k = 0 \<or> 2 ^ 23 \<le> q"
    using round_mag_bits [of 1 "n * 2 ^ 149"] by (metis zero_less_one)
  have "n * 2 ^ 149 < 2 ^ 173" using assms by simp
  then have "floorlog 2 (n * 2 ^ 149) \<le> 173" by (intro floorlog_leI) simp_all
  then have k: "k \<le> 149" using b(1) by simp
  then have n: "n * 2 ^ 149 = n * 2 ^ (149 - k) * 2 ^ k" by (simp add: power_add [symmetric])
  have q: "q * 2 ^ k = n * 2 ^ 149" unfolding b(2) n by (subst round_even_dvd) simp_all
  have "n * 2 ^ 149 < 1 * 2 ^ 276" using assms by simp
  then have fin: "round_mag (n * 2 ^ 149) 1 < INF_MAG" by (rule round_mag_finite [rotated]) simp
  then have "round_mag (n * 2 ^ 149) 1 = k * 2 ^ 23 + q" using b(3) by linarith
  moreover have m: "f_mag (f_of_nat n) = round_mag (n * 2 ^ 149) 1" by (simp only: f_of_nat_def mag_round)
  ultimately show "mag_units (f_mag (f_of_nat n)) = n * 2 ^ 149" using mag_units_norm [OF b(4,5)] q by simp
  show "f_mag (f_of_nat n) < INF_MAG" using fin unfolding m .
qed

text \<open>The whole part of a number that is not negative.\<close>

lemma f_floor_trunc:
  assumes "\<not> is_nan x" "\<not> is_inf x" "\<not> f_neg x" "0 \<le> hi"
  shows "nat (f_trunc 0 hi (f_floor x)) \<le> mag_units (f_mag x) div 2 ^ 149"
proof (cases "2 ^ 172 \<le> mag_units (f_mag x)")
  case True
  then show ?thesis using assms by (simp add: f_floor_def f_trunc_def)
next
  case False
  define q where "q = mag_units (f_mag x) div 2 ^ 149"
  have u: "f_units x div 2 ^ 149 = int q" using assms(3) by (simp add: f_units_def q_def zdiv_int)
  have q: "q < 2 ^ 23" using False by (simp add: q_def div_less_iff_less_mult)
  have "f_floor x = (if q = 0 then f_make False 0 else f_of_nat q)"
    using False assms u by (simp add: f_floor_def f_of_int_def Let_def)
  moreover have "mag_units (f_mag (f_make False 0)) = 0" by (simp add: mag_units_def)
  moreover have "mag_units (f_mag (f_of_nat q)) = q * 2 ^ 149" "f_mag (f_of_nat q) < INF_MAG"
    using f_of_nat_exact [of q] q by simp_all
  moreover have "f_neg (f_of_nat q) = False" "\<not> is_nan (f_of_nat q)" by (simp_all add: f_of_nat_def)
  moreover have "0 < INF_MAG" by (simp add: INF_MAG_def)
  ultimately have "mag_units (f_mag (f_floor x)) div 2 ^ 149 = q" "\<not> is_nan (f_floor x)" "f_neg (f_floor x) = False"
    "\<not> is_inf (f_floor x)" by (auto simp: is_inf_def)
  then have "nat (f_trunc 0 hi (f_floor x)) \<le> q" by (simp add: f_trunc_def)
  then show ?thesis unfolding q_def .
qed

section \<open>Results that stay finite\<close>

definition slack :: "nat \<Rightarrow> nat" where "slack b = b + b div 2 ^ 24 + 1"

lemma slack_mono: "a \<le> b \<Longrightarrow> slack a \<le> slack b"
  unfolding slack_def by (intro add_mono div_le_mono) simp_all

definition below :: "nat \<Rightarrow> f32 \<Rightarrow> bool" where
  "below b x \<longleftrightarrow> f_mag x < INF_MAG \<and> mag_units (f_mag x) \<le> b"

lemma below_finite: "below b x \<Longrightarrow> \<not> is_nan x \<and> \<not> is_inf x"
  by (simp add: below_def is_nan_def is_inf_def)

lemma below_round:
  assumes "0 < d" "n \<le> b * d" "b < 2 ^ 270"
  shows "below (slack b) (f_make neg (round_mag n d))"
proof -
  have "b < 2 ^ 276" using assms(3) by simp
  then have "b * d < 2 ^ 276 * d" using assms(1) by (rule mult_strict_right_mono)
  then have "n < d * 2 ^ 276" using assms(2) by (simp only: mult.commute [of d])
  then have "round_mag n d < INF_MAG" by (rule round_mag_finite [OF assms(1)])
  moreover have "2 ^ 24 * (mag_units (round_mag n d) * d) \<le> (b * (2 ^ 24 + 1) + 2 ^ 23) * d"
    using round_mag_upper [OF assms(1), of n] assms(2) by (simp add: algebra_simps)
  then have "2 ^ 24 * mag_units (round_mag n d) * d \<le> (b * (2 ^ 24 + 1) + 2 ^ 23) * d" by (simp only: mult.assoc)
  then have "2 ^ 24 * mag_units (round_mag n d) \<le> b * (2 ^ 24 + 1) + 2 ^ 23" using assms(1) by (simp only: mult_le_cancel2)
  then have "2 ^ 24 * mag_units (round_mag n d) \<le> b * 2 ^ 24 + (b div 2 ^ 24 * 2 ^ 24 + b mod 2 ^ 24) + 2 ^ 23"
    by (simp only: div_mult_mod_eq) simp
  moreover have "b mod 2 ^ 24 < 2 ^ 24" by simp
  ultimately show ?thesis unfolding below_def slack_def mag_round by simp
qed

lemma below_mono: "below a x \<Longrightarrow> a \<le> b \<Longrightarrow> below b x"
  by (simp add: below_def)

lemma below_minus: "below a x \<Longrightarrow> below a (f_minus x)"
  by (simp add: below_def f_minus_def)

lemma below_add:
  assumes "below a x" "below b y" "a + b < 2 ^ 270"
  shows "below (slack (a + b)) (f_add x y)"
proof -
  let ?s = "f_units x + f_units y"
  have "nat \<bar>?s\<bar> \<le> (a + b) * 1" using assms(1,2) by (auto simp: f_units_def below_def)
  then have "below (slack (a + b)) (f_make (?s < 0) (round_mag (nat \<bar>?s\<bar>) 1))" using assms(3) by (intro below_round) simp_all
  moreover have "below (slack (a + b)) (f_make c 0)" for c by (simp add: below_def mag_units_def INF_MAG_def)
  ultimately show ?thesis using below_finite [OF assms(1)] below_finite [OF assms(2)] by (simp add: f_add_def Let_def)
qed

lemma below_sub:
  assumes "below a x" "below b y" "a + b < 2 ^ 270"
  shows "below (slack (a + b)) (f_sub x y)"
  unfolding f_sub_def by (rule below_add [OF assms(1) below_minus [OF assms(2)] assms(3)])

lemma below_mul:
  assumes "below a x" "below b y" "a * b \<le> c * 2 ^ 149" "c < 2 ^ 270"
  shows "below (slack c) (f_mul x y)"
proof -
  have "mag_units (f_mag x) * mag_units (f_mag y) \<le> a * b"
    using assms(1,2) by (intro mult_mono) (simp_all add: below_def)
  then have "mag_units (f_mag x) * mag_units (f_mag y) \<le> c * 2 ^ 149" using assms(3) by linarith
  then have "below (slack c) (f_make n (round_mag (mag_units (f_mag x) * mag_units (f_mag y)) (2 ^ 149)))" for n
    using assms(4) by (intro below_round) simp_all
  then show ?thesis using below_finite [OF assms(1)] below_finite [OF assms(2)] by (simp add: f_mul_def Let_def)
qed

end
