(* ===== verification/Media_Frames.thy ===== *)
theory Media_Frames
  imports Client_Core Float32
begin

text \<open>
  The media of a call, \<open>client-ui/src/media.rs\<close>: audio and video frames as bytes, the cutting
  of captured samples into frames, the receiver behind the data channel, the playback queue
  and the scaled camera preview.  The H.264 decoder is a parameter.
\<close>

section \<open>Little-endian numbers\<close>

definition to_le :: "nat \<Rightarrow> 'a::len word \<Rightarrow> bytes" where
  "to_le n w = map (\<lambda>i. ucast (drop_bit (8 * i) w)) [0..<n]"

primrec of_le :: "bytes \<Rightarrow> 'a::len word" where
  "of_le [] = 0"
| "of_le (b # bs) = or (ucast b) (push_bit 8 (of_le bs))"

lemma length_to_le [simp]: "length (to_le n w) = n"
  by (simp add: to_le_def)

lemma bit_of_le:
  "bit (of_le bs :: 'a::len word) n \<longleftrightarrow>
     n < LENGTH('a) \<and> n div 8 < length bs \<and> bit (bs ! (n div 8)) (n mod 8)"
proof (induction bs arbitrary: n)
  case (Cons b bs)
  have low: "bit b n \<Longrightarrow> n < 8" for n using bit_imp_le_length [of b n] by simp
  show ?case
  proof (cases "n < 8")
    case True
    then show ?thesis by (auto simp: bit_or_iff bit_push_bit_iff bit_unsigned_iff)
  next
    case False
    then have "n div 8 = Suc ((n - 8) div 8)" "n mod 8 = (n - 8) mod 8"
      by (simp_all add: le_div_geq le_mod_geq)
    then show ?thesis using False low [of n]
      by (auto simp: bit_or_iff bit_push_bit_iff bit_unsigned_iff Cons.IH)
  qed
qed simp

lemma of_le_to_le [simp]:
  assumes "LENGTH('a) \<le> 8 * n"
  shows "of_le (to_le n w) = (w :: 'a::len word)"
proof (rule bit_word_eqI)
  fix i assume i: "i < LENGTH('a)"
  then have "i div 8 < n" using assms by (simp add: div_less_iff_less_mult mult.commute)
  then show "bit (of_le (to_le n w) :: 'a word) i \<longleftrightarrow> bit w i" using i
    by (simp add: bit_of_le to_le_def bit_unsigned_iff bit_drop_bit_eq)
qed

section \<open>Audio frames\<close>

text \<open>\<open>f32::clamp(-1.0, 1.0)\<close>: the magnitude is compared as a number, a NaN stays.\<close>

definition clamp_unit :: "f32 \<Rightarrow> f32" where
  "clamp_unit x =
     (let m = and x 0x7FFFFFFF
      in if 0x3F800000 < m \<and> m \<le> 0x7F800000 then or (and x 0x80000000) 0x3F800000 else x)"

definition OPUS_FRAME_SAMPLES :: nat where "OPUS_FRAME_SAMPLES = 960"
definition AUDIO_SAMPLE_RATE :: nat where "AUDIO_SAMPLE_RATE = 48000"
definition PLAYBACK_BUFFER_START :: nat where "PLAYBACK_BUFFER_START = AUDIO_SAMPLE_RATE div 10"
definition PLAYBACK_BUFFER_MIN :: nat where "PLAYBACK_BUFFER_MIN = AUDIO_SAMPLE_RATE div 25"
definition PLAYBACK_BUFFER_TARGET :: nat where "PLAYBACK_BUFFER_TARGET = AUDIO_SAMPLE_RATE div 5"
definition PLAYBACK_BUFFER_MAX :: nat where "PLAYBACK_BUFFER_MAX = AUDIO_SAMPLE_RATE * 2"

lemmas playback_consts = PLAYBACK_BUFFER_START_def PLAYBACK_BUFFER_MIN_def
  PLAYBACK_BUFFER_TARGET_def PLAYBACK_BUFFER_MAX_def AUDIO_SAMPLE_RATE_def

definition audio_magic :: bytes where "audio_magic = [0x52, 0x53, 0x41, 0x31]"
definition video_magic :: bytes where "video_magic = [0x52, 0x53, 0x56, 0x31]"
definition h264_magic :: bytes where "h264_magic = [0x52, 0x53, 0x48, 0x31]"

lemmas magics = audio_magic_def video_magic_def h264_magic_def

definition encode_audio_frame :: "u32 \<Rightarrow> f32 list \<Rightarrow> bytes" where
  "encode_audio_frame sample_rate samples =
     audio_magic @ to_le 4 sample_rate @ concat (map (to_le 4) samples)"

text \<open>\<open>chunks_exact\<close> leaves a shorter rest out.\<close>

fun chunks_exact4 :: "'a list \<Rightarrow> 'a list list" where
  "chunks_exact4 (a # b # c # d # xs) = [a, b, c, d] # chunks_exact4 xs"
| "chunks_exact4 _ = []"

definition decode_audio_frame_with_rate :: "bytes \<Rightarrow> (u32 \<times> f32 list) option" where
  "decode_audio_frame_with_rate payload =
     (if length payload < 8 \<or> take 4 payload \<noteq> audio_magic then None
      else Some (of_le (take 4 (drop 4 payload)),
             map (\<lambda>chunk. clamp_unit (of_le chunk)) (chunks_exact4 (drop 8 payload))))"

definition decode_audio_frame :: "bytes \<Rightarrow> f32 list option" where
  "decode_audio_frame payload = map_option snd (decode_audio_frame_with_rate payload)"

lemma chunks_exact4_append:
  "length x = 4 \<Longrightarrow> chunks_exact4 (x @ xs) = x # chunks_exact4 xs"
  by (auto simp: numeral_eq_Suc length_Suc_conv)

lemma chunks_exact4_concat:
  "(\<And>x. x \<in> set xs \<Longrightarrow> length x = 4) \<Longrightarrow> chunks_exact4 (concat xs) = xs"
  by (induction xs) (simp_all add: chunks_exact4_append)

lemma decode_encode_audio [simp]:
  "decode_audio_frame_with_rate (encode_audio_frame r xs) = Some (r, map clamp_unit xs)"
proof -
  have "chunks_exact4 (concat (map (to_le 4) xs)) = map (to_le 4) xs"
    by (rule chunks_exact4_concat) auto
  then show ?thesis
    by (simp add: decode_audio_frame_with_rate_def encode_audio_frame_def audio_magic_def comp_def)
qed

lemma clamp_unit_idem [simp]: "clamp_unit (clamp_unit x) = clamp_unit x"
proof -
  have "and (or (and x 0x80000000) 0x3F800000) (0x7FFFFFFF :: 32 word) = 0x3F800000"
    by (simp add: bit.conj_disj_distrib2 and.assoc)
  then show ?thesis by (auto simp: clamp_unit_def Let_def)
qed

subsection \<open>From captured samples to frames\<close>

text \<open>
  The microphone's callback, one mono sample at a time: the frame being filled and the
  payloads sent so far.  The samples are those after noise suppression and gain control.
\<close>

definition frame_samples :: "u32 \<Rightarrow> nat" where
  "frame_samples sample_rate = unat (max (sample_rate div 50) 160)"

definition capture_sample :: "u32 \<Rightarrow> f32 \<Rightarrow> f32 list \<times> bytes list \<Rightarrow> f32 list \<times> bytes list" where
  "capture_sample sample_rate pcm st =
     (let frame = fst st @ [clamp_unit pcm]
      in if frame_samples sample_rate \<le> length frame
         then ([], snd st @ [encode_audio_frame sample_rate frame])
         else (frame, snd st))"

definition capture_samples :: "u32 \<Rightarrow> f32 list \<Rightarrow> f32 list \<times> bytes list" where
  "capture_samples sample_rate pcms = fold (capture_sample sample_rate) pcms ([], [])"

lemma frame_samples_ge: "160 \<le> frame_samples r"
proof -
  have "unat (160 :: u32) \<le> frame_samples r"
    unfolding frame_samples_def word_le_nat_alt [symmetric] by simp
  then show ?thesis by simp
qed

definition cut_into :: "u32 \<Rightarrow> f32 list \<Rightarrow> f32 list \<times> bytes list \<Rightarrow> bool" where
  "cut_into r xs st \<longleftrightarrow> length (fst st) < frame_samples r \<and>
     (\<exists>fs. snd st = map (encode_audio_frame r) fs \<and>
        (\<forall>f\<in>set fs. length f = frame_samples r) \<and>
        concat fs @ fst st = map clamp_unit xs)"

lemma capture_sample_cut: "cut_into r xs st \<Longrightarrow> cut_into r (xs @ [x]) (capture_sample r x st)"
proof -
  assume "cut_into r xs st"
  then obtain fs where len: "length (fst st) < frame_samples r"
    and fs: "snd st = map (encode_audio_frame r) fs" "\<forall>f\<in>set fs. length f = frame_samples r"
      "concat fs @ fst st = map clamp_unit xs" by (auto simp: cut_into_def)
  show ?thesis
  proof (cases "frame_samples r \<le> Suc (length (fst st))")
    case True
    then have "length (fst st @ [clamp_unit x]) = frame_samples r" using len by simp
    then show ?thesis using True fs frame_samples_ge [of r]
      by (auto simp: cut_into_def capture_sample_def Let_def
          intro!: exI [of _ "fs @ [fst st @ [clamp_unit x]]"])
  next
    case False
    then show ?thesis using fs
      by (auto simp: cut_into_def capture_sample_def Let_def intro!: exI [of _ fs])
  qed
qed

lemma capture_samples_cut: "cut_into r xs (capture_samples r xs)"
proof (induction xs rule: rev_induct)
  case Nil
  show ?case using frame_samples_ge [of r] by (simp add: cut_into_def capture_samples_def)
next
  case (snoc x xs)
  then show ?case using capture_sample_cut by (simp add: capture_samples_def)
qed

section \<open>Video frames\<close>

record video_frame_info =
  vf_width :: u32
  vf_height :: u32
  vf_frames :: u64
  vf_rgb :: bytes

text \<open>The header of both video formats: magic, width, height and frame number.  \<open>usize\<close> has 64
  bits, so the product of the dimensions wraps.\<close>

definition decode_video_frame :: "bytes \<Rightarrow> video_frame_info option" where
  "decode_video_frame payload =
     (if length payload < 20 \<or> take 4 payload \<noteq> video_magic then None
      else let width = of_le (take 4 (drop 4 payload)) :: u32;
               height = of_le (take 4 (drop 8 payload)) :: u32;
               frames = of_le (take 8 (drop 12 payload)) :: u64;
               expected = ucast width * ucast height * 3 :: u64
           in if length payload - 20 \<noteq> unat expected then None
              else Some \<lparr>vf_width = width, vf_height = height, vf_frames = frames,
                     vf_rgb = drop 20 payload\<rparr>)"

definition encode_h264_video_frame :: "u32 \<Rightarrow> u32 \<Rightarrow> u64 \<Rightarrow> bytes \<Rightarrow> bytes" where
  "encode_h264_video_frame width height frames h264 =
     h264_magic @ to_le 4 width @ to_le 4 height @ to_le 8 frames @ h264"

text \<open>The decoder changes with every packet and yields at most one picture.\<close>

type_synonym 'd h264_decode = "'d \<Rightarrow> bytes \<Rightarrow> bytes option \<times> 'd"

definition decode_h264_video_frame ::
  "'d h264_decode \<Rightarrow> bytes \<Rightarrow> 'd option \<Rightarrow> video_frame_info option \<times> 'd option" where
  "decode_h264_video_frame h264 payload decoder =
     (if length payload < 20 \<or> take 4 payload \<noteq> h264_magic then (None, decoder)
      else case decoder of None \<Rightarrow> (None, None)
      | Some d \<Rightarrow>
          let width = of_le (take 4 (drop 4 payload)) :: u32;
              height = of_le (take 4 (drop 8 payload)) :: u32;
              frames = of_le (take 8 (drop 12 payload)) :: u64;
              (decoded, d') = h264 d (drop 20 payload)
          in (map_option (\<lambda>rgb. \<lparr>vf_width = width, vf_height = height, vf_frames = frames,
                 vf_rgb = rgb\<rparr>) decoded, Some d'))"

lemma decode_encode_h264:
  "decode_h264_video_frame h264 (encode_h264_video_frame w h n body) (Some d) =
     (map_option (\<lambda>rgb. \<lparr>vf_width = w, vf_height = h, vf_frames = n, vf_rgb = rgb\<rparr>)
        (fst (h264 d body)), Some (snd (h264 d body)))"
  by (simp add: decode_h264_video_frame_def encode_h264_video_frame_def h264_magic_def
      split: prod.splits)

text \<open>The receiver behind the data channel.\<close>

function pop_while_longer :: "nat \<Rightarrow> 'a list \<Rightarrow> 'a list" where
  "pop_while_longer n q = (if n < length q then pop_while_longer n (tl q) else q)"
  by pat_completeness auto
termination pop_while_longer
  by (relation "measure (\<lambda>(n, q). length q)") auto

declare pop_while_longer.simps [simp del]

lemma pop_while_longer_eq: "pop_while_longer n q = drop (length q - n) q"
proof (induction n q rule: pop_while_longer.induct)
  case (1 n q)
  then show ?case
    by (subst pop_while_longer.simps, cases q) (auto simp: Suc_diff_le)
qed

record 'd call_receiver =
  rc_decoder :: "'d option"
  rc_queue :: "f32 list"
  rc_video :: "video_frame_info option"

definition enqueue_samples :: "f32 list \<Rightarrow> f32 list \<Rightarrow> f32 list" where
  "enqueue_samples samples queue = pop_while_longer PLAYBACK_BUFFER_MAX (queue @ samples)"

definition on_data_message :: "'d h264_decode \<Rightarrow> bytes \<Rightarrow> 'd call_receiver \<Rightarrow> 'd call_receiver" where
  "on_data_message h264 data rc =
     (case decode_video_frame data of
        Some frame \<Rightarrow> rc\<lparr>rc_video := Some frame\<rparr>
      | None \<Rightarrow>
          if take 4 data = h264_magic then
            (case decode_h264_video_frame h264 data (rc_decoder rc) of
               (Some frame, d) \<Rightarrow> rc\<lparr>rc_decoder := d, rc_video := Some frame\<rparr>
             | (None, d) \<Rightarrow> rc\<lparr>rc_decoder := d\<rparr>)
          else (case decode_audio_frame data of
               Some samples \<Rightarrow> rc\<lparr>rc_queue := enqueue_samples samples (rc_queue rc)\<rparr>
             | None \<Rightarrow> rc))"

lemma enqueue_bound: "length (enqueue_samples xs q) \<le> PLAYBACK_BUFFER_MAX"
  by (simp add: enqueue_samples_def pop_while_longer_eq)

lemma queue_stays_bounded:
  assumes "length (rc_queue rc) \<le> PLAYBACK_BUFFER_MAX"
  shows "length (rc_queue (fold (on_data_message h264) msgs rc)) \<le> PLAYBACK_BUFFER_MAX"
  using assms
proof (induction msgs arbitrary: rc)
  case (Cons m msgs)
  have "length (rc_queue (on_data_message h264 m rc)) \<le> PLAYBACK_BUFFER_MAX"
    using Cons.prems enqueue_bound
    by (auto simp: on_data_message_def split: option.splits prod.splits)
  then show ?case by (simp add: Cons.IH)
qed simp

section \<open>Playback\<close>

text \<open>
  The speaker's callback: playing starts with 100 ms in the queue and pauses below 40 ms; a
  queue longer than 200 ms (and the frames of this callback) is cut at the old end.  Each mono
  sample goes to every channel of its frame through \<open>from_f32\<close>.
\<close>

definition playback_frame :: "nat \<Rightarrow> bool \<times> f32 list \<Rightarrow> f32 \<times> bool \<times> f32 list" where
  "playback_frame output_frames st =
     (let (playing, queue) = st;
          playing = (if \<not> playing \<and> PLAYBACK_BUFFER_START \<le> length queue then True else playing);
          playing = (if playing \<and> length queue \<le> PLAYBACK_BUFFER_MIN then False else playing);
          queue = pop_while_longer PLAYBACK_BUFFER_MAX queue;
          queue = pop_while_longer (PLAYBACK_BUFFER_TARGET + output_frames) queue
      in if playing then (case queue of [] \<Rightarrow> (0, playing, []) | x # xs \<Rightarrow> (x, playing, xs))
         else (0, playing, queue))"

primrec playback_frames ::
  "nat \<Rightarrow> (f32 \<Rightarrow> 'o) \<Rightarrow> 'a list list \<Rightarrow> bool \<times> f32 list \<Rightarrow> 'o list \<times> bool \<times> f32 list" where
  "playback_frames output_frames from_f32 [] st = ([], st)"
| "playback_frames output_frames from_f32 (frame # frames) st =
     (let (value, st) = playback_frame output_frames st;
          (out, st) = playback_frames output_frames from_f32 frames st
      in (replicate (length frame) (from_f32 value) @ out, st))"

definition playback_callback ::
  "nat \<Rightarrow> (f32 \<Rightarrow> 'o) \<Rightarrow> 'o list \<Rightarrow> bool \<times> f32 list \<Rightarrow> 'o list \<times> bool \<times> f32 list" where
  "playback_callback channels from_f32 out st =
     playback_frames (length out div max channels 1) from_f32 (chunks_of (max channels 1) out) st"

lemma playback_fills:
  "length (fst (playback_frames n conv frames st)) = length (concat frames)"
  by (induction frames arbitrary: st) (simp_all add: Let_def split: prod.splits, metis fst_conv)

lemma playback_silent:
  assumes "length q < PLAYBACK_BUFFER_START"
  shows "playback_frames n conv frames (False, q) = (replicate (length (concat frames)) (conv 0), False, q)"
  using assms
proof (induction frames)
  case (Cons f frames)
  have "playback_frame n (False, q) = (0, False, q)"
    using Cons.prems by (simp add: playback_frame_def pop_while_longer_eq playback_consts)
  then show ?case using Cons by (simp add: replicate_add)
qed simp

section \<open>The camera preview\<close>

definition even_dimension :: "u32 \<Rightarrow> u32" where
  "even_dimension value = and (clamp 2 (- 1) value) (not 1)"

definition preview_target :: "u32 \<Rightarrow> u32 \<Rightarrow> u32 \<times> u32" where
  "preview_target width height =
     (let target_width = even_dimension (min width 320);
          target_height = ucast (max ((ucast (max height 1) * ucast target_width)
            div ucast (max width 1)) (1 :: u64)) :: u32
      in (target_width, even_dimension target_height))"

definition preview_pixel :: "u32 \<Rightarrow> u32 \<Rightarrow> u32 \<Rightarrow> u32 \<Rightarrow> bytes \<Rightarrow> nat \<Rightarrow> nat \<Rightarrow> bytes \<Rightarrow> bytes" where
  "preview_pixel width height target_width target_height rgb y x out =
     (let source_y = ucast (of_nat y * ucast height div ucast target_height :: u64) :: u32;
          source_x = ucast (of_nat x * ucast width div ucast target_width :: u64) :: u32;
          source = unat ((source_y * width + source_x) * 3);
          target = unat ((of_nat y * target_width + of_nat x) * 3)
      in if source + 2 < length rgb \<and> target + 2 < length out
         then take target out @ take 3 (drop source rgb) @ drop (target + 3) out else out)"

definition preview_rgb :: "u32 \<Rightarrow> u32 \<Rightarrow> bytes \<Rightarrow> u32 \<times> u32 \<times> bytes" where
  "preview_rgb width height rgb =
     (let (target_width, target_height) = preview_target width height
      in if target_width = width \<and> target_height = height then (width, height, rgb)
         else let out = replicate (unat target_width * unat target_height * 3) 0;
                  out = fold (\<lambda>y. fold (\<lambda>x.
                      preview_pixel width height target_width target_height rgb y x)
                    [0..<unat target_width]) [0..<unat target_height] out
              in (target_width, target_height, out))"

lemma unat_u32: "unat (w :: u32) < 2 ^ 32"
  using unsigned_less [of w] by simp

lemma unat_even_dimension: "unat (even_dimension v) = 2 * (max 2 (unat v) div 2)"
proof -
  have c: "clamp 2 (- 1) v = max 2 v"
    using word_n1_ge [of v] by (auto simp: clamp_def max_def not_less)
  have m: "unat (max 2 v) = max 2 (unat v)"
    by (auto simp: max_def word_le_nat_alt)
  have "and (max 2 v) (not 1) = 2 * (max 2 v div 2)"
    by (metis unset_bit_0 unset_bit_eq_and_not push_bit_0_id id_apply)
  moreover have "2 * (max 2 (unat v) div 2) < 2 ^ 32"
    using unat_u32 [of "max 2 v"] m by simp
  ultimately show ?thesis
    by (simp add: even_dimension_def c unat_word_ariths unat_div m)
qed

lemma unat_times64:
  assumes "unat x < 2 ^ 32" "unat y < 2 ^ 32"
  shows "unat (x * y :: u64) = unat x * unat y"
proof -
  have "unat x * unat y < 2 ^ 32 * 2 ^ 32" using assms by (intro mult_strict_mono) auto
  then show ?thesis by (simp add: unat_mult_lem [symmetric])
qed

lemma unat_widen: "unat (ucast (w :: u32) :: u64) = unat w"
  by (simp add: unsigned_ucast_eq take_bit_nat_eq_self_iff unat_u32 [simplified] order.strict_trans [OF unat_u32])

text \<open>A coordinate scaled from the preview to the picture.\<close>

lemma unat_scaled:
  assumes "y < unat n"
  shows "unat (ucast (of_nat y * ucast (h :: u32) div ucast (n :: u32) :: u64) :: u32) = y * unat h div unat n"
proof -
  have y: "y < 2 ^ 32" using assms unat_u32 [of n] by simp
  then have uy: "unat (of_nat y :: u64) = y" by (simp add: unat_of_nat)
  have "y * unat h \<le> unat n * unat h" using assms by (intro mult_le_mono1) simp
  then have "y * unat h div unat n \<le> unat h"
    using assms by (metis div_le_mono less_nat_zero_code neq0_conv nonzero_mult_div_cancel_left)
  moreover have "unat (of_nat y * ucast h div ucast n :: u64) = y * unat h div unat n"
    using y by (simp add: unat_div unat_times64 unat_widen unat_u32 [simplified] uy)
  ultimately show ?thesis
    using unat_u32 [of h] by (simp add: unsigned_ucast_eq take_bit_nat_def)
qed

lemma scaled_less: "y < n \<Longrightarrow> 0 < h \<Longrightarrow> y * h div n < (h :: nat)"
  by (rule less_mult_imp_div_less) (simp add: mult.commute)

lemma preview_width: "unat (fst (preview_target w h)) = 2 * (max 2 (min (unat w) 320) div 2)"
proof -
  have "unat (min w 320) = min (unat w) 320" by (auto simp: min_def word_le_nat_alt)
  then show ?thesis by (simp add: preview_target_def Let_def unat_even_dimension)
qed

lemma preview_height:
  assumes "2 \<le> unat w" "2 \<le> unat h"
  shows "unat (snd (preview_target w h)) =
    2 * (max 2 (unat h * unat (fst (preview_target w h)) div unat w) div 2)"
    and "unat h * unat (fst (preview_target w h)) div unat w \<le> unat h"
proof -
  let ?t = "fst (preview_target w h)"
  note wh = assms
  have "unat ?t \<le> unat w" using wh(1) by (simp add: preview_width)
  then have "unat h * unat ?t \<le> unat h * unat w" by simp
  then show le: "unat h * unat ?t div unat w \<le> unat h"
    using wh(1) by (metis div_le_mono nonzero_mult_div_cancel_right not_numeral_le_zero)
  have one: "max h 1 = h" "max w 1 = w" using wh by (auto simp: max_def word_le_nat_alt)
  let ?q = "ucast h * ucast ?t div ucast w :: u64"
  have q: "unat ?q = unat h * unat ?t div unat w"
    by (simp add: unat_div unat_times64 unat_widen unat_u32 [simplified])
  have "unat (max ?q 1) = max (unat ?q) 1" by (auto simp: max_def word_le_nat_alt)
  then have "unat (ucast (max ?q 1) :: u32) = max (unat ?q) 1"
    using le unat_u32 [of h] wh by (simp add: unsigned_ucast_eq take_bit_nat_def q)
  moreover have "snd (preview_target w h) = even_dimension (ucast (max ?q 1))"
    by (simp add: preview_target_def Let_def one)
  ultimately show "unat (snd (preview_target w h)) = 2 * (max 2 (unat h * unat ?t div unat w) div 2)"
    by (simp only: unat_even_dimension q) (simp add: max_def)
qed

lemma length_concat_blocks:
  "(\<And>k. k < n \<Longrightarrow> length (g k) = b) \<Longrightarrow> length (concat (map g [0..<n])) = b * n"
  by (induction n) simp_all

text \<open>A loop that overwrites consecutive blocks of a buffer writes their concatenation.\<close>

lemma fold_put:
  assumes "\<And>k. k < n \<Longrightarrow> length (g k) = b" "m + b * n \<le> length out"
    and "\<And>k xs. k < n \<Longrightarrow> length xs = length out \<Longrightarrow>
      f k xs = take (m + b * k) xs @ g k @ drop (m + b * k + b) xs"
  shows "fold f [0..<n] out = take m out @ concat (map g [0..<n]) @ drop (m + b * n) out"
  using assms
proof (induction n)
  case (Suc n)
  have len: "length (concat (map g [0..<n])) = b * n"
    by (rule length_concat_blocks) (simp add: Suc.prems(1))
  have IH: "fold f [0..<n] out = take m out @ concat (map g [0..<n]) @ drop (m + b * n) out"
    using Suc.prems by (intro Suc.IH) simp_all
  have "length (fold f [0..<n] out) = length out"
    using Suc.prems(2) by (simp add: IH len)
  then have "fold f [0..<Suc n] out = take (m + b * n) (fold f [0..<n] out) @ g n @
      drop (m + b * n + b) (fold f [0..<n] out)"
    by (simp add: Suc.prems(3))
  then show ?case
    using Suc.prems(2) by (simp add: IH len add.commute add.left_commute)
qed simp

lemma concat_blocks:
  "concat (map (\<lambda>k. take b (drop (m + b * k) xs)) [0..<n]) = take (b * n) (drop m xs)"
proof (induction n)
  case (Suc n)
  have "take (b * Suc n) (drop m xs) = take (b * n) (drop m xs) @ take b (drop (m + b * n) xs)"
    using take_add [of "b * n" b "drop m xs"] by (simp add: add.commute)
  then show ?case using Suc by simp
qed simp

definition scaled_pixel :: "nat \<Rightarrow> nat \<Rightarrow> nat \<Rightarrow> nat \<Rightarrow> bytes \<Rightarrow> nat \<Rightarrow> nat \<Rightarrow> bytes" where
  "scaled_pixel w h tw th rgb y x = take 3 (drop (3 * ((y * h div th) * w + x * w div tw)) rgb)"

definition scaled_picture :: "nat \<Rightarrow> nat \<Rightarrow> nat \<Rightarrow> nat \<Rightarrow> bytes \<Rightarrow> bytes" where
  "scaled_picture w h tw th rgb =
     concat (map (\<lambda>y. concat (map (scaled_pixel w h tw th rgb y) [0..<tw])) [0..<th])"

lemma index_less: "y < h \<Longrightarrow> x < w \<Longrightarrow> y * w + x < h * (w :: nat)"
proof -
  assume "y < h" "x < w"
  then have "y * w + x < Suc y * w" "Suc y * w \<le> h * w" by (simp, intro mult_le_mono1, simp)
  then show ?thesis by linarith
qed

lemma block_inside: "a < n \<Longrightarrow> 3 * a + 2 < 3 * (n :: nat)"
  by simp

lemma unat_index:
  assumes "(unat a * unat w + unat b) * 3 < 2 ^ 32"
  shows "unat ((a * w + b) * 3 :: u32) = 3 * (unat a * unat w + unat b)"
proof -
  have "(a * w + b) * 3 = (of_nat ((unat a * unat w + unat b) * 3) :: u32)" by simp
  then have "unat ((a * w + b) * 3) = (unat a * unat w + unat b) * 3"
    using assms by (simp only: unat_of_nat) simp
  then show ?thesis by simp
qed

lemma even_dimension_ge: "2 \<le> 2 * (max 2 m div 2 :: nat)" "Suc 0 \<le> max 2 m div 2"
  by (simp_all add: Suc_le_eq div_greater_zero_iff)

lemma scaled_pixel_length:
  assumes "length rgb = 3 * (h * w)" "0 < h * w" "y < th" "x < tw"
  shows "length (scaled_pixel w h tw th rgb y x) = 3"
proof -
  have "y * h div th * w + x * w div tw < h * w"
    by (rule index_less; rule scaled_less) (use assms in auto)
  then show ?thesis using assms(1) by (simp add: scaled_pixel_def)
qed

lemma preview_pixel_writes:
  assumes "length rgb = 3 * (unat h * unat w)" "3 * (unat h * unat w) < 2 ^ 32"
    and "length out = 3 * (unat th * unat tw)" "3 * (unat th * unat tw) < 2 ^ 32"
    and "0 < unat h * unat w" "y < unat th" "x < unat tw"
  shows "preview_pixel w h tw th rgb y x out =
      take (3 * (y * unat tw + x)) out @ scaled_pixel (unat w) (unat h) (unat tw) (unat th) rgb y x @
      drop (3 * (y * unat tw + x) + 3) out"
proof -
  let ?sy = "y * unat h div unat th" and ?sx = "x * unat w div unat tw"
  let ?k = "y * unat tw + x" and ?i = "?sy * unat w + ?sx"
  have yx: "y < 2 ^ 32" "x < 2 ^ 32" using assms(6,7) unat_u32 [of th] unat_u32 [of tw] by simp_all
  have k: "?k < unat th * unat tw" by (rule index_less) (use assms in auto)
  have "unat ((of_nat y * tw + of_nat x) * 3) = 3 * (unat (of_nat y :: u32) * unat tw + unat (of_nat x :: u32))"
    by (rule unat_index) (use k yx assms(4) in \<open>simp add: unat_of_nat\<close>)
  then have target: "unat ((of_nat y * tw + of_nat x) * 3) = 3 * ?k" using yx by (simp add: unat_of_nat)
  have i: "?i < unat h * unat w"
    by (rule index_less; rule scaled_less) (use assms in auto)
  let ?a = "ucast (of_nat y * ucast h div ucast th :: u64) :: u32"
  let ?b = "ucast (of_nat x * ucast w div ucast tw :: u64) :: u32"
  have "unat ((?a * w + ?b) * 3) = 3 * (unat ?a * unat w + unat ?b)"
    by (rule unat_index) (use i assms in \<open>simp add: unat_scaled\<close>)
  then have source: "unat ((?a * w + ?b) * 3) = 3 * ?i"
    using assms(6,7) by (simp only: unat_scaled)
  have inside: "3 * ?i + 2 < length rgb" "3 * ?k + 2 < length out"
    using block_inside [OF i] block_inside [OF k] by (simp_all only: assms(1,3))
  show "preview_pixel w h tw th rgb y x out = take (3 * ?k) out @
      scaled_pixel (unat w) (unat h) (unat tw) (unat th) rgb y x @ drop (3 * ?k + 3) out"
    unfolding preview_pixel_def Let_def source target scaled_pixel_def using inside by simp
qed

lemma preview_loop:
  assumes "length rgb = 3 * (unat h * unat w)" "3 * (unat h * unat w) < 2 ^ 32"
    and "length out = 3 * (unat th * unat tw)" "3 * (unat th * unat tw) < 2 ^ 32"
    and "0 < unat h * unat w"
  shows "fold (\<lambda>y. fold (\<lambda>x. preview_pixel w h tw th rgb y x) [0..<unat tw]) [0..<unat th] out =
      scaled_picture (unat w) (unat h) (unat tw) (unat th) rgb" (is "?fold = _")
proof -
  let ?pix = "scaled_pixel (unat w) (unat h) (unat tw) (unat th) rgb"
  let ?row = "\<lambda>y. concat (map (?pix y) [0..<unat tw])"
  have row_length: "length (?row y) = 3 * unat tw" if "y < unat th" for y
    by (intro length_concat_blocks scaled_pixel_length assms that)
  have row: "fold (\<lambda>x. preview_pixel w h tw th rgb y x) [0..<unat tw] xs =
      take (3 * (y * unat tw)) xs @ ?row y @ drop (3 * (y * unat tw) + 3 * unat tw) xs"
    if y: "y < unat th" and len: "length xs = length out" for y xs
  proof (rule fold_put)
    show "length (?pix y k) = 3" if "k < unat tw" for k
      by (rule scaled_pixel_length [OF assms(1,5) y that])
    have "Suc y * unat tw \<le> unat th * unat tw" using y by (intro mult_le_mono1) simp
    then show "3 * (y * unat tw) + 3 * unat tw \<le> length xs" using len assms(3) by simp
    show "preview_pixel w h tw th rgb y k zs =
        take (3 * (y * unat tw) + 3 * k) zs @ ?pix y k @ drop (3 * (y * unat tw) + 3 * k + 3) zs"
      if "k < unat tw" "length zs = length xs" for k zs
      using preview_pixel_writes [OF assms(1,2) _ assms(4,5) y that(1), of zs] that(2) len assms(3)
      by (simp add: distrib_left)
  qed
  have "?fold = take 0 out @ concat (map ?row [0..<unat th]) @ drop (0 + (3 * unat tw) * unat th) out"
    by (rule fold_put) (use row_length row assms(3) in \<open>simp_all add: ac_simps\<close>)
  then show ?thesis using assms(3) by (simp add: scaled_picture_def mult.assoc mult.commute)
qed

lemma even_dimension_le: "2 \<le> n \<Longrightarrow> m \<le> n \<Longrightarrow> 2 * (max 2 m div 2) \<le> (n :: nat)"
  by (auto simp: max_def)

lemma scaled_picture_length:
  assumes "length rgb = 3 * (h * w)" "0 < h * w"
  shows "length (scaled_picture w h tw th rgb) = 3 * (th * tw)"
proof -
  have "length (scaled_picture w h tw th rgb) = (3 * tw) * th"
    unfolding scaled_picture_def
    by (intro length_concat_blocks scaled_pixel_length assms)
  then show ?thesis by (simp add: ac_simps)
qed

lemma scaled_picture_self:
  assumes "0 < w" "0 < h" "length rgb = 3 * (h * w)"
  shows "scaled_picture w h w h rgb = rgb"
proof -
  have "concat (map (scaled_pixel w h w h rgb y) [0..<w]) = take (3 * w) (drop (0 + (3 * w) * y) rgb)" for y
    using concat_blocks [of 3 "3 * w * y" rgb w] assms(1,2)
    by (simp add: scaled_pixel_def [abs_def] distrib_left ac_simps)
  then show ?thesis
    using concat_blocks [of "3 * w" 0 rgb h] assms(3) by (simp add: scaled_picture_def ac_simps)
qed

text \<open>
  C35.  The preview is the picture scaled down.  For a picture of at least two by two pixels and
  less than 2 to the 32 bytes: the preview is the picture's width, at most 320, rounded down to
  an even number, wide, and as high as keeps the proportions, rounded down to an even number
  and at least two; it is no larger than the picture, and its bytes are, row by row, the pixels
  of the picture at the proportional coordinates, so that no index leaves the picture.
\<close>

theorem preview_rgb_scales:
  assumes "2 \<le> unat w" "2 \<le> unat h"
    and "length rgb = 3 * (unat h * unat w)" "3 * (unat h * unat w) < 2 ^ 32"
    and "preview_rgb w h rgb = (tw, th, out)"
  shows "unat tw = 2 * (min (unat w) 320 div 2) \<and>
    unat th = 2 * (max 2 (unat h * unat tw div unat w) div 2) \<and>
    2 \<le> unat tw \<and> 2 \<le> unat th \<and> unat tw \<le> unat w \<and> unat th \<le> unat h \<and>
    out = scaled_picture (unat w) (unat h) (unat tw) (unat th) rgb \<and>
    length out = 3 * (unat th * unat tw)"
proof -
  let ?t = "preview_target w h"
  have target: "tw = fst ?t" "th = snd ?t"
    using assms(5) by (auto simp: preview_rgb_def Let_def split: prod.splits if_splits)
  have tw: "unat tw = 2 * (max 2 (min (unat w) 320) div 2)"
    and th: "unat th = 2 * (max 2 (unat h * unat tw div unat w) div 2)"
    by (simp_all only: target preview_width preview_height(1) [OF assms(1,2)])
  have bounds: "unat tw \<le> min (unat w) 320" "unat th \<le> unat h"
    unfolding tw using assms(1) apply (intro even_dimension_le; simp)
    unfolding th using assms(2) preview_height(2) [OF assms(1,2)]
    by (intro even_dimension_le) (simp_all only: target)
  have size: "unat th * unat tw \<le> unat h * unat w" using bounds by (intro mult_le_mono) simp_all
  have picture: "out = scaled_picture (unat w) (unat h) (unat tw) (unat th) rgb"
  proof (cases "tw = w \<and> th = h")
    case True
    then have "out = rgb" using assms(5) target by (simp add: preview_rgb_def Let_def split: prod.splits)
    then show ?thesis using True scaled_picture_self [of "unat w" "unat h" rgb] assms(1-3) by simp
  next
    case False
    let ?out = "replicate (unat tw * unat th * 3) 0 :: bytes"
    have "out = fold (\<lambda>y. fold (\<lambda>x. preview_pixel w h tw th rgb y x) [0..<unat tw]) [0..<unat th] ?out"
      using assms(5) False target by (auto simp: preview_rgb_def Let_def split: prod.splits if_splits)
    also have "\<dots> = scaled_picture (unat w) (unat h) (unat tw) (unat th) rgb"
      by (rule preview_loop [OF assms(3,4)]) (use size assms(1,2,4) in \<open>simp_all add: ac_simps\<close>)
    finally show ?thesis .
  qed
  have "length out = 3 * (unat th * unat tw)"
    by (subst picture) (rule scaled_picture_length [OF assms(3)], use assms(1,2) in simp)
  moreover have "2 \<le> unat tw" by (subst tw, simp add: even_dimension_ge)
  moreover have "2 \<le> unat th" by (subst th, simp add: even_dimension_ge)
  moreover have "unat tw = 2 * (min (unat w) 320 div 2)" using tw assms(1) by (simp add: max_def)
  moreover have "unat tw \<le> unat w" using bounds(1) by simp
  ultimately show ?thesis using bounds(2) picture th by blast
qed

text \<open>
  The bound on the bytes is sharp: the code computes the index into the picture with 32 bits.
  Of a picture of 65536 by 65536 pixels, the preview's pixel in row 160, whose place in the
  picture is byte 6442450944, gets what is at byte 2147483648 instead.
\<close>

lemma preview_index_wraps:
  assumes "length rgb = 12884901888" "length out = 307200"
  shows "preview_pixel 65536 65536 320 320 rgb 160 0 out =
    take 153600 out @ take 3 (drop 2147483648 rgb) @ drop (153600 + 3) out"
proof -
  have "ucast (of_nat 160 * ucast (65536 :: u32) div ucast (320 :: u32) :: u64) = (32768 :: u32)"
    "ucast (of_nat 0 * ucast (65536 :: u32) div ucast (320 :: u32) :: u64) = (0 :: u32)"
    "unat ((32768 * 65536 + 0) * 3 :: u32) = 2147483648" "unat ((of_nat 160 * 320 + of_nat 0) * 3 :: u32) = 153600"
    by simp_all
  moreover have "(2147483648 :: nat) + 2 < 12884901888" "(153600 :: nat) + 2 < 307200" by simp_all
  ultimately show ?thesis unfolding preview_pixel_def Let_def by (simp only: assms simp_thms if_True)
qed

lemma preview_rgb_shape:
  "preview_rgb w h rgb =
     (fst (preview_target w h), snd (preview_target w h), snd (snd (preview_rgb w h rgb)))"
  by (cases "preview_target w h") (simp add: preview_rgb_def Let_def)

lemma preview_rgb_scales_witness:
  "preview_rgb 3 3 [0, 1, 2, 3, 4, 5, 6, 7, 8, 9, 10, 11, 12, 13, 14, 15, 16, 17, 18, 19, 20, 21, 22,
       23, 24, 25, 26] = (2, 2, [0, 1, 2, 3, 4, 5, 9, 10, 11, 12, 13, 14])"
proof -
  let ?p = "[0, 1, 2, 3, 4, 5, 6, 7, 8, 9, 10, 11, 12, 13, 14, 15, 16, 17, 18, 19, 20, 21, 22,
       23, 24, 25, 26] :: bytes"
  define out where "out = snd (snd (preview_rgb 3 3 ?p))"
  have "unat (fst (preview_target 3 3)) = unat (2 :: u32)" by (simp add: preview_width)
  moreover from this have "unat (snd (preview_target 3 3)) = unat (2 :: u32)"
    by (subst preview_height) simp_all
  ultimately have "preview_target 3 3 = (2, 2)"
    by (simp only: word_unat_eq_iff [symmetric] prod_eq_iff fst_conv snd_conv)
  then have run: "preview_rgb 3 3 ?p = (2, 2, out)"
    unfolding out_def by (subst preview_rgb_shape) (simp only: fst_conv snd_conv)
  have "out = scaled_picture 3 3 2 2 ?p"
    using preview_rgb_scales [OF _ _ _ _ run] by simp
  moreover have "scaled_picture 3 3 2 2 ?p = [0, 1, 2, 3, 4, 5, 9, 10, 11, 12, 13, 14]"
    by (simp add: scaled_picture_def scaled_pixel_def upt_rec)
  ultimately show ?thesis using run by simp
qed

section \<open>From the microphone to the encoder\<close>

text \<open>
  What the microphone's callback sends is what the encoder's thread reads: the payloads
  decode to the sample rate and to frames of the same length (960 samples, an Opus frame, at
  48 kHz), the frames one after the other and the unfinished one are the captured samples in
  order, clamped to the unit range.
\<close>

lemma captured_audio_arrives:
  "\<exists>frames. map decode_audio_frame_with_rate (snd (capture_samples r xs)) =
       map (\<lambda>f. Some (r, f)) frames \<and>
     (\<forall>f\<in>set frames. length f = frame_samples r) \<and>
     concat frames @ fst (capture_samples r xs) = map clamp_unit xs \<and>
     length (fst (capture_samples r xs)) < frame_samples r \<and>
     frame_samples 48000 = OPUS_FRAME_SAMPLES"
proof -
  obtain fs where fs: "snd (capture_samples r xs) = map (encode_audio_frame r) fs"
    "\<forall>f\<in>set fs. length f = frame_samples r"
    "concat fs @ fst (capture_samples r xs) = map clamp_unit xs"
    "length (fst (capture_samples r xs)) < frame_samples r"
    using capture_samples_cut [of r xs] by (auto simp: cut_into_def)
  have "map clamp_unit f = f" if "f \<in> set fs" for f
  proof (rule map_idI)
    fix x assume "x \<in> set f"
    then have "x \<in> set (map clamp_unit xs)" using that unfolding fs(3) [symmetric] by auto
    then show "clamp_unit x = x" by auto
  qed
  moreover have "frame_samples 48000 = OPUS_FRAME_SAMPLES"
    by (simp add: frame_samples_def OPUS_FRAME_SAMPLES_def)
  ultimately show ?thesis using fs by (intro exI [of _ fs]) simp
qed

lemma captured_audio_arrives_witness:
  "\<exists>frames. map decode_audio_frame_with_rate (snd (capture_samples 8000 (replicate 161 0x40000000))) =
       map (\<lambda>f. Some (8000, f)) frames \<and> (\<forall>f\<in>set frames. length f = frame_samples 8000)"
  using captured_audio_arrives [of 8000 "replicate 161 0x40000000"] by blast

section \<open>Received frames on the screen\<close>

text \<open>
  \<open>video_texture\<close> of \<open>app.rs\<close> keeps one texture and uploads a frame once.  \<open>ColorImage::from_rgb\<close>
  belongs to egui and is a parameter; \<open>None\<close> is its documented panic.  The outer option of the
  result is the panic, the inner one "nothing to draw".
\<close>

record 'i cached_video_texture =
  ct_frames :: u64
  ct_size :: "nat \<times> nat"
  ct_texture :: 'i

definition video_texture ::
  "(nat \<times> nat \<Rightarrow> bytes \<Rightarrow> 'i option) \<Rightarrow> 'i cached_video_texture option \<Rightarrow> video_frame_info \<Rightarrow>
   (('i \<times> nat \<times> nat) option \<times> 'i cached_video_texture option) option" where
  "video_texture from_rgb cache info =
     (let size = (unat (vf_width info), unat (vf_height info))
      in if vf_rgb info = [] \<or> fst size = 0 \<or> snd size = 0 then Some (None, cache)
         else case cache of
           Some c \<Rightarrow>
             if ct_frames c = vf_frames info \<and> ct_size c = size
             then Some (Some (ct_texture c, size), cache)
             else map_option (\<lambda>i. (Some (i, size), Some \<lparr>ct_frames = vf_frames info,
               ct_size = size, ct_texture = i\<rparr>)) (from_rgb size (vf_rgb info))
         | None \<Rightarrow> map_option (\<lambda>i. (Some (i, size), Some \<lparr>ct_frames = vf_frames info,
               ct_size = size, ct_texture = i\<rparr>)) (from_rgb size (vf_rgb info)))"

text \<open>
  The header of an H.264 frame is not checked against the decoded picture: a peer that sends a
  valid stream under other dimensions stops the receiver's window.
\<close>

lemma h264_header_panics:
  assumes "\<And>size rgb. length rgb \<noteq> fst size * snd size * 3 \<Longrightarrow> from_rgb size rgb = None"
    and "rc_decoder rc = Some d" "h264 d body = (Some rgb, d')"
    and "rgb \<noteq> []" "w \<noteq> 0" "h \<noteq> 0" "length rgb \<noteq> unat w * unat h * 3"
  shows "\<exists>frame. rc_video (on_data_message h264 (encode_h264_video_frame w h n body) rc) = Some frame \<and>
    video_texture from_rgb None frame = None"
proof -
  have head: "take 4 (encode_h264_video_frame w h n body) = h264_magic"
    by (simp add: encode_h264_video_frame_def h264_magic_def)
  then have "decode_video_frame (encode_h264_video_frame w h n body) = None"
    by (simp add: decode_video_frame_def magics)
  then show ?thesis using assms head
    by (simp add: on_data_message_def decode_encode_h264 video_texture_def unat_eq_zero)
qed

text \<open>The size check of a raw frame wraps, so a small payload can pass for an enormous picture.\<close>

lemma wrapped_frame_accepted:
  "decode_video_frame (video_magic @ to_le 4 (1431693603 :: u32) @ to_le 4 (4294853786 :: u32) @
      to_le 8 (1 :: u64) @ replicate 41258 0) =
   Some \<lparr>vf_width = 1431693603, vf_height = 4294853786, vf_frames = 1, vf_rgb = replicate 41258 0\<rparr>"
  by (simp add: decode_video_frame_def video_magic_def)

end
