(* ===== verification/Ui_Text.thy ===== *)
theory Ui_Text
  imports Client_Core Float32
begin

text \<open>
  The parts of \<open>client-ui\<close> that turn data into text and text into data: \<open>settings.rs\<close>,
  \<open>localization.rs\<close>, \<open>message_ui.rs\<close> (without the drawing) and \<open>updater.rs\<close>.  JSON is a codec,
  the environment and the update server are parameters.
\<close>

section \<open>Rust's string routines\<close>

text \<open>\<open>str::replace\<close> of a non-empty pattern.\<close>

function replace_all :: "string \<Rightarrow> string \<Rightarrow> string \<Rightarrow> string" where
  "replace_all pat to s =
     (case s of [] \<Rightarrow> []
      | c # cs \<Rightarrow> if pat \<noteq> [] \<and> take (length pat) s = pat
          then to @ replace_all pat to (drop (length pat) s) else c # replace_all pat to cs)"
  by pat_completeness auto
termination replace_all
  by (relation "measure (\<lambda>(pat, to, s). length s)") auto

declare replace_all.simps [simp del]

text \<open>\<open>str::chars\<close>: a character is a lead byte and its continuation bytes.\<close>

definition continuation :: "char \<Rightarrow> bool" where
  "continuation c \<longleftrightarrow> 0x80 \<le> (of_char c :: nat) \<and> (of_char c :: nat) < 0xC0"

function chars :: "string \<Rightarrow> string list" where
  "chars [] = []"
| "chars (c # cs) = (c # takeWhile continuation cs) # chars (dropWhile continuation cs)"
  by pat_completeness auto
termination chars
  by (relation "measure length") (auto simp: le_imp_less_Suc length_dropWhile_le)

fun is_whitespace :: "string \<Rightarrow> bool" where
  "is_whitespace [a] = ws1 a"
| "is_whitespace [a, b] = ws2 a b"
| "is_whitespace [a, b, c] = ws3 a b c"
| "is_whitespace _ = False"

lemma concat_chars: "concat (chars s) = s"
  by (induction s rule: chars.induct) simp_all

section \<open>message_ui.rs\<close>

datatype msg_status = Sending | Sent | Delivered | Read | Failed

definition message_status_label :: "msg_status \<Rightarrow> string" where
  "message_status_label status = (case status of
     Sending \<Rightarrow> ''sending'' | Sent \<Rightarrow> ''sent'' | Delivered \<Rightarrow> ''delivered''
   | Read \<Rightarrow> ''read'' | Failed \<Rightarrow> ''failed'')"

definition wrap_char :: "nat \<Rightarrow> string \<Rightarrow> string list \<times> nat \<Rightarrow> string list \<times> nat" where
  "wrap_char max_run ch st =
     (let (out, run) = st in
      if is_whitespace ch then (out @ [ch], 0)
      else let (out, run) = (if max_run \<le> run then (out @ [[CHR 0x0A]], 0) else (out, run))
           in (out @ [ch], run + 1))"

definition hard_wrap_long_words :: "string \<Rightarrow> nat \<Rightarrow> string" where
  "hard_wrap_long_words s max_run = concat (fst (fold (wrap_char max_run) (chars s) ([], 0)))"

text \<open>\<open>i64\<close> division truncates, \<open>rem_euclid\<close> does not; \<open>{:02}\<close> pads with a zero.\<close>

definition pad2 :: "nat \<Rightarrow> string" where
  "pad2 n = (if n < 10 then CHR ''0'' # decimal n else decimal n)"

definition format_message_time :: "int \<Rightarrow> string" where
  "format_message_time ts_ms =
     (let seconds = nat ((if ts_ms < 0 then - ((- ts_ms) div 1000) else ts_ms div 1000) mod 86400);
          hours = seconds div 3600;
          minutes = seconds mod 3600 div 60
      in pad2 hours @ '':'' @ pad2 minutes)"

subsection \<open>File sizes\<close>

text \<open>
  File sizes: \<open>u64 as f64\<close> rounds to 53 bits, the division by a power of two is exact, and
  \<open>{:.1}\<close> rounds the exact value to tenths; both round a half to even.
\<close>

definition f64_of_u64 :: "u64 \<Rightarrow> nat" where
  "f64_of_u64 n = (let e = floorlog 2 (unat n) - 53 in round_even (unat n) (2 ^ e) * 2 ^ e)"

definition show_tenths :: "nat \<Rightarrow> nat \<Rightarrow> string" where
  "show_tenths n unit = (let t = round_even (10 * n) unit in decimal (t div 10) @ ''.'' @ decimal (t mod 10))"

definition format_file_size :: "u64 \<Rightarrow> string" where
  "format_file_size n =
     (if n < 1024 then decimal (unat n) @ '' B''
      else if n < 1024 * 1024 then show_tenths (f64_of_u64 n) 1024 @ '' KB''
      else show_tenths (f64_of_u64 n) (1024 * 1024) @ '' MB'')"

lemma f64_exact: "unat n < 2 ^ 53 \<Longrightarrow> f64_of_u64 n = unat n"
proof -
  assume "unat n < 2 ^ 53"
  then have "floorlog 2 (unat n) \<le> 53" using floorlog_leI [of "unat n" 2 53] by simp
  then show ?thesis by (simp add: f64_of_u64_def round_even_def)
qed

lemma format_file_size_examples:
  "format_file_size 1023 = ''1023 B''" "format_file_size 1280 = ''1.2 KB''"
  "format_file_size 1048575 = ''1024.0 KB''" "format_file_size 104857600 = ''100.0 MB''"
  by (simp_all add: format_file_size_def show_tenths_def f64_exact round_even_def) code_simp+

subsection \<open>What wrapping keeps and bounds\<close>

text \<open>The longest run of characters without white space.\<close>

primrec longest_run :: "nat \<Rightarrow> string list \<Rightarrow> nat" where
  "longest_run run [] = run"
| "longest_run run (ch # chs) =
     (if is_whitespace ch then max run (longest_run 0 chs) else longest_run (run + 1) chs)"

definition run_after :: "nat \<Rightarrow> string list \<Rightarrow> nat" where
  "run_after run xs = foldl (\<lambda>n c. if is_whitespace c then 0 else n + 1) run xs"

lemma run_after_snoc: "run_after r (xs @ [x]) = (if is_whitespace x then 0 else run_after r xs + 1)"
  by (simp add: run_after_def)

lemma longest_run_snoc:
  "longest_run run (chs @ [ch]) = (if is_whitespace ch then longest_run run chs
     else max (longest_run run chs) (run_after run chs + 1))"
  by (induction chs arbitrary: run) (auto simp: run_after_def)

lemmas wrap_snoc = run_after_snoc longest_run_snoc
  run_after_snoc [of _ "xs @ [y]" for xs y, simplified] longest_run_snoc [of _ "xs @ [y]" for xs y, simplified]

definition wrapped :: "nat \<Rightarrow> string list \<Rightarrow> string list \<times> nat \<Rightarrow> bool" where
  "wrapped m chs st \<longleftrightarrow> snd st = run_after 0 (fst st) \<and> snd st \<le> m \<and> longest_run 0 (fst st) \<le> m \<and>
     filter (\<lambda>c. \<not> is_whitespace c) (fst st) = filter (\<lambda>c. \<not> is_whitespace c) chs"

lemma wrap_char_wrapped: "0 < m \<Longrightarrow> wrapped m chs st \<Longrightarrow> wrapped m (chs @ [ch]) (wrap_char m ch st)"
  using ws1_def [of "CHR 0x0A"]
  by (cases st) (auto simp: wrapped_def wrap_char_def Let_def wrap_snoc)

text \<open>
  No word on the screen is longer than the bound, and wrapping only adds line breaks.
\<close>

lemma hard_wrap_wrapped:
  assumes "0 < m"
  shows "wrapped m chs (fold (wrap_char m) chs ([], 0))"
proof (induction chs rule: rev_induct)
  case Nil
  then show ?case by (simp add: wrapped_def run_after_def)
next
  case (snoc ch chs)
  then show ?case using wrap_char_wrapped [OF assms] by simp
qed

section \<open>localization.rs\<close>

type_synonym texts = "(string \<times> string) list"

record localization =
  lo_fallback :: texts
  lo_current :: texts

definition normalize_language :: "string \<Rightarrow> string" where
  "normalize_language language = (if language = ''ru'' then ''ru'' else ''en'')"

definition locale_paths :: "string \<Rightarrow> string list" where
  "locale_paths language =
     [''locales/'' @ language @ ''.json'', ''crates/client-ui/locales/'' @ language @ ''.json'']"

fun load_first :: "texts codec \<Rightarrow> disk \<Rightarrow> string list \<Rightarrow> texts option" where
  "load_first J d [] = None"
| "load_first J d (path # paths) =
     (case Option.bind (files d path) from_utf8 of
        None \<Rightarrow> load_first J d paths
      | Some raw \<Rightarrow> (case from_json J raw of Some m \<Rightarrow> Some m | None \<Rightarrow> load_first J d paths))"

definition load_language_file :: "texts codec \<Rightarrow> disk \<Rightarrow> string \<Rightarrow> texts option" where
  "load_language_file J d language = load_first J d (locale_paths language)"

text \<open>\<open>embedded\<close> is the text compiled into the program for a language.\<close>

definition load_localization :: "texts codec \<Rightarrow> (string \<Rightarrow> texts) \<Rightarrow> disk \<Rightarrow> string \<Rightarrow> localization" where
  "load_localization J embedded d language =
     (let language = normalize_language language;
          fallback = (case load_language_file J d ''en'' of Some m \<Rightarrow> m | None \<Rightarrow> embedded ''en'');
          current =
            (if language = ''en'' then fallback
             else if language = ''ru'' then
               (case load_language_file J d language of Some m \<Rightarrow> m | None \<Rightarrow> embedded ''ru'')
             else (case load_language_file J d language of Some m \<Rightarrow> m | None \<Rightarrow> []))
      in \<lparr>lo_fallback = fallback, lo_current = current\<rparr>)"

definition localized :: "localization \<Rightarrow> string \<Rightarrow> string" where
  "localized L key = (case map_of (lo_current L) key of Some s \<Rightarrow> s
     | None \<Rightarrow> (case map_of (lo_fallback L) key of Some s \<Rightarrow> s | None \<Rightarrow> key))"

definition fill_in :: "string \<Rightarrow> (string \<times> string) list \<Rightarrow> string" where
  "fill_in template values =
     fold (\<lambda>(name, value) s. replace_all (''{'' @ name @ ''}'') value s) values template"

section \<open>settings.rs\<close>

datatype app_theme = ThemeSystem | ThemeLight | ThemeDark
datatype app_language = LanguageSystem | English | Russian

record app_settings =
  as_theme :: app_theme
  as_language :: app_language
  as_default_username :: string
  as_server_url :: string
  as_microphone :: string
  as_speaker :: string
  as_camera :: string
  as_ice_servers :: string
  as_turn_username :: string
  as_turn_password :: string
  as_noise_suppression :: bool
  as_automatic_gain_control :: bool
  as_show_call_debug_info :: bool

definition SYSTEM_DEFAULT_DEVICE :: string where "SYSTEM_DEFAULT_DEVICE = ''System default''"

text \<open>The derived \<open>Default\<close> of every field; the serde defaults belong to the codec.\<close>

definition default_settings :: app_settings where
  "default_settings = \<lparr>as_theme = ThemeSystem, as_language = LanguageSystem, as_default_username = [],
     as_server_url = [], as_microphone = [], as_speaker = [], as_camera = [], as_ice_servers = [],
     as_turn_username = [], as_turn_password = [], as_noise_suppression = False,
     as_automatic_gain_control = False, as_show_call_debug_info = False\<rparr>"

text \<open>What an object without a field is read as (\<open>#[serde(default = \<dots>)]\<close>).\<close>

definition serde_default_settings :: app_settings where
  "serde_default_settings = default_settings\<lparr>as_microphone := SYSTEM_DEFAULT_DEVICE,
     as_speaker := SYSTEM_DEFAULT_DEVICE, as_camera := SYSTEM_DEFAULT_DEVICE,
     as_ice_servers := ''stun:stun.l.google.com:19302'', as_noise_suppression := True,
     as_automatic_gain_control := True\<rparr>"

definition ascii_lower :: "char \<Rightarrow> char" where
  "ascii_lower c = (let n = of_char c :: nat in if 65 \<le> n \<and> n \<le> 90 then char_of (n + 32) else c)"

definition system_language_code :: "os_env \<Rightarrow> string" where
  "system_language_code oe =
     (let language = (case env_var oe ''LANG'' of Some l \<Rightarrow> l
        | None \<Rightarrow> (case env_var oe ''LC_ALL'' of Some l \<Rightarrow> l | None \<Rightarrow> []))
      in if take 2 (map ascii_lower language) = ''ru'' then ''ru'' else ''en'')"

definition language_code :: "os_env \<Rightarrow> app_language \<Rightarrow> string" where
  "language_code oe language = (case language of
     LanguageSystem \<Rightarrow> system_language_code oe | English \<Rightarrow> ''en'' | Russian \<Rightarrow> ''ru'')"

definition settings_file :: "os_env \<Rightarrow> string" where
  "settings_file oe = profile_file oe ''rsmsg_settings''"

definition legacy_settings_file :: "os_env \<Rightarrow> string" where
  "legacy_settings_file oe = legacy_profile_file oe ''rsmsg_settings''"

definition load_settings :: "os_env \<Rightarrow> app_settings codec \<Rightarrow> disk \<Rightarrow> app_settings" where
  "load_settings oe J d =
     (let raw = (case Option.bind (files d (settings_file oe)) from_utf8 of Some raw \<Rightarrow> raw
        | None \<Rightarrow> (case Option.bind (files d (legacy_settings_file oe)) from_utf8 of Some raw \<Rightarrow> raw | None \<Rightarrow> []))
      in if raw = [] then default_settings
         else (case from_json J raw of Some s \<Rightarrow> s | None \<Rightarrow> default_settings))"

definition save_settings :: "os_env \<Rightarrow> app_settings codec \<Rightarrow> app_settings \<Rightarrow> disk \<Rightarrow> disk" where
  "save_settings oe J settings d = snd (write_file (settings_file oe) (as_bytes (to_json J settings)) d)"

text \<open>How \<open>media.rs\<close> finds a device by the name in the settings.\<close>

definition select_device :: "string \<Rightarrow> 'd option \<Rightarrow> (string \<times> 'd) list \<Rightarrow> 'd option" where
  "select_device device_name default_device devices =
     (if device_name = SYSTEM_DEFAULT_DEVICE then default_device
      else map_option snd (List.find (\<lambda>(name, _). name = device_name) devices))"

text \<open>
  On a first start no settings file exists and the derived default applies, not the serde one:
  the microphone's name is empty, so no device is found although the system has a default one.
\<close>

lemma first_start_finds_no_microphone:
  assumes "files d (settings_file oe) = None" "files d (legacy_settings_file oe) = None"
    and "\<forall>(name, dev) \<in> set devices. name \<noteq> []"
  shows "select_device (as_microphone (load_settings oe J d)) (Some dev) devices = None \<and>
    select_device (as_microphone serde_default_settings) (Some dev) devices = Some dev"
  using assms
  by (auto simp: select_device_def load_settings_def default_settings_def serde_default_settings_def
      SYSTEM_DEFAULT_DEVICE_def find_None_iff)

lemma saved_settings_load:
  assumes "json_laws J" "broken d (settings_file oe) = None" "to_json J settings \<noteq> []"
  shows "load_settings oe J (save_settings oe J settings d) = settings"
  using assms json_file [OF assms(1)]
  by (simp add: load_settings_def save_settings_def write_file_def json_laws_def)

section \<open>updater.rs\<close>

record manifest_platform =
  mp_url :: string
  mp_sha256 :: string

record manifest =
  mf_version :: string
  mf_minimum_supported_version :: string
  mf_mandatory :: bool
  mf_notes_url :: "string option"
  mf_platforms :: "(string \<times> manifest_platform) list"

record update_info =
  ui_version :: string
  ui_current_version :: string
  ui_minimum_supported_version :: string
  ui_mandatory :: bool
  ui_url :: string
  ui_sha256 :: string
  ui_notes_url :: "string option"

definition u_parse_version :: "string \<Rightarrow> nat \<times> nat \<times> nat" where
  "u_parse_version version =
     (let parts = map (\<lambda>part. unwrap_or_default (parse_u64 part)) (split_version version)
      in (nth_part parts 0, nth_part parts 1, nth_part parts 2))"

definition u_version_gt :: "string \<Rightarrow> string \<Rightarrow> bool" where
  "u_version_gt left right \<longleftrightarrow> u_parse_version left > u_parse_version right"

definition u_platform_key :: "string \<Rightarrow> string \<Rightarrow> string" where
  "u_platform_key system arch =
     (if (system, arch) = (''windows'', ''x86_64'') then ''windows-x86_64''
      else if (system, arch) = (''macos'', ''aarch64'') then ''macos-aarch64''
      else if (system, arch) = (''macos'', ''x86_64'') then ''macos-x86_64''
      else if (system, arch) = (''linux'', ''x86_64'') then ''linux-x86_64''
      else ''unknown'')"

text \<open>\<open>fetch\<close> is the request for the manifest: its errors are those of the request, of a status
  that is no success and of the JSON.\<close>

definition check_for_update ::
  "(string \<Rightarrow> ('w, string, manifest) comp) \<Rightarrow> string \<Rightarrow> string \<Rightarrow> string \<Rightarrow> string \<Rightarrow>
   ('w, string, update_info option) comp" where
  "check_for_update fetch system arch manifest_url current_version =
     bindS (fetch manifest_url) (\<lambda>manifest.
     let platform_key = u_platform_key system arch in
     bindS (ok_or (map_of (mf_platforms manifest) platform_key)
       (''update manifest has no package for '' @ platform_key)) (\<lambda>platform.
     let update_available = u_version_gt (mf_version manifest) current_version;
         unsupported = u_version_gt (mf_minimum_supported_version manifest) current_version in
     if \<not> update_available \<and> \<not> unsupported then returnS None
     else returnS (Some \<lparr>ui_version = mf_version manifest, ui_current_version = current_version,
       ui_minimum_supported_version = mf_minimum_supported_version manifest,
       ui_mandatory = (mf_mandatory manifest \<or> unsupported), ui_url = mp_url platform,
       ui_sha256 = mp_sha256 platform, ui_notes_url = mf_notes_url manifest\<rparr>)))"

text \<open>The client's comparison and the server's are the same function of two files.\<close>

lemma u_version_gt_eq: "u_version_gt = version_gt"
  by (simp add: fun_eq_iff u_version_gt_def version_gt_def u_parse_version_def parse_version_def)

text \<open>The client's updater and the server's gate, each on the texts of versions.\<close>

lemma updater_mandatory_iff:
  assumes "fetch url w = (Inr manifest, w')"
    and "map_of (mf_platforms manifest) (u_platform_key system arch) = Some platform"
    and "mf_minimum_supported_version manifest = version_text a b c" "a < 2 ^ 64" "b < 2 ^ 64" "c < 2 ^ 64"
    and "x < 2 ^ 64" "y < 2 ^ 64" "z < 2 ^ 64"
  shows "(\<exists>info. fst (check_for_update fetch system arch url (version_text x y z) w) = Inr (Some info) \<and> ui_mandatory info) \<longleftrightarrow>
    (x, y, z) < (a, b, c) \<or>
    mf_mandatory manifest \<and> parse_version (mf_version manifest) > (x, y, z)"
  using assms(1-3) parse_version_text [OF assms(4-6), of "[]"] parse_version_text [OF assms(7-9), of "[]"]
  by (auto simp: check_for_update_def bindS_apply u_version_gt_eq version_gt_def extension_def Let_def
      simp del: less_prod_simp)

lemma gate_refuses_iff:
  assumes "min_client_version s = version_text k l m" "k < 2 ^ 64" "l < 2 ^ 64" "m < 2 ^ 64"
    and "x < 2 ^ 64" "y < 2 ^ 64" "z < 2 ^ 64"
    and "rq_headers rq ''x-rsmsg-client-version'' = Some (version_text x y z)" "rq_path rq \<noteq> ''/health''"
    and "rs_status (fst (run rq s)) \<noteq> UPGRADE_REQUIRED"
  shows "rs_status (fst (require_supported_client rq run s)) = UPGRADE_REQUIRED \<longleftrightarrow> (x, y, z) < (k, l, m)"
proof -
  have "parse_version (min_client_version s) = (k, l, m)" "parse_version (version_text x y z) = (x, y, z)"
    using assms(1) parse_version_text [OF assms(2-4), of "[]"] parse_version_text [OF assms(5-7), of "[]"]
    by (simp_all add: extension_def)
  then show ?thesis
    using assms(8-10) by (simp add: gate_eq upgrade_required_def not_le) (auto simp: not_less)
qed

lemma same_cut:
  fixes p q :: "nat \<times> nat \<times> nat"
  assumes "P p" "P q"
  shows "(\<forall>v. P v \<longrightarrow> (v < p \<longleftrightarrow> v < q)) \<longleftrightarrow> p = q"
proof
  assume "\<forall>v. P v \<longrightarrow> (v < p \<longleftrightarrow> v < q)"
  then have "\<not> p < q" "\<not> q < p" using assms by blast+
  then show "p = q" by (intro antisym) (simp_all add: not_less)
qed simp

text \<open>
  C34.  When the updater and the version gate agree.  The updater goes by the minimum of the
  release manifest, the server by its own \<open>MIN_CLIENT_VERSION\<close>.  For a manifest that can be
  fetched, has a package for the client's platform and does not mark the release mandatory by
  itself, and for requests other than \<open>/health\<close> that the server would not answer with 426
  behind the gate: the updater reports a mandatory update to exactly the clients whose requests
  the server refuses with 426, whatever their version \<open>x.y.z\<close>, if and only if the two minimums
  are the same version.
\<close>

theorem mandatory_update_iff_refused:
  assumes "fetch url w = (Inr manifest, w')"
    and "map_of (mf_platforms manifest) (u_platform_key system arch) = Some platform"
    and "\<not> mf_mandatory manifest"
    and "mf_minimum_supported_version manifest = version_text a b c" "a < 2 ^ 64" "b < 2 ^ 64" "c < 2 ^ 64"
    and "min_client_version s = version_text k l m" "k < 2 ^ 64" "l < 2 ^ 64" "m < 2 ^ 64"
    and "rq_path rq \<noteq> ''/health''" "\<forall>rq. rs_status (fst (run rq s)) \<noteq> UPGRADE_REQUIRED"
  shows "(\<forall>x y z. x < 2 ^ 64 \<and> y < 2 ^ 64 \<and> z < 2 ^ 64 \<longrightarrow>
      ((\<exists>info. fst (check_for_update fetch system arch url (version_text x y z) w) = Inr (Some info) \<and> ui_mandatory info) \<longleftrightarrow>
       rs_status (fst (require_supported_client
         (rq\<lparr>rq_headers := (rq_headers rq)(''x-rsmsg-client-version'' \<mapsto> version_text x y z)\<rparr>) run s)) = UPGRADE_REQUIRED))
    \<longleftrightarrow> (a, b, c) = (k, l, m)"
proof -
  let ?P = "\<lambda>(x, y, z). x < (2 :: nat) ^ 64 \<and> y < (2 :: nat) ^ 64 \<and> z < (2 :: nat) ^ 64"
  have u: "(\<exists>info. fst (check_for_update fetch system arch url (version_text x y z) w) = Inr (Some info) \<and> ui_mandatory info) \<longleftrightarrow>
      (x, y, z) < (a, b, c)" if "?P (x, y, z)" for x y z
    using updater_mandatory_iff [of fetch url w manifest w' system arch platform a b c x y z]
      assms(1-7) that by (simp del: less_prod_simp)
  have g: "rs_status (fst (require_supported_client
      (rq\<lparr>rq_headers := (rq_headers rq)(''x-rsmsg-client-version'' \<mapsto> version_text x y z)\<rparr>) run s)) = UPGRADE_REQUIRED \<longleftrightarrow>
      (x, y, z) < (k, l, m)" if "?P (x, y, z)" for x y z
    using that assms(12,13) by (intro gate_refuses_iff [OF assms(8-11)]) simp_all
  have "?P (a, b, c)" "?P (k, l, m)" using assms(5-7,9-11) by simp_all
  from same_cut [of ?P, OF this] u g show ?thesis by (simp del: less_prod_simp)
qed

definition manifest0 :: manifest where
  "manifest0 = \<lparr>mf_version = version_text 0 10 0, mf_minimum_supported_version = version_text 0 10 0,
     mf_mandatory = False, mf_notes_url = None, mf_platforms = [(''linux-x86_64'', \<lparr>mp_url = ''u'', mp_sha256 = ''h''\<rparr>)]\<rparr>"

text \<open>
  The two defaults of the repository: a manifest whose minimum is the release itself, here
  0.10.0, and a server without a minimum.  They do not agree on all clients.
\<close>

lemma mandatory_update_iff_refused_witness:
  "\<exists>x y z. \<not> ((\<exists>info. fst (check_for_update (\<lambda>url w. (Inr manifest0, w)) ''linux'' ''x86_64'' ''m'' (version_text x y z) ()) =
        Inr (Some info) \<and> ui_mandatory info) \<longleftrightarrow>
     rs_status (fst (require_supported_client \<lparr>rq_method = POST, rq_path = ''/v1/user_login'',
         rq_headers = [''x-rsmsg-client-version'' \<mapsto> version_text x y z], rq_body = QNone, rq_length = 0\<rparr>
       (\<lambda>rq s. (\<lparr>rs_status = 200, rs_body = BResponse PEmpty\<rparr>, s)) (server0\<lparr>min_client_version := version_text 0 0 0\<rparr>))) =
       UPGRADE_REQUIRED)"
  using mandatory_update_iff_refused [where fetch = "\<lambda>url w. (Inr manifest0, w)" and url = "''m''"
      and w = "()" and w' = "()" and manifest = manifest0 and system = "''linux''" and arch = "''x86_64''"
      and platform = "\<lparr>mp_url = ''u'', mp_sha256 = ''h''\<rparr>" and a = 0 and b = 10 and c = 0
      and s = "server0\<lparr>min_client_version := version_text 0 0 0\<rparr>" and k = 0 and l = 0 and m = 0
      and run = "\<lambda>rq s. (\<lparr>rs_status = 200, rs_body = BResponse PEmpty\<rparr>, s)"
      and rq = "\<lparr>rq_method = POST, rq_path = ''/v1/user_login'', rq_headers = Map.empty, rq_body = QNone, rq_length = 0\<rparr>"]
  by (simp add: manifest0_def u_platform_key_def) blast

end
