(* ===== verification/App_State.thy ===== *)
theory App_State
  imports Media_Frames Ui_Text
begin

text \<open>
  The state of the client's window (\<open>MessengerApp\<close> of \<open>app.rs\<close>) and of its chats (\<open>history.rs\<close>).
  A background thread is a \<open>job\<close>: starting one puts it on the list of spawned jobs and, where
  the code keeps a channel for its result, in the matching \<open>rx\<close> field; a frame of the window
  polls the channel (\<open>try_recv\<close>) with the outcome as an argument.  The widgets, the tray and
  the devices stay outside.
\<close>

section \<open>\<open>BTreeMap\<close>\<close>

type_synonym ('k, 'v) btree = "('k \<times> 'v) list"   \<comment> \<open>in the order of the keys\<close>

fun bt_insert :: "'k::linorder \<Rightarrow> 'v \<Rightarrow> ('k, 'v) btree \<Rightarrow> ('k, 'v) btree" where
  "bt_insert k v [] = [(k, v)]"
| "bt_insert k v ((a, b) # m) =
     (if k = a then (k, v) # m else if k < a then (k, v) # (a, b) # m else (a, b) # bt_insert k v m)"

definition bt_remove :: "'k \<Rightarrow> ('k, 'v) btree \<Rightarrow> ('k, 'v) btree" where
  "bt_remove k m = filter (\<lambda>(a, _). a \<noteq> k) m"

definition bt_modify :: "'k \<Rightarrow> ('v \<Rightarrow> 'v) \<Rightarrow> ('k, 'v) btree \<Rightarrow> ('k, 'v) btree" where
  "bt_modify k f m = map (\<lambda>(a, b). (a, if a = k then f b else b)) m"

text \<open>\<open>entry(k).or_insert(v)\<close> without the reference it returns.\<close>

definition bt_or_insert :: "'k::linorder \<Rightarrow> 'v \<Rightarrow> ('k, 'v) btree \<Rightarrow> ('k, 'v) btree" where
  "bt_or_insert k v m = (if map_of m k = None then bt_insert k v m else m)"

named_theorems btree_simps \<open>look-ups after changes\<close>

lemma map_of_bt_insert [btree_simps]: "map_of (bt_insert k v m) = (map_of m)(k \<mapsto> v)"
  by (induction m) auto

lemma map_of_bt_remove [btree_simps]: "map_of (bt_remove k m) = (map_of m)(k := None)"
  unfolding bt_remove_def by (induction m) (auto simp: fun_eq_iff)

lemma map_of_bt_modify [btree_simps]:
  "map_of (bt_modify k f m) a = (if a = k then map_option f (map_of m a) else map_of m a)"
  unfolding bt_modify_def by (induction m) auto

lemma map_of_bt_or_insert [btree_simps]:
  "map_of (bt_or_insert k v m) a = (if a = k \<and> map_of m k = None then Some v else map_of m a)"
  by (auto simp: bt_or_insert_def btree_simps)

abbreviation keys_sorted :: "('k::linorder, 'v) btree \<Rightarrow> bool" where
  "keys_sorted m \<equiv> sorted_wrt (<) (map fst m)"

lemma keys_bt_insert: "set (map fst (bt_insert k v m)) = insert k (set (map fst m))"
  by (induction k v m rule: bt_insert.induct) auto

lemma keys_sorted_insert: "keys_sorted m \<Longrightarrow> keys_sorted (bt_insert k v m)"
proof (induction m)
  case (Cons p m)
  obtain a b where p: "p = (a, b)" by fastforce
  have "x \<in> set (map fst (bt_insert k v m)) \<Longrightarrow> a < k \<Longrightarrow> a < x" for x
    using Cons.prems unfolding keys_bt_insert by (auto simp: p)
  then show ?case using Cons by (auto simp: p)
qed simp

lemma keys_sorted_remove: "keys_sorted m \<Longrightarrow> keys_sorted (bt_remove k m)"
  unfolding bt_remove_def by (induction m) auto

lemma keys_sorted_modify: "keys_sorted (bt_modify k f m) = keys_sorted m"
proof -
  have "map fst (bt_modify k f m) = map fst m" unfolding bt_modify_def by (induction m) auto
  then show ?thesis by simp
qed

lemma keys_sorted_or_insert: "keys_sorted m \<Longrightarrow> keys_sorted (bt_or_insert k v m)"
  by (simp add: bt_or_insert_def keys_sorted_insert)

section \<open>history.rs\<close>

record chat_message =
  cm_outgoing :: bool
  cm_text :: string
  cm_ts :: int
  cm_status :: msg_status
  cm_message_id :: "string option"
  cm_file_name :: "string option"
  cm_file_size :: "u64 option"
  cm_file_data_b64 :: "string option"
  cm_blob_id :: "string option"
  cm_file_key_b64 :: "string option"

record chat_history =
  ch_chats :: "(string, chat_message list) btree"
  ch_peer_by_device_uuid :: "(string, string) btree"
  ch_device_uuid_by_peer :: "(string, string) btree"
  ch_unread_by_peer :: "(string, u32) btree"
  ch_peer_identity_key_by_peer :: "(string, string) btree"
  ch_peer_signing_identity_key_by_peer :: "(string, string) btree"

definition default_history :: chat_history where
  "default_history = \<lparr>ch_chats = [], ch_peer_by_device_uuid = [], ch_device_uuid_by_peer = [],
     ch_unread_by_peer = [], ch_peer_identity_key_by_peer = [], ch_peer_signing_identity_key_by_peer = []\<rparr>"

definition history_file :: "os_env \<Rightarrow> string" where
  "history_file oe = profile_file oe ''rsmsg_chat_history''"

definition legacy_history_file :: "os_env \<Rightarrow> string" where
  "legacy_history_file oe = legacy_profile_file oe ''rsmsg_chat_history''"

definition load_history :: "vault_env \<Rightarrow> os_env \<Rightarrow> chat_history codec \<Rightarrow> string option \<Rightarrow> disk \<Rightarrow> chat_history" where
  "load_history V oe J password d =
     (case load_json V J (history_file oe) password d of Some history \<Rightarrow> history
      | None \<Rightarrow>
     (case load_json V J (legacy_history_file oe) password d of Some history \<Rightarrow> history
      | None \<Rightarrow>
     (case (case Option.bind (files d (history_file oe)) from_utf8 of Some raw \<Rightarrow> Some raw
        | None \<Rightarrow> Option.bind (files d (legacy_history_file oe)) from_utf8) of
        None \<Rightarrow> default_history
      | Some raw \<Rightarrow> (case from_json J raw of Some history \<Rightarrow> history | None \<Rightarrow> default_history))))"

definition save_history_file :: "vault_env \<Rightarrow> os_env \<Rightarrow> chat_history codec \<Rightarrow> client_draws \<Rightarrow> string option \<Rightarrow>
    chat_history \<Rightarrow> disk \<Rightarrow> disk" where
  "save_history_file V oe J dr password history d =
     snd (save_json V (cd_salt dr) (cd_vault_nonce dr) J (history_file oe) history password d)"

section \<open>Jobs and their results\<close>

datatype block_action = BlockList | Block string | Unblock string

datatype send_content = SendText string | SendFile string string   \<comment> \<open>name and path\<close>

record peer_mapping =
  pm_device_uuid :: string
  pm_peer :: string
  pm_bundle :: fetch_prekey_bundle_response

record open_chat_success =
  oc_peer :: string
  oc_resolved_uuid :: string
  oc_bundle :: fetch_prekey_bundle_response

record sync_success =
  ss_peer_mappings :: "peer_mapping list"
  ss_decrypted :: "decrypted_message list"
  ss_statuses :: "outgoing_message_status list"
  ss_pending_count :: nat

record send_result =
  sr_chat_name :: string
  sr_message_index :: nat
  sr_result :: "string + unit"

datatype send_event = SendProgress string u64 u64 | SendDone send_result

datatype save_file_event = SaveProgress string u64 u64 | SaveDone string "string + unit"

record call_state =
  ac_peer :: string
  ac_peer_device_uuid :: string
  ac_call_id :: string
  ac_video :: bool
  ac_microphone_muted :: bool
  ac_camera_disabled :: bool
  ac_incoming :: bool
  ac_accepted :: bool
  ac_signaling_status :: string
  ac_started_at :: nat
  ac_last_signal_poll_at :: nat

datatype webrtc_action = LocalOffer string | LocalAnswer string | RemoteAnswerApplied

record ice_config =
  ic_servers :: "string list"
  ic_turn_username :: string
  ic_turn_password :: string

record 'w login_success =
  ls_core :: "'w client"
  ls_local_keys :: local_device_keys
  ls_history :: chat_history
  ls_auth :: device_auth
  ls_nickname :: string
  ls_password :: string
  ls_server_input :: string
  ls_status :: string

record sync_request =
  sq_local_keys :: local_device_keys
  sq_auth :: device_auth
  sq_peer_by_device_uuid :: "(string, string) btree"
  sq_peer_identity_key_by_peer :: "(string, string) btree"
  sq_peer_signing_identity_key_by_peer :: "(string, string) btree"
  sq_peers_missing_safety :: "string list"
  sq_outgoing_message_ids :: "string list"

type_synonym session_handle = nat   \<comment> \<open>a \<open>WebRtcSession\<close>\<close>

datatype job =
    JLogin bool string string string "string option" string
  | JLogout device_auth
  | JOpenChat device_auth local_device_keys string
  | JSearch string
  | JBlock device_auth block_action
  | JSend device_auth string send_content string string nat
  | JSync sync_request
  | JReadAck device_auth string "string list"
  | JSaveInline string string string
  | JSaveBlob device_auth string string string string
  | JTrust local_device_keys string
  | JCall device_auth string string string bool string
  | JFetchSignals device_auth "string option"
  | JSignal device_auth string string string string
  | JOffer ice_config
  | JAnswer string ice_config
  | JApplyAnswer session_handle string
  | JCloseSession session_handle
  | JUpdate

datatype viewport_command = CancelClose | CloseWindow | Visible bool | Minimized bool | FocusWindow

datatype effect = Notify string string | CallTone string | Viewport viewport_command

datatype 'r received = Received 'r | Empty | Disconnected

section \<open>The window's state\<close>

record 'w app =
  ap_core :: "'w client"            \<comment> \<open>with the disk and the network's world\<close>
  ap_local_keys :: "local_device_keys option"
  ap_history :: chat_history
  ap_server_input :: string
  ap_nickname :: string
  ap_password :: string
  ap_auth :: "device_auth option"
  ap_status :: string
  ap_tray :: bool
  ap_hidden_to_tray :: bool
  ap_quit_requested :: bool
  ap_settings :: app_settings
  ap_localization :: localization
  ap_settings_open :: bool
  ap_create_account_open :: bool
  ap_delete_chat_confirm :: "string option"
  ap_register_nickname :: string
  ap_register_password :: string
  ap_register_invite_code :: string
  ap_peer_nickname_input :: string
  ap_peer_search_results :: "string list"
  ap_blocked_users :: "string list"
  ap_selected_chat :: string
  ap_message_input :: string
  ap_key_change_peer :: "string option"
  ap_login_rx :: "job option"
  ap_open_chat_rx :: "job option"
  ap_search_rx :: "job option"
  ap_block_rx :: "job option"
  ap_send_rx :: "job option"
  ap_sync_rx :: "job option"
  ap_read_ack_rx :: "job option"
  ap_save_file_rx :: "job option"
  ap_trust_rx :: "job option"
  ap_call_rx :: "job option"
  ap_call_signal_rx :: "job option"
  ap_webrtc_rx :: "job option"
  ap_update_rx :: "job option"
  ap_active_call :: "call_state option"
  ap_microphone_devices :: "string list"
  ap_speaker_devices :: "string list"
  ap_camera_devices :: "string list"
  ap_media_session :: bool
  ap_video_capture_session :: bool
  ap_webrtc_session :: "session_handle option"
  ap_audio_playback :: bool
  ap_media_failed_call_id :: "string option"
  ap_update_info :: "update_info option"
  ap_update_window_open :: bool
  ap_last_sync_at :: nat
  ap_last_call_signal_poll_at :: nat
  ap_jobs :: "job list"             \<comment> \<open>threads spawned so far, newest first\<close>
  ap_effects :: "effect list"

record 'w app_env =
  ae_client :: "'w client_env"
  ae_os :: os_env
  ae_history :: "chat_history codec"
  ae_settings :: "app_settings codec"
  ae_locale :: "texts codec"
  ae_embedded :: "string \<Rightarrow> texts"
  ae_microphone :: "string \<Rightarrow> string + unit"   \<comment> \<open>\<open>start_microphone_capture_with_sender\<close>\<close>
  ae_playback :: "string \<Rightarrow> bool"              \<comment> \<open>\<open>start_audio_playback(..).ok()\<close>\<close>
  ae_open_url :: "string \<Rightarrow> string + unit"
  ae_input_devices :: "string option list"     \<comment> \<open>the devices' names, where they have one\<close>
  ae_output_devices :: "string option list"
  ae_cameras :: "string option list"
  ae_sha256 :: "bytes \<Rightarrow> bytes"
  ae_version :: string

text \<open>What a step reads from outside: the clocks, fresh identifiers and random bytes.\<close>

record tick =
  tk_now_ms :: int
  tk_instant :: nat
  tk_uuid :: string
  tk_uuid2 :: string
  tk_draws :: client_draws

definition tx :: "'w app \<Rightarrow> string \<Rightarrow> string" where
  "tx A key = localized (ap_localization A) key"

definition txf :: "'w app \<Rightarrow> string \<Rightarrow> (string \<times> string) list \<Rightarrow> string" where
  "txf A key values = fill_in (tx A key) values"

definition localize_status_error :: "'w app \<Rightarrow> string \<Rightarrow> string" where
  "localize_status_error A error =
     fold (\<lambda>(pat, key) s. replace_all pat (tx A key) s)
       [(''invalid credentials'', ''error.invalid_credentials''),
        (''client version is no longer supported'', ''update.client_unsupported''),
        (''invite code already used'', ''error.invite_used''),
        (''nickname already exists'', ''error.nickname_exists''),
        (''recipient blocked you'', ''error.recipient_blocked_you''),
        (''you blocked recipient'', ''error.you_blocked_recipient''),
        (''user is not online'', ''call.user_offline'')] error"

definition say :: "string \<Rightarrow> 'w app \<Rightarrow> 'w app" where
  "say key A = A\<lparr>ap_status := tx A key\<rparr>"

definition spawn :: "job \<Rightarrow> 'w app \<Rightarrow> 'w app" where
  "spawn j A = A\<lparr>ap_jobs := j # ap_jobs A\<rparr>"

definition is_user_blocked :: "'w app \<Rightarrow> string \<Rightarrow> bool" where
  "is_user_blocked A user_id \<longleftrightarrow> user_id \<in> set (ap_blocked_users A)"

definition password_for_local_storage :: "'w app \<Rightarrow> string option" where
  "password_for_local_storage A =
     (if ap_auth A \<noteq> None \<and> ap_password A \<noteq> [] then Some (ap_password A) else None)"

definition on_core_disk :: "(disk \<Rightarrow> disk) \<Rightarrow> 'w app \<Rightarrow> 'w app" where
  "on_core_disk f A = A\<lparr>ap_core := (ap_core A)\<lparr>cl_disk := f (cl_disk (ap_core A))\<rparr>\<rparr>"

definition save_history :: "'w app_env \<Rightarrow> client_draws \<Rightarrow> 'w app \<Rightarrow> 'w app" where
  "save_history X dr A = on_core_disk (save_history_file (ce_vault (ae_client X)) (ae_os X) (ae_history X) dr
     (password_for_local_storage A) (ap_history A)) A"

definition on_history :: "(chat_history \<Rightarrow> chat_history) \<Rightarrow> 'w app \<Rightarrow> 'w app" where
  "on_history f A = A\<lparr>ap_history := f (ap_history A)\<rparr>"

definition on_call :: "(call_state \<Rightarrow> call_state) \<Rightarrow> 'w app \<Rightarrow> 'w app" where
  "on_call f A = A\<lparr>ap_active_call := map_option f (ap_active_call A)\<rparr>"

end
