(* ===== verification/App_Account.thy ===== *)
theory App_Account
  imports App_State
begin

text \<open>
  The account side of the window: updates, login and logout, the pinned identities of the peers
  and the read receipts, as operations on the state of \<open>App_State\<close>.  A \<open>poll_\<close> operation takes
  what \<open>try_recv\<close> on its channel returns.
\<close>

section \<open>Accounts\<close>

definition check_for_updates :: "'w app \<Rightarrow> 'w app" where
  "check_for_updates A =
     (if ap_update_rx A \<noteq> None then A else spawn JUpdate (A\<lparr>ap_update_rx := Some JUpdate\<rparr>))"

definition poll_update_result :: "(string + update_info option) received \<Rightarrow> 'w app \<Rightarrow> 'w app" where
  "poll_update_result outcome A =
     (case ap_update_rx A of None \<Rightarrow> A
      | Some rx \<Rightarrow> let A = A\<lparr>ap_update_rx := None\<rparr> in
          (case outcome of
             Received (Inr (Some info)) \<Rightarrow> A\<lparr>ap_update_info := Some info, ap_update_window_open := True\<rparr>
           | Received (Inr None) \<Rightarrow> A
           | Received (Inl err) \<Rightarrow> A\<lparr>ap_status := err\<rparr>
           | Empty \<Rightarrow> A\<lparr>ap_update_rx := Some rx\<rparr>
           | Disconnected \<Rightarrow> A))"

definition register_or_login :: "'w app_env \<Rightarrow> bool \<Rightarrow> 'w app \<Rightarrow> 'w app" where
  "register_or_login X create A =
     (if ap_login_rx A \<noteq> None then A
      else if (case ap_update_info A of Some info \<Rightarrow> ui_mandatory info | None \<Rightarrow> False)
      then say ''update.login_blocked'' (A\<lparr>ap_update_window_open := True\<rparr>)
      else if trim (ap_nickname A) = [] \<or> length (ap_password A) < 6
      then say ''error.enter_nickname_password'' A
      else let j = JLogin create (ap_nickname A) (ap_password A) (ap_server_input A) None
                 (language_code (ae_os X) (as_language (ap_settings A)))
           in spawn j (say (if create then ''status.creating_account'' else ''status.logging_in'')
                (A\<lparr>ap_login_rx := Some j\<rparr>)))"

definition create_account :: "'w app_env \<Rightarrow> 'w app \<Rightarrow> 'w app" where
  "create_account X A =
     (if ap_login_rx A \<noteq> None then A
      else if trim (ap_register_nickname A) = [] \<or> length (ap_register_password A) < 6
      then say ''error.enter_nickname_password'' A
      else if trim (ap_register_invite_code A) = [] then say ''error.enter_invite'' A
      else let j = JLogin True (trim (ap_register_nickname A)) (ap_register_password A) (ap_server_input A)
                 (Some (trim (ap_register_invite_code A)))
                 (language_code (ae_os X) (as_language (ap_settings A)))
           in spawn j (say ''status.creating_account'' (A\<lparr>ap_login_rx := Some j\<rparr>)))"

definition run_block_action :: "device_auth \<Rightarrow> block_action \<Rightarrow> 'w app \<Rightarrow> 'w app" where
  "run_block_action auth action A =
     (if ap_block_rx A \<noteq> None then A
      else spawn (JBlock auth action) (A\<lparr>ap_block_rx := Some (JBlock auth action)\<rparr>))"

definition refresh_blocked_users :: "'w app \<Rightarrow> 'w app" where
  "refresh_blocked_users A =
     (case ap_auth A of None \<Rightarrow> A | Some auth \<Rightarrow> run_block_action auth BlockList A)"

definition save_app_settings :: "'w app_env \<Rightarrow> 'w app \<Rightarrow> 'w app" where
  "save_app_settings X A = on_core_disk (save_settings (ae_os X) (ae_settings X) (ap_settings A)) A"

text \<open>The new core works on the same disk and network as the old one.\<close>

definition adopt_core :: "'w client \<Rightarrow> 'w client \<Rightarrow> 'w client" where
  "adopt_core core old = core\<lparr>cl_disk := cl_disk old, cl_world := cl_world old\<rparr>"

definition apply_login :: "'w app_env \<Rightarrow> 'w login_success \<Rightarrow> 'w app \<Rightarrow> 'w app" where
  "apply_login X success A =
     (let A = refresh_blocked_users (A\<lparr>ap_core := adopt_core (ls_core success) (ap_core A),
            ap_local_keys := Some (ls_local_keys success), ap_history := ls_history success,
            ap_auth := Some (ls_auth success), ap_nickname := ls_nickname success,
            ap_password := ls_password success, ap_server_input := ls_server_input success,
            ap_status := ls_status success, ap_create_account_open := False,
            ap_register_password := [], ap_register_invite_code := []\<rparr>)
      in if trim (as_default_username (ap_settings A)) = []
         then save_app_settings X (A\<lparr>ap_settings := (ap_settings A)\<lparr>as_default_username := ap_nickname A\<rparr>\<rparr>)
         else A)"

definition poll_login_result :: "'w app_env \<Rightarrow> (string + 'w login_success) received \<Rightarrow> 'w app \<Rightarrow> 'w app" where
  "poll_login_result X outcome A =
     (case ap_login_rx A of None \<Rightarrow> A
      | Some rx \<Rightarrow> let A = A\<lparr>ap_login_rx := None\<rparr> in
          (case outcome of
             Received (Inr success) \<Rightarrow> apply_login X success A
           | Received (Inl err) \<Rightarrow> A\<lparr>ap_status := localize_status_error A err\<rparr>
           | Empty \<Rightarrow> A\<lparr>ap_login_rx := Some rx\<rparr>
           | Disconnected \<Rightarrow> say ''status.login_worker_stopped'' A))"

definition for_server_in :: "'w app_env \<Rightarrow> 'w app \<Rightarrow> client_config \<times> 'w app" where
  "for_server_in X A =
     (let (config, d) = for_server (ae_os X) (ap_server_input A) (cl_disk (ap_core A))
      in (config, on_core_disk (\<lambda>_. d) (A\<lparr>ap_server_input := http_base config\<rparr>)))"

definition apply_server_config :: "'w app_env \<Rightarrow> 'w app \<Rightarrow> 'w app" where
  "apply_server_config X A =
     (let (config, A) = for_server_in X A
      in A\<lparr>ap_core := new_client config (cl_disk (ap_core A)) (cl_world (ap_core A)), ap_local_keys := None\<rparr>)"

definition save_server_config :: "'w app_env \<Rightarrow> 'w app \<Rightarrow> 'w app" where
  "save_server_config X A =
     (let (_, A) = for_server_in X A;
          A = save_app_settings X (A\<lparr>ap_settings := (ap_settings A)\<lparr>as_server_url := ap_server_input A\<rparr>\<rparr>);
          A = (if ap_auth A = None then apply_server_config X A else A)
      in say ''connection.server_saved'' A)"

definition logout :: "'w app_env \<Rightarrow> 'w app \<Rightarrow> 'w app" where
  "logout X A =
     (let A = (case ap_auth A of None \<Rightarrow> A | Some auth \<Rightarrow> spawn (JLogout auth) A)
      in say ''status.logged_out'' (A\<lparr>ap_auth := None, ap_local_keys := None,
           ap_history := load_history (ce_vault (ae_client X)) (ae_os X) (ae_history X) None (cl_disk (ap_core A)),
           ap_blocked_users := [], ap_password := []\<rparr>))"

section \<open>Identities\<close>

definition verify_or_pin_peer_identity :: "string \<Rightarrow> fetch_prekey_bundle_response \<Rightarrow> 'w app \<Rightarrow> bool \<times> 'w app" where
  "verify_or_pin_peer_identity peer bundle A =
     (let pinned_identity = map_of (ch_peer_identity_key_by_peer (ap_history A)) peer;
          pinned_signing = map_of (ch_peer_signing_identity_key_by_peer (ap_history A)) peer;
          identity_changed = (case pinned_identity of Some key \<Rightarrow> key \<noteq> pb_identity_key_b64 bundle | None \<Rightarrow> False);
          signing_changed = (case pinned_signing of Some key \<Rightarrow> key \<noteq> pb_signing_identity_key_b64 bundle | None \<Rightarrow> False)
      in if identity_changed \<or> signing_changed then
           (False, A\<lparr>ap_key_change_peer := Some peer,
              ap_status := ''Security warning: @'' @ peer @ '' changed identity key''\<rparr>)
         else (True, on_history (\<lambda>h. h\<lparr>
           ch_peer_identity_key_by_peer :=
             bt_or_insert peer (pb_identity_key_b64 bundle) (ch_peer_identity_key_by_peer h),
           ch_peer_signing_identity_key_by_peer :=
             bt_or_insert peer (pb_signing_identity_key_b64 bundle) (ch_peer_signing_identity_key_by_peer h)\<rparr>) A))"

definition trust_new_peer_identity :: "'w app \<Rightarrow> 'w app" where
  "trust_new_peer_identity A =
     (if ap_trust_rx A \<noteq> None then A
      else case ap_key_change_peer A of None \<Rightarrow> A
      | Some peer \<Rightarrow>
          (case ap_local_keys A of None \<Rightarrow> say ''error.log_in_first'' A
           | Some local_keys \<Rightarrow>
               spawn (JTrust local_keys peer) (A\<lparr>ap_trust_rx := Some (JTrust local_keys peer),
                 ap_status := ''Refreshing @'' @ peer @ '' identity...''\<rparr>)))"

definition poll_trust_result :: "'w app_env \<Rightarrow> client_draws \<Rightarrow>
    (string \<times> (string + fetch_prekey_bundle_response)) received \<Rightarrow> 'w app \<Rightarrow> 'w app" where
  "poll_trust_result X dr outcome A =
     (case ap_trust_rx A of None \<Rightarrow> A
      | Some rx \<Rightarrow> let A = A\<lparr>ap_trust_rx := None\<rparr> in
          (case outcome of
             Received (peer, Inr bundle) \<Rightarrow>
               (save_history X dr ((on_history (\<lambda>h. h\<lparr>
                   ch_peer_identity_key_by_peer :=
                     bt_insert peer (pb_identity_key_b64 bundle) (ch_peer_identity_key_by_peer h),
                   ch_peer_signing_identity_key_by_peer :=
                     bt_insert peer (pb_signing_identity_key_b64 bundle) (ch_peer_signing_identity_key_by_peer h)\<rparr>) A)
                 \<lparr>ap_key_change_peer := None\<rparr>))
               \<lparr>ap_status := ''Trusted new identity for @'' @ peer\<rparr>
           | Received (peer, Inl err) \<Rightarrow> A\<lparr>ap_status := err\<rparr>
           | Empty \<Rightarrow> A\<lparr>ap_trust_rx := Some rx\<rparr>
           | Disconnected \<Rightarrow> A\<lparr>ap_status := ''Trust worker stopped''\<rparr>))"

section \<open>Read receipts\<close>

definition unread_ids :: "chat_message list \<Rightarrow> string list" where
  "unread_ids messages = List.map_filter cm_message_id
     (filter (\<lambda>m. \<not> cm_outgoing m \<and> cm_status m \<noteq> Read) messages)"

definition mark_selected_chat_read :: "device_auth \<Rightarrow> 'w app \<Rightarrow> bool \<times> 'w app" where
  "mark_selected_chat_read auth A =
     (if ap_read_ack_rx A \<noteq> None \<or> ap_selected_chat A = [] then (False, A)
      else case map_of (ch_chats (ap_history A)) (ap_selected_chat A) of None \<Rightarrow> (False, A)
      | Some messages \<Rightarrow>
          let chat_name = ap_selected_chat A;
              message_ids = unread_ids messages;
              no_unread = (\<lambda>h. h\<lparr>ch_unread_by_peer := bt_remove chat_name (ch_unread_by_peer h)\<rparr>)
          in if message_ids = [] then (False, on_history no_unread A)
             else let j = JReadAck auth chat_name message_ids
                  in (True, spawn j ((on_history (\<lambda>h. no_unread (h\<lparr>ch_chats := bt_modify chat_name
                        (map (\<lambda>m. if cm_outgoing m then m else m\<lparr>cm_status := Read\<rparr>)) (ch_chats h)\<rparr>)) A)
                      \<lparr>ap_read_ack_rx := Some j\<rparr>)))"

definition poll_read_ack_result :: "(string \<times> string list \<times> (string + unit)) received \<Rightarrow> 'w app \<Rightarrow> 'w app" where
  "poll_read_ack_result outcome A =
     (case ap_read_ack_rx A of None \<Rightarrow> A
      | Some rx \<Rightarrow> let A = A\<lparr>ap_read_ack_rx := None\<rparr> in
          (case outcome of
             Received (chat_name, message_ids, Inl err) \<Rightarrow>
               on_history (\<lambda>h. h\<lparr>
                 ch_chats := bt_modify chat_name (map (\<lambda>m.
                     if (case cm_message_id m of Some i \<Rightarrow> i \<in> set message_ids | None \<Rightarrow> False)
                     then m\<lparr>cm_status := Delivered\<rparr> else m)) (ch_chats h),
                 ch_unread_by_peer := bt_modify chat_name (\<lambda>n. n + of_nat (length message_ids))
                   (bt_or_insert chat_name 0 (ch_unread_by_peer h))\<rparr>) A
           | Received (chat_name, message_ids, Inr _) \<Rightarrow> A
           | Empty \<Rightarrow> A\<lparr>ap_read_ack_rx := Some rx\<rparr>
           | Disconnected \<Rightarrow> A))"

end
