(* ===== verification/App_Chat.thy ===== *)
theory App_Chat
  imports App_Account
begin

text \<open>
  The chats of the window: opening, searching, blocking and deleting, sending messages and files,
  saving received files, and taking in what a synchronisation brought.
\<close>

section \<open>Opening a chat\<close>

definition open_chat :: "'w app \<Rightarrow> 'w app" where
  "open_chat A =
     (if ap_open_chat_rx A \<noteq> None then A
      else case ap_auth A of None \<Rightarrow> say ''error.log_in_first'' A
      | Some auth \<Rightarrow>
          if trim (ap_peer_nickname_input A) = [] then say ''status.enter_peer_nickname'' A
          else let peer = trim (ap_peer_nickname_input A)
               in case ap_local_keys A of None \<Rightarrow> say ''error.log_in_first'' A
                  | Some local_keys \<Rightarrow>
                      let j = JOpenChat auth local_keys peer
                      in spawn j (A\<lparr>ap_open_chat_rx := Some j,
                           ap_status := ''Opening chat with @'' @ peer @ ''...''\<rparr>))"

definition apply_open_chat_success :: "'w app_env \<Rightarrow> client_draws \<Rightarrow> open_chat_success \<Rightarrow> 'w app \<Rightarrow> 'w app" where
  "apply_open_chat_success X dr success A =
     (if pb_device_uuid (oc_bundle success) \<noteq> oc_resolved_uuid success
      then say ''status.peer_resolve_mismatch'' A
      else case verify_or_pin_peer_identity (oc_peer success) (oc_bundle success) A of
        (False, A) \<Rightarrow> A
      | (True, A) \<Rightarrow>
          let peer = oc_peer success;
              A = on_history (\<lambda>h. h\<lparr>
                ch_chats := bt_or_insert peer [] (ch_chats h),
                ch_peer_by_device_uuid := bt_insert (oc_resolved_uuid success) peer (ch_peer_by_device_uuid h),
                ch_device_uuid_by_peer := bt_insert peer (oc_resolved_uuid success) (ch_device_uuid_by_peer h)\<rparr>)
                (A\<lparr>ap_selected_chat := peer\<rparr>);
              A = (case ap_auth A of None \<Rightarrow> A | Some auth \<Rightarrow> snd (mark_selected_chat_read auth A))
          in (save_history X dr A)\<lparr>ap_status := ''Chat with @'' @ peer @ '' ready''\<rparr>)"

definition poll_open_chat_result :: "'w app_env \<Rightarrow> client_draws \<Rightarrow> (string + open_chat_success) received \<Rightarrow> 'w app \<Rightarrow> 'w app" where
  "poll_open_chat_result X dr outcome A =
     (case ap_open_chat_rx A of None \<Rightarrow> A
      | Some rx \<Rightarrow> let A = A\<lparr>ap_open_chat_rx := None\<rparr> in
          (case outcome of
             Received (Inr success) \<Rightarrow> apply_open_chat_success X dr success A
           | Received (Inl err) \<Rightarrow> A\<lparr>ap_status := err\<rparr>
           | Empty \<Rightarrow> A\<lparr>ap_open_chat_rx := Some rx\<rparr>
           | Disconnected \<Rightarrow> say ''status.open_chat_worker_stopped'' A))"

section \<open>Searching and blocking\<close>

definition app_search_users :: "'w app \<Rightarrow> 'w app" where
  "app_search_users A =
     (if ap_search_rx A \<noteq> None then A
      else if ap_auth A = None then (say ''error.log_in_first'' A)\<lparr>ap_peer_search_results := []\<rparr>
      else let j = JSearch (ap_peer_nickname_input A)
           in spawn j (say ''status.searching_users'' (A\<lparr>ap_search_rx := Some j\<rparr>)))"

definition poll_search_result :: "(string + string list) received \<Rightarrow> 'w app \<Rightarrow> 'w app" where
  "poll_search_result outcome A =
     (case ap_search_rx A of None \<Rightarrow> A
      | Some rx \<Rightarrow> let A = A\<lparr>ap_search_rx := None\<rparr> in
          (case outcome of
             Received (Inr users) \<Rightarrow>
               let A = A\<lparr>ap_peer_search_results := users\<rparr>
               in if users = [] then say ''status.no_users_found'' A
                  else A\<lparr>ap_status := txf A ''status.found_users'' [(''count'', decimal (length users))]\<rparr>
           | Received (Inl err) \<Rightarrow> A\<lparr>ap_status := err\<rparr>
           | Empty \<Rightarrow> A\<lparr>ap_search_rx := Some rx\<rparr>
           | Disconnected \<Rightarrow> say ''status.search_worker_stopped'' A))"

definition block_selected_chat_user :: "'w app \<Rightarrow> 'w app" where
  "block_selected_chat_user A =
     (case ap_auth A of None \<Rightarrow> say ''error.log_in_first'' A
      | Some auth \<Rightarrow>
          if ap_selected_chat A = [] then say ''status.select_chat_first'' A
          else run_block_action auth (Block (ap_selected_chat A)) A)"

definition app_unblock_user :: "string \<Rightarrow> 'w app \<Rightarrow> 'w app" where
  "app_unblock_user user_id A =
     (case ap_auth A of None \<Rightarrow> say ''error.log_in_first'' A
      | Some auth \<Rightarrow> run_block_action auth (Unblock user_id) A)"

definition poll_block_result :: "(block_action \<times> (string + string list)) received \<Rightarrow> 'w app \<Rightarrow> 'w app" where
  "poll_block_result outcome A =
     (case ap_block_rx A of None \<Rightarrow> A
      | Some rx \<Rightarrow> let A = A\<lparr>ap_block_rx := None\<rparr> in
          (case outcome of
             Received (action, Inr users) \<Rightarrow>
               let A = A\<lparr>ap_blocked_users := users\<rparr>
               in (case action of
                     BlockList \<Rightarrow> A
                   | Block user \<Rightarrow> A\<lparr>ap_status := txf A ''status.user_blocked'' [(''user'', user)]\<rparr>
                   | Unblock user \<Rightarrow> A\<lparr>ap_status := txf A ''status.user_unblocked'' [(''user'', user)]\<rparr>)
           | Received (action, Inl err) \<Rightarrow> A\<lparr>ap_status := localize_status_error A err\<rparr>
           | Empty \<Rightarrow> A\<lparr>ap_block_rx := Some rx\<rparr>
           | Disconnected \<Rightarrow> say ''status.block_worker_stopped'' A))"

section \<open>Deleting a chat, resetting a session\<close>

definition request_delete_selected_chat :: "'w app \<Rightarrow> 'w app" where
  "request_delete_selected_chat A =
     (if ap_selected_chat A = [] then say ''status.select_chat_first'' A
      else A\<lparr>ap_delete_chat_confirm := Some (ap_selected_chat A)\<rparr>)"

definition app_reset_session :: "'w app_env \<Rightarrow> client_draws \<Rightarrow> string \<Rightarrow> 'w app \<Rightarrow> 'w app" where
  "app_reset_session X dr peer_device_uuid A =
     A\<lparr>ap_core := snd (reset_peer_session (ae_client X) dr peer_device_uuid (ap_core A))\<rparr>"

definition reset_selected_chat_session :: "'w app_env \<Rightarrow> client_draws \<Rightarrow> 'w app \<Rightarrow> 'w app" where
  "reset_selected_chat_session X dr A =
     (if ap_selected_chat A = [] then say ''status.select_chat_first'' A
      else let peer = ap_selected_chat A
           in case map_of (ch_device_uuid_by_peer (ap_history A)) peer of
                None \<Rightarrow> say ''status.reopen_chat_before_sending'' A
              | Some peer_device_uuid \<Rightarrow>
                  let A = (app_reset_session X dr peer_device_uuid A)\<lparr>ap_peer_nickname_input := peer\<rparr>
                  in open_chat (A\<lparr>ap_status := txf A ''status.chat_session_reset'' [(''peer'', peer)]\<rparr>))"

definition delete_chat_locally :: "'w app_env \<Rightarrow> client_draws \<Rightarrow> string \<Rightarrow> 'w app \<Rightarrow> 'w app" where
  "delete_chat_locally X dr chat_name A =
     (let A = on_history (\<lambda>h. h\<lparr>ch_chats := bt_remove chat_name (ch_chats h),
            ch_unread_by_peer := bt_remove chat_name (ch_unread_by_peer h)\<rparr>) A;
          A = (if ap_selected_chat A = chat_name then A\<lparr>ap_selected_chat := []\<rparr> else A);
          A = save_history X dr (A\<lparr>ap_delete_chat_confirm := None\<rparr>)
      in A\<lparr>ap_status := txf A ''status.chat_deleted'' [(''user'', chat_name)]\<rparr>)"

section \<open>Sending\<close>

definition MAX_FILE_BYTES :: nat where "MAX_FILE_BYTES = 100 * 1024 * 1024"

definition selected_chat_session :: "'w app \<Rightarrow> string option \<times> 'w app" where
  "selected_chat_session A =
     (if ap_selected_chat A = [] then (None, say ''status.select_chat_first'' A)
      else case map_of (ch_device_uuid_by_peer (ap_history A)) (ap_selected_chat A) of
        Some known_uuid \<Rightarrow>
          if has_peer_session known_uuid (ap_core A) then (Some known_uuid, A)
          else (None, say ''status.reopen_chat_before_sending'' A)
      | None \<Rightarrow> (None, say ''status.reopen_chat_before_sending'' A))"

text \<open>The checks that sending a message, a file and a call have in common.\<close>

definition ready_to_send :: "('w app \<Rightarrow> device_auth \<Rightarrow> string \<Rightarrow> 'w app) \<Rightarrow> 'w app \<Rightarrow> 'w app" where
  "ready_to_send go A =
     (case ap_auth A of None \<Rightarrow> say ''error.log_in_first'' A
      | Some auth \<Rightarrow>
          if ap_selected_chat A = [] then say ''status.select_chat_first'' A
          else if is_user_blocked A (ap_selected_chat A) then say ''status.you_blocked_user'' A
          else case selected_chat_session A of
            (None, A) \<Rightarrow> A
          | (Some peer_device_uuid, A) \<Rightarrow> go A auth peer_device_uuid)"

definition outgoing_message :: "tick \<Rightarrow> string \<Rightarrow> string option \<Rightarrow> u64 option \<Rightarrow> chat_message" where
  "outgoing_message tk message_text name file_size =
     \<lparr>cm_outgoing = True, cm_text = message_text, cm_ts = tk_now_ms tk, cm_status = Sending,
      cm_message_id = Some (tk_uuid tk), cm_file_name = name, cm_file_size = file_size,
      cm_file_data_b64 = None, cm_blob_id = None, cm_file_key_b64 = None\<rparr>"

text \<open>\<open>entry(chat).or_default().push(m)\<close>, and the index of \<open>m\<close>.\<close>

definition push_message :: "string \<Rightarrow> chat_message \<Rightarrow> chat_history \<Rightarrow> chat_history" where
  "push_message chat m h = h\<lparr>ch_chats := bt_modify chat (\<lambda>ms. ms @ [m]) (bt_or_insert chat [] (ch_chats h))\<rparr>"

definition chat_messages :: "chat_history \<Rightarrow> string \<Rightarrow> chat_message list" where
  "chat_messages h chat = (case map_of (ch_chats h) chat of Some ms \<Rightarrow> ms | None \<Rightarrow> [])"

definition send_current_message :: "'w app_env \<Rightarrow> tick \<Rightarrow> 'w app \<Rightarrow> 'w app" where
  "send_current_message X tk A =
     (if ap_send_rx A \<noteq> None then A
      else ready_to_send (\<lambda>A auth peer_device_uuid.
        if trim (ap_message_input A) = [] then A
        else let message_text = ap_message_input A; chat_name = ap_selected_chat A;
                 A = on_history (push_message chat_name (outgoing_message tk message_text None None)) A;
                 message_index = length (chat_messages (ap_history A) chat_name) - 1;
                 A = save_history X (tk_draws tk) (A\<lparr>ap_message_input := []\<rparr>);
                 j = JSend auth peer_device_uuid (SendText message_text) (tk_uuid tk) chat_name message_index
             in spawn j (A\<lparr>ap_send_rx := Some j\<rparr>)) A)"

text \<open>\<open>picked\<close> is the file dialog's answer: the path, its file name if it has one, and its size
  if it can be read.\<close>

definition send_file :: "'w app_env \<Rightarrow> tick \<Rightarrow> (string \<times> string option \<times> u64 option) option \<Rightarrow> 'w app \<Rightarrow> 'w app" where
  "send_file X tk picked A =
     (if ap_send_rx A \<noteq> None then A
      else ready_to_send (\<lambda>A auth peer_device_uuid.
        case picked of None \<Rightarrow> A
        | Some (path, base_name, metadata) \<Rightarrow>
            (case metadata of None \<Rightarrow> A\<lparr>ap_status := ''Could not inspect selected file''\<rparr>
             | Some file_size \<Rightarrow>
                 if of_nat MAX_FILE_BYTES < file_size then say ''status.file_too_large'' A
                 else let name = (case base_name of Some n \<Rightarrow> n | None \<Rightarrow> ''file'');
                          chat_name = ap_selected_chat A;
                          A = on_history (push_message chat_name
                            (outgoing_message tk (''File: '' @ name) (Some name) (Some file_size))) A;
                          message_index = length (chat_messages (ap_history A) chat_name) - 1;
                          A = save_history X (tk_draws tk) A;
                          j = JSend auth peer_device_uuid (SendFile name path) (tk_uuid tk) chat_name message_index
                      in spawn j (A\<lparr>ap_send_rx := Some j\<rparr>))) A)"

definition update_message_status :: "string \<Rightarrow> nat \<Rightarrow> msg_status \<Rightarrow> chat_history \<Rightarrow> chat_history" where
  "update_message_status chat_name i status h = h\<lparr>ch_chats := bt_modify chat_name (\<lambda>messages.
     if i < length messages then messages[i := (messages ! i)\<lparr>cm_status := status\<rparr>] else messages) (ch_chats h)\<rparr>"

definition saturating_mul :: "u64 \<Rightarrow> u64 \<Rightarrow> u64" where
  "saturating_mul a b = (if unat a * unat b < 2 ^ 64 then a * b else - 1)"

definition percent_of :: "u64 \<Rightarrow> u64 \<Rightarrow> u64 \<Rightarrow> u64" where
  "percent_of if_empty part whole =
     (if whole = 0 then if_empty else min (saturating_mul part 100 div whole) 100)"

definition poll_send_result :: "'w app_env \<Rightarrow> client_draws \<Rightarrow> send_event received \<Rightarrow> 'w app \<Rightarrow> 'w app" where
  "poll_send_result X dr outcome A =
     (case ap_send_rx A of None \<Rightarrow> A
      | Some rx \<Rightarrow> let A = A\<lparr>ap_send_rx := None\<rparr> in
          (case outcome of
             Received (SendProgress name uploaded whole) \<Rightarrow>
               A\<lparr>ap_status := txf A ''status.uploading_file'' [(''file_name'', name),
                   (''percent'', decimal (unat (percent_of 100 uploaded whole)))], ap_send_rx := Some rx\<rparr>
           | Received (SendDone sent) \<Rightarrow>
               save_history X dr (case sr_result sent of
                 Inr _ \<Rightarrow> say ''status.sent''
                   (on_history (update_message_status (sr_chat_name sent) (sr_message_index sent) Sent) A)
               | Inl err \<Rightarrow>
                   (on_history (update_message_status (sr_chat_name sent) (sr_message_index sent) Failed) A)
                     \<lparr>ap_status := localize_status_error A err\<rparr>)
           | Empty \<Rightarrow> A\<lparr>ap_send_rx := Some rx\<rparr>
           | Disconnected \<Rightarrow> say ''status.send_worker_stopped'' A))"

end
