(* ===== verification/App_Sync.thy ===== *)
theory App_Sync
  imports App_Chat
begin

text \<open>
  Synchronisation: which messages the window asks about, how a decrypted message enters the
  history (once), the statuses of outgoing messages, and saving a received file.
\<close>

section \<open>Saving a received file\<close>

text \<open>\<open>save_path\<close> is the save dialog's answer.\<close>

definition save_file_message :: "nat \<Rightarrow> string option \<Rightarrow> 'w app \<Rightarrow> 'w app" where
  "save_file_message index save_path A =
     (if ap_save_file_rx A \<noteq> None then A
      else case ap_auth A of None \<Rightarrow> A
      | Some auth \<Rightarrow>
          let messages = chat_messages (ap_history A) (ap_selected_chat A)
          in if length messages \<le> index then A
             else let message = messages ! index
                  in case (cm_file_name message, save_path) of
                       (Some name, Some path) \<Rightarrow>
                         let saving = (\<lambda>j. spawn j (A\<lparr>ap_save_file_rx := Some j,
                               ap_status := txf A ''status.saving_file'' [(''file_name'', name)]\<rparr>))
                         in (case cm_file_data_b64 message of
                               Some data_b64 \<Rightarrow> saving (JSaveInline data_b64 path name)
                             | None \<Rightarrow>
                                 (case (cm_blob_id message, cm_file_key_b64 message) of
                                    (Some blob, Some file_key) \<Rightarrow> saving (JSaveBlob auth blob file_key path name)
                                  | _ \<Rightarrow> say ''status.file_data_unavailable'' A))
                     | _ \<Rightarrow> A)"

definition poll_save_file_result :: "save_file_event received \<Rightarrow> 'w app \<Rightarrow> 'w app" where
  "poll_save_file_result outcome A =
     (case ap_save_file_rx A of None \<Rightarrow> A
      | Some rx \<Rightarrow> let A = A\<lparr>ap_save_file_rx := None\<rparr> in
          (case outcome of
             Received (SaveProgress name downloaded whole) \<Rightarrow>
               A\<lparr>ap_status := txf A ''status.downloading_file'' [(''file_name'', name),
                   (''percent'', decimal (unat (percent_of 0 downloaded whole)))], ap_save_file_rx := Some rx\<rparr>
           | Received (SaveDone name (Inr _)) \<Rightarrow> A\<lparr>ap_status := ''Saved '' @ name\<rparr>
           | Received (SaveDone name (Inl err)) \<Rightarrow> A\<lparr>ap_status := err\<rparr>
           | Empty \<Rightarrow> A\<lparr>ap_save_file_rx := Some rx\<rparr>
           | Disconnected \<Rightarrow> A\<lparr>ap_status := ''Save worker stopped''\<rparr>))"

section \<open>Asking the server\<close>

definition outgoing_message_ids :: "chat_history \<Rightarrow> string list" where
  "outgoing_message_ids h = List.map_filter cm_message_id
     (filter (\<lambda>m. cm_outgoing m \<and> cm_status m \<noteq> Read) (concat (map snd (ch_chats h))))"

text \<open>A peer's safety number needs both pinned keys.\<close>

definition peers_missing_safety_numbers :: "chat_history \<Rightarrow> string list" where
  "peers_missing_safety_numbers h = filter (\<lambda>peer.
     map_of (ch_peer_identity_key_by_peer h) peer = None \<or>
     map_of (ch_peer_signing_identity_key_by_peer h) peer = None) (map fst (ch_device_uuid_by_peer h))"

definition sync_incoming :: "tick \<Rightarrow> 'w app \<Rightarrow> 'w app" where
  "sync_incoming tk A =
     (if ap_sync_rx A \<noteq> None then A
      else case (ap_auth A, ap_local_keys A) of
        (Some auth, Some local_keys) \<Rightarrow>
          let h = ap_history A;
              j = JSync \<lparr>sq_local_keys = local_keys, sq_auth = auth,
                sq_peer_by_device_uuid = ch_peer_by_device_uuid h,
                sq_peer_identity_key_by_peer = ch_peer_identity_key_by_peer h,
                sq_peer_signing_identity_key_by_peer = ch_peer_signing_identity_key_by_peer h,
                sq_peers_missing_safety = peers_missing_safety_numbers h,
                sq_outgoing_message_ids = outgoing_message_ids h\<rparr>
          in spawn j (A\<lparr>ap_sync_rx := Some j, ap_last_sync_at := tk_instant tk\<rparr>)
      | _ \<Rightarrow> A)"

section \<open>Incoming messages\<close>

definition known_message :: "chat_history \<Rightarrow> string \<Rightarrow> bool" where
  "known_message h i \<longleftrightarrow> (\<exists>(_, messages) \<in> set (ch_chats h). \<exists>m \<in> set messages. cm_message_id m = Some i)"

text \<open>The first eight bytes of an identifier (ASCII, so they are characters).\<close>

definition peer_name :: "chat_history \<Rightarrow> string \<Rightarrow> string" where
  "peer_name h device_uuid =
     (case map_of (ch_peer_by_device_uuid h) device_uuid of Some peer \<Rightarrow> peer
      | None \<Rightarrow> ''unknown:'' @ take 8 device_uuid)"

definition incoming_call :: "'w app \<Rightarrow> tick \<Rightarrow> string \<Rightarrow> string \<Rightarrow> string \<Rightarrow> bool \<Rightarrow> call_state" where
  "incoming_call A tk peer peer_device_uuid the_call video = \<lparr>ac_peer = peer,
     ac_peer_device_uuid = peer_device_uuid, ac_call_id = the_call, ac_video = video,
     ac_microphone_muted = False, ac_camera_disabled = False, ac_incoming = True, ac_accepted = False,
     ac_signaling_status = tx A ''call.incoming_waiting'', ac_started_at = tk_instant tk,
     ac_last_signal_poll_at = tk_instant tk\<rparr>"

definition effect_of :: "effect \<Rightarrow> 'w app \<Rightarrow> 'w app" where
  "effect_of e A = A\<lparr>ap_effects := e # ap_effects A\<rparr>"

definition received_message :: "decrypted_message \<Rightarrow> string \<Rightarrow> encrypted_message_payload option \<Rightarrow> chat_message" where
  "received_message msg message_text payload =
     (let plain = \<lparr>cm_outgoing = False, cm_text = message_text, cm_ts = dm_created_at_unix_ms msg,
            cm_status = Delivered, cm_message_id = Some (dm_message_id msg), cm_file_name = None,
            cm_file_size = None, cm_file_data_b64 = None, cm_blob_id = None, cm_file_key_b64 = None\<rparr>
      in case payload of
           Some (File v name file_size data_b64 blob file_key) \<Rightarrow>
             plain\<lparr>cm_file_name := Some name, cm_file_size := Some file_size, cm_file_data_b64 := data_b64,
               cm_blob_id := blob, cm_file_key_b64 := file_key\<rparr>
         | _ \<Rightarrow> plain)"

definition shown_text :: "'w app \<Rightarrow> decrypted_message \<Rightarrow> encrypted_message_payload option \<Rightarrow> string" where
  "shown_text A msg payload =
     (case payload of
        Some (File v name file_size data_b64 blob file_key) \<Rightarrow> ''File: '' @ name
      | Some (Call v the_call video) \<Rightarrow>
          if video then tx A ''call.incoming_video_message'' else tx A ''call.incoming_audio_message''
      | _ \<Rightarrow> dm_plaintext msg)"

definition ring :: "tick \<Rightarrow> string \<Rightarrow> string \<Rightarrow> string \<Rightarrow> bool \<Rightarrow> 'w app \<Rightarrow> 'w app" where
  "ring tk peer peer_device_uuid the_call video A =
     (effect_of (CallTone (as_speaker (ap_settings A))) A)
       \<lparr>ap_active_call := Some (incoming_call A tk peer peer_device_uuid the_call video)\<rparr>"

definition show_message :: "decrypted_message \<Rightarrow> encrypted_message_payload option \<Rightarrow> string \<Rightarrow> 'w app \<Rightarrow> 'w app" where
  "show_message msg payload nick A =
     (let is_call = (case payload of Some (Call v the_call video) \<Rightarrow> True | _ \<Rightarrow> False);
          title = txf A (if is_call then ''notification.incoming_call'' else ''notification.new_message'')
            [(''user'', nick)];
          message_text = shown_text A msg payload;
          A = on_history (push_message nick (received_message msg message_text payload))
            (effect_of (Notify title message_text) A)
      in if ap_selected_chat A \<noteq> nick
         then on_history (\<lambda>h. h\<lparr>ch_unread_by_peer :=
                bt_modify nick (\<lambda>n. n + 1) (bt_or_insert nick 0 (ch_unread_by_peer h))\<rparr>) A
         else A)"

definition push_incoming :: "'w app_env \<Rightarrow> tick \<Rightarrow> decrypted_message \<Rightarrow> 'w app \<Rightarrow> 'w app" where
  "push_incoming X tk msg A =
     (if known_message (ap_history A) (dm_message_id msg) then A
      else let payload = from_json (ce_payload (ae_client X)) (dm_plaintext msg);
               nick = peer_name (ap_history A) (dm_from_device_uuid msg)
           in case payload of
                Some (Contact v) \<Rightarrow> on_history (\<lambda>h. h\<lparr>ch_chats := bt_or_insert nick [] (ch_chats h)\<rparr>) A
              | Some (Call v the_call video) \<Rightarrow>
                  let A = show_message msg payload nick A
                  in if ap_active_call A \<noteq> None then
                       say ''call.busy'' (case ap_auth A of None \<Rightarrow> A
                         | Some auth \<Rightarrow> spawn (JSignal auth the_call (dm_from_device_uuid msg) ''busy'' ''{}'') A)
                     else ring tk nick (dm_from_device_uuid msg) the_call video A
              | _ \<Rightarrow> show_message msg payload nick A)"

section \<open>Applying a synchronisation\<close>

definition next_status :: "outgoing_message_status \<Rightarrow> msg_status" where
  "next_status status = (if os_read status then Read else if os_delivered status then Delivered else Sent)"

definition apply_status :: "outgoing_message_status \<Rightarrow> bool \<times> chat_history \<Rightarrow> bool \<times> chat_history" where
  "apply_status status st =
     (let (changed, h) = st;
          hit = (\<lambda>m. cm_message_id m = Some (os_message_id status) \<and> cm_status m \<noteq> next_status status)
      in (changed \<or> (\<exists>(_, messages) \<in> set (ch_chats h). \<exists>m \<in> set messages. hit m),
          h\<lparr>ch_chats := map (\<lambda>(peer, messages). (peer,
              map (\<lambda>m. if hit m then m\<lparr>cm_status := next_status status\<rparr> else m) messages)) (ch_chats h)\<rparr>))"

definition apply_outgoing_statuses :: "outgoing_message_status list \<Rightarrow> chat_history \<Rightarrow> bool \<times> chat_history" where
  "apply_outgoing_statuses statuses h = fold apply_status statuses (False, h)"

definition apply_mapping :: "peer_mapping \<Rightarrow> bool \<times> 'w app \<Rightarrow> bool \<times> 'w app" where
  "apply_mapping mapping st =
     (let (changed, A) = st
      in case verify_or_pin_peer_identity (pm_peer mapping) (pm_bundle mapping) A of
           (False, A) \<Rightarrow> (changed, A)
         | (True, A) \<Rightarrow>
             let h = ap_history A; device = pb_device_uuid (pm_bundle mapping);
                 changed = (changed \<or> map_of (ch_peer_by_device_uuid h) (pm_device_uuid mapping) \<noteq> Some (pm_peer mapping) \<or>
                   map_of (ch_device_uuid_by_peer h) (pm_peer mapping) \<noteq> Some device \<or>
                   map_of (ch_chats h) (pm_peer mapping) = None)
             in (changed, on_history (\<lambda>h. h\<lparr>
                   ch_peer_by_device_uuid := bt_insert (pm_device_uuid mapping) (pm_peer mapping) (ch_peer_by_device_uuid h),
                   ch_device_uuid_by_peer := bt_insert (pm_peer mapping) device (ch_device_uuid_by_peer h),
                   ch_chats := bt_or_insert (pm_peer mapping) [] (ch_chats h)\<rparr>) A))"

definition apply_sync_success :: "'w app_env \<Rightarrow> tick \<Rightarrow> sync_success \<Rightarrow> 'w app \<Rightarrow> 'w app" where
  "apply_sync_success X tk success A =
     (let decrypted_count = length (ss_decrypted success);
          (changed, A) = fold apply_mapping (ss_peer_mappings success) (False, A);
          A = fold (push_incoming X tk) (ss_decrypted success) A;
          changed = (changed \<or> ss_decrypted success \<noteq> []);
          A = (if 0 < ss_pending_count success \<and> decrypted_count = 0
               then A\<lparr>ap_status := ''Sync received '' @ decimal (ss_pending_count success) @
                 '' pending message(s), decrypted 0. Re-open chat or trust the new key.''\<rparr> else A);
          (statuses_changed, h) = apply_outgoing_statuses (ss_statuses success) (ap_history A);
          A = A\<lparr>ap_history := h\<rparr>;
          (read_changed, A) = (case ap_auth A of None \<Rightarrow> (False, A) | Some auth \<Rightarrow> mark_selected_chat_read auth A)
      in if changed \<or> statuses_changed \<or> read_changed then save_history X (tk_draws tk) A else A)"

definition poll_sync_result :: "'w app_env \<Rightarrow> tick \<Rightarrow> (string + sync_success) received \<Rightarrow> 'w app \<Rightarrow> 'w app" where
  "poll_sync_result X tk outcome A =
     (case ap_sync_rx A of None \<Rightarrow> A
      | Some rx \<Rightarrow> let A = A\<lparr>ap_sync_rx := None\<rparr> in
          (case outcome of
             Received (Inr success) \<Rightarrow> apply_sync_success X tk success A
           | Received (Inl err) \<Rightarrow> A\<lparr>ap_status := localize_status_error A err\<rparr>
           | Empty \<Rightarrow> A\<lparr>ap_sync_rx := Some rx\<rparr>
           | Disconnected \<Rightarrow> A))"

end
