(* ===== verification/App_Calls.thy ===== *)
theory App_Calls
  imports App_Sync
begin

text \<open>
  Calls in the window: starting one, the signals of the peer, the WebRTC session and the
  microphone and camera that follow the state of the call.
\<close>

section \<open>Configuration\<close>

fun split_lines :: "string \<Rightarrow> string list" where
  "split_lines [] = [[]]"
| "split_lines (c # cs) = (if c = CHR 0x0A then [] # split_lines cs
     else (case split_lines cs of l # ls \<Rightarrow> (c # l) # ls | [] \<Rightarrow> [[c]]))"

text \<open>Trimming takes the carriage returns; empty lines are left out.\<close>

definition app_ice_config :: "'w app \<Rightarrow> ice_config" where
  "app_ice_config A =
     \<lparr>ic_servers = filter (\<lambda>server. server \<noteq> []) (map trim (split_lines (as_ice_servers (ap_settings A)))),
      ic_turn_username = as_turn_username (ap_settings A),
      ic_turn_password = as_turn_password (ap_settings A)\<rparr>"

text \<open>An ICE server: its addresses, user name and password.\<close>

definition rtc_config :: "ice_config \<Rightarrow> (string list \<times> string \<times> string) list" where
  "rtc_config ice = map (\<lambda>server. ([server], ic_turn_username ice, ic_turn_password ice))
     (filter (\<lambda>server. trim server \<noteq> []) (ic_servers ice))"

section \<open>The WebRTC session\<close>

definition start_webrtc_offer :: "'w app \<Rightarrow> 'w app" where
  "start_webrtc_offer A =
     (if ap_webrtc_session A \<noteq> None \<or> ap_webrtc_rx A \<noteq> None then A
      else let j = JOffer (app_ice_config A) in spawn j (A\<lparr>ap_webrtc_rx := Some j\<rparr>))"

definition start_webrtc_answer :: "string \<Rightarrow> 'w app \<Rightarrow> 'w app" where
  "start_webrtc_answer offer_payload A =
     (if ap_webrtc_session A \<noteq> None \<or> ap_webrtc_rx A \<noteq> None then A
      else let j = JAnswer offer_payload (app_ice_config A) in spawn j (A\<lparr>ap_webrtc_rx := Some j\<rparr>))"

definition apply_webrtc_answer :: "string \<Rightarrow> 'w app \<Rightarrow> 'w app" where
  "apply_webrtc_answer answer_payload A =
     (if ap_webrtc_rx A \<noteq> None then A
      else case ap_webrtc_session A of None \<Rightarrow> A
      | Some session \<Rightarrow>
          let j = JApplyAnswer session answer_payload in spawn j (A\<lparr>ap_webrtc_rx := Some j\<rparr>))"

definition send_webrtc_signal :: "string \<Rightarrow> string \<Rightarrow> 'w app \<Rightarrow> 'w app" where
  "send_webrtc_signal kind payload A =
     (case (ap_auth A, ap_active_call A) of
        (Some auth, Some call) \<Rightarrow> spawn (JSignal auth (ac_call_id call) (ac_peer_device_uuid call) kind payload) A
      | _ \<Rightarrow> A)"

definition stop_webrtc_session :: "'w app \<Rightarrow> 'w app" where
  "stop_webrtc_session A =
     (let A = A\<lparr>ap_webrtc_rx := None, ap_audio_playback := False\<rparr>
      in case ap_webrtc_session A of None \<Rightarrow> A
         | Some session \<Rightarrow> spawn (JCloseSession session) (A\<lparr>ap_webrtc_session := None\<rparr>))"

definition set_signaling_status :: "string \<Rightarrow> 'w app \<Rightarrow> 'w app" where
  "set_signaling_status status = on_call (\<lambda>call. call\<lparr>ac_signaling_status := status\<rparr>)"

definition poll_webrtc_result :: "'w app_env \<Rightarrow> (string + session_handle \<times> webrtc_action) received \<Rightarrow> 'w app \<Rightarrow> 'w app" where
  "poll_webrtc_result X outcome A =
     (case ap_webrtc_rx A of None \<Rightarrow> A
      | Some rx \<Rightarrow> let A = A\<lparr>ap_webrtc_rx := None\<rparr> in
          (case outcome of
             Received (Inr (session, action)) \<Rightarrow>
               let A = A\<lparr>ap_audio_playback := ae_playback X (as_speaker (ap_settings A)),
                     ap_webrtc_session := Some session\<rparr>
               in (case action of
                     LocalOffer payload \<Rightarrow>
                       set_signaling_status (tx A ''call.webrtc_offer_sent'') (send_webrtc_signal ''webrtc-offer'' payload A)
                   | LocalAnswer payload \<Rightarrow>
                       set_signaling_status (tx A ''call.webrtc_answer_sent'') (send_webrtc_signal ''webrtc-answer'' payload A)
                   | RemoteAnswerApplied \<Rightarrow> set_signaling_status (tx A ''call.webrtc_connecting'') A)
           | Received (Inl err) \<Rightarrow> set_signaling_status err A
           | Empty \<Rightarrow> A\<lparr>ap_webrtc_rx := Some rx\<rparr>
           | Disconnected \<Rightarrow> A))"

section \<open>Microphone and camera\<close>

definition sync_media_session :: "'w app_env \<Rightarrow> 'w app \<Rightarrow> 'w app" where
  "sync_media_session X A =
     (case ap_active_call A of
        None \<Rightarrow> A\<lparr>ap_media_session := False, ap_media_failed_call_id := None\<rparr>
      | Some call \<Rightarrow>
          if \<not> ac_accepted call \<or> ac_microphone_muted call then A\<lparr>ap_media_session := False\<rparr>
          else if ap_media_session A \<or> ap_media_failed_call_id A = Some (ac_call_id call) then A
          else if ap_webrtc_session A = None then A
          else case ae_microphone X (as_microphone (ap_settings A)) of
              Inr _ \<Rightarrow> A\<lparr>ap_media_session := True\<rparr>
            | Inl err \<Rightarrow> set_signaling_status (txf A ''call.media_error'' [(''error'', err)])
                (A\<lparr>ap_media_failed_call_id := Some (ac_call_id call)\<rparr>))"

definition sync_video_session :: "'w app \<Rightarrow> 'w app" where
  "sync_video_session A =
     (case ap_active_call A of
        None \<Rightarrow> A\<lparr>ap_video_capture_session := False\<rparr>
      | Some call \<Rightarrow>
          if \<not> ac_video call \<or> \<not> ac_accepted call \<or> ac_camera_disabled call
          then A\<lparr>ap_video_capture_session := False\<rparr>
          else if ap_video_capture_session A then A
          else if ap_webrtc_session A = None then A
          else A\<lparr>ap_video_capture_session := True\<rparr>)"

section \<open>Starting and ending a call\<close>

definition start_call :: "bool \<Rightarrow> tick \<Rightarrow> 'w app \<Rightarrow> 'w app" where
  "start_call video tk A =
     (if ap_call_rx A \<noteq> None \<or> ap_active_call A \<noteq> None then say ''call.busy'' A
      else ready_to_send (\<lambda>A auth peer_device_uuid.
        let peer = ap_selected_chat A;
            j = JCall auth peer peer_device_uuid (tk_uuid tk) video (tk_uuid2 tk)
        in spawn j (A\<lparr>ap_call_rx := Some j, ap_status := txf A ''call.calling'' [(''user'', peer)]\<rparr>)) A)"

definition poll_call_result :: "(string + call_state) received \<Rightarrow> 'w app \<Rightarrow> 'w app" where
  "poll_call_result outcome A =
     (case ap_call_rx A of None \<Rightarrow> A
      | Some rx \<Rightarrow> let A = A\<lparr>ap_call_rx := None\<rparr> in
          (case outcome of
             Received (Inr call) \<Rightarrow> A\<lparr>ap_status := txf A ''call.started'' [(''user'', ac_peer call)],
               ap_active_call := Some (call\<lparr>ac_signaling_status := tx A ''call.waiting_answer''\<rparr>)\<rparr>
           | Received (Inl err) \<Rightarrow> A\<lparr>ap_status := localize_status_error A err\<rparr>
           | Empty \<Rightarrow> A\<lparr>ap_call_rx := Some rx\<rparr>
           | Disconnected \<Rightarrow> say ''call.worker_stopped'' A))"

text \<open>The statements that end a call in four places of the code.\<close>

definition close_call :: "string \<Rightarrow> 'w app \<Rightarrow> 'w app" where
  "close_call status A =
     (stop_webrtc_session (A\<lparr>ap_active_call := None, ap_call_signal_rx := None, ap_video_capture_session := False\<rparr>))
       \<lparr>ap_status := status\<rparr>"

definition signal_peer :: "string \<Rightarrow> call_state \<Rightarrow> 'w app \<Rightarrow> 'w app" where
  "signal_peer kind call A =
     (case ap_auth A of None \<Rightarrow> A
      | Some auth \<Rightarrow> spawn (JSignal auth (ac_call_id call) (ac_peer_device_uuid call) kind ''{}'') A)"

text \<open>The buttons of the call window; accepting is offered for an incoming call only.\<close>

datatype call_button = AcceptCall | DeclineCall | HangUp | Toggle bool bool

definition call_window :: "call_button \<Rightarrow> 'w app \<Rightarrow> 'w app" where
  "call_window button A =
     (case ap_active_call A of None \<Rightarrow> A
      | Some call \<Rightarrow>
          (case button of
             AcceptCall \<Rightarrow>
               if ac_incoming call \<and> \<not> ac_accepted call then
                 on_call (\<lambda>c. c\<lparr>ac_accepted := True, ac_signaling_status := tx A ''call.accepted''\<rparr>)
                   (signal_peer ''answer'' call A)
               else A
           | DeclineCall \<Rightarrow>
               if ac_incoming call \<and> \<not> ac_accepted call
               then close_call (tx A ''call.declined'') (signal_peer ''decline'' call A) else A
           | HangUp \<Rightarrow> close_call (tx A ''call.ended'') (signal_peer ''hangup'' call A)
           | Toggle muted disabled \<Rightarrow>
               let muted = (if ac_accepted call then muted else ac_microphone_muted call);
                   disabled = (if ac_video call \<and> ac_accepted call then disabled else ac_camera_disabled call);
                   A = (if ac_microphone_muted call \<noteq> muted
                        then A\<lparr>ap_media_session := False, ap_media_failed_call_id := None\<rparr> else A)
               in on_call (\<lambda>c. c\<lparr>ac_microphone_muted := muted, ac_camera_disabled := disabled\<rparr>) A))"

section \<open>Signals\<close>

fun has_substring :: "string \<Rightarrow> string \<Rightarrow> bool" where
  "has_substring pat [] \<longleftrightarrow> pat = []"
| "has_substring pat (c # cs) \<longleftrightarrow> take (length pat) (c # cs) = pat \<or> has_substring pat cs"

definition show_int :: "int \<Rightarrow> string" where
  "show_int n = (if n < 0 then CHR ''-'' # decimal (nat (- n)) else decimal (nat n))"

fun apply_incoming_call_signals :: "tick \<Rightarrow> call_signal_item list \<Rightarrow> 'w app \<Rightarrow> 'w app" where
  "apply_incoming_call_signals tk [] A = A"
| "apply_incoming_call_signals tk (signal # signals) A =
     (if cs_kind signal \<noteq> ''invite'' then apply_incoming_call_signals tk signals A
      else ring tk (peer_name (ap_history A) (cs_from_device_uuid signal)) (cs_from_device_uuid signal)
             (cs_call_id signal) (has_substring ''\"video\":true'' (cs_payload signal)) A)"

text \<open>The signals of a call in progress, up to the one that ends it.\<close>

record signal_scan =
  sg_call :: call_state
  sg_start_offer :: bool
  sg_remote_offer :: "string option"
  sg_remote_answer :: "string option"
  sg_close_status :: "string option"

fun scan_signals :: "'w app \<Rightarrow> call_signal_item list \<Rightarrow> signal_scan \<Rightarrow> signal_scan" where
  "scan_signals A [] sg = sg"
| "scan_signals A (signal # signals) sg =
     (let kind = cs_kind signal in
      if kind = ''answer'' then scan_signals A signals (sg\<lparr>sg_start_offer := True,
          sg_call := (sg_call sg)\<lparr>ac_accepted := True, ac_signaling_status := tx A ''call.accepted''\<rparr>\<rparr>)
      else if kind = ''webrtc-offer'' then scan_signals A signals (sg\<lparr>sg_remote_offer := Some (cs_payload signal)\<rparr>)
      else if kind = ''webrtc-answer'' then scan_signals A signals (sg\<lparr>sg_remote_answer := Some (cs_payload signal)\<rparr>)
      else if kind = ''decline'' then sg\<lparr>sg_close_status := Some (tx A ''call.declined'')\<rparr>
      else if kind = ''busy'' then sg\<lparr>sg_close_status := Some (tx A ''call.busy'')\<rparr>
      else if kind = ''hangup'' then sg\<lparr>sg_close_status := Some (tx A ''call.ended'')\<rparr>
      else scan_signals A signals (sg\<lparr>sg_call := (sg_call sg)\<lparr>ac_signaling_status :=
          ''signaling: '' @ kind @ '' at '' @ show_int (cs_created_at_unix_ms signal)\<rparr>\<rparr>))"

definition apply_call_signals :: "tick \<Rightarrow> call_signal_item list \<Rightarrow> 'w app \<Rightarrow> 'w app" where
  "apply_call_signals tk signals A =
     (case ap_active_call A of
        None \<Rightarrow> apply_incoming_call_signals tk signals A
      | Some call \<Rightarrow>
          let sg = scan_signals A signals \<lparr>sg_call = call, sg_start_offer = False, sg_remote_offer = None,
                 sg_remote_answer = None, sg_close_status = None\<rparr>;
              A = A\<lparr>ap_active_call := Some (sg_call sg)\<rparr>;
              A = (if sg_start_offer sg then start_webrtc_offer A else A);
              A = (case sg_remote_offer sg of Some payload \<Rightarrow> start_webrtc_answer payload A | None \<Rightarrow> A);
              A = (case sg_remote_answer sg of Some payload \<Rightarrow> apply_webrtc_answer payload A | None \<Rightarrow> A)
          in (case sg_close_status sg of Some status \<Rightarrow> close_call status A | None \<Rightarrow> A))"

definition CALL_ANSWER_TIMEOUT :: nat where "CALL_ANSWER_TIMEOUT = 45000"

definition fetch_signals :: "device_auth \<Rightarrow> string option \<Rightarrow> 'w app \<Rightarrow> 'w app" where
  "fetch_signals auth the_call A =
     spawn (JFetchSignals auth the_call) (A\<lparr>ap_call_signal_rx := Some (JFetchSignals auth the_call)\<rparr>)"

definition poll_call_signals :: "tick \<Rightarrow> (string + call_signal_item list) received \<Rightarrow> 'w app \<Rightarrow> 'w app" where
  "poll_call_signals tk outcome A =
     (case ap_call_signal_rx A of
        Some rx \<Rightarrow> let A = A\<lparr>ap_call_signal_rx := None\<rparr> in
          (case outcome of
             Received (Inr signals) \<Rightarrow> apply_call_signals tk signals A
           | Received (Inl err) \<Rightarrow>
               if has_substring ''error sending request'' err then A
               else set_signaling_status (localize_status_error A err) A
           | Empty \<Rightarrow> A\<lparr>ap_call_signal_rx := Some rx\<rparr>
           | Disconnected \<Rightarrow> A)
      | None \<Rightarrow>
          (case ap_active_call A of
             None \<Rightarrow>
               if tk_instant tk - ap_last_call_signal_poll_at A < 1200 then A
               else (case ap_auth A of None \<Rightarrow> A
                 | Some auth \<Rightarrow> fetch_signals auth None (A\<lparr>ap_last_call_signal_poll_at := tk_instant tk\<rparr>))
           | Some call \<Rightarrow>
               if \<not> ac_incoming call \<and> \<not> ac_accepted call \<and>
                 CALL_ANSWER_TIMEOUT \<le> tk_instant tk - ac_started_at call then
                 (if ap_auth A = None then A
                  else close_call (tx A ''call.no_answer'') (signal_peer ''hangup'' call A))
               else if tk_instant tk - ac_last_signal_poll_at call < 1200 then A
               else (case ap_auth A of None \<Rightarrow> A
                 | Some auth \<Rightarrow> fetch_signals auth (Some (ac_call_id call))
                     (on_call (\<lambda>c. c\<lparr>ac_last_signal_poll_at := tk_instant tk\<rparr>) A))))"

end
