(* ===== verification/App_Flows.thy ===== *)
theory App_Flows
  imports App_Calls
begin

text \<open>
  What the window's threads do: the flows at the end of \<open>app.rs\<close>, each a computation on the client
  core.  \<open>drs\<close> is the supply of random draws, one entry per call that draws.
\<close>

definition DEFAULT_DEVICE_ID :: string where "DEFAULT_DEVICE_ID = ''main''"

definition map_err :: "string \<Rightarrow> ('s, string, 'a) comp \<Rightarrow> ('s, string, 'a) comp" where
  "map_err prefix m s = (case m s of (Inl e, s') \<Rightarrow> (Inl (prefix @ e), s') | (Inr x, s') \<Rightarrow> (Inr x, s'))"

section \<open>Safety numbers\<close>

definition pad5 :: "nat \<Rightarrow> string" where
  "pad5 n = replicate (5 - length (decimal n)) CHR ''0'' @ decimal n"

definition of_be :: "bytes \<Rightarrow> nat" where
  "of_be bs = foldl (\<lambda>n b. n * 256 + unat b) 0 bs"

fun join_words :: "string list \<Rightarrow> string" where
  "join_words [] = []"
| "join_words [w] = w"
| "join_words (w # ws) = w @ CHR '' '' # join_words ws"

text \<open>SHA-256 is a parameter; a group shorter than four bytes would be filled with zeros.\<close>

definition format_safety_number :: "(bytes \<Rightarrow> bytes) \<Rightarrow> string list \<Rightarrow> string" where
  "format_safety_number sha256 parts =
     (let digest = sha256 (as_bytes ''rsmsg-safety-number-v1'' @ concat (map (\<lambda>part. 0 # as_bytes part) parts))
      in join_words (map (\<lambda>chunk. pad5 (of_be (chunk @ replicate (4 - length chunk) 0) mod 100000))
           (take 6 (chunks_of 4 digest))))"

definition local_safety_number :: "(bytes \<Rightarrow> bytes) \<Rightarrow> 'w app \<Rightarrow> string option" where
  "local_safety_number sha256 A = map_option (\<lambda>keys. format_safety_number sha256
     [identity_public_b64 keys, (case signing_identity_public_b64 keys of Some k \<Rightarrow> k | None \<Rightarrow> [])])
     (ap_local_keys A)"

definition peer_safety_number :: "(bytes \<Rightarrow> bytes) \<Rightarrow> chat_history \<Rightarrow> string \<Rightarrow> string option" where
  "peer_safety_number sha256 h peer =
     (case (map_of (ch_peer_identity_key_by_peer h) peer, map_of (ch_peer_signing_identity_key_by_peer h) peer) of
        (Some identity, Some signing) \<Rightarrow> Some (format_safety_number sha256 [identity, signing])
      | _ \<Rightarrow> None)"

section \<open>Logging in\<close>

definition must_hold :: "string \<Rightarrow> bool \<Rightarrow> ('s, string, unit) comp" where
  "must_hold e b = (if b then returnS () else failS e)"

definition login_steps :: "'w app_env \<Rightarrow> (nat \<Rightarrow> client_draws) \<Rightarrow> bool \<Rightarrow> string \<Rightarrow> string \<Rightarrow> string option \<Rightarrow>
    ('w, local_device_keys \<times> chat_history \<times> device_auth) client_op" where
  "login_steps X drs create nickname password invite_code =
     (let C = ae_client X in
      bindS (if create then
               bindS (ok_or invite_code ''Invite code is required'') (\<lambda>invite.
               bindS (map_err ''Account create failed: '' (c_register_user C nickname password invite))
                 (must_hold ''Account already exists''))
             else returnS ()) (\<lambda>_.
      bindS (bindS (map_err ''User login failed: '' (c_login_user C nickname password))
        (must_hold ''Invalid credentials'')) (\<lambda>_.
      bindS (modifyS (unlock_local_storage C password)) (\<lambda>_.
      bindS (readS (\<lambda>cl. load_history (ce_vault C) (ae_os X) (ae_history X) (Some password) (cl_disk cl))) (\<lambda>history.
      bindS (load_or_create_local_device_keys C (drs 0)) (\<lambda>local_keys.
      bindS (map_err ''Register failed: ''
        (lift_result (build_register_request C nickname DEFAULT_DEVICE_ID local_keys))) (\<lambda>req.
      bindS (map_err ''Register failed: '' (c_register_device C req)) (\<lambda>_.
      bindS (map_err ''Login failed: '' (c_login_device C nickname DEFAULT_DEVICE_ID)) (\<lambda>auth.
      returnS (local_keys, history, auth))))))))))"

text \<open>The new core shares the disk and the network with the one in use.\<close>

definition run_login_flow :: "'w app_env \<Rightarrow> (nat \<Rightarrow> client_draws) \<Rightarrow> bool \<Rightarrow> string \<Rightarrow> string \<Rightarrow> string \<Rightarrow>
    string option \<Rightarrow> string \<Rightarrow> 'w client \<Rightarrow> (string + 'w login_success) \<times> 'w client" where
  "run_login_flow X drs create nickname password server_input invite_code language old =
     (let (config, d) = for_server (ae_os X) server_input (cl_disk old);
          (outcome, core) = login_steps X drs create nickname password invite_code
            (new_client config d (cl_world old))
      in case outcome of
           Inl e \<Rightarrow> (Inl e, old\<lparr>cl_disk := cl_disk core, cl_world := cl_world core\<rparr>)
         | Inr (local_keys, history, auth) \<Rightarrow>
             let texts = load_localization (ae_locale X) (ae_embedded X) (cl_disk core) language
             in (Inr \<lparr>ls_core = core, ls_local_keys = local_keys, ls_history = history, ls_auth = auth,
                   ls_nickname = nickname, ls_password = password, ls_server_input = http_base config,
                   ls_status = replace_all ''{nickname}'' nickname (localized texts ''status.logged_in_as'')\<rparr>,
                 old\<lparr>cl_disk := cl_disk core, cl_world := cl_world core\<rparr>))"

section \<open>Opening a chat, sending, calling, saving\<close>

definition run_open_chat_flow :: "'w client_env \<Rightarrow> (nat \<Rightarrow> client_draws) \<Rightarrow> device_auth \<Rightarrow> local_device_keys \<Rightarrow>
    string \<Rightarrow> ('w, open_chat_success) client_op" where
  "run_open_chat_flow C drs auth local_keys peer =
     bindS (map_err ''Peer not found: '' (c_resolve_user_device C peer DEFAULT_DEVICE_ID)) (\<lambda>resolved_uuid.
     bindS (map_err ''Open chat failed: '' (derive_peer_shared_key C (drs 0) local_keys peer DEFAULT_DEVICE_ID))
       (\<lambda>(_, bundle).
     bindS (map_err ''Open chat failed: ''
       (send_contact_to_peer_with_id C (drs 1) auth (pb_device_uuid bundle) (cd_uuid (drs 1)))) (\<lambda>contact_sent.
     if \<not> contact_sent then failS ''Open chat failed: peer session missing''
     else returnS \<lparr>oc_peer = peer, oc_resolved_uuid = resolved_uuid, oc_bundle = bundle\<rparr>)))"

definition session_sent :: "string \<Rightarrow> ('w, bool) client_op \<Rightarrow> ('w, unit) client_op" where
  "session_sent prefix m = bindS (map_err prefix m) (must_hold ''Peer session missing. Re-open chat.'')"

definition run_send_flow :: "'w client_env \<Rightarrow> client_draws \<Rightarrow> (u64 \<Rightarrow> u64 \<Rightarrow> 'w \<Rightarrow> 'w) \<Rightarrow> device_auth \<Rightarrow> string \<Rightarrow>
    send_content \<Rightarrow> string \<Rightarrow> ('w, unit) client_op" where
  "run_send_flow C dr progress auth peer_device_uuid content message_id =
     (case content of
        SendText message_text \<Rightarrow>
          session_sent ''Send failed: '' (send_text_to_peer_with_id C dr auth peer_device_uuid message_text message_id)
      | SendFile name path \<Rightarrow>
          bindS (readS (\<lambda>cl. files (cl_disk cl) path)) (\<lambda>content.
          bindS (ok_or content ''File read failed: not found'') (\<lambda>data.
          bindS (reject_if (MAX_FILE_BYTES < length data) ''File is too large. Limit is 100 MB'') (\<lambda>_.
          session_sent ''Send failed: '' (send_file_blob_to_peer_with_id_with_progress C dr auth peer_device_uuid
            name data message_id progress)))))"

definition run_start_call_flow :: "'w client_env \<Rightarrow> tick \<Rightarrow> device_auth \<Rightarrow> string \<Rightarrow> string \<Rightarrow> string \<Rightarrow> bool \<Rightarrow>
    string \<Rightarrow> ('w, call_state) client_op" where
  "run_start_call_flow C tk auth peer peer_device_uuid the_call video message_id =
     bindS (map_err ''Online check failed: '' (c_is_user_online C peer DEFAULT_DEVICE_ID)) (\<lambda>online.
     bindS (must_hold ''user is not online'' online) (\<lambda>_.
     bindS (session_sent ''Call failed: ''
       (send_call_invite_to_peer_with_id C (tk_draws tk) auth peer_device_uuid the_call video message_id)) (\<lambda>_.
     bindS (ignore (c_send_call_signal C auth the_call peer_device_uuid ''invite''
       (''{\"video\":'' @ (if video then ''true'' else ''false'') @ ''}''))) (\<lambda>_.
     returnS \<lparr>ac_peer = peer, ac_peer_device_uuid = peer_device_uuid, ac_call_id = the_call, ac_video = video,
       ac_microphone_muted = False, ac_camera_disabled = False, ac_incoming = False, ac_accepted = False,
       ac_signaling_status = ''signaling ready'', ac_started_at = tk_instant tk,
       ac_last_signal_poll_at = tk_instant tk\<rparr>))))"

definition run_save_file_flow :: "'w client_env \<Rightarrow> (u64 \<Rightarrow> u64 \<Rightarrow> 'w \<Rightarrow> 'w) \<Rightarrow> device_auth \<Rightarrow> string \<Rightarrow> string \<Rightarrow>
    string \<Rightarrow> ('w, unit) client_op" where
  "run_save_file_flow C progress auth blob file_key path =
     bindS (map_err ''fetch failed: '' (fetch_file_blob_with_progress C auth blob file_key progress)) (\<lambda>data.
     map_err ''write failed: '' (on_disk (write_file path data)))"

section \<open>Synchronising\<close>

definition sender_of :: "'w client_env \<Rightarrow> (string, string) btree \<Rightarrow> string \<Rightarrow> 'w client \<Rightarrow> string option \<times> 'w client" where
  "sender_of C peer_by_device_uuid device_uuid cl =
     (case map_of peer_by_device_uuid device_uuid of
        Some peer \<Rightarrow> (Some peer, cl)
      | None \<Rightarrow> (case c_resolve_device_user C device_uuid cl of
            (Inr peer, cl) \<Rightarrow> (Some peer, cl) | (Inl e, cl) \<Rightarrow> (None, cl)))"

text \<open>The first loop: a session for every sender that has none, or no safety number.\<close>

fun establish_sessions :: "'w client_env \<Rightarrow> (nat \<Rightarrow> client_draws) \<Rightarrow> sync_request \<Rightarrow> pending_envelope list \<Rightarrow>
    'w client \<Rightarrow> peer_mapping list \<times> 'w client" where
  "establish_sessions C drs sq [] cl = ([], cl)"
| "establish_sessions C drs sq (item # items) cl =
     (let rest = establish_sessions C (\<lambda>n. drs (n + 1)) sq items;
          device = pe_from_device_uuid item
      in case sender_of C (sq_peer_by_device_uuid sq) device cl of
           (None, cl) \<Rightarrow> rest cl
         | (Some peer, cl) \<Rightarrow>
             if has_peer_session device cl \<and> peer \<notin> set (sq_peers_missing_safety sq) then rest cl
             else case derive_peer_shared_key C (drs 0) (sq_local_keys sq) peer DEFAULT_DEVICE_ID cl of
               (Inl e, cl) \<Rightarrow> rest cl
             | (Inr (key, bundle), cl) \<Rightarrow>
                 let (mappings, cl) = rest cl
                 in (\<lparr>pm_device_uuid = device, pm_peer = peer, pm_bundle = bundle\<rparr> # mappings, cl))"

definition identity_matches :: "sync_request \<Rightarrow> string \<Rightarrow> fetch_prekey_bundle_response \<Rightarrow> bool" where
  "identity_matches sq peer bundle \<longleftrightarrow>
     (case map_of (sq_peer_identity_key_by_peer sq) peer of
        Some key \<Rightarrow> key = pb_identity_key_b64 bundle | None \<Rightarrow> True) \<and>
     (case map_of (sq_peer_signing_identity_key_by_peer sq) peer of
        Some key \<Rightarrow> key = pb_signing_identity_key_b64 bundle | None \<Rightarrow> True)"

text \<open>The second loop, run when nothing could be decrypted: new sessions under matching identities.\<close>

fun refresh_sessions :: "'w client_env \<Rightarrow> (nat \<Rightarrow> client_draws) \<Rightarrow> sync_request \<Rightarrow> pending_envelope list \<Rightarrow>
    'w client \<Rightarrow> peer_mapping list \<times> bool \<times> 'w client" where
  "refresh_sessions C drs sq [] cl = ([], False, cl)"
| "refresh_sessions C drs sq (item # items) cl =
     (let rest = refresh_sessions C (\<lambda>n. drs (n + 1)) sq items;
          device = pe_from_device_uuid item
      in case sender_of C (sq_peer_by_device_uuid sq) device cl of
           (None, cl) \<Rightarrow> rest cl
         | (Some peer, cl) \<Rightarrow>
             (case fetch_peer_bundle C peer DEFAULT_DEVICE_ID cl of
                (Inl e, cl) \<Rightarrow> rest cl
              | (Inr bundle, cl) \<Rightarrow>
                  let refresh = identity_matches sq peer bundle;
                      cl = (if refresh then
                        snd (refresh_peer_shared_key C (drs 0) (sq_local_keys sq) peer DEFAULT_DEVICE_ID cl) else cl);
                      (mappings, refreshed, cl) = rest cl
                  in (\<lparr>pm_device_uuid = device, pm_peer = peer, pm_bundle = bundle\<rparr> # mappings,
                      refresh \<or> refreshed, cl)))"

definition decrypt_batch :: "'w client_env \<Rightarrow> (nat \<Rightarrow> nat \<Rightarrow> client_draws) \<Rightarrow> sync_request \<Rightarrow> pending_envelope list \<Rightarrow>
    'w client \<Rightarrow> (peer_mapping list \<times> decrypted_message list) \<times> 'w client" where
  "decrypt_batch C drs sq pending cl =
     (let (mappings, cl) = establish_sessions C (drs 0) sq pending cl;
          ((decrypted, ack_ids), cl) = decrypt_pending_with_sessions C (drs 1 0) pending cl
      in if pending \<noteq> [] \<and> decrypted = [] then
           let (more_mappings, refreshed, cl) = refresh_sessions C (drs 2) sq pending cl
           in if refreshed then
                let ((retried, ack_ids), cl) = decrypt_pending_with_sessions C (drs 3 0) pending cl
                in ((mappings @ more_mappings, retried), cl)
              else ((mappings @ more_mappings, decrypted), cl)
         else ((mappings, decrypted), cl))"

definition run_sync_flow :: "'w client_env \<Rightarrow> (nat \<Rightarrow> nat \<Rightarrow> client_draws) \<Rightarrow> sync_request \<Rightarrow> ('w, sync_success) client_op" where
  "run_sync_flow C drs sq =
     bindS (map_err ''Sync failed: '' (c_fetch_pending C (sq_auth sq) (Some 100))) (\<lambda>pending cl.
     let ((mappings, decrypted), cl) = decrypt_batch C drs sq pending cl;
         (statuses, cl) = (if sq_outgoing_message_ids sq = [] then ([], cl)
           else case c_message_statuses C (sq_auth sq) (sq_outgoing_message_ids sq) cl of
             (Inr statuses, cl) \<Rightarrow> (statuses, cl) | (Inl e, cl) \<Rightarrow> ([], cl))
     in (Inr \<lparr>ss_peer_mappings = mappings, ss_decrypted = decrypted, ss_statuses = statuses,
           ss_pending_count = length pending\<rparr>, cl))"

text \<open>The thread of a block action.\<close>

definition run_block_flow :: "'w client_env \<Rightarrow> device_auth \<Rightarrow> block_action \<Rightarrow> ('w, string list) client_op" where
  "run_block_flow C auth action =
     (case action of
        BlockList \<Rightarrow> map_err ''Blocked users refresh failed: '' (c_blocked_users C auth)
      | Block user_id \<Rightarrow> map_err ''Block failed: ''
          (bindS (c_block_user C auth user_id) (\<lambda>_. c_blocked_users C auth))
      | Unblock user_id \<Rightarrow> map_err ''Unblock failed: ''
          (bindS (c_unblock_user C auth user_id) (\<lambda>_. c_blocked_users C auth)))"

text \<open>The thread that fetches a new identity the user chose to trust.\<close>

definition run_trust_flow :: "'w client_env \<Rightarrow> client_draws \<Rightarrow> local_device_keys \<Rightarrow> string \<Rightarrow>
    ('w, fetch_prekey_bundle_response) client_op" where
  "run_trust_flow C dr local_keys peer =
     mapS snd (map_err (''Could not refresh @'' @ peer @ '' identity: '')
       (refresh_peer_shared_key C dr local_keys peer DEFAULT_DEVICE_ID))"

end
