(* ===== verification/App_Example.thy ===== *)
theory App_Example
  imports App_Flows Ratchet
begin

text \<open>
  A concrete window, so that the theorems about it can be applied: offline, with the sample
  primitives, a call notice written as K and its identifier and a contact notice written as C.
\<close>

definition payload_codec0 :: "encrypted_message_payload codec" where
  "payload_codec0 = \<lparr>
     to_json = (\<lambda>p. case p of Contact v \<Rightarrow> ''C'' | File v n l d b k \<Rightarrow> ''F'' | Call v i video \<Rightarrow> CHR ''K'' # i),
     from_json = (\<lambda>s. if s = ''C'' then Some (Contact 1)
       else case s of c # i \<Rightarrow> if c = CHR ''K'' then Some (Call 1 i True) else None | [] \<Rightarrow> None)\<rparr>"

definition history_codec0 :: "chat_history codec" where
  "history_codec0 = \<lparr>to_json = (\<lambda>h. if h = default_history then ''SD'' else ''SX''),
     from_json = (\<lambda>s. if s = ''SD'' then Some default_history else None)\<rparr>"

definition settings_codec0 :: "app_settings codec" where
  "settings_codec0 = \<lparr>to_json = (\<lambda>_. ''{}''), from_json = (\<lambda>_. Some serde_default_settings)\<rparr>"

definition ui_client0 :: "unit client_env" where
  "ui_client0 = \<lparr>ce_vault = vault_env0, ce_network = network0, ce_sessions = sessions_codec0,
     ce_keys = tagged_codec CHR ''S'' (\<lambda>_. []) (\<lambda>_. None), ce_envelope = envelope_codec0,
     ce_payload = payload_codec0\<rparr>"

definition os0 :: os_env where
  "os0 = \<lparr>target_os = OtherUnix, env_var = (\<lambda>_. None)\<rparr>"

definition app_env0 :: "unit app_env" where
  "app_env0 = \<lparr>ae_client = ui_client0, ae_os = os0, ae_history = history_codec0, ae_settings = settings_codec0,
     ae_locale = \<lparr>to_json = (\<lambda>_. []), from_json = (\<lambda>_. None)\<rparr>, ae_embedded = (\<lambda>_. []),
     ae_microphone = (\<lambda>_. Inr ()), ae_playback = (\<lambda>_. True), ae_open_url = (\<lambda>_. Inr ()),
     ae_input_devices = [], ae_output_devices = [], ae_cameras = [], ae_sha256 = (\<lambda>_. replicate 32 7),
     ae_version = ''0.9.1''\<rparr>"

definition ui_draws0 :: client_draws where
  "ui_draws0 = \<lparr>cd_nonce = nonce0, cd_file_nonce = nonce0, cd_file_key = key_b, cd_salt = replicate 16 5,
     cd_vault_nonce = nonce0, cd_identity = key_a, cd_signed = key_a, cd_signing = key_a, cd_uuid = ''m2''\<rparr>"

definition tick0 :: tick where
  "tick0 = \<lparr>tk_now_ms = 5, tk_instant = 9000, tk_uuid = ''m3'', tk_uuid2 = ''m4'', tk_draws = ui_draws0\<rparr>"

definition auth0 :: device_auth where
  "auth0 = \<lparr>da_device_uuid = ''u'', da_auth_token = ''t''\<rparr>"

definition core0 :: "unit client" where
  "core0 = \<lparr>cl_config = \<lparr>http_base = ''http://h'', ws_base = ''ws://h'', session_store_path = ''s'', key_store_path = ''k''\<rparr>,
     cl_password = None, cl_sessions = [], cl_disk = disk0, cl_world = ()\<rparr>"

text \<open>Logged in, with one chat.\<close>

definition app0 :: "unit app" where
  "app0 = \<lparr>ap_core = core0, ap_local_keys = None,
     ap_history = default_history\<lparr>ch_chats := [(''bob'', [])],
       ch_peer_by_device_uuid := [(''dev-of-bob'', ''bob'')], ch_device_uuid_by_peer := [(''bob'', ''dev-of-bob'')]\<rparr>,
     ap_server_input = [], ap_nickname = ''ann'', ap_password = ''secret'', ap_auth = Some auth0, ap_status = [],
     ap_tray = False, ap_hidden_to_tray = False, ap_quit_requested = False,
     ap_settings = serde_default_settings, ap_localization = \<lparr>lo_fallback = [], lo_current = []\<rparr>,
     ap_settings_open = False, ap_create_account_open = False, ap_delete_chat_confirm = None, ap_register_nickname = [],
     ap_register_password = [], ap_register_invite_code = [], ap_peer_nickname_input = [],
     ap_peer_search_results = [], ap_blocked_users = [], ap_selected_chat = [], ap_message_input = [],
     ap_key_change_peer = None, ap_login_rx = None, ap_open_chat_rx = None, ap_search_rx = None,
     ap_block_rx = None, ap_send_rx = None, ap_sync_rx = None, ap_read_ack_rx = None, ap_save_file_rx = None,
     ap_trust_rx = None, ap_call_rx = None, ap_call_signal_rx = None, ap_webrtc_rx = None, ap_update_rx = None,
     ap_active_call = None, ap_microphone_devices = [], ap_speaker_devices = [], ap_camera_devices = [],
     ap_media_session = False, ap_video_capture_session = False,
     ap_webrtc_session = None, ap_audio_playback = False, ap_media_failed_call_id = None,
     ap_update_info = None, ap_update_window_open = False, ap_last_sync_at = 0,
     ap_last_call_signal_poll_at = 0, ap_jobs = [], ap_effects = []\<rparr>"

section \<open>A server that knows bob\<close>

definition bundle0 :: fetch_prekey_bundle_response where
  "bundle0 = \<lparr>pb_device_uuid = ''dev-of-bob'', pb_identity_key_b64 = enc64 primitives0 key_b,
     pb_signing_identity_key_b64 = public_b64 (generate_ed25519_keypair primitives0 key_a),
     pb_signed_prekey_b64 = enc64 primitives0 key_b,
     pb_signed_prekey_signature_b64 = projr (sign_prekey_b64 primitives0
       (private_b64 (generate_ed25519_keypair primitives0 key_a)) (enc64 primitives0 key_b)),
     pb_one_time_prekey = None\<rparr>"

definition reply0 :: "request_body \<Rightarrow> response_body" where
  "reply0 q = (case q of
     QResolveUser _ \<Rightarrow> PResolveUser \<lparr>rur_device_uuid = ''dev-of-bob''\<rparr>
   | QFetchPrekeyBundle _ \<Rightarrow> PFetchPrekeyBundle bundle0
   | QSendMessage _ \<Rightarrow> PSendMessage \<lparr>smr_accepted = True\<rparr>
   | _ \<Rightarrow> PEmpty)"

definition ui_client1 :: "unit client_env" where
  "ui_client1 = ui_client0\<lparr>ce_network := network0\<lparr>nw_send := (\<lambda>base rq w.
     (Inr \<lparr>rs_status = 200, rs_body = BResponse (reply0 (rq_body rq))\<rparr>, w))\<rparr>\<rparr>"

definition keys0 :: local_device_keys where
  "keys0 = \<lparr>identity_private_b64 = enc64 primitives0 key_a, identity_public_b64 = enc64 primitives0 key_a,
     signing_identity_private_b64 = None, signing_identity_public_b64 = None,
     signed_prekey_private_b64 = [], signed_prekey_public_b64 = []\<rparr>"

lemma ui_client1_simps [simp]:
  "prim vault_env0 = primitives0" "ce_envelope ui_client1 = envelope_codec0"
  "ce_payload ui_client1 = payload_codec0" "ce_vault ui_client1 = vault_env0"
  by (simp_all add: ui_client1_def ui_client0_def vault_env0_def)

lemma answered0:
  "post (ce_network ui_client1) cfg path extra q w = (Inr \<lparr>rs_status = 200, rs_body = BResponse (reply0 q)\<rparr>, w)"
  by (simp add: post_def ui_client1_def)

lemma answered_auth0:
  "post_auth (ce_network ui_client1) cfg auth path q w = (Inr \<lparr>rs_status = 200, rs_body = BResponse (reply0 q)\<rparr>, w)"
proof -
  have "auth_headers (ce_network ui_client1) auth =
      Inr [''x-device-uuid'' \<mapsto> da_device_uuid auth, ''x-device-token'' \<mapsto> da_auth_token auth]"
    by (simp add: auth_headers_def ui_client1_def network0_def)
  then show ?thesis by (simp add: post_auth_def answered0)
qed

lemma resolved0: "c_resolve_user_device ui_client1 u d cl = (Inr ''dev-of-bob'', cl)"
  by (simp add: c_resolve_user_device_def mapS_def on_net_def t_resolve_user_def as_result_def bindS_apply
      answered0 require_success_def is_success_def read_json_def reply0_def)

lemma sent0: "c_send_message ui_client1 auth req cl = (Inr True, cl)"
  by (simp add: c_send_message_def mapS_def on_net_def t_send_message_def as_result_def bindS_apply
      answered_auth0 require_success_def is_success_def read_json_def reply0_def)

lemma bundle0_verifies: "verify_prekey_signature_b64 primitives0 (pb_signing_identity_key_b64 bundle0)
    (pb_signed_prekey_b64 bundle0) (pb_signed_prekey_signature_b64 bundle0) = Inr ()"
proof -
  have "dec64 primitives0 (enc64 primitives0 key_b) = Some key_b"
    using primitives0_laws by (simp add: primitive_laws_def)
  from signed_prekey_verifies [OF primitives0_laws sample_lengths(1) this] show ?thesis
    by (auto simp: bundle0_def)
qed

lemma fetched0: "fetch_peer_bundle ui_client1 u d cl = (Inr bundle0, cl)"
  by (simp add: fetch_peer_bundle_def on_net_def t_fetch_prekey_bundle_def with_context_def bindS_apply
      answered0 require_success_def is_success_def read_json_def reply0_def bundle0_verifies Let_def)

definition derived0 :: string where
  "derived0 = projr (derive_shared_key_b64 primitives0 (enc64 primitives0 key_a) (enc64 primitives0 key_b))"

lemma derived0: "derive_shared_key_b64 primitives0 (identity_private_b64 keys0) (pb_identity_key_b64 bundle0) = Inr derived0"
  using decode_key_encoded [OF primitives0_laws]
  by (simp add: derived0_def keys0_def bundle0_def derive_shared_key_b64_def)

lemma derived0_good: "\<exists>k. decode_key primitives0 derived0 = Inr k"
  using decode_key_encoded [OF primitives0_laws] encoded_keys [OF primitives0_laws]
  by (simp add: derived0_def derive_shared_key_b64_def)

lemma derive_inner0:
  "\<exists>cl'. derive_peer_shared_key_inner ui_client1 dr keys0 u d replace cl = (Inr (derived0, bundle0), cl')"
  by (simp add: derive_peer_shared_key_inner_def bindS_apply fetched0 derived0 ignore_def)

end
