(* ===== verification/App_Invariants.thy ===== *)
theory App_Invariants
  imports App_Example "HOL-Library.Multiset"
begin

text \<open>
  What the window keeps true of its history: every message identifier occurs once, whatever
  synchronisations bring and however often, and the pinned identity of a peer stays until the
  user trusts another.
\<close>

section \<open>Message identifiers\<close>

definition ids_of :: "chat_message list \<Rightarrow> string list" where
  "ids_of ms = List.map_filter cm_message_id ms"

definition message_ids :: "chat_history \<Rightarrow> string list" where
  "message_ids h = ids_of (concat (map snd (ch_chats h)))"

definition history_ok :: "chat_history \<Rightarrow> bool" where
  "history_ok h \<longleftrightarrow> distinct (message_ids h) \<and> keys_sorted (ch_chats h)"

lemma ids_of_simps [simp]:
  "ids_of [] = []"
  "ids_of (m # ms) = (case cm_message_id m of None \<Rightarrow> ids_of ms | Some i \<Rightarrow> i # ids_of ms)"
  "ids_of (xs @ ys) = ids_of xs @ ids_of ys"
  by (auto simp: ids_of_def List.map_filter_def split: option.split)

lemma ids_of_map:
  assumes "\<And>m. cm_message_id (f m) = cm_message_id m"
  shows "ids_of (map f ms) = ids_of ms"
  by (induction ms) (simp_all add: assms split: option.split)

lemma ids_of_set: "i \<in> set (ids_of ms) \<longleftrightarrow> (\<exists>m \<in> set ms. cm_message_id m = Some i)"
  by (induction ms) (auto split: option.splits)

lemma known_message_iff: "known_message h i \<longleftrightarrow> i \<in> set (message_ids h)"
  by (simp add: known_message_def message_ids_def ids_of_set split_beta Bex_def) blast

lemma distinct_via_mset: "mset xs = mset ys \<Longrightarrow> distinct xs = distinct ys"
  by (metis mset_eq_imp_distinct_iff)

text \<open>The identifiers of a chat map, and how its operations change them.\<close>

definition chat_ids :: "(string, chat_message list) btree \<Rightarrow> string list" where
  "chat_ids c = ids_of (concat (map snd c))"

lemma message_ids_eq: "message_ids h = chat_ids (ch_chats h)"
  by (simp add: message_ids_def chat_ids_def)

lemma chat_ids_Cons [simp]: "chat_ids ((k, ms) # c) = ids_of ms @ chat_ids c" "chat_ids [] = []"
  by (simp_all add: chat_ids_def)

lemma chat_ids_or_insert [simp]: "chat_ids (bt_or_insert k [] c) = chat_ids c"
proof -
  have "map_of c k = None \<Longrightarrow> chat_ids (bt_insert k [] c) = chat_ids c"
    by (induction k "[] :: chat_message list" c rule: bt_insert.induct) (auto split: if_splits)
  then show ?thesis by (simp add: bt_or_insert_def)
qed

lemma chat_ids_modify_same:
  "(\<And>ms. ids_of (f ms) = ids_of ms) \<Longrightarrow> chat_ids (bt_modify k f c) = chat_ids c"
  unfolding bt_modify_def by (induction c) auto

lemma chat_ids_map_same:
  "(\<And>ms. ids_of (f ms) = ids_of ms) \<Longrightarrow> chat_ids (map (\<lambda>(p, ms). (p, f ms)) c) = chat_ids c"
  by (induction c) auto

lemma bt_modify_absent: "k \<notin> set (map fst c) \<Longrightarrow> bt_modify k f c = c"
  unfolding bt_modify_def by (induction c) auto

lemma chat_ids_push:
  assumes "keys_sorted c" "map_of c k \<noteq> None"
  shows "mset (chat_ids (bt_modify k (\<lambda>ms. ms @ [m]) c)) = mset (ids_of [m]) + mset (chat_ids c)"
  using assms
proof (induction c)
  case (Cons p c)
  obtain a ms where p: "p = (a, ms)" by fastforce
  have tail: "bt_modify k f (p # c) = (a, if a = k then f ms else ms) # bt_modify k f c" for f
    by (simp add: bt_modify_def p)
  show ?case
  proof (cases "a = k")
    case True
    then have "k \<notin> set (map fst c)" using Cons.prems(1) by (auto simp: p)
    then have "bt_modify k f c = c" for f by (rule bt_modify_absent)
    then show ?thesis using True by (simp only: tail) (simp add: p split: option.split)
  next
    case False
    then show ?thesis using Cons by (simp only: tail) (simp add: p split: option.split)
  qed
qed simp

lemma chat_ids_remove: "set (chat_ids (bt_remove k c)) \<subseteq> set (chat_ids c)"
  "distinct (chat_ids c) \<Longrightarrow> distinct (chat_ids (bt_remove k c))"
proof -
  show s: "set (chat_ids (bt_remove k c)) \<subseteq> set (chat_ids c)" for c
    unfolding bt_remove_def by (induction c) auto
  show "distinct (chat_ids c) \<Longrightarrow> distinct (chat_ids (bt_remove k c))"
  proof (induction c)
    case (Cons p c)
    then show ?case using s [of c] by (cases p) (auto simp: bt_remove_def)
  qed (simp add: bt_remove_def)
qed

lemma push_message_ids:
  assumes "history_ok h" "cm_message_id m = Some i"
  shows "mset (message_ids (push_message nick m h)) = add_mset i (mset (message_ids h))"
    and "keys_sorted (ch_chats (push_message nick m h))"
proof -
  let ?c = "bt_or_insert nick [] (ch_chats h)"
  have sorted: "keys_sorted ?c" using assms(1) by (intro keys_sorted_or_insert) (simp add: history_ok_def)
  have "map_of ?c nick \<noteq> None" by (simp add: map_of_bt_or_insert)
  from chat_ids_push [OF sorted this, of m] show "mset (message_ids (push_message nick m h)) = add_mset i (mset (message_ids h))"
    using assms(2) by (simp add: message_ids_eq push_message_def)
  show "keys_sorted (ch_chats (push_message nick m h))"
    using sorted by (simp add: push_message_def keys_sorted_modify)
qed

lemma push_message_ok:
  assumes "history_ok h" "cm_message_id m = Some i" "i \<notin> set (message_ids h)"
  shows "history_ok (push_message nick m h)"
    and "set (message_ids (push_message nick m h)) = insert i (set (message_ids h))"
proof -
  note ids = push_message_ids [OF assms(1,2), of nick]
  have "distinct (message_ids (push_message nick m h)) = distinct (i # message_ids h)"
    by (rule distinct_via_mset) (simp add: ids)
  then show "history_ok (push_message nick m h)" using assms ids by (simp add: history_ok_def)
  show "set (message_ids (push_message nick m h)) = insert i (set (message_ids h))"
    using ids(1) by (metis set_mset_add_mset_insert set_mset_mset)
qed

section \<open>Receiving\<close>

definition is_contact :: "'w app_env \<Rightarrow> decrypted_message \<Rightarrow> bool" where
  "is_contact X msg \<longleftrightarrow> (\<exists>v. from_json (ce_payload (ae_client X)) (dm_plaintext msg) = Some (Contact v))"

lemma received_message_id [simp]: "cm_message_id (received_message msg message_text payload) = Some (dm_message_id msg)"
  by (auto simp: received_message_def Let_def split: option.split encrypted_message_payload.split)

lemma history_updates [simp]:
  "ap_history (on_history f A) = f (ap_history A)"
  "ap_history (effect_of e A) = ap_history A"
  "ap_history (spawn j A) = ap_history A"
  "ap_history (say key A) = ap_history A"
  "ap_history (ring tk p d i v A) = ap_history A"
  "ap_history (save_history X dr A) = ap_history A"
  "ap_history (on_core_disk g A) = ap_history A"
  by (simp_all add: on_history_def effect_of_def spawn_def say_def ring_def save_history_def on_core_disk_def)

lemma message_ids_other [simp]:
  "message_ids (h\<lparr>ch_unread_by_peer := u\<rparr>) = message_ids h"
  "message_ids (h\<lparr>ch_peer_by_device_uuid := d\<rparr>) = message_ids h"
  "message_ids (h\<lparr>ch_device_uuid_by_peer := d\<rparr>) = message_ids h"
  "message_ids (h\<lparr>ch_peer_identity_key_by_peer := d\<rparr>) = message_ids h"
  "message_ids (h\<lparr>ch_peer_signing_identity_key_by_peer := d\<rparr>) = message_ids h"
  by (simp_all add: message_ids_def)

lemma history_ok_cong:
  "message_ids h' = message_ids h \<Longrightarrow> keys_sorted (ch_chats h') = keys_sorted (ch_chats h) \<Longrightarrow>
   history_ok h' = history_ok h"
  by (simp add: history_ok_def)

lemma show_message_history:
  "\<exists>u. ap_history (show_message msg payload nick A) =
     (push_message nick (received_message msg (shown_text A msg payload) payload) (ap_history A))\<lparr>ch_unread_by_peer := u\<rparr>"
proof -
  have "shown_text (effect_of e A) msg payload = shown_text A msg payload" for e
    by (simp add: shown_text_def tx_def effect_of_def split: option.split encrypted_message_payload.split)
  moreover have "\<exists>u. h = h\<lparr>ch_unread_by_peer := u\<rparr>" for h :: chat_history
    by (rule exI [of _ "ch_unread_by_peer h"]) simp
  ultimately show ?thesis
    by (auto simp: show_message_def Let_def)
qed

lemma show_message_ok:
  assumes "history_ok (ap_history A)" "dm_message_id msg \<notin> set (message_ids (ap_history A))"
  shows "history_ok (ap_history (show_message msg payload nick A))"
    and "set (message_ids (ap_history (show_message msg payload nick A))) =
      insert (dm_message_id msg) (set (message_ids (ap_history A)))"
proof -
  obtain u where u: "ap_history (show_message msg payload nick A) =
     (push_message nick (received_message msg (shown_text A msg payload) payload) (ap_history A))\<lparr>ch_unread_by_peer := u\<rparr>"
    using show_message_history [of msg payload nick A] by blast
  note ok = push_message_ok [OF assms(1) received_message_id assms(2)]
  show "history_ok (ap_history (show_message msg payload nick A))"
    unfolding u using ok(1) by (simp add: history_ok_def)
  show "set (message_ids (ap_history (show_message msg payload nick A))) =
      insert (dm_message_id msg) (set (message_ids (ap_history A)))"
    unfolding u using ok(2) by simp
qed

lemma push_incoming_ok:
  assumes "history_ok (ap_history A)"
  shows "history_ok (ap_history (push_incoming X tk msg A)) \<and>
    set (message_ids (ap_history (push_incoming X tk msg A))) =
      set (message_ids (ap_history A)) \<union> (if is_contact X msg then {} else {dm_message_id msg})"
proof (cases "known_message (ap_history A) (dm_message_id msg)")
  case True
  then show ?thesis using assms by (auto simp: push_incoming_def known_message_iff)
next
  case False
  then have new: "dm_message_id msg \<notin> set (message_ids (ap_history A))" by (simp add: known_message_iff)
  note shown = show_message_ok [OF assms new]
  show ?thesis
  proof (cases "from_json (ce_payload (ae_client X)) (dm_plaintext msg)")
    case None
    then show ?thesis using False shown by (simp add: push_incoming_def is_contact_def)
  next
    case (Some payload)
    then show ?thesis
    proof (cases payload)
      case (Contact v)
      then show ?thesis using False Some assms
        by (simp add: push_incoming_def is_contact_def history_ok_def message_ids_eq keys_sorted_or_insert)
    next
      case File
      then show ?thesis using False Some shown by (simp add: push_incoming_def is_contact_def)
    next
      case Call
      then show ?thesis using False Some shown
        by (simp add: push_incoming_def is_contact_def Let_def split: option.split)
    qed
  qed
qed

lemma push_all_ok:
  assumes "history_ok (ap_history A)"
  shows "history_ok (ap_history (fold (push_incoming X tk) msgs A)) \<and>
    set (message_ids (ap_history (fold (push_incoming X tk) msgs A))) =
      set (message_ids (ap_history A)) \<union> dm_message_id ` {m \<in> set msgs. \<not> is_contact X m}"
  using assms
proof (induction msgs arbitrary: A)
  case (Cons m msgs)
  from push_incoming_ok [OF Cons.prems, of X tk m] Cons.IH [of "push_incoming X tk m A"]
  show ?case by auto
qed simp

section \<open>Applying a synchronisation\<close>

lemma apply_status_ids:
  "message_ids (snd (apply_status status st)) = message_ids (snd st)"
  "keys_sorted (ch_chats (snd (apply_status status st))) = keys_sorted (ch_chats (snd st))"
proof -
  obtain changed h where st: "st = (changed, h)" by fastforce
  show "message_ids (snd (apply_status status st)) = message_ids (snd st)"
    unfolding st by (simp add: apply_status_def Let_def message_ids_eq) (intro chat_ids_map_same ids_of_map, simp)
  have "fst \<circ> (\<lambda>(p :: string, ms). (p, f ms)) = fst" for f :: "chat_message list \<Rightarrow> chat_message list"
    by auto
  then show "keys_sorted (ch_chats (snd (apply_status status st))) = keys_sorted (ch_chats (snd st))"
    unfolding st by (simp add: apply_status_def Let_def)
qed

lemma apply_outgoing_statuses_ids:
  "message_ids (snd (apply_outgoing_statuses sts h)) = message_ids h \<and>
   keys_sorted (ch_chats (snd (apply_outgoing_statuses sts h))) = keys_sorted (ch_chats h)"
proof -
  have "message_ids (snd (fold apply_status sts st)) = message_ids (snd st) \<and>
    keys_sorted (ch_chats (snd (fold apply_status sts st))) = keys_sorted (ch_chats (snd st))" for st
    by (induction sts arbitrary: st) (simp_all add: apply_status_ids)
  from this [of "(False, h)"] show ?thesis by (simp add: apply_outgoing_statuses_def)
qed

lemma mark_read_ids:
  "message_ids (ap_history (snd (mark_selected_chat_read auth A))) = message_ids (ap_history A) \<and>
   keys_sorted (ch_chats (ap_history (snd (mark_selected_chat_read auth A)))) = keys_sorted (ch_chats (ap_history A))"
  by (auto simp: mark_selected_chat_read_def Let_def message_ids_eq keys_sorted_modify
      intro!: chat_ids_modify_same ids_of_map split: option.split)

lemma verify_ids:
  "ch_chats (ap_history (snd (verify_or_pin_peer_identity peer bundle A))) = ch_chats (ap_history A)"
  by (simp add: verify_or_pin_peer_identity_def Let_def)

lemma apply_mapping_ids:
  assumes "history_ok (ap_history (snd st))"
  shows "history_ok (ap_history (snd (apply_mapping mapping st))) \<and>
    message_ids (ap_history (snd (apply_mapping mapping st))) = message_ids (ap_history (snd st))"
proof -
  obtain changed A where st: "st = (changed, A)" by fastforce
  obtain ok B where v: "verify_or_pin_peer_identity (pm_peer mapping) (pm_bundle mapping) A = (ok, B)" by fastforce
  then have "ch_chats (ap_history B) = ch_chats (ap_history A)"
    using verify_ids [of "pm_peer mapping" "pm_bundle mapping" A] by simp
  then show ?thesis using assms
    by (cases ok) (simp_all add: st apply_mapping_def v Let_def history_ok_def message_ids_eq keys_sorted_or_insert)
qed

lemma apply_mappings_ids:
  assumes "history_ok (ap_history (snd st))"
  shows "history_ok (ap_history (snd (fold apply_mapping mappings st))) \<and>
    message_ids (ap_history (snd (fold apply_mapping mappings st))) = message_ids (ap_history (snd st))"
  using assms
proof (induction mappings arbitrary: st)
  case (Cons m mappings)
  from apply_mapping_ids [OF Cons.prems, of m] Cons.IH [of "apply_mapping m st"] show ?case by simp
qed simp

text \<open>The stages of applying a synchronisation.\<close>

lemma sync_history:
  fixes A :: "'w app" and A1 :: "'w app" and X :: "'w app_env"
  assumes m: "fold apply_mapping (ss_peer_mappings success) (False, A) = (changed, A1)"
  obtains A4 :: "'w app" where "ap_history A4 = snd (apply_outgoing_statuses (ss_statuses success)
      (ap_history (fold (push_incoming X tk) (ss_decrypted success) A1)))"
    and "ap_history (apply_sync_success X tk success A) = ap_history A4 \<or>
      (\<exists>auth. ap_history (apply_sync_success X tk success A) = ap_history (snd (mark_selected_chat_read auth A4)))"
proof -
  define A2 where "A2 = fold (push_incoming X tk) (ss_decrypted success) A1"
  define A3 where "A3 = (if 0 < ss_pending_count success \<and> length (ss_decrypted success) = 0
      then A2\<lparr>ap_status := ''Sync received '' @ decimal (ss_pending_count success) @
        '' pending message(s), decrypted 0. Re-open chat or trust the new key.''\<rparr> else A2)"
  obtain sc h where h: "apply_outgoing_statuses (ss_statuses success) (ap_history A3) = (sc, h)" by fastforce
  define A4 where "A4 = A3\<lparr>ap_history := h\<rparr>"
  define read where "read = (case ap_auth A4 of None \<Rightarrow> (False, A4) | Some auth \<Rightarrow> mark_selected_chat_read auth A4)"
  have "ap_history (apply_sync_success X tk success A) = ap_history (snd read)"
    unfolding apply_sync_success_def Let_def m prod.case A2_def [symmetric] A3_def [symmetric] h
      A4_def [symmetric] read_def [symmetric] by (simp split: prod.split)
  moreover have "ap_history A3 = ap_history A2" by (simp add: A3_def)
  ultimately show thesis using h
    by (intro that [of A4]) (auto simp: read_def A4_def A2_def split: option.split)
qed

lemma sync_ids:
  fixes A :: "'w app" and X :: "'w app_env"
  assumes "history_ok (ap_history A)"
  shows "history_ok (ap_history (apply_sync_success X tk success A)) \<and>
    set (message_ids (ap_history (apply_sync_success X tk success A))) =
      set (message_ids (ap_history A)) \<union> dm_message_id ` {m \<in> set (ss_decrypted success). \<not> is_contact X m}"
proof -
  obtain changed and A1 :: "'w app" where m: "fold apply_mapping (ss_peer_mappings success) (False, A) = (changed, A1)" by fastforce
  have A1: "history_ok (ap_history A1)" "message_ids (ap_history A1) = message_ids (ap_history A)"
    using apply_mappings_ids [of "(False, A)" "ss_peer_mappings success"] assms by (simp_all add: m)
  define A2 where "A2 = fold (push_incoming X tk) (ss_decrypted success) A1"
  have A2: "history_ok (ap_history A2)" "set (message_ids (ap_history A2)) =
      set (message_ids (ap_history A)) \<union> dm_message_id ` {m \<in> set (ss_decrypted success). \<not> is_contact X m}"
    using push_all_ok [OF A1(1), of X tk "ss_decrypted success"] by (simp_all add: A2_def A1)
  obtain A4 :: "'w app" where A4: "ap_history A4 = snd (apply_outgoing_statuses (ss_statuses success) (ap_history A2))"
    and last: "ap_history (apply_sync_success X tk success A) = ap_history A4 \<or>
      (\<exists>auth. ap_history (apply_sync_success X tk success A) = ap_history (snd (mark_selected_chat_read auth A4)))"
    unfolding A2_def by (rule sync_history [OF m, where X = X and tk = tk])
  have "message_ids (ap_history A4) = message_ids (ap_history A2)"
    "keys_sorted (ch_chats (ap_history A4)) = keys_sorted (ch_chats (ap_history A2))"
    using apply_outgoing_statuses_ids [of "ss_statuses success" "ap_history A2"] by (simp_all add: A4)
  then have "message_ids (ap_history (apply_sync_success X tk success A)) = message_ids (ap_history A2)"
    "keys_sorted (ch_chats (ap_history (apply_sync_success X tk success A))) = keys_sorted (ch_chats (ap_history A2))"
    using last mark_read_ids [of _ A4] by (elim disjE exE; simp)+
  then show ?thesis using A2 by (simp add: history_ok_def)
qed

text \<open>
  C31.  A synchronisation shows every message once: in a history whose message identifiers are
  distinct they stay distinct, and the identifiers present afterwards are those present before
  and those of the decrypted messages that are not contact notices - whatever was decrypted
  twice, redelivered or already there.
\<close>

theorem sync_shows_each_once:
  fixes A :: "'w app" and X :: "'w app_env"
  assumes "history_ok (ap_history A)"
  shows "history_ok (ap_history (apply_sync_success X tk success A)) \<and>
    set (message_ids (ap_history (apply_sync_success X tk success A))) =
      set (message_ids (ap_history A)) \<union> dm_message_id ` {m \<in> set (ss_decrypted success). \<not> is_contact X m}"
  using assms by (rule sync_ids)

lemma is_contact0: "is_contact app_env0 msg \<longleftrightarrow> dm_plaintext msg = ''C''"
  by (auto simp: is_contact_def app_env0_def ui_client0_def payload_codec0_def split: list.splits if_splits)

lemma sync_shows_each_once_witness:
  "history_ok (ap_history app0) \<and>
   set (message_ids (ap_history (apply_sync_success app_env0 tick0
     \<lparr>ss_peer_mappings = [], ss_decrypted =
        [\<lparr>dm_message_id = ''a'', dm_from_device_uuid = ''dev-of-bob'', dm_plaintext = ''hi'', dm_created_at_unix_ms = 1\<rparr>,
         \<lparr>dm_message_id = ''b'', dm_from_device_uuid = ''dev-of-bob'', dm_plaintext = ''C'', dm_created_at_unix_ms = 2\<rparr>,
         \<lparr>dm_message_id = ''a'', dm_from_device_uuid = ''dev-of-bob'', dm_plaintext = ''hi'', dm_created_at_unix_ms = 3\<rparr>],
      ss_statuses = [], ss_pending_count = 3\<rparr> app0))) = {''a''}"
proof -
  have ok: "history_ok (ap_history app0)"
    by (simp add: app0_def default_history_def history_ok_def message_ids_def)
  have none: "message_ids (ap_history app0) = []"
    by (simp add: app0_def default_history_def message_ids_def)
  have shown: "dm_message_id ` {m \<in> set ms. \<not> is_contact app_env0 m} =
      set (map dm_message_id (filter (\<lambda>m. \<not> is_contact app_env0 m) ms))" for ms by auto
  show ?thesis
    using ok by (subst conjunct2 [OF sync_shows_each_once [OF ok]]) (simp only: shown none, simp add: is_contact0)
qed

section \<open>Pinned identities\<close>

definition pins :: "chat_history \<Rightarrow> string \<Rightarrow> string option \<times> string option" where
  "pins h peer = (map_of (ch_peer_identity_key_by_peer h) peer, map_of (ch_peer_signing_identity_key_by_peer h) peer)"

definition pinned_to :: "chat_history \<Rightarrow> string \<Rightarrow> fetch_prekey_bundle_response \<Rightarrow> bool" where
  "pinned_to h peer bundle \<longleftrightarrow> pins h peer = (Some (pb_identity_key_b64 bundle), Some (pb_signing_identity_key_b64 bundle))"

text \<open>Pins are only added.\<close>

definition keeps_pins :: "chat_history \<Rightarrow> chat_history \<Rightarrow> bool" where
  "keeps_pins h h' \<longleftrightarrow> map_of (ch_peer_identity_key_by_peer h) \<subseteq>\<^sub>m map_of (ch_peer_identity_key_by_peer h') \<and>
     map_of (ch_peer_signing_identity_key_by_peer h) \<subseteq>\<^sub>m map_of (ch_peer_signing_identity_key_by_peer h')"

interpretation pin_order: step_order "\<lambda>A B. keeps_pins (ap_history A) (ap_history B)"
  by unfold_locales (auto simp: keeps_pins_def intro: map_le_trans)

lemma verify_outcome:
  "verify_or_pin_peer_identity peer bundle A = (ok, B) \<Longrightarrow>
     keeps_pins (ap_history A) (ap_history B) \<and> (ok \<longrightarrow> pinned_to (ap_history B) peer bundle) \<and>
     (\<not> ok \<longrightarrow> ap_history B = ap_history A \<and> ap_key_change_peer B = Some peer)"
  by (auto simp: verify_or_pin_peer_identity_def Let_def keeps_pins_def pinned_to_def pins_def map_le_def
      map_of_bt_or_insert split: if_splits option.splits)

text \<open>A bundle fits when each of its two keys is the pinned one, where one is pinned.\<close>

definition fits_pins :: "chat_history \<Rightarrow> string \<Rightarrow> fetch_prekey_bundle_response \<Rightarrow> bool" where
  "fits_pins h peer bundle \<longleftrightarrow>
     fst (pins h peer) \<in> {None, Some (pb_identity_key_b64 bundle)} \<and>
     snd (pins h peer) \<in> {None, Some (pb_signing_identity_key_b64 bundle)}"

lemma verify_iff_fits:
  "fst (verify_or_pin_peer_identity peer bundle A) \<longleftrightarrow> fits_pins (ap_history A) peer bundle"
  by (auto simp: verify_or_pin_peer_identity_def fits_pins_def pins_def Let_def split: option.splits if_splits)

definition pin_lists :: "chat_history \<Rightarrow> (string, string) btree \<times> (string, string) btree" where
  "pin_lists h = (ch_peer_identity_key_by_peer h, ch_peer_signing_identity_key_by_peer h)"

lemma keeps_pins_same: "pin_lists h' = pin_lists h \<Longrightarrow> keeps_pins h h'"
  by (simp add: keeps_pins_def pin_lists_def)

lemma pin_lists_cong: "pin_lists h = pin_lists h' \<Longrightarrow> keeps_pins g h = keeps_pins g h' \<and> pinned_to h = pinned_to h'"
  by (simp add: keeps_pins_def pin_lists_def pinned_to_def pins_def fun_eq_iff)

lemma pin_lists_updates [simp]:
  "pin_lists (h\<lparr>ch_chats := c\<rparr>) = pin_lists h" "pin_lists (h\<lparr>ch_unread_by_peer := u\<rparr>) = pin_lists h"
  "pin_lists (h\<lparr>ch_peer_by_device_uuid := d\<rparr>) = pin_lists h" "pin_lists (h\<lparr>ch_device_uuid_by_peer := d\<rparr>) = pin_lists h"
  "pin_lists (push_message nick m h) = pin_lists h"
  by (simp_all add: pin_lists_def push_message_def)

lemma mark_read_pins: "pin_lists (ap_history (snd (mark_selected_chat_read auth A))) = pin_lists (ap_history A)"
  by (simp add: mark_selected_chat_read_def Let_def split: option.split)

lemma show_message_pins: "pin_lists (ap_history (show_message msg payload nick A)) = pin_lists (ap_history A)"
  using show_message_history [of msg payload nick A] by auto

lemma push_incoming_pins: "pin_lists (ap_history (push_incoming X tk msg A)) = pin_lists (ap_history A)"
  by (simp add: push_incoming_def Let_def show_message_pins split: option.split encrypted_message_payload.split)

lemma push_all_pins: "pin_lists (ap_history (fold (push_incoming X tk) msgs A)) = pin_lists (ap_history A)"
  by (induction msgs arbitrary: A) (simp_all add: push_incoming_pins)

lemma statuses_pins: "pin_lists (snd (apply_outgoing_statuses sts h)) = pin_lists h"
proof -
  have "pin_lists (snd (fold apply_status sts st)) = pin_lists (snd st)" for st
    by (induction sts arbitrary: st) (simp_all add: apply_status_def Let_def split_beta)
  from this [of "(False, h)"] show ?thesis by (simp add: apply_outgoing_statuses_def)
qed

lemma apply_mapping_pins: "keeps_pins (ap_history (snd st)) (ap_history (snd (apply_mapping mapping st)))"
proof -
  obtain changed A where st: "st = (changed, A)" by fastforce
  obtain ok B where v: "verify_or_pin_peer_identity (pm_peer mapping) (pm_bundle mapping) A = (ok, B)" by fastforce
  note keep = verify_outcome [OF v]
  have "pin_lists (ap_history (snd (apply_mapping mapping st))) = pin_lists (ap_history B)"
    by (cases ok) (simp_all add: st apply_mapping_def v Let_def)
  from pin_lists_cong [OF this, of "ap_history A"] keep show ?thesis by (simp add: st)
qed

lemma apply_mappings_pins: "keeps_pins (ap_history (snd st)) (ap_history (snd (fold apply_mapping mappings st)))"
proof (induction mappings arbitrary: st)
  case Nil
  then show ?case by (simp add: keeps_pins_same)
next
  case (Cons m mappings)
  from pin_order.step_trans [OF apply_mapping_pins [of st m] Cons.IH [of "apply_mapping m st"]]
  show ?case by simp
qed

lemma sync_keeps_pins:
  fixes A :: "'w app" and X :: "'w app_env"
  shows "keeps_pins (ap_history A) (ap_history (apply_sync_success X tk success A))"
proof -
  obtain changed and A1 :: "'w app" where m: "fold apply_mapping (ss_peer_mappings success) (False, A) = (changed, A1)" by fastforce
  have A1: "keeps_pins (ap_history A) (ap_history A1)"
    using apply_mappings_pins [of "(False, A)" "ss_peer_mappings success"] by (simp add: m)
  obtain A4 :: "'w app" where A4: "ap_history A4 = snd (apply_outgoing_statuses (ss_statuses success)
      (ap_history (fold (push_incoming X tk) (ss_decrypted success) A1)))"
    and last: "ap_history (apply_sync_success X tk success A) = ap_history A4 \<or>
      (\<exists>auth. ap_history (apply_sync_success X tk success A) = ap_history (snd (mark_selected_chat_read auth A4)))"
    by (rule sync_history [OF m, where X = X and tk = tk])
  have "pin_lists (ap_history (apply_sync_success X tk success A)) = pin_lists (ap_history A1)"
    using last A4 by (auto simp: mark_read_pins push_all_pins statuses_pins)
  then show ?thesis using A1 pin_lists_cong by blast
qed

lemma open_chat_history:
  assumes v: "verify_or_pin_peer_identity (oc_peer success) (oc_bundle success) A = (True, B)"
    and "pb_device_uuid (oc_bundle success) = oc_resolved_uuid success"
  shows "pin_lists (ap_history (apply_open_chat_success X dr success A)) = pin_lists (ap_history B)"
    and "ap_selected_chat (apply_open_chat_success X dr success A) = oc_peer success"
proof -
  have sel: "ap_selected_chat (snd (mark_selected_chat_read auth C)) = ap_selected_chat C" for auth and C :: "'a app"
    by (simp add: mark_selected_chat_read_def Let_def on_history_def spawn_def split: option.split)
  show "pin_lists (ap_history (apply_open_chat_success X dr success A)) = pin_lists (ap_history B)"
    using assms by (simp add: apply_open_chat_success_def Let_def mark_read_pins split: option.split)
  show "ap_selected_chat (apply_open_chat_success X dr success A) = oc_peer success"
    using assms
    by (simp add: apply_open_chat_success_def Let_def sel on_history_def save_history_def on_core_disk_def
        split: option.split)
qed

text \<open>
  C32.  Trust on first use.  Neither a synchronisation nor opening a chat changes a pinned identity
  key of any peer, whatever bundle the server hands out.  A chat is opened - becomes the selected
  one - exactly when the bundle belongs to the resolved device and each of its two keys is the
  one pinned for the peer, where one is pinned; then both keys are pinned.  Else the window
  keeps its history and its selection, and if it was a key that did not fit, it asks about this
  peer.
\<close>

theorem pins_stay:
  "keeps_pins (ap_history A) (ap_history (apply_sync_success X tk success A)) \<and>
   keeps_pins (ap_history A) (ap_history (apply_open_chat_success X dr oc A)) \<and>
   (if pb_device_uuid (oc_bundle oc) = oc_resolved_uuid oc \<and>
       fst (pins (ap_history A) (oc_peer oc)) \<in> {None, Some (pb_identity_key_b64 (oc_bundle oc))} \<and>
       snd (pins (ap_history A) (oc_peer oc)) \<in> {None, Some (pb_signing_identity_key_b64 (oc_bundle oc))}
    then pins (ap_history (apply_open_chat_success X dr oc A)) (oc_peer oc) =
        (Some (pb_identity_key_b64 (oc_bundle oc)), Some (pb_signing_identity_key_b64 (oc_bundle oc))) \<and>
      ap_selected_chat (apply_open_chat_success X dr oc A) = oc_peer oc
    else ap_history (apply_open_chat_success X dr oc A) = ap_history A \<and>
      ap_selected_chat (apply_open_chat_success X dr oc A) = ap_selected_chat A \<and>
      ap_key_change_peer (apply_open_chat_success X dr oc A) =
        (if pb_device_uuid (oc_bundle oc) = oc_resolved_uuid oc then Some (oc_peer oc) else ap_key_change_peer A))"
proof -
  obtain ok B where v: "verify_or_pin_peer_identity (oc_peer oc) (oc_bundle oc) A = (ok, B)" by fastforce
  note out = verify_outcome [OF v]
  have ok: "ok \<longleftrightarrow> fits_pins (ap_history A) (oc_peer oc) (oc_bundle oc)"
    using verify_iff_fits [of "oc_peer oc" "oc_bundle oc" A] v by simp
  show ?thesis
  proof (cases "pb_device_uuid (oc_bundle oc) = oc_resolved_uuid oc \<and> ok")
    case True
    then have v': "verify_or_pin_peer_identity (oc_peer oc) (oc_bundle oc) A = (True, B)" using v by simp
    note opened = open_chat_history [OF v' conjunct1 [OF True], of X dr]
    have "keeps_pins (ap_history A) (ap_history (apply_open_chat_success X dr oc A))"
      "pinned_to (ap_history (apply_open_chat_success X dr oc A)) (oc_peer oc) (oc_bundle oc)"
      using pin_lists_cong [OF opened(1), of "ap_history A"] out True by simp_all
    then show ?thesis using sync_keeps_pins opened(2) True ok by (simp add: pinned_to_def fits_pins_def)
  next
    case False
    have "ap_selected_chat (snd (verify_or_pin_peer_identity (oc_peer oc) (oc_bundle oc) A)) = ap_selected_chat A"
      by (simp add: verify_or_pin_peer_identity_def Let_def on_history_def)
    then have same: "ap_history (apply_open_chat_success X dr oc A) = ap_history A"
      "ap_selected_chat (apply_open_chat_success X dr oc A) = ap_selected_chat A"
      "ap_key_change_peer (apply_open_chat_success X dr oc A) =
        (if pb_device_uuid (oc_bundle oc) = oc_resolved_uuid oc then Some (oc_peer oc) else ap_key_change_peer A)"
      using False out v by (auto simp: apply_open_chat_success_def say_def)
    have "\<not> (pb_device_uuid (oc_bundle oc) = oc_resolved_uuid oc \<and>
       fst (pins (ap_history A) (oc_peer oc)) \<in> {None, Some (pb_identity_key_b64 (oc_bundle oc))} \<and>
       snd (pins (ap_history A) (oc_peer oc)) \<in> {None, Some (pb_signing_identity_key_b64 (oc_bundle oc))})"
      using False ok by (simp only: fits_pins_def) blast
    then show ?thesis using sync_keeps_pins by (simp only: same keeps_pins_same simp_thms if_False)
  qed
qed

end
