(* ===== verification/App_Safety.thy ===== *)
theory App_Safety
  imports App_Invariants
begin

text \<open>
  Interleavings of the window's operations: what the remote side can make the window do in a
  call, what happens to the history when a thread answers after a logout, which keys are used
  after a refused identity, and what a batch of stale messages does to a session.
\<close>

section \<open>Calls\<close>

text \<open>
  C33.  An incoming call is accepted by the caller.  The signal answer counts for a call in either
  direction: a window with an unanswered incoming call that polls one signal answer, then gets the
  WebRTC session it started for it, captures the microphone - and the camera of a video call -
  although the user pressed nothing, and sends the peer its offer.
\<close>

theorem remote_answer_opens_microphone:
  assumes "ap_active_call A = Some call" "ac_incoming call" "\<not> ac_accepted call" "\<not> ac_microphone_muted call"
    and "ap_call_signal_rx A = Some rx" "ap_webrtc_session A = None" "ap_webrtc_rx A = None"
    and "ap_media_failed_call_id A = None" "ap_auth A = Some auth"
    and "ae_microphone X (as_microphone (ap_settings A)) = Inr ()"
    and "cs_kind signal = ''answer''"
    and "A1 = poll_call_signals tk (Received (Inr [signal])) A"
    and "A2 = poll_webrtc_result X (Received (Inr (session, LocalOffer offer))) A1"
    and "A3 = sync_video_session (sync_media_session X A2)"
  shows "ap_media_session A3 \<and> (ap_video_capture_session A3 \<longleftrightarrow> ac_video call \<and> \<not> ac_camera_disabled call) \<and>
    JSignal auth (ac_call_id call) (ac_peer_device_uuid call) ''webrtc-offer'' offer \<in> set (ap_jobs A3)"
proof -
  define call1 where "call1 = call\<lparr>ac_accepted := True, ac_signaling_status := tx A ''call.accepted''\<rparr>"
  have A1: "ap_active_call A1 = Some call1" "ap_webrtc_rx A1 = Some (JOffer (app_ice_config A1))"
    "ap_settings A1 = ap_settings A" "ap_auth A1 = Some auth" "ap_media_failed_call_id A1 = None"
    using assms
    by (simp_all add: poll_call_signals_def apply_call_signals_def start_webrtc_offer_def spawn_def Let_def
        call1_def app_ice_config_def tx_def)
  define call2 where "call2 = call1\<lparr>ac_signaling_status := tx A1 ''call.webrtc_offer_sent''\<rparr>"
  have A2: "ap_active_call A2 = Some call2" "ap_webrtc_session A2 = Some session"
    "ap_settings A2 = ap_settings A" "ap_media_failed_call_id A2 = None"
    "JSignal auth (ac_call_id call) (ac_peer_device_uuid call) ''webrtc-offer'' offer \<in> set (ap_jobs A2)"
    using assms(13) A1
    by (simp_all add: poll_webrtc_result_def Let_def set_signaling_status_def on_call_def send_webrtc_signal_def
        spawn_def call2_def call1_def tx_def)
  have call2: "ac_accepted call2" "ac_microphone_muted call2 = ac_microphone_muted call"
    "ac_video call2 = ac_video call" "ac_camera_disabled call2 = ac_camera_disabled call" "ac_call_id call2 = ac_call_id call"
    by (simp_all add: call2_def call1_def)
  have "ap_media_session (sync_media_session X A2)"
    "ap_active_call (sync_media_session X A2) = Some call2" "ap_webrtc_session (sync_media_session X A2) = Some session"
    "ap_jobs (sync_media_session X A2) = ap_jobs A2"
    using A2 call2 assms(4,10) by (simp_all add: sync_media_session_def)
  then show ?thesis using A2(5) call2 by (simp add: assms(14) sync_video_session_def)
qed

text \<open>
  A call that answers itself with busy.  The caller announces a call twice, by a signal and by
  a message.  A window that sees the signal first rings; when the message of the same call comes,
  it sends busy for that very call - and a caller that gets it ends the call.
\<close>

lemma own_invite_answered_busy:
  assumes "ap_active_call A = None" "ap_auth A = Some auth" "cs_kind signal = ''invite''"
    and "\<not> known_message (ap_history A) (dm_message_id msg)"
    and "from_json (ce_payload (ae_client X)) (dm_plaintext msg) = Some (Call v (cs_call_id signal) video)"
    and "ap_active_call caller = Some call"
  shows "(\<exists>ringing. ap_active_call (apply_call_signals tk [signal] A) = Some ringing \<and>
      ac_call_id ringing = cs_call_id signal) \<and>
    JSignal auth (cs_call_id signal) (dm_from_device_uuid msg) ''busy'' ''{}''
      \<in> set (ap_jobs (push_incoming X tk msg (apply_call_signals tk [signal] A))) \<and>
    ap_active_call (apply_call_signals tk' [busy\<lparr>cs_kind := ''busy''\<rparr>] caller) = None"
proof -
  let ?A1 = "apply_call_signals tk [signal] A"
  have A1: "\<exists>ringing. ap_active_call ?A1 = Some ringing \<and> ac_call_id ringing = cs_call_id signal"
    "ap_auth ?A1 = Some auth" "ap_history ?A1 = ap_history A"
    using assms(1-3) by (simp_all add: apply_call_signals_def ring_def effect_of_def incoming_call_def)
  have frame: "ap_active_call (show_message msg p n B) = ap_active_call B" "ap_auth (show_message msg p n B) = ap_auth B"
    for p n and B :: "'a app"
    by (simp_all add: show_message_def Let_def on_history_def effect_of_def)
  have "JSignal auth (cs_call_id signal) (dm_from_device_uuid msg) ''busy'' ''{}'' \<in> set (ap_jobs (push_incoming X tk msg ?A1))"
    using A1 assms(4,5) by (auto simp: push_incoming_def Let_def frame spawn_def say_def)
  moreover have "ap_active_call (apply_call_signals tk' [busy\<lparr>cs_kind := ''busy''\<rparr>] caller) = None"
    using assms(6) by (simp add: apply_call_signals_def Let_def close_call_def stop_webrtc_session_def spawn_def split: option.split)
  ultimately show ?thesis using A1(1) by blast
qed

section \<open>Logging out with a message on its way\<close>

text \<open>What the JSON reader makes of a history file that it can only read as a vault.\<close>

definition locked_history :: "vault_env \<Rightarrow> os_env \<Rightarrow> chat_history codec \<Rightarrow> string \<Rightarrow> chat_history \<Rightarrow> disk \<Rightarrow> bool" where
  "locked_history V oe J pw h d \<longleftrightarrow>
     load_json V J (history_file oe) (Some pw) d = Some h \<and> load_json V J (history_file oe) None d = None \<and>
     files d (legacy_history_file oe) = None \<and>
     (case Option.bind (files d (history_file oe)) from_utf8 of None \<Rightarrow> True
      | Some raw \<Rightarrow> from_json J raw \<in> {None, Some default_history})"

lemma locked_history_reads:
  assumes "locked_history V oe J pw h d"
  shows "load_history V oe J (Some pw) d = h" "load_history V oe J None d = default_history"
  using assms
  by (auto simp: locked_history_def load_history_def load_json_def [of V J "legacy_history_file oe"]
      split: option.splits bind_splits)

lemma default_history_updates [simp]: "update_message_status chat i status default_history = default_history"
  by (simp add: update_message_status_def default_history_def bt_modify_def)

text \<open>
  A logout can cost the history.  The history of a user is on disk, encrypted under the password;
  a message is being sent.  The user logs out, then the thread reports: the window saves the history it
  now has - the empty one, in plain text, over the encrypted file - and the next login with the
  right password finds an empty history.
\<close>

lemma logout_race_loses_history:
  assumes "locked_history V oe J pw h (cl_disk (ap_core A))"
    and "V = ce_vault (ae_client X)" "oe = ae_os X" "J = ae_history X"
    and "is_utf8 (to_json J default_history)" "from_json J (to_json J default_history) = Some default_history"
    and "from_json (vault_codec V) (to_json J default_history) = None"
    and "broken (cl_disk (ap_core A)) (history_file oe) = None" "ap_send_rx A = Some rx"
  shows "load_history V oe J (Some pw) (cl_disk (ap_core A)) = h \<and>
    load_history V oe J (Some pw) (cl_disk (ap_core
      (poll_send_result X dr (Received (SendDone sent)) (logout X A)))) = default_history"
proof -
  note reads = locked_history_reads [OF assms(1)]
  have out: "ap_history (logout X A) = default_history" "ap_auth (logout X A) = None"
    "cl_disk (ap_core (logout X A)) = cl_disk (ap_core A)" "ap_send_rx (logout X A) = Some rx"
    using reads(2) assms(2-4,9) by (simp_all add: logout_def Let_def say_def spawn_def split: option.split)
  have disk: "cl_disk (ap_core (poll_send_result X dr (Received (SendDone sent)) (logout X A))) =
      (cl_disk (ap_core A))\<lparr>files := (files (cl_disk (ap_core A)))(history_file oe \<mapsto> as_bytes (to_json J default_history))\<rparr>"
    using out assms(2-4,8)
    by (simp add: poll_send_result_def Let_def save_history_def on_core_disk_def save_history_file_def save_json_def
        password_for_local_storage_def on_history_def say_def write_file_def split: sum.split)
  have "from_utf8 (as_bytes (to_json J default_history)) = Some (to_json J default_history)"
    using assms(5) by (simp add: from_utf8_as_bytes)
  then show ?thesis using reads(1) assms(6,7) by (simp add: disk load_history_def load_json_def)
qed

section \<open>Sessions under an unverified identity\<close>

text \<open>What the calls of the core do to the map of sessions.\<close>

named_theorems session_frames

lemma on_net_sessions [session_frames]: "cl_sessions (snd (on_net call C cl)) = cl_sessions cl"
  by (simp add: on_net_def split: prod.split)

lemma on_disk_sessions [session_frames]: "cl_sessions (snd (on_disk m cl)) = cl_sessions cl"
  by (simp add: on_disk_def split: prod.split)

lemma mapS_state [session_frames]: "snd (mapS f m cl) = snd (m cl)"
  by (simp add: mapS_def bindS_apply split: prod.split sum.split)

lemma map_err_state [session_frames]: "snd (map_err p m cl) = snd (m cl)"
  by (simp add: map_err_def split: prod.split sum.split)

lemma persist_sessions_frame [session_frames]: "cl_sessions (snd (persist_sessions C dr cl)) = cl_sessions cl"
  by (simp add: persist_sessions_def session_frames)

lemma c_send_message_sessions [session_frames]: "cl_sessions (snd (c_send_message C auth req cl)) = cl_sessions cl"
  by (simp add: c_send_message_def session_frames)

lemma c_resolve_sessions [session_frames]:
  "cl_sessions (snd (c_resolve_user_device C u d cl)) = cl_sessions cl"
  "cl_sessions (snd (c_resolve_device_user C u cl)) = cl_sessions cl"
  by (simp_all add: c_resolve_user_device_def c_resolve_device_user_def session_frames)

lemma fetch_bundle_sessions [session_frames]:
  "cl_sessions (snd (fetch_peer_bundle C u d cl)) = cl_sessions cl"
  using on_net_sessions [of "\<lambda>N cfg. t_fetch_prekey_bundle N cfg u d" C cl]
  by (auto simp: fetch_peer_bundle_def bindS_apply split: prod.split sum.split)

lemma map_err_Inr: "map_err p m s = (Inr x, s') \<longleftrightarrow> m s = (Inr x, s')"
  by (auto simp: map_err_def split: prod.splits sum.splits)

lemma derived_session:
  assumes "derive_peer_shared_key_inner C dr keys peer device_id replace cl = (Inr (key, bundle), cl')"
  shows "derive_shared_key_b64 (crypto C) (identity_private_b64 keys) (pb_identity_key_b64 bundle) = Inr key"
    and "replace \<or> map_of (cl_sessions cl) (pb_device_uuid bundle) = None \<Longrightarrow>
      map_of (cl_sessions cl') (pb_device_uuid bundle) = Some (fresh_session key)"
proof -
  obtain cl1 where f: "fetch_peer_bundle C peer device_id cl = (Inr bundle, cl1)"
    and k: "derive_shared_key_b64 (crypto C) (identity_private_b64 keys) (pb_identity_key_b64 bundle) = Inr key"
    and cl': "cl' = snd (persist_sessions C dr (if replace \<or> map_of (cl_sessions cl1) (pb_device_uuid bundle) = None
       then set_session (pb_device_uuid bundle) (fresh_session key) cl1 else cl1))"
    using assms by (auto simp: derive_peer_shared_key_inner_def comp_simps bindS_apply ignore_def
        split: prod.splits sum.splits)
  have "cl_sessions cl1 = cl_sessions cl" using fetch_bundle_sessions [of C peer device_id cl] f by simp
  then show "replace \<or> map_of (cl_sessions cl) (pb_device_uuid bundle) = None \<Longrightarrow>
      map_of (cl_sessions cl') (pb_device_uuid bundle) = Some (fresh_session key)"
    by (auto simp: cl' session_frames set_session_def update_conv')
  show "derive_shared_key_b64 (crypto C) (identity_private_b64 keys) (pb_identity_key_b64 bundle) = Inr key" by (rule k)
qed

lemma sealed_session_key:
  "seal_for_session P J nonce p s = Inr (e, s') \<Longrightarrow> shared_key_b64 s' = shared_key_b64 s"
  by (auto simp: seal_for_session_def result_simps Let_def split: prod.splits)

lemma sent_session:
  assumes "map_of (cl_sessions cl) peer = Some session"
  shows "\<exists>session'. map_of (cl_sessions (snd (send_text_to_peer_with_id C dr auth peer p i cl))) peer = Some session' \<and>
    shared_key_b64 session' = shared_key_b64 session"
proof (cases "seal_for_session (crypto C) (ce_envelope C) (cd_nonce dr) p session")
  case (Inl e)
  then show ?thesis using assms by (simp add: send_text_to_peer_with_id_def)
next
  case (Inr r)
  then obtain e s' where r: "seal_for_session (crypto C) (ce_envelope C) (cd_nonce dr) p session = Inr (e, s')"
    by (cases r) auto
  have "cl_sessions (snd (send_text_to_peer_with_id C dr auth peer p i cl)) = AList.update peer s' (cl_sessions cl)"
    using assms r by (simp add: send_text_to_peer_with_id_def Let_def split_beta session_frames set_session_def)
  then show ?thesis using sealed_session_key [OF r] by (simp add: update_conv')
qed

text \<open>
  The warning comes too late.  A chat is reopened for a peer whose session is gone, and the server
  hands out another identity than the pinned one: the flow has by then put a session under that key
  into the core and sent the contact notice with it.  The window warns and keeps the pin, but the chat
  is still selected, and the session offered for its next message is the one under the unverified key.
\<close>

lemma unverified_key_is_used:
  assumes "run_open_chat_flow C drs auth keys peer core = (Inr success, core')"
    and "dev = pb_device_uuid (oc_bundle success)" "dev = oc_resolved_uuid success"
    and "map_of (cl_sessions core) dev = None" "oc_peer success = peer"
    and "ap_core A = core'" "ap_selected_chat A = peer" "peer \<noteq> []"
    and "map_of (ch_device_uuid_by_peer (ap_history A)) peer = Some dev"
    and "map_of (ch_peer_identity_key_by_peer (ap_history A)) peer = Some pinned"
    and "pinned \<noteq> pb_identity_key_b64 (oc_bundle success)"
    and "B = apply_open_chat_success X dr success A"
  shows "ap_key_change_peer B = Some peer \<and>
    map_of (ch_peer_identity_key_by_peer (ap_history B)) peer = Some pinned \<and>
    selected_chat_session B = (Some dev, B) \<and>
    (\<exists>key session. derive_shared_key_b64 (crypto C) (identity_private_b64 keys)
        (pb_identity_key_b64 (oc_bundle success)) = Inr key \<and>
      map_of (cl_sessions (ap_core B)) dev = Some session \<and> shared_key_b64 session = key)"
proof -
  obtain r core1 key bdl core2 sent where
    r: "c_resolve_user_device C peer DEFAULT_DEVICE_ID core = (Inr r, core1)"
    and d: "derive_peer_shared_key C (drs 0) keys peer DEFAULT_DEVICE_ID core1 = (Inr (key, bdl), core2)"
    and s: "send_contact_to_peer_with_id C (drs 1) auth (pb_device_uuid bdl) (cd_uuid (drs 1)) core2 = (Inr sent, core')"
    and b: "oc_bundle success = bdl"
    using assms(1)
    by (auto simp: run_open_chat_flow_def comp_simps map_err_Inr split: prod.splits if_splits)
  have "cl_sessions core1 = cl_sessions core" using c_resolve_sessions(1) [of C peer DEFAULT_DEVICE_ID core] r by simp
  then have none: "map_of (cl_sessions core1) (pb_device_uuid bdl) = None" using assms(2,4) b by simp
  note fresh = derived_session [OF d [unfolded derive_peer_shared_key_def]]
  obtain session where session: "map_of (cl_sessions core') dev = Some session" "shared_key_b64 session = key"
    using sent_session [OF fresh(2) [OF disjI2 [OF none]], where C = C and dr = "drs 1" and auth = auth
        and p = "to_json (ce_payload C) (Contact 1)" and i = "cd_uuid (drs 1)"] s assms(2) b
    by (auto simp: send_contact_to_peer_with_id_def fresh_session_def)
  have B: "ap_key_change_peer B = Some peer" "ap_history B = ap_history A" "ap_core B = core'" "ap_selected_chat B = peer"
    using assms(2,3,5-7,10-12) by (simp_all add: apply_open_chat_success_def verify_or_pin_peer_identity_def Let_def)
  then have "selected_chat_session B = (Some dev, B)"
    using assms(8,9) session by (simp add: selected_chat_session_def has_peer_session_def)
  then show ?thesis using B assms(10) session fresh(1) b by auto
qed

section \<open>A batch of stale messages\<close>

lemma decrypt_single:
  assumes "map_of (cl_sessions cl) (pe_from_device_uuid item) = Some session"
    and "decrypt_with_session (crypto C) (ce_envelope C) (pe_envelope_b64 item) session = (outcome, session')"
  shows "fst (decrypt_pending_with_sessions C dr [item] cl) =
      (case outcome of Inl e \<Rightarrow> ([], []) | Inr p \<Rightarrow> ([decrypted item p], [pe_message_id item]))"
    and "cl_sessions (snd (decrypt_pending_with_sessions C dr [item] cl)) =
      AList.update (pe_from_device_uuid item) session' (cl_sessions cl)"
  using assms by (auto simp: decrypt_pending_with_sessions_def session_frames split: sum.splits)

lemma decrypt_keeps_sending:
  assumes "decrypt_with_session P J envelope_b64 s = (outcome, s')"
  shows "send_chain_key_b64 s' = send_chain_key_b64 s \<and> send_counter s' = send_counter s"
proof -
  have "open_ratchet P envelope s = Inr (p, s') \<Longrightarrow>
      send_chain_key_b64 s' = send_chain_key_b64 s \<and> send_counter s' = send_counter s" for envelope p
    by (auto simp: open_ratchet_def result_simps dest!: skip_to_Inr split: if_splits prod.splits)
  then show ?thesis using assms
    by (auto simp: decrypt_with_session_def split: option.splits if_splits sum.splits prod.splits)
qed

text \<open>
  A redelivered message restarts the session.  When all that a synchronisation fetches is a message
  that was opened before (a contact notice is never acknowledged, so it comes again), nothing decrypts,
  and the flow derives the session anew from the unchanged identity keys: if the message opens under
  the fresh session it is accepted a second time, and the sending chain is back at its start, so the
  next message is sealed under the key of the first one ever sent.
\<close>

lemma stale_batch_restarts_session:
  assumes "map_of (sq_peer_by_device_uuid sq) dev = Some peer" "peer \<notin> set (sq_peers_missing_safety sq)"
    and "pe_from_device_uuid item = dev" "map_of (cl_sessions cl) dev = Some session"
    and "decrypt_with_session (crypto C) (ce_envelope C) (pe_envelope_b64 item) session = (Inl e, session)"
    and "cl1 = snd (decrypt_pending_with_sessions C (drs 1 0) [item] cl)"
    and "fetch_peer_bundle C peer DEFAULT_DEVICE_ID cl1 = (Inr bdl, cl2)" "identity_matches sq peer bdl"
    and "refresh_peer_shared_key C (drs 2 0) (sq_local_keys sq) peer DEFAULT_DEVICE_ID cl2 = (Inr (key, bdl'), cl3)"
    and "pb_device_uuid bdl' = dev"
    and "decrypt_with_session (crypto C) (ce_envelope C) (pe_envelope_b64 item) (fresh_session key) = (Inr p, session')"
  shows "snd (fst (decrypt_batch C drs sq [item] cl)) = [decrypted item p] \<and>
    map_of (cl_sessions (snd (decrypt_batch C drs sq [item] cl))) dev = Some session' \<and>
    send_chain_key_b64 session' = key \<and> send_counter session' = 0"
proof -
  have establish: "establish_sessions C (drs 0) sq [item] cl = ([], cl)"
    using assms(1-4) by (simp add: sender_of_def has_peer_session_def)
  have first: "fst (decrypt_pending_with_sessions C (drs 1 0) [item] cl) = ([], [])"
    using decrypt_single(1) [of cl item session C] assms(3-5) by simp
  then have d1: "decrypt_pending_with_sessions C (drs 1 0) [item] cl = (([], []), cl1)"
    using assms(6) by (metis prod.collapse)
  have refreshed: "refresh_sessions C (drs 2) sq [item] cl1 =
      ([\<lparr>pm_device_uuid = dev, pm_peer = peer, pm_bundle = bdl\<rparr>], True, cl3)"
    using assms(1,3,7-9) by (simp add: sender_of_def)
  have fresh: "map_of (cl_sessions cl3) dev = Some (fresh_session key)"
    using derived_session(2) [OF assms(9) [unfolded refresh_peer_shared_key_def]] assms(10) by simp
  note second = decrypt_single [of cl3 item, OF _ assms(11), of "drs 3 0", unfolded assms(3), OF fresh]
  have "send_chain_key_b64 session' = send_chain_key_b64 (fresh_session key) \<and>
      send_counter session' = send_counter (fresh_session key)"
    by (rule decrypt_keeps_sending [OF assms(11)])
  moreover obtain cl4 where d3: "decrypt_pending_with_sessions C (drs 3 0) [item] cl3 =
      (([decrypted item p], [pe_message_id item]), cl4)"
    using second(1) by (metis prod.collapse sum.case(2))
  moreover have "map_of (cl_sessions cl4) dev = Some session'"
    using second(2) by (simp add: d3 update_conv')
  moreover have "decrypt_batch C drs sq [item] cl =
      (([\<lparr>pm_device_uuid = dev, pm_peer = peer, pm_bundle = bdl\<rparr>], [decrypted item p]), cl4)"
    unfolding decrypt_batch_def establish Let_def prod.case d1 refreshed d3 by simp
  ultimately show ?thesis by (simp add: fresh_session_def)
qed

section \<open>Worked examples\<close>

definition ringing0 :: "unit app" where
  "ringing0 = app0\<lparr>ap_active_call := Some (incoming_call app0 tick0 ''bob'' ''dev-of-bob'' ''c1'' True),
     ap_call_signal_rx := Some (JFetchSignals auth0 None)\<rparr>"

definition answer0 :: call_signal_item where
  "answer0 = \<lparr>cs_call_id = ''c1'', cs_from_device_uuid = ''dev-of-bob'', cs_kind = ''answer'', cs_payload = ''{}'',
     cs_created_at_unix_ms = 1\<rparr>"

lemma remote_answer_opens_microphone_witness:
  "let A3 = sync_video_session (sync_media_session app_env0 (poll_webrtc_result app_env0
       (Received (Inr (1, LocalOffer ''sdp''))) (poll_call_signals tick0 (Received (Inr [answer0])) ringing0)))
   in ap_media_session A3 \<and> ap_video_capture_session A3"
  using remote_answer_opens_microphone [where A = ringing0 and X = app_env0 and signal = answer0
      and tk = tick0 and session = 1 and offer = "''sdp''", OF _ _ _ _ _ _ _ _ _ _ _ refl refl refl]
  by (simp add: ringing0_def app0_def incoming_call_def answer0_def app_env0_def)

lemma own_invite_answered_busy_witness:
  "let signal = answer0\<lparr>cs_kind := ''invite''\<rparr>;
       msg = \<lparr>dm_message_id = ''a'', dm_from_device_uuid = ''dev-of-bob'', dm_plaintext = ''Kc1'', dm_created_at_unix_ms = 1\<rparr>
   in JSignal auth0 ''c1'' ''dev-of-bob'' ''busy'' ''{}''
      \<in> set (ap_jobs (push_incoming app_env0 tick0 msg (apply_call_signals tick0 [signal] app0)))"
  using own_invite_answered_busy [where A = app0 and caller = ringing0 and X = app_env0 and auth = auth0 and v = 1
      and signal = "answer0\<lparr>cs_kind := ''invite''\<rparr>" and video = True and tk = tick0
      and call = "incoming_call app0 tick0 ''bob'' ''dev-of-bob'' ''c1'' True"
      and msg = "\<lparr>dm_message_id = ''a'', dm_from_device_uuid = ''dev-of-bob'', dm_plaintext = ''Kc1'', dm_created_at_unix_ms = 1\<rparr>"]
  by (simp add: ringing0_def app0_def answer0_def app_env0_def ui_client0_def payload_codec0_def known_message_def
      default_history_def)

definition reopened0 :: "unit app" where
  "reopened0 = app0\<lparr>ap_core := snd (run_open_chat_flow ui_client1 (\<lambda>_. ui_draws0) auth0 keys0 ''bob'' core0),
     ap_selected_chat := ''bob'',
     ap_history := (ap_history app0)\<lparr>ch_peer_identity_key_by_peer := [(''bob'', ''pinned'')]\<rparr>\<rparr>"

definition opened0 :: open_chat_success where
  "opened0 = \<lparr>oc_peer = ''bob'', oc_resolved_uuid = ''dev-of-bob'', oc_bundle = bundle0\<rparr>"

lemma reopen_flow0:
  "run_open_chat_flow ui_client1 (\<lambda>_. ui_draws0) auth0 keys0 ''bob'' core0 = (Inr opened0, ap_core reopened0)"
proof -
  have "\<exists>cl'. run_open_chat_flow ui_client1 (\<lambda>_. ui_draws0) auth0 keys0 ''bob'' core0 = (Inr opened0, cl')"
  proof -
    obtain core2 where d: "derive_peer_shared_key ui_client1 ui_draws0 keys0 ''bob'' DEFAULT_DEVICE_ID core0 =
        (Inr (derived0, bundle0), core2)"
      using derive_inner0 unfolding derive_peer_shared_key_def by blast
    have "map_of (cl_sessions core2) ''dev-of-bob'' = Some (fresh_session derived0)"
      using derived_session(2) [OF d [unfolded derive_peer_shared_key_def]]
      by (simp add: bundle0_def core0_def)
    moreover obtain e s' where "seal_for_session primitives0 envelope_codec0 nonce0 ''C'' (fresh_session derived0) = Inr (e, s')"
      using seal0_total [of "fresh_session derived0"] derived0_good by (fastforce simp: fresh_session_def)
    ultimately have "\<exists>core3. send_contact_to_peer_with_id ui_client1 ui_draws0 auth0 ''dev-of-bob'' (cd_uuid ui_draws0) core2 =
        (Inr True, core3)"
      by (simp add: send_contact_to_peer_with_id_def send_text_to_peer_with_id_def payload_codec0_def sent0
          ui_draws0_def Let_def split_beta)
    then show ?thesis
      by (auto simp: run_open_chat_flow_def bindS_apply map_err_def resolved0 d bundle0_def opened0_def)
  qed
  then show ?thesis by (auto simp: reopened0_def)
qed

lemma unverified_key_is_used_witness:
  "\<exists>session. map_of (cl_sessions (ap_core (apply_open_chat_success app_env0 ui_draws0 opened0 reopened0))) ''dev-of-bob'' =
     Some session \<and> shared_key_b64 session = derived0"
proof -
  have "pb_identity_key_b64 bundle0 \<noteq> ''pinned''"
  proof
    assume "pb_identity_key_b64 bundle0 = ''pinned''"
    then have "length (pb_identity_key_b64 bundle0) = 6" by simp
    then show False by (simp add: bundle0_def primitives0_def bytes_text_def)
  qed
  then have "\<exists>key session. derive_shared_key_b64 (crypto ui_client1) (identity_private_b64 keys0)
        (pb_identity_key_b64 (oc_bundle opened0)) = Inr key \<and>
      map_of (cl_sessions (ap_core (apply_open_chat_success app_env0 ui_draws0 opened0 reopened0))) ''dev-of-bob'' =
        Some session \<and> shared_key_b64 session = key"
    by (intro unverified_key_is_used [OF reopen_flow0 _ _ _ _ refl _ _ _ _ _ refl, where pinned = "''pinned''",
          THEN conjunct2, THEN conjunct2, THEN conjunct2])
      (simp_all add: opened0_def bundle0_def core0_def reopened0_def app0_def default_history_def)
  then show ?thesis using derived0 by (simp add: opened0_def)
qed

text \<open>A contact notice that was opened once, and comes again.\<close>

definition notice0 :: pending_envelope where
  "notice0 = \<lparr>pe_message_id = ''a'', pe_from_device_uuid = ''dev-of-bob'',
     pe_envelope_b64 = fst (projr (seal_for_session primitives0 envelope_codec0 nonce0 ''C'' (fresh_session derived0))),
     pe_created_at_unix_ms = 1\<rparr>"

definition used0 :: peer_session where
  "used0 = snd (decrypt_with_session primitives0 envelope_codec0 (pe_envelope_b64 notice0) (fresh_session derived0))"

definition request0 :: sync_request where
  "request0 = \<lparr>sq_local_keys = keys0, sq_auth = auth0, sq_peer_by_device_uuid = [(''dev-of-bob'', ''bob'')],
     sq_peer_identity_key_by_peer = [], sq_peer_signing_identity_key_by_peer = [],
     sq_peers_missing_safety = [], sq_outgoing_message_ids = []\<rparr>"

lemma notice0_opens:
  "decrypt_with_session primitives0 envelope_codec0 (pe_envelope_b64 notice0) (fresh_session derived0) = (Inr ''C'', used0)"
  "decrypt_with_session primitives0 envelope_codec0 (pe_envelope_b64 notice0) used0 = (Inl ''stale ratchet message'', used0)"
proof -
  obtain k where k: "decode_key primitives0 derived0 = Inr k" using derived0_good by blast
  obtain e s' where seal: "seal_for_session primitives0 envelope_codec0 nonce0 ''C'' (fresh_session derived0) = Inr (e, s')"
    using seal0_total [of "fresh_session derived0" k] k by (fastforce simp: fresh_session_def)
  then have e: "pe_envelope_b64 notice0 = e" by (simp add: notice0_def)
  have fresh: "synced primitives0 derived0 (fresh_session derived0) (fresh_session derived0)"
    using primitives0_laws k by (intro synced_fresh) (simp add: good_key_def)
  show open1: "decrypt_with_session primitives0 envelope_codec0 (pe_envelope_b64 notice0) (fresh_session derived0) = (Inr ''C'', used0)"
    using sealed_opens [OF envelope_codec0_laws fresh _ _ sample_lengths(3) _ seal]
    by (auto simp: fresh_session_def used0_def e is_utf8_def as_bytes_def)
  obtain inner where "e = enc64 primitives0 (as_bytes (to_json envelope_codec0
      \<lparr>re_v = 2, re_counter = send_counter (fresh_session derived0), re_envelope_b64 = inner\<rparr>))"
    using seal by (rule seal_Inr)
  then have read: "read_envelope primitives0 envelope_codec0 (pe_envelope_b64 notice0) =
      Some \<lparr>re_v = 2, re_counter = 0, re_envelope_b64 = inner\<rparr>"
    using read_sealed [OF primitives0_laws envelope_codec0_laws] by (simp add: fresh_session_def e)
  show "decrypt_with_session primitives0 envelope_codec0 (pe_envelope_b64 notice0) used0 = (Inl ''stale ratchet message'', used0)"
    using opened_counter [OF open1 read] by (intro stale_refused [OF read]) simp_all
qed

lemma stale_batch_restarts_session_witness:
  "snd (fst (decrypt_batch ui_client1 (\<lambda>_ _. ui_draws0) request0 [notice0]
     (core0\<lparr>cl_sessions := [(''dev-of-bob'', used0)]\<rparr>))) = [decrypted notice0 ''C'']"
proof -
  let ?cl = "core0\<lparr>cl_sessions := [(''dev-of-bob'', used0)]\<rparr>"
  let ?cl1 = "snd (decrypt_pending_with_sessions ui_client1 ui_draws0 [notice0] ?cl)"
  obtain cl3 where r: "refresh_peer_shared_key ui_client1 ui_draws0 keys0 ''bob'' DEFAULT_DEVICE_ID ?cl1 =
      (Inr (derived0, bundle0), cl3)"
    using derive_inner0 unfolding refresh_peer_shared_key_def by blast
  show ?thesis
    using stale_batch_restarts_session [where sq = request0 and dev = "''dev-of-bob''" and peer = "''bob''" and item = notice0
        and cl = ?cl and session = used0 and C = ui_client1 and drs = "\<lambda>_ _. ui_draws0" and bdl = bundle0
        and ?cl1.0 = ?cl1 and ?cl2.0 = ?cl1 and ?cl3.0 = cl3 and key = derived0 and bdl' = bundle0,
        OF _ _ _ _ _ refl fetched0 _ _ _ _] r notice0_opens
    by (simp add: request0_def notice0_def identity_matches_def bundle0_def)
qed


text \<open>A history of one chat in a vault, and a message on its way while the user logs out.\<close>

definition history1 :: chat_history where
  "history1 = default_history\<lparr>ch_chats := [(''bob'', [])]\<rparr>"

definition history_codec1 :: "chat_history codec" where
  "history_codec1 = \<lparr>to_json = (\<lambda>h. if h = default_history then ''SD'' else ''SX''),
     from_json = (\<lambda>s. if s = ''SD'' then Some default_history else if s = ''SX'' then Some history1 else None)\<rparr>"

definition vault1 :: vault_file where
  "vault1 = projr (encrypt_vault_file vault_env0 (replicate 16 5) nonce0 ''secret'' (as_bytes ''SX''))"

definition disk1 :: disk where
  "disk1 = disk0\<lparr>files := [history_file os0 \<mapsto> as_bytes (to_json (vault_codec vault_env0) vault1)]\<rparr>"

lemma vault1: "encrypt_vault_file vault_env0 (replicate 16 5) nonce0 ''secret'' (as_bytes ''SX'') = Inr vault1"
  by (simp add: vault1_def encrypt_vault_file_def derive_key_def vault_env0_def primitives0_def ok_orR_def bindR_def)

lemma locked1: "locked_history vault_env0 os0 history_codec1 ''secret'' history1 disk1"
proof -
  have J: "json_laws (vault_codec vault_env0)"
    using sessions_codec0_laws by (simp add: vault_laws_def)
  have P: "primitive_laws (prim vault_env0)" using primitives0_laws by simp
  have raw: "from_utf8 (as_bytes (to_json (vault_codec vault_env0) vault1)) = Some (to_json (vault_codec vault_env0) vault1)"
    "from_json (vault_codec vault_env0) (to_json (vault_codec vault_env0) vault1) = Some vault1"
    using json_file [OF J] J by (simp_all add: json_laws_def)
  have open1: "decrypt_vault_file vault_env0 ''secret'' vault1 = Inr (as_bytes ''SX'')"
    by (rule decrypt_encrypt_vault [OF P _ vault1]) (simp add: sample_lengths)
  have sx: "from_utf8 (as_bytes ''SX'') = Some ''SX''" by (intro from_utf8_as_bytes ascii_is_utf8) simp
  have other: "legacy_history_file os0 \<noteq> history_file os0"
    by (simp add: legacy_history_file_def history_file_def legacy_profile_file_def profile_file_def os0_def
        join_path_def data_dir_def)
  have tag: "\<exists>cs. to_json (vault_codec vault_env0) vault1 = CHR ''V'' # cs"
    by (simp add: vault_env0_def tagged_codec_def)
  show ?thesis
    using raw open1 sx other tag
    by (auto simp: locked_history_def load_json_def disk1_def disk0_def history_codec1_def)
qed

lemma no_vault1: "from_json (vault_codec vault_env0) ''SD'' = None"
  by (simp add: vault_env0_def tagged_codec_def)

lemma logout_race_loses_history_witness:
  "load_history vault_env0 os0 history_codec1 (Some ''secret'') (cl_disk (ap_core
     (poll_send_result (app_env0\<lparr>ae_history := history_codec1\<rparr>) ui_draws0
       (Received (SendDone \<lparr>sr_chat_name = ''bob'', sr_message_index = 0, sr_result = Inr ()\<rparr>))
       (logout (app_env0\<lparr>ae_history := history_codec1\<rparr>)
         (app0\<lparr>ap_core := core0\<lparr>cl_disk := disk1\<rparr>, ap_send_rx := Some JUpdate\<rparr>))))) = default_history"
proof (rule conjunct2 [OF logout_race_loses_history])
  show "locked_history vault_env0 os0 history_codec1 ''secret'' history1
      (cl_disk (ap_core (app0\<lparr>ap_core := core0\<lparr>cl_disk := disk1\<rparr>, ap_send_rx := Some JUpdate\<rparr>)))"
    using locked1 by simp
qed (simp_all add: app_env0_def ui_client0_def history_codec1_def no_vault1 ascii_is_utf8 disk1_def disk0_def)

end
