(* ===== verification/App_View.thy ===== *)
theory App_View
  imports App_Flows
begin

text \<open>
  What the window shows and what a click in it does (\<open>update\<close> and the \<open>render_\<close> functions of
  \<open>app.rs\<close>, \<open>render_message_bubble\<close>): a view is the list of its texts and widgets, each with the
  action it triggers.  Sizes, colours and the arrangement on the screen are left out.
\<close>

section \<open>Widgets\<close>

datatype field = FServer | FNickname | FPassword | FPeer | FMessage | FRegisterNickname | FRegisterPassword |
  FRegisterInvite | FDefaultUsername | FIceServers | FTurnUsername | FTurnPassword

datatype click = CTrust | COpenSettings | CLogout | CResetSession | CLogin | CShowCreate | CSearch |
  CPick string | COpenChat | CChat string | CSync | CUnblock string | CBlock | CDelete | CCall bool |
  CSaveFile nat | CSend | CEnter | CAttach |
  CTheme app_theme | CLanguage app_language | CUseUsername | CSaveServer | CApplyServer | CRefreshBlocked |
  CMicrophone string | CSpeaker string | CCamera string | CRefreshDevices | CNoise bool | CGain bool | CDebug bool |
  CCheckUpdates | CCloseSettings | CDownload | CNotes | CCloseUpdate | CDismissUpdate | CCreate | CCloseCreate |
  CConfirmDelete | CCancelDelete | CCallButton call_button

datatype widget = Heading string | Label string
  | Button bool string click       \<comment> \<open>enabled, text, action\<close>
  | Choice bool string click       \<comment> \<open>selected, text, action\<close>
  | Field bool field string        \<comment> \<open>editable, field, its text\<close>

definition clickable :: "widget list \<Rightarrow> click \<Rightarrow> bool" where
  "clickable ws c \<longleftrightarrow> (\<exists>w \<in> set ws. case w of Button enabled _ a \<Rightarrow> enabled \<and> a = c | Choice _ _ a \<Rightarrow> a = c | _ \<Rightarrow> False)"

definition editable :: "widget list \<Rightarrow> field \<Rightarrow> bool" where
  "editable ws f \<longleftrightarrow> (\<exists>w \<in> set ws. case w of Field enabled g _ \<Rightarrow> enabled \<and> g = f | _ \<Rightarrow> False)"

lemma clickable_simps [simp]:
  "clickable [] c = False" "clickable (v @ w) c = (clickable v c \<or> clickable w c)"
  "clickable (Heading s # w) c = clickable w c" "clickable (Label s # w) c = clickable w c"
  "clickable (Button b s a # w) c = (b \<and> a = c \<or> clickable w c)"
  "clickable (Choice b s a # w) c = (a = c \<or> clickable w c)" "clickable (Field b f s # w) c = clickable w c"
  by (auto simp: clickable_def)

lemma editable_simps [simp]:
  "editable [] f = False" "editable (v @ w) f = (editable v f \<or> editable w f)"
  "editable (Heading s # w) f = editable w f" "editable (Label s # w) f = editable w f"
  "editable (Button b s a # w) f = editable w f" "editable (Choice b s a # w) f = editable w f"
  "editable (Field b g s # w) f = (b \<and> g = f \<or> editable w f)"
  by (auto simp: editable_def)

section \<open>The main window\<close>

definition top_panel :: "'w app \<Rightarrow> widget list" where
  "top_panel A = [Heading (tx A ''app.title''), Label (ap_status A)] @
     (case ap_key_change_peer A of None \<Rightarrow> []
      | Some peer \<Rightarrow> [Label (txf A ''security.key_changed'' [(''peer'', peer)]),
          Button True (tx A ''security.trust_new_key'') CTrust])"

definition security_section :: "'w app_env \<Rightarrow> 'w app \<Rightarrow> widget list" where
  "security_section X A =
     (case local_safety_number (ae_sha256 X) A of None \<Rightarrow> []
      | Some local \<Rightarrow> [Label (tx A ''security.your_fingerprint''), Label local]) @
     (if ap_selected_chat A = [] then []
      else [Label (txf A ''security.peer_fingerprint'' [(''peer'', ap_selected_chat A)]),
        Label (case peer_safety_number (ae_sha256 X) (ap_history A) (ap_selected_chat A) of
            Some peer \<Rightarrow> peer | None \<Rightarrow> tx A ''security.open_chat_to_pin''),
        Button True (tx A ''security.reset_session'') CResetSession])"

definition account_section :: "'w app_env \<Rightarrow> 'w app \<Rightarrow> widget list" where
  "account_section X A = Heading (tx A ''account.title'') #
     (if ap_auth A \<noteq> None then
        [Label (CHR ''@'' # ap_nickname A), Button True (tx A ''settings.open'') COpenSettings,
         Button True (tx A ''auth.logout'') CLogout] @ security_section X A
      else
        [Label (tx A ''connection.server''), Field True FServer (ap_server_input A),
         Label (tx A ''auth.nickname''), Field True FNickname (ap_nickname A),
         Label (tx A ''auth.password''), Field True FPassword (ap_password A),
         Button (ap_login_rx A = None) (tx A ''auth.login'') CLogin,
         Button (ap_login_rx A = None) (tx A ''auth.create_account'') CShowCreate,
         Button True (tx A ''settings.open'') COpenSettings])"

definition new_chat_section :: "'w app \<Rightarrow> widget list" where
  "new_chat_section A =
     (let logged_in = ap_auth A \<noteq> None in
      [Heading (tx A ''new_chat.title''), Label (tx A ''chat.peer_nickname''),
       Field logged_in FPeer (ap_peer_nickname_input A),
       Button (logged_in \<and> ap_search_rx A = None) (tx A ''chat.search_users'') CSearch] @
      map (\<lambda>nick. Button True (CHR ''@'' # nick) (CPick nick)) (ap_peer_search_results A) @
      [Button logged_in (tx A ''chat.open'') COpenChat])"

definition unread_count :: "chat_history \<Rightarrow> string \<Rightarrow> u32" where
  "unread_count h nick = (case map_of (ch_unread_by_peer h) nick of Some n \<Rightarrow> n | None \<Rightarrow> 0)"

definition chats_section :: "'w app \<Rightarrow> widget list" where
  "chats_section A = Heading (tx A ''chats.title'') #
     map (\<lambda>nick. let unread = unread_count (ap_history A) nick in
         Choice (ap_selected_chat A = nick)
           (if 0 < unread then CHR ''@'' # nick @ '' ('' @ decimal (unat unread) @ '')'' else CHR ''@'' # nick)
           (CChat nick))
       (map fst (ch_chats (ap_history A))) @
     [Button True (tx A ''chat.sync_incoming'') CSync]"

definition left_panel :: "'w app_env \<Rightarrow> 'w app \<Rightarrow> widget list" where
  "left_panel X A = account_section X A @ new_chat_section A @ chats_section A"

text \<open>A middle dot in UTF-8.\<close>

definition dot :: string where "dot = '' '' @ [CHR 0xC2, CHR 0xB7] @ '' ''"

definition bubble_meta :: "chat_message \<Rightarrow> string \<Rightarrow> string \<Rightarrow> string" where
  "bubble_meta m peer you_label =
     (if cm_outgoing m then you_label else CHR ''@'' # peer) @ dot @ format_message_time (cm_ts m) @
       dot @ message_status_label (cm_status m)"

definition message_bubble :: "chat_message \<Rightarrow> string \<Rightarrow> string \<Rightarrow> string \<Rightarrow> nat \<Rightarrow> widget list" where
  "message_bubble m peer save_label you_label index =
     [Label (bubble_meta m peer you_label), Label (hard_wrap_long_words (cm_text m) 48)] @
     (case (cm_file_name m, cm_file_size m) of
        (Some _, Some file_size) \<Rightarrow> [Label (format_file_size file_size), Button True save_label (CSaveFile index)]
      | _ \<Rightarrow> [])"

definition chat_header :: "'w app \<Rightarrow> widget list" where
  "chat_header A =
     (let selected_blocked = is_user_blocked A (ap_selected_chat A) in
      [Heading (txf A ''chat.title'' [(''peer'', ap_selected_chat A)]),
       (if selected_blocked then Button True (tx A ''block.unblock_user'') (CUnblock (ap_selected_chat A))
        else Button True (tx A ''block.block_user'') CBlock),
       Button True (tx A ''chat.delete_chat'') CDelete,
       Button True (tx A ''security.reset_session'') CResetSession,
       Button True (tx A ''call.audio_call'') (CCall False),
       Button True (tx A ''call.video_call'') (CCall True)] @
      (if selected_blocked then [Label (tx A ''block.you_blocked_banner'')] else []))"

text \<open>The key Enter in the message field is a click of its own.\<close>

definition central_panel :: "'w app \<Rightarrow> widget list" where
  "central_panel A =
     (if ap_auth A = None then
        [Heading (tx A ''welcome.title''), Label (tx A ''welcome.step_1''), Label (tx A ''welcome.step_2''),
         Label (tx A ''welcome.step_3'')]
      else if ap_selected_chat A = [] then [Heading (tx A ''placeholder.select_or_start'')]
      else chat_header A @
        concat (map (\<lambda>(index, m). message_bubble m (ap_selected_chat A) (tx A ''common.save'') (tx A ''message.you'') index)
          (enumerate 0 (chat_messages (ap_history A) (ap_selected_chat A)))) @
        [Field True FMessage (ap_message_input A), Button True (tx A ''chat.message_hint'') CEnter,
         Button (ap_send_rx A = None) (tx A ''chat.send'') CSend,
         Button (ap_send_rx A = None) (tx A ''chat.attach_file'') CAttach])"

section \<open>The other windows\<close>

definition language_label :: "'w app \<Rightarrow> app_language \<Rightarrow> string" where
  "language_label A language = (case language of
     LanguageSystem \<Rightarrow> tx A ''settings.language_system''
   | English \<Rightarrow> tx A ''settings.language_en''
   | Russian \<Rightarrow> tx A ''settings.language_ru'')"

definition media_device_label :: "'w app \<Rightarrow> string \<Rightarrow> string" where
  "media_device_label A value =
     (if value = SYSTEM_DEFAULT_DEVICE then tx A ''call.system_default'' else value)"

definition appearance_settings :: "'w app \<Rightarrow> widget list" where
  "appearance_settings A =
     (let st = ap_settings A in
      [Heading (tx A ''settings.appearance''),
       Choice (as_theme st = ThemeSystem) (tx A ''settings.theme_system'') (CTheme ThemeSystem),
       Choice (as_theme st = ThemeLight) (tx A ''settings.theme_light'') (CTheme ThemeLight),
       Choice (as_theme st = ThemeDark) (tx A ''settings.theme_dark'') (CTheme ThemeDark),
       Heading (tx A ''settings.language''), Label (language_label A (as_language st)),
       Choice (as_language st = LanguageSystem) (tx A ''settings.language_system'') (CLanguage LanguageSystem),
       Choice (as_language st = English) (tx A ''settings.language_en'') (CLanguage English),
       Choice (as_language st = Russian) (tx A ''settings.language_ru'') (CLanguage Russian)])"

definition profile_settings :: "'w app \<Rightarrow> widget list" where
  "profile_settings A =
     [Heading (tx A ''profile.title''), Label (tx A ''profile.default_username''),
      Field True FDefaultUsername (as_default_username (ap_settings A)),
      Button True (tx A ''profile.use_current_username'') CUseUsername,
      Heading (tx A ''connection.title''), Label (tx A ''connection.server''),
      Field True FServer (ap_server_input A), Button True (tx A ''connection.save_server'') CSaveServer] @
     (if ap_auth A \<noteq> None then [Button True (tx A ''connection.apply_after_logout'') CApplyServer] else [])"

definition privacy_settings :: "'w app \<Rightarrow> widget list" where
  "privacy_settings A =
     [Heading (tx A ''privacy.title''), Label (tx A ''privacy.blocked_users'')] @
     (if ap_blocked_users A = [] then [Label (tx A ''privacy.no_blocked_users'')]
      else concat (map (\<lambda>user. [Label (CHR ''@'' # user),
        Button True (tx A ''block.unblock_user'') (CUnblock user)]) (ap_blocked_users A))) @
     [Button True (tx A ''privacy.refresh_blocked_users'') CRefreshBlocked]"

definition device_select :: "'w app \<Rightarrow> (string \<Rightarrow> click) \<Rightarrow> string \<Rightarrow> string \<Rightarrow> string list \<Rightarrow> string \<Rightarrow> widget list" where
  "device_select A select title current devices none_label =
     [Label (tx A title), Label (media_device_label A current),
      Choice (current = SYSTEM_DEFAULT_DEVICE) (tx A ''call.system_default'') (select SYSTEM_DEFAULT_DEVICE)] @
     map (\<lambda>device. Choice (current = device) device (select device)) devices @
     (if devices = [] then [Label (tx A none_label)] else [])"

definition media_settings :: "'w app \<Rightarrow> widget list" where
  "media_settings A =
     (let st = ap_settings A in
      [Heading (tx A ''call.media_devices'')] @
      device_select A CMicrophone ''call.microphone'' (as_microphone st) (ap_microphone_devices A) ''call.no_devices_found'' @
      device_select A CSpeaker ''call.speaker'' (as_speaker st) (ap_speaker_devices A) ''call.no_devices_found'' @
      device_select A CCamera ''call.camera'' (as_camera st) (ap_camera_devices A) ''call.camera_stack_pending'' @
      [Button True (tx A ''call.refresh_devices'') CRefreshDevices,
       Heading (tx A ''call.audio_processing''),
       Choice (as_noise_suppression st) (tx A ''call.noise_suppression'') (CNoise (\<not> as_noise_suppression st)),
       Choice (as_automatic_gain_control st) (tx A ''call.automatic_gain_control'')
         (CGain (\<not> as_automatic_gain_control st)),
       Choice (as_show_call_debug_info st) (tx A ''call.show_debug_info'') (CDebug (\<not> as_show_call_debug_info st)),
       Heading (tx A ''call.network''),
       Label (tx A ''call.ice_servers''), Field True FIceServers (as_ice_servers st),
       Label (tx A ''call.turn_username''), Field True FTurnUsername (as_turn_username st),
       Label (tx A ''call.turn_password''), Field True FTurnPassword (as_turn_password st)])"

definition settings_window :: "'w app_env \<Rightarrow> 'w app \<Rightarrow> widget list" where
  "settings_window X A = Heading (tx A ''settings.title'') #
     appearance_settings A @ profile_settings A @ privacy_settings A @ media_settings A @
     [Heading (tx A ''about.title''), Label (txf A ''about.version'' [(''version'', ae_version X)]),
      Label (tx A ''about.creator''), Button True (tx A ''update.check_now'') CCheckUpdates,
      Button True (tx A ''common.close'') CCloseSettings]"

text \<open>
  The update window has a cross in its title bar whatever the update, and a button for closing it
  unless the update is mandatory.  In the other windows the cross does what the last button does.
\<close>

definition update_window :: "'w app \<Rightarrow> widget list" where
  "update_window A =
     (case ap_update_info A of None \<Rightarrow> []
      | Some info \<Rightarrow>
          [Heading (tx A ''update.title''), Button True ''x'' CDismissUpdate,
           Label (txf A ''update.available'' [(''current'', ui_current_version info), (''latest'', ui_version info)]),
           Label (txf A ''update.minimum_supported'' [(''version'', ui_minimum_supported_version info)]),
           Label (txf A ''update.sha256'' [(''sha256'', ui_sha256 info)])] @
          (if ui_mandatory info then [Label (tx A ''update.mandatory'')] else []) @
          [Button True (tx A ''update.download'') CDownload] @
          (if ui_notes_url info \<noteq> None then [Button True (tx A ''update.release_notes'') CNotes] else []) @
          (if ui_mandatory info then [] else [Button True (tx A ''common.close'') CCloseUpdate]))"

definition create_account_window :: "'w app \<Rightarrow> widget list" where
  "create_account_window A =
     [Heading (tx A ''auth.create_account''), Label (tx A ''auth.invite_required''),
      Label (tx A ''auth.nickname''), Field True FRegisterNickname (ap_register_nickname A),
      Label (tx A ''auth.password''), Field True FRegisterPassword (ap_register_password A),
      Label (tx A ''auth.invite_code''), Field True FRegisterInvite (ap_register_invite_code A),
      Button (ap_login_rx A = None) (tx A ''auth.create_account'') CCreate,
      Button True (tx A ''common.cancel'') CCloseCreate]"

definition delete_chat_window :: "'w app \<Rightarrow> widget list" where
  "delete_chat_window A =
     (case ap_delete_chat_confirm A of None \<Rightarrow> []
      | Some chat_name \<Rightarrow>
          [Heading (tx A ''chat.delete_chat''), Label (txf A ''chat.delete_chat_confirm'' [(''user'', chat_name)]),
           Button True (tx A ''chat.delete_chat_confirm_button'') CConfirmDelete,
           Button True (tx A ''common.cancel'') CCancelDelete])"

text \<open>
  The call window without its pictures and levels.  The key Escape and closing the window hang up,
  Ctrl-M is the microphone's button.
\<close>

definition call_view :: "'w app \<Rightarrow> widget list" where
  "call_view A =
     (case ap_active_call A of None \<Rightarrow> []
      | Some call \<Rightarrow>
          [Heading (CHR ''@'' # ac_peer call),
           Label (if ac_video call then tx A ''call.video_active'' else tx A ''call.audio_active''),
           Label (txf A ''call.id'' [(''id'', ac_call_id call)]),
           Label (if ac_incoming call then tx A ''call.incoming_note'' else tx A ''call.outgoing_note''),
           Label (ac_signaling_status call)] @
          (if ac_video call then [Heading (tx A ''call.local_video''), Heading (tx A ''call.remote_video'')] else []) @
          (if ac_accepted call \<and> \<not> ac_microphone_muted call then [Label (tx A ''call.local_speaking'')]
           else [Label (tx A ''call.microphone_inactive'')]) @
          (if ac_incoming call \<and> \<not> ac_accepted call then
             [Button True (tx A ''call.accept'') (CCallButton AcceptCall),
              Button True (tx A ''call.decline'') (CCallButton DeclineCall)] else []) @
          [Button (ac_accepted call)
             (if ac_microphone_muted call then tx A ''call.unmute_microphone'' else tx A ''call.mute_microphone'')
             (CCallButton (Toggle (\<not> ac_microphone_muted call) (ac_camera_disabled call))),
           Button (ac_video call \<and> ac_accepted call)
             (if ac_camera_disabled call then tx A ''call.enable_camera'' else tx A ''call.disable_camera'')
             (CCallButton (Toggle (ac_microphone_muted call) (\<not> ac_camera_disabled call))),
           Button True (tx A ''call.hang_up'') (CCallButton HangUp)])"

definition window_view :: "'w app_env \<Rightarrow> 'w app \<Rightarrow> widget list" where
  "window_view X A = top_panel A @ left_panel X A @ central_panel A @
     (if ap_settings_open A then settings_window X A else []) @
     (if ap_create_account_open A then create_account_window A else []) @
     delete_chat_window A @
     (if ap_update_window_open A then update_window A else []) @
     call_view A"

section \<open>What a click does\<close>

text \<open>A list of device names, \<open>sort\<close>ed and \<open>dedup\<close>ed.\<close>

definition device_names :: "string option list \<Rightarrow> string list" where
  "device_names devices = remdups_adj (sort (filter (\<lambda>name. trim name \<noteq> []) (List.map_filter id devices)))"

definition refresh_media_devices :: "'w app_env \<Rightarrow> 'w app \<Rightarrow> 'w app" where
  "refresh_media_devices X A = A\<lparr>ap_microphone_devices := device_names (ae_input_devices X),
     ap_speaker_devices := device_names (ae_output_devices X), ap_camera_devices := device_names (ae_cameras X)\<rparr>"

definition on_settings :: "(app_settings \<Rightarrow> app_settings) \<Rightarrow> 'w app \<Rightarrow> 'w app" where
  "on_settings f A = A\<lparr>ap_settings := f (ap_settings A)\<rparr>"

definition edit_field :: "'w app_env \<Rightarrow> field \<Rightarrow> string \<Rightarrow> 'w app \<Rightarrow> 'w app" where
  "edit_field X f s A = (case f of
     FServer \<Rightarrow> A\<lparr>ap_server_input := s\<rparr>
   | FNickname \<Rightarrow> A\<lparr>ap_nickname := s\<rparr>
   | FPassword \<Rightarrow> A\<lparr>ap_password := s\<rparr>
   | FPeer \<Rightarrow> A\<lparr>ap_peer_nickname_input := s\<rparr>
   | FMessage \<Rightarrow> A\<lparr>ap_message_input := s\<rparr>
   | FRegisterNickname \<Rightarrow> A\<lparr>ap_register_nickname := s\<rparr>
   | FRegisterPassword \<Rightarrow> A\<lparr>ap_register_password := s\<rparr>
   | FRegisterInvite \<Rightarrow> A\<lparr>ap_register_invite_code := s\<rparr>
   | FDefaultUsername \<Rightarrow>
       let A = on_settings (\<lambda>st. st\<lparr>as_default_username := trim s\<rparr>) A
       in save_app_settings X (if ap_auth A = None then A\<lparr>ap_nickname := trim s\<rparr> else A)
   | FIceServers \<Rightarrow> on_settings (\<lambda>st. st\<lparr>as_ice_servers := s\<rparr>) A
   | FTurnUsername \<Rightarrow> on_settings (\<lambda>st. st\<lparr>as_turn_username := s\<rparr>) A
   | FTurnPassword \<Rightarrow> on_settings (\<lambda>st. st\<lparr>as_turn_password := s\<rparr>) A)"

text \<open>A click on a chat in the list.\<close>

definition toggle_chat :: "'w app_env \<Rightarrow> tick \<Rightarrow> string \<Rightarrow> 'w app \<Rightarrow> 'w app" where
  "toggle_chat X tk nick A =
     (if ap_selected_chat A = nick then A\<lparr>ap_selected_chat := []\<rparr>
      else let A = A\<lparr>ap_selected_chat := nick\<rparr>
           in (case ap_auth A of None \<Rightarrow> A
               | Some auth \<Rightarrow> (case mark_selected_chat_read auth A of
                     (True, A) \<Rightarrow> save_history X (tk_draws tk) A | (False, A) \<Rightarrow> A)))"

definition strip_line_ends :: "string \<Rightarrow> string" where
  "strip_line_ends s = rev (dropWhile (\<lambda>c. c = CHR 0x0A \<or> c = CHR 0x0D) (rev s))"

definition show_url :: "'w app_env \<Rightarrow> string \<Rightarrow> 'w app \<Rightarrow> 'w app" where
  "show_url X url A = (case ae_open_url X url of
     Inr _ \<Rightarrow> say ''update.opened_download'' A
   | Inl err \<Rightarrow> A\<lparr>ap_status := ''Could not open update: '' @ err\<rparr>)"

text \<open>The settings window.\<close>

definition settings_click :: "'w app_env \<Rightarrow> click \<Rightarrow> 'w app \<Rightarrow> 'w app" where
  "settings_click X c A = (case c of
     CTheme theme \<Rightarrow>
       if as_theme (ap_settings A) = theme then A
       else save_app_settings X (on_settings (\<lambda>st. st\<lparr>as_theme := theme\<rparr>) A)
   | CLanguage language \<Rightarrow>
       if as_language (ap_settings A) = language then A
       else let A = on_settings (\<lambda>st. st\<lparr>as_language := language\<rparr>) A;
                A = A\<lparr>ap_localization := load_localization (ae_locale X) (ae_embedded X) (cl_disk (ap_core A))
                  (language_code (ae_os X) language)\<rparr>
            in say ''settings.language_updated'' (save_app_settings X A)
   | CUseUsername \<Rightarrow> save_app_settings X (on_settings (\<lambda>st. st\<lparr>as_default_username := trim (ap_nickname A)\<rparr>) A)
   | CSaveServer \<Rightarrow> save_server_config X A
   | CApplyServer \<Rightarrow> apply_server_config X (logout X A)
   | CRefreshBlocked \<Rightarrow> refresh_blocked_users A
   | CMicrophone device \<Rightarrow> on_settings (\<lambda>st. st\<lparr>as_microphone := device\<rparr>) A
   | CSpeaker device \<Rightarrow> on_settings (\<lambda>st. st\<lparr>as_speaker := device\<rparr>) A
   | CCamera device \<Rightarrow> on_settings (\<lambda>st. st\<lparr>as_camera := device\<rparr>) A
   | CRefreshDevices \<Rightarrow> refresh_media_devices X A
   | CNoise on \<Rightarrow> on_settings (\<lambda>st. st\<lparr>as_noise_suppression := on\<rparr>) A
   | CGain on \<Rightarrow> on_settings (\<lambda>st. st\<lparr>as_automatic_gain_control := on\<rparr>) A
   | CDebug on \<Rightarrow> on_settings (\<lambda>st. st\<lparr>as_show_call_debug_info := on\<rparr>) A
   | CCheckUpdates \<Rightarrow> check_for_updates A
   | CCloseSettings \<Rightarrow> A\<lparr>ap_settings_open := False\<rparr>
   | _ \<Rightarrow> A)"

definition popup_click :: "'w app_env \<Rightarrow> tick \<Rightarrow> click \<Rightarrow> 'w app \<Rightarrow> 'w app" where
  "popup_click X tk c A = (case c of
     CDownload \<Rightarrow> (case ap_update_info A of None \<Rightarrow> A | Some info \<Rightarrow> show_url X (ui_url info) A)
   | CCloseUpdate \<Rightarrow> (case ap_update_info A of None \<Rightarrow> A
       | Some info \<Rightarrow> let shown = ap_update_window_open A; A = A\<lparr>ap_update_window_open := False\<rparr>
           in A\<lparr>ap_update_window_open := (shown \<or> ui_mandatory info)\<rparr>)
   | CDismissUpdate \<Rightarrow> (case ap_update_info A of None \<Rightarrow> A
       | Some info \<Rightarrow> A\<lparr>ap_update_window_open := (False \<or> ui_mandatory info)\<rparr>)
   | CCreate \<Rightarrow> create_account X A
   | CCloseCreate \<Rightarrow> A\<lparr>ap_create_account_open := False\<rparr>
   | CConfirmDelete \<Rightarrow> (case ap_delete_chat_confirm A of None \<Rightarrow> A
       | Some chat_name \<Rightarrow> delete_chat_locally X (tk_draws tk) chat_name A)
   | CCancelDelete \<Rightarrow> A\<lparr>ap_delete_chat_confirm := None\<rparr>
   | CCallButton button \<Rightarrow> call_window button A
   | _ \<Rightarrow> A)"

text \<open>\<open>picked\<close> and \<open>save_path\<close> are the answers of the file dialogs, should the click open one.\<close>

definition main_click :: "'w app_env \<Rightarrow> tick \<Rightarrow> (string \<times> string option \<times> u64 option) option \<Rightarrow> string option \<Rightarrow>
    click \<Rightarrow> 'w app \<Rightarrow> 'w app" where
  "main_click X tk picked save_path c A = (case c of
     CTrust \<Rightarrow> trust_new_peer_identity A
   | COpenSettings \<Rightarrow> A\<lparr>ap_settings_open := True\<rparr>
   | CLogout \<Rightarrow> logout X A
   | CResetSession \<Rightarrow> reset_selected_chat_session X (tk_draws tk) A
   | CLogin \<Rightarrow> register_or_login X False A
   | CShowCreate \<Rightarrow> A\<lparr>ap_register_nickname := ap_nickname A, ap_create_account_open := True\<rparr>
   | CSearch \<Rightarrow> app_search_users A
   | CPick nick \<Rightarrow> A\<lparr>ap_peer_nickname_input := nick\<rparr>
   | COpenChat \<Rightarrow> open_chat A
   | CChat nick \<Rightarrow> toggle_chat X tk nick A
   | CSync \<Rightarrow> sync_incoming tk A
   | CUnblock user \<Rightarrow> app_unblock_user user A
   | CBlock \<Rightarrow> block_selected_chat_user A
   | CDelete \<Rightarrow> request_delete_selected_chat A
   | CCall video \<Rightarrow> start_call video tk A
   | CSaveFile index \<Rightarrow> save_file_message index save_path A
   | CSend \<Rightarrow> send_current_message X tk A
   | CEnter \<Rightarrow> send_current_message X tk (A\<lparr>ap_message_input := strip_line_ends (ap_message_input A)\<rparr>)
   | CAttach \<Rightarrow> send_file X tk picked A
   | _ \<Rightarrow> A)"

text \<open>Each click belongs to one of the three.\<close>

definition on_click :: "'w app_env \<Rightarrow> tick \<Rightarrow> (string \<times> string option \<times> u64 option) option \<Rightarrow> string option \<Rightarrow>
    click \<Rightarrow> 'w app \<Rightarrow> 'w app" where
  "on_click X tk picked save_path c A =
     settings_click X c (popup_click X tk c (main_click X tk picked save_path c A))"

text \<open>
  The button that closes the update window does nothing: what it sets is overwritten from a local
  copy of the flag.  Only the cross of the title bar closes the window.
\<close>

lemma update_close_button_dead:
  assumes "ap_update_window_open A"
  shows "on_click X tk picked save_path CCloseUpdate A = A"
  using assms by (cases A) (simp add: on_click_def main_click_def popup_click_def settings_click_def split: option.split)

lemma update_dismissed:
  assumes "ap_update_info A = Some info"
  shows "on_click X tk picked save_path CDismissUpdate A = A\<lparr>ap_update_window_open := ui_mandatory info\<rparr>"
  using assms by (simp add: on_click_def main_click_def popup_click_def settings_click_def)

end
