(* ===== verification/App_Window.thy ===== *)
theory App_Window
  imports App_View App_Invariants
begin

text \<open>
  The window as a machine: its start (\<open>MessengerApp::new\<close>), a frame (\<open>update\<close>: the tray, the polls
  of all channels in their order, microphone and camera, the synchronisation timer, and then what
  the user does to the widgets on display), the reachable states and what is true in all of them.
\<close>

section \<open>Start\<close>

definition new_app :: "'w app_env \<Rightarrow> disk \<Rightarrow> 'w \<Rightarrow> bool \<Rightarrow> nat \<Rightarrow> 'w app" where
  "new_app X d w tray now =
     (let settings = load_settings (ae_os X) (ae_settings X) d;
          texts = load_localization (ae_locale X) (ae_embedded X) d (language_code (ae_os X) (as_language settings));
          (config, d) = (if trim (as_server_url settings) = [] then local_default (ae_os X) d
            else for_server (ae_os X) (as_server_url settings) d)
      in check_for_updates \<lparr>ap_core = new_client config d w, ap_local_keys = None,
           ap_history = load_history (ce_vault (ae_client X)) (ae_os X) (ae_history X) None d,
           ap_server_input = http_base config, ap_nickname = as_default_username settings, ap_password = [],
           ap_auth = None, ap_status = localized texts ''status.not_logged_in'', ap_tray = tray,
           ap_hidden_to_tray = False, ap_quit_requested = False, ap_settings = settings,
           ap_localization = texts, ap_settings_open = False, ap_create_account_open = False,
           ap_delete_chat_confirm = None, ap_register_nickname = [], ap_register_password = [],
           ap_register_invite_code = [], ap_peer_nickname_input = [], ap_peer_search_results = [],
           ap_blocked_users = [], ap_selected_chat = [], ap_message_input = [], ap_key_change_peer = None,
           ap_login_rx = None, ap_open_chat_rx = None, ap_search_rx = None, ap_block_rx = None,
           ap_send_rx = None, ap_sync_rx = None, ap_read_ack_rx = None, ap_save_file_rx = None,
           ap_trust_rx = None, ap_call_rx = None, ap_call_signal_rx = None, ap_webrtc_rx = None,
           ap_update_rx = None, ap_active_call = None,
           ap_microphone_devices = device_names (ae_input_devices X),
           ap_speaker_devices = device_names (ae_output_devices X), ap_camera_devices = device_names (ae_cameras X),
           ap_media_session = False, ap_video_capture_session = False, ap_webrtc_session = None,
           ap_audio_playback = False, ap_media_failed_call_id = None, ap_update_info = None,
           ap_update_window_open = False, ap_last_sync_at = now, ap_last_call_signal_poll_at = now,
           ap_jobs = [], ap_effects = []\<rparr>)"

section \<open>The tray\<close>

datatype tray_command = TrayShow | TrayQuit

definition viewport :: "viewport_command \<Rightarrow> 'w app \<Rightarrow> 'w app" where
  "viewport command = effect_of (Viewport command)"

definition show_from_tray :: "'w app \<Rightarrow> 'w app" where
  "show_from_tray A = viewport FocusWindow (viewport (Minimized False) (viewport (Visible True)
     (A\<lparr>ap_hidden_to_tray := False\<rparr>)))"

definition hide_to_tray :: "'w app \<Rightarrow> 'w app" where
  "hide_to_tray A = say ''status.hidden_to_tray'' (viewport (Visible False) (A\<lparr>ap_hidden_to_tray := True\<rparr>))"

definition tray_step :: "tray_command \<Rightarrow> 'w app \<Rightarrow> 'w app" where
  "tray_step command A = (case command of
     TrayShow \<Rightarrow> show_from_tray A
   | TrayQuit \<Rightarrow> viewport CloseWindow (A\<lparr>ap_quit_requested := True\<rparr>))"

definition poll_tray :: "tray_command list \<Rightarrow> 'w app \<Rightarrow> 'w app" where
  "poll_tray commands A = (if ap_tray A then fold tray_step commands A else A)"

section \<open>A frame\<close>

text \<open>What a frame finds in the channels and what the user does in it: type into a field, click.\<close>

record 'w frame_input =
  fi_tick :: tick
  fi_tray :: "tray_command list"
  fi_close_requested :: bool
  fi_login :: "(string + 'w login_success) received"
  fi_open_chat :: "(string + open_chat_success) received"
  fi_search :: "(string + string list) received"
  fi_block :: "(block_action \<times> (string + string list)) received"
  fi_send :: "send_event received"
  fi_sync :: "(string + sync_success) received"
  fi_read_ack :: "(string \<times> string list \<times> (string + unit)) received"
  fi_save_file :: "save_file_event received"
  fi_trust :: "(string \<times> (string + fetch_prekey_bundle_response)) received"
  fi_update :: "(string + update_info option) received"
  fi_call :: "(string + call_state) received"
  fi_signals :: "(string + call_signal_item list) received"
  fi_webrtc :: "(string + session_handle \<times> webrtc_action) received"
  fi_edit :: "(field \<times> string) option"
  fi_click :: "click option"
  fi_picked :: "(string \<times> string option \<times> u64 option) option"
  fi_save_path :: "string option"

definition poll_channels :: "'w app_env \<Rightarrow> 'w frame_input \<Rightarrow> 'w app \<Rightarrow> 'w app" where
  "poll_channels X fi A =
     (let tk = fi_tick fi; dr = tk_draws tk;
          A = poll_login_result X (fi_login fi) A;
          A = poll_open_chat_result X dr (fi_open_chat fi) A;
          A = poll_search_result (fi_search fi) A;
          A = poll_block_result (fi_block fi) A;
          A = poll_send_result X dr (fi_send fi) A;
          A = poll_sync_result X tk (fi_sync fi) A;
          A = poll_read_ack_result (fi_read_ack fi) A;
          A = poll_save_file_result (fi_save_file fi) A;
          A = poll_trust_result X dr (fi_trust fi) A;
          A = poll_update_result (fi_update fi) A;
          A = poll_call_result (fi_call fi) A;
          A = poll_call_signals tk (fi_signals fi) A;
          A = poll_webrtc_result X (fi_webrtc fi) A
      in sync_video_session (sync_media_session X A))"

definition SYNC_INTERVAL :: nat where "SYNC_INTERVAL = 2000"

definition poll_phase :: "'w app_env \<Rightarrow> 'w frame_input \<Rightarrow> 'w app \<Rightarrow> 'w app" where
  "poll_phase X fi A =
     (let A = poll_channels X fi A
      in if ap_auth A \<noteq> None \<and> SYNC_INTERVAL \<le> tk_instant (fi_tick fi) - ap_last_sync_at A
         then sync_incoming (fi_tick fi) A else A)"

definition user_edits :: "'w app_env \<Rightarrow> 'w frame_input \<Rightarrow> 'w app \<Rightarrow> 'w app" where
  "user_edits X fi A = (case fi_edit fi of None \<Rightarrow> A
     | Some (f, s) \<Rightarrow> if editable (window_view X A) f then edit_field X f s A else A)"

definition user_clicks :: "'w app_env \<Rightarrow> 'w frame_input \<Rightarrow> 'w app \<Rightarrow> 'w app" where
  "user_clicks X fi A = (case fi_click fi of None \<Rightarrow> A
     | Some c \<Rightarrow> if clickable (window_view X A) c
         then on_click X (fi_tick fi) (fi_picked fi) (fi_save_path fi) c A else A)"

text \<open>Drawing the settings saves them; an update window without an update closes.\<close>

definition drawn :: "'w app_env \<Rightarrow> bool \<Rightarrow> 'w app \<Rightarrow> 'w app" where
  "drawn X settings_shown A =
     (let A = (if settings_shown then save_app_settings X A else A)
      in if ap_update_window_open A \<and> ap_update_info A = None then A\<lparr>ap_update_window_open := False\<rparr> else A)"

definition update_frame :: "'w app_env \<Rightarrow> 'w frame_input \<Rightarrow> 'w app \<Rightarrow> 'w app" where
  "update_frame X fi A =
     (let A = poll_tray (fi_tray fi) A
      in if ap_tray A \<and> fi_close_requested fi \<and> \<not> ap_quit_requested A
         then hide_to_tray (viewport CancelClose A)
         else let A = user_edits X fi (poll_phase X fi A); B = user_clicks X fi A
              in drawn X (ap_settings_open A \<or> ap_settings_open B) B)"

end
