(* ===== verification/App_Reachable.thy ===== *)
theory App_Reachable
  imports App_Window
begin

text \<open>
  The reachable states of the window and their invariant: one preservation lemma per operation of
  the window, put together along a frame.
\<close>

section \<open>Reachable states\<close>

text \<open>
  What is assumed of a frame's input: a new message gets a fresh identifier, a login brings back
  the password it was started with and a well-formed history, and so does the history file that
  a logout reads.  The results of all other threads are arbitrary.
\<close>

definition sound_input :: "'w app_env \<Rightarrow> 'w frame_input \<Rightarrow> 'w app \<Rightarrow> bool" where
  "sound_input X fi A \<longleftrightarrow>
     (let B = user_edits X fi (poll_phase X fi (poll_tray (fi_tray fi) A))
      in tk_uuid (fi_tick fi) \<notin> set (message_ids (ap_history B)) \<and>
         history_ok (load_history (ce_vault (ae_client X)) (ae_os X) (ae_history X) None (cl_disk (ap_core B)))) \<and>
     (case (fi_login fi, ap_login_rx A) of
        (Received (Inr success), Some (JLogin create nickname password server invite language)) \<Rightarrow>
          ls_password success = password \<and> history_ok (ls_history success)
      | _ \<Rightarrow> True)"

text \<open>A thread changes the core it shares with the window in any way.\<close>

inductive window_step :: "'w app_env \<Rightarrow> 'w app \<Rightarrow> 'w app \<Rightarrow> bool" for X :: "'w app_env" where
  frame: "sound_input X fi A \<Longrightarrow> window_step X A (update_frame X fi A)"
| thread: "window_step X A (A\<lparr>ap_core := core\<rparr>)"

inductive window_reaches :: "'w app_env \<Rightarrow> 'w app \<Rightarrow> bool" for X :: "'w app_env" where
  start: "history_ok (ap_history (new_app X d w tray now)) \<Longrightarrow> window_reaches X (new_app X d w tray now)"
| step: "window_reaches X A \<Longrightarrow> window_step X A B \<Longrightarrow> window_reaches X B"

section \<open>The invariant\<close>

text \<open>
  A user is logged in with keys and a password of six bytes or more - so that what is saved is
  encrypted -, a pending login carries such a password, a WebRTC session or its start belongs to
  a call, and the window of a mandatory update is open.
\<close>

definition login_pending :: "job option \<Rightarrow> bool" where
  "login_pending rx \<longleftrightarrow> (case rx of None \<Rightarrow> True
     | Some (JLogin create nickname password server invite language) \<Rightarrow> 6 \<le> length password | _ \<Rightarrow> False)"

definition update_shown :: "update_info option \<Rightarrow> bool \<Rightarrow> bool" where
  "update_shown info shown \<longleftrightarrow> (case info of None \<Rightarrow> True | Some i \<Rightarrow> ui_mandatory i \<longrightarrow> shown)"

text \<open>Each thread reports to one channel, or to none.\<close>

datatype channel = ChLogin | ChOpenChat | ChSearch | ChBlock | ChSend | ChSync | ChReadAck | ChSaveFile | ChTrust |
  ChCall | ChSignals | ChWebrtc | ChUpdate | ChNone

fun channel_of :: "job \<Rightarrow> channel" where
  "channel_of (JLogin _ _ _ _ _ _) = ChLogin"
| "channel_of (JOpenChat _ _ _) = ChOpenChat"
| "channel_of (JSearch _) = ChSearch"
| "channel_of (JBlock _ _) = ChBlock"
| "channel_of (JSend _ _ _ _ _ _) = ChSend"
| "channel_of (JSync _) = ChSync"
| "channel_of (JReadAck _ _ _) = ChReadAck"
| "channel_of (JSaveInline _ _ _) = ChSaveFile"
| "channel_of (JSaveBlob _ _ _ _ _) = ChSaveFile"
| "channel_of (JTrust _ _) = ChTrust"
| "channel_of (JCall _ _ _ _ _ _) = ChCall"
| "channel_of (JFetchSignals _ _) = ChSignals"
| "channel_of (JOffer _) = ChWebrtc"
| "channel_of (JAnswer _ _) = ChWebrtc"
| "channel_of (JApplyAnswer _ _) = ChWebrtc"
| "channel_of JUpdate = ChUpdate"
| "channel_of (JLogout _) = ChNone"
| "channel_of (JSignal _ _ _ _ _) = ChNone"
| "channel_of (JCloseSession _) = ChNone"

definition holds :: "channel \<Rightarrow> job option \<Rightarrow> bool" where
  "holds ch rx \<longleftrightarrow> (case rx of None \<Rightarrow> True | Some j \<Rightarrow> channel_of j = ch)"

definition channels_typed :: "'w app \<Rightarrow> bool" where
  "channels_typed A \<longleftrightarrow>
     holds ChLogin (ap_login_rx A) \<and> holds ChOpenChat (ap_open_chat_rx A) \<and> holds ChSearch (ap_search_rx A) \<and>
     holds ChBlock (ap_block_rx A) \<and> holds ChSend (ap_send_rx A) \<and> holds ChSync (ap_sync_rx A) \<and>
     holds ChReadAck (ap_read_ack_rx A) \<and> holds ChSaveFile (ap_save_file_rx A) \<and> holds ChTrust (ap_trust_rx A) \<and>
     holds ChCall (ap_call_rx A) \<and> holds ChSignals (ap_call_signal_rx A) \<and> holds ChWebrtc (ap_webrtc_rx A) \<and>
     holds ChUpdate (ap_update_rx A)"

definition gate :: "'w app \<Rightarrow> bool" where
  "gate A \<longleftrightarrow>
     (ap_auth A = None \<longleftrightarrow> ap_local_keys A = None) \<and>
     (ap_auth A \<noteq> None \<longrightarrow> 6 \<le> length (ap_password A)) \<and>
     login_pending (ap_login_rx A) \<and>
     (ap_active_call A = None \<longrightarrow> ap_webrtc_session A = None \<and> ap_webrtc_rx A = None) \<and>
     update_shown (ap_update_info A) (ap_update_window_open A) \<and> channels_typed A"

definition window_ok :: "'w app \<Rightarrow> bool" where
  "window_ok A \<longleftrightarrow> gate A \<and> history_ok (ap_history A)"

lemma gate_simps [simp]:
  "login_pending None" "login_pending (Some (JLogin c n pw srv invite l)) \<longleftrightarrow> 6 \<le> length pw"
  "update_shown None b" "update_shown i True"
  "update_shown (Some info) b \<longleftrightarrow> (ui_mandatory info \<longrightarrow> b)"
  by (auto simp: login_pending_def update_shown_def split: option.split)

lemma holds_simps [simp]: "holds ch None" "holds ch (Some j) \<longleftrightarrow> channel_of j = ch"
  by (simp_all add: holds_def)

named_theorems keeps \<open>operations keep the invariant\<close>

lemmas gate_defs = gate_def channels_typed_def

lemmas ok_defs = window_ok_def gate_defs

lemmas idioms = say_def spawn_def on_history_def on_call_def save_history_def on_core_disk_def effect_of_def
  save_app_settings_def on_settings_def viewport_def set_signaling_status_def Let_def

lemma window_ok_fields [simp]:
  "window_ok (A\<lparr>ap_core := core\<rparr>) = window_ok A" "window_ok (A\<lparr>ap_status := st\<rparr>) = window_ok A"
  "window_ok (A\<lparr>ap_hidden_to_tray := b\<rparr>) = window_ok A" "window_ok (A\<lparr>ap_quit_requested := b\<rparr>) = window_ok A"
  "window_ok (A\<lparr>ap_settings_open := b\<rparr>) = window_ok A" "window_ok (A\<lparr>ap_create_account_open := b\<rparr>) = window_ok A"
  "window_ok (A\<lparr>ap_delete_chat_confirm := d\<rparr>) = window_ok A" "window_ok (A\<lparr>ap_selected_chat := s\<rparr>) = window_ok A"
  "window_ok (A\<lparr>ap_register_nickname := s\<rparr>) = window_ok A" "window_ok (A\<lparr>ap_register_password := s\<rparr>) = window_ok A"
  "window_ok (A\<lparr>ap_register_invite_code := s\<rparr>) = window_ok A" "window_ok (A\<lparr>ap_nickname := s\<rparr>) = window_ok A"
  "window_ok (A\<lparr>ap_peer_nickname_input := s\<rparr>) = window_ok A" "window_ok (A\<lparr>ap_message_input := s\<rparr>) = window_ok A"
  "window_ok (A\<lparr>ap_server_input := s\<rparr>) = window_ok A" "window_ok (A\<lparr>ap_localization := l\<rparr>) = window_ok A"
  "window_ok (A\<lparr>ap_settings := se\<rparr>) = window_ok A" 
  
  
  "window_ok (A\<lparr>ap_last_call_signal_poll_at := n\<rparr>) = window_ok A"
  by (simp_all add: ok_defs)

lemma window_ok_channels [simp]:
  assumes "window_ok A"
  shows "window_ok (A\<lparr>ap_open_chat_rx := None\<rparr>)" "window_ok (A\<lparr>ap_sync_rx := None\<rparr>)"
    "window_ok (A\<lparr>ap_call_signal_rx := None\<rparr>)" "window_ok (A\<lparr>ap_login_rx := None\<rparr>)"
    "channel_of j = ChSend \<Longrightarrow> window_ok (A\<lparr>ap_send_rx := Some j\<rparr>)" "channel_of j = ChCall \<Longrightarrow> window_ok (A\<lparr>ap_call_rx := Some j\<rparr>)"
    "channel_of j = ChSignals \<Longrightarrow> window_ok (A\<lparr>ap_call_signal_rx := Some j\<rparr>)"
    "ap_open_chat_rx A = Some j \<Longrightarrow> window_ok (A\<lparr>ap_open_chat_rx := Some j\<rparr>)"
    "ap_sync_rx A = Some j \<Longrightarrow> window_ok (A\<lparr>ap_sync_rx := Some j\<rparr>)"
    "ap_call_signal_rx A = Some j \<Longrightarrow> window_ok (A\<lparr>ap_call_signal_rx := Some j\<rparr>)"
    "ap_login_rx A = Some j \<Longrightarrow> window_ok (A\<lparr>ap_login_rx := Some j\<rparr>)"
  using assms by (auto simp: ok_defs)

lemma window_ok_idioms [simp]:
  "window_ok (say key A) = window_ok A" "window_ok (spawn j A) = window_ok A"
  "window_ok (save_history X dr A) = window_ok A" "window_ok (effect_of e A) = window_ok A"
  "window_ok (on_core_disk gd A) = window_ok A" "window_ok (save_app_settings X A) = window_ok A"
  "window_ok (on_settings f A) = window_ok A" "window_ok (viewport v A) = window_ok A"
  "window_ok (set_signaling_status s A) = window_ok A" "window_ok (on_call g2 A) = window_ok A"
  by (simp_all add: idioms ok_defs)

lemma keeps_history: "window_ok A \<Longrightarrow> history_ok (f (ap_history A)) \<Longrightarrow> window_ok (on_history f A)"
  by (auto simp: on_history_def ok_defs)

section \<open>Operations on other fields\<close>

lemma keeps_account [keeps]:
  assumes "window_ok A"
  shows "window_ok (check_for_updates A)" "window_ok (poll_update_result u A)"
    "window_ok (register_or_login X create A)" "window_ok (create_account X A)"
    "window_ok (run_block_action auth action A)" "window_ok (refresh_blocked_users A)"
    "window_ok (trust_new_peer_identity A)"
  using assms
  by (auto simp: check_for_updates_def poll_update_result_def register_or_login_def create_account_def
      run_block_action_def refresh_blocked_users_def trust_new_peer_identity_def idioms ok_defs
      split: option.split received.split sum.split)

lemma keeps_chat [keeps]:
  assumes "window_ok A"
  shows "window_ok (open_chat A)" "window_ok (app_search_users A)" "window_ok (poll_search_result r A)"
    "window_ok (block_selected_chat_user A)" "window_ok (app_unblock_user user A)" "window_ok (poll_block_result b A)"
    "window_ok (request_delete_selected_chat A)" "window_ok (save_file_message i path A)"
    "window_ok (poll_save_file_result e A)" "window_ok (sync_incoming tk A)"
  using assms
  by (auto simp: open_chat_def app_search_users_def poll_search_result_def block_selected_chat_user_def
      app_unblock_user_def run_block_action_def poll_block_result_def request_delete_selected_chat_def
      save_file_message_def poll_save_file_result_def sync_incoming_def idioms ok_defs
      split: option.split received.split sum.split prod.split block_action.split save_file_event.split)

lemma keeps_webrtc [keeps]:
  assumes "window_ok A"
  shows "window_ok (send_webrtc_signal kind payload A)" "window_ok (close_call status A)"
    "window_ok (poll_webrtc_result X w A)" "window_ok (sync_media_session X A)" "window_ok (sync_video_session A)"
    "window_ok (poll_call_result c A)" "window_ok (signal_peer kind call A)" "window_ok (call_window button A)"
    "window_ok (apply_webrtc_answer answer A)" "window_ok (fetch_signals auth call_id A)"
  using assms
  by (auto simp: send_webrtc_signal_def close_call_def stop_webrtc_session_def poll_webrtc_result_def
      sync_media_session_def sync_video_session_def poll_call_result_def signal_peer_def call_window_def
      apply_webrtc_answer_def fetch_signals_def idioms ok_defs
      split: option.split received.split sum.split prod.split webrtc_action.split call_button.split)

section \<open>Operations on the history\<close>

lemma gate_on_history [simp]: "gate (on_history f A) = gate A"
  by (simp add: on_history_def gate_defs)

lemma verify_gate: "gate A \<Longrightarrow> gate (snd (verify_or_pin_peer_identity peer bundle A))"
  by (auto simp: verify_or_pin_peer_identity_def gate_defs Let_def on_history_def)

lemma verify_keeps: "window_ok A \<Longrightarrow> window_ok (snd (verify_or_pin_peer_identity peer bundle A))"
  using verify_gate [of A peer "bundle"]
  by (auto simp: window_ok_def verify_or_pin_peer_identity_def Let_def history_ok_def message_ids_eq)

lemma mark_read_gate: "gate A \<Longrightarrow> gate (snd (mark_selected_chat_read auth A))"
  by (auto simp: mark_selected_chat_read_def idioms gate_defs split: option.split)

lemma mark_read_keeps: "window_ok A \<Longrightarrow> window_ok (snd (mark_selected_chat_read auth A))"
  using mark_read_gate [of A auth] mark_read_ids [of auth A] by (auto simp: window_ok_def history_ok_def)

lemma read_ack_keeps [keeps]:
  assumes "window_ok A"
  shows "window_ok (poll_read_ack_result r A)"
proof -
  have ids: "ids_of (map (\<lambda>m. if P m then m\<lparr>cm_status := st\<rparr> else m) ms) = ids_of ms" for P st ms
    by (rule ids_of_map) simp
  then have "history_ok (h\<lparr>ch_chats := bt_modify chat (map (\<lambda>m. if P m then m\<lparr>cm_status := st\<rparr> else m)) (ch_chats h),
      ch_unread_by_peer := u\<rparr>) = history_ok h" for h chat P st u
    by (simp add: history_ok_def message_ids_eq keys_sorted_modify chat_ids_modify_same)
  then show ?thesis using assms
    by (auto simp: poll_read_ack_result_def idioms ok_defs split: option.split received.split prod.split sum.split)
qed

lemma open_chat_keeps [keeps]:
  assumes "window_ok A"
  shows "window_ok (poll_open_chat_result X dr r A)"
proof -
  have apply_ok: "window_ok (apply_open_chat_success X dr success A)" if ok: "window_ok A" for success and A :: "'a app"
  proof -
    obtain b B where v: "verify_or_pin_peer_identity (oc_peer success) (oc_bundle success) A = (b, B)" by fastforce
    have B: "window_ok B" using verify_keeps [OF ok, of "oc_peer success" "oc_bundle success"] by (simp add: v)
    define C where "C = on_history (\<lambda>h. h\<lparr>ch_chats := bt_or_insert (oc_peer success) [] (ch_chats h),
        ch_peer_by_device_uuid := bt_insert (oc_resolved_uuid success) (oc_peer success) (ch_peer_by_device_uuid h),
        ch_device_uuid_by_peer := bt_insert (oc_peer success) (oc_resolved_uuid success) (ch_device_uuid_by_peer h)\<rparr>)
        (B\<lparr>ap_selected_chat := oc_peer success\<rparr>)"
    have C: "window_ok C"
      using B by (auto simp: C_def ok_defs idioms history_ok_def message_ids_eq keys_sorted_or_insert)
    define D where "D = (case ap_auth C of None \<Rightarrow> C | Some auth \<Rightarrow> snd (mark_selected_chat_read auth C))"
    have "window_ok D" using C mark_read_keeps [OF C] by (simp add: D_def split: option.split)
    moreover have "apply_open_chat_success X dr success A = (if pb_device_uuid (oc_bundle success) \<noteq> oc_resolved_uuid success
        then say ''status.peer_resolve_mismatch'' A else if \<not> b then B
        else (save_history X dr D)\<lparr>ap_status := ''Chat with @'' @ oc_peer success @ '' ready''\<rparr>)"
      by (simp add: apply_open_chat_success_def v Let_def D_def C_def split: bool.split option.split)
    ultimately show ?thesis using ok B by (auto simp: idioms ok_defs)
  qed
  show ?thesis using assms
    by (auto simp: poll_open_chat_result_def Let_def intro!: keeps apply_ok split: option.split received.split sum.split)
qed

lemma trust_keeps [keeps]:
  assumes "window_ok A"
  shows "window_ok (poll_trust_result X dr r A)"
  using assms
  by (auto simp: poll_trust_result_def idioms ok_defs history_ok_def message_ids_eq
      split: option.split received.split prod.split sum.split)

lemma delete_keeps [keeps]:
  assumes "window_ok A"
  shows "window_ok (delete_chat_locally X dr chat A)"
  using assms chat_ids_remove(2) [of "ch_chats (ap_history A)" chat]
  by (auto simp: delete_chat_locally_def idioms ok_defs history_ok_def message_ids_eq keys_sorted_remove)

lemma update_status_ok: "history_ok (update_message_status chat i st h) = history_ok h"
proof -
  have "ids_of (if i < length ms then ms[i := (ms ! i)\<lparr>cm_status := st\<rparr>] else ms) = ids_of ms" for ms
  proof (induction ms arbitrary: i)
    case (Cons m ms)
    then show ?case using Cons.IH [of "i - 1"] by (cases i) (auto split: option.split)
  qed simp
  then show ?thesis
    by (simp add: history_ok_def update_message_status_def message_ids_eq keys_sorted_modify chat_ids_modify_same)
qed

lemma send_result_keeps [keeps]:
  assumes "window_ok A"
  shows "window_ok (poll_send_result X dr e A)"
  using assms update_status_ok
  by (auto simp: poll_send_result_def idioms ok_defs split: option.split received.split send_event.split sum.split)

lemma push_incoming_gate: "gate A \<Longrightarrow> gate (push_incoming X tk msg A)"
  by (auto simp: push_incoming_def show_message_def ring_def idioms gate_defs
      split: option.split encrypted_message_payload.split)

lemma push_all_gate: "gate A \<Longrightarrow> gate (fold (push_incoming X tk) msgs A)"
  by (induction msgs arbitrary: A) (simp_all add: push_incoming_gate)

lemma apply_mappings_gate: "gate (snd st) \<Longrightarrow> gate (snd (fold apply_mapping mappings st))"
proof (induction mappings arbitrary: st)
  case (Cons m mappings)
  obtain changed A where st: "st = (changed, A)" by fastforce
  obtain b B where v: "verify_or_pin_peer_identity (pm_peer m) (pm_bundle m) A = (b, B)" by fastforce
  have "gate B" using verify_gate [of A "pm_peer m" "pm_bundle m"] Cons.prems by (simp add: v st)
  then have "gate (snd (apply_mapping m st))" by (cases b) (simp_all add: st apply_mapping_def v Let_def)
  then show ?case using Cons.IH by simp
qed simp

lemma sync_gate:
  fixes A :: "'w app" and X :: "'w app_env"
  assumes "gate A"
  shows "gate (apply_sync_success X tk success A)"
proof -
  obtain changed and A1 :: "'w app" where m: "fold apply_mapping (ss_peer_mappings success) (False, A) = (changed, A1)" by fastforce
  have "gate A1" using apply_mappings_gate [of "(False, A)" "ss_peer_mappings success"] assms by (simp add: m)
define A2 where "A2 = fold (push_incoming X tk) (ss_decrypted success) A1"
  have A2: "gate A2" unfolding A2_def using \<open>gate A1\<close> by (rule push_all_gate)
  define A3 where "A3 = (if 0 < ss_pending_count success \<and> length (ss_decrypted success) = 0
      then A2\<lparr>ap_status := ''Sync received '' @ decimal (ss_pending_count success) @
        '' pending message(s), decrypted 0. Re-open chat or trust the new key.''\<rparr> else A2)"
  obtain sc h where h: "apply_outgoing_statuses (ss_statuses success) (ap_history A3) = (sc, h)" by fastforce
  define A4 where "A4 = A3\<lparr>ap_history := h\<rparr>"
  define read where "read = (case ap_auth A4 of None \<Rightarrow> (False, A4) | Some auth \<Rightarrow> mark_selected_chat_read auth A4)"
  have "gate A4" using A2 by (auto simp: A4_def A3_def gate_defs)
  then have "gate (snd read)" using mark_read_gate by (auto simp: read_def split: option.split)
  moreover have "gate (save_history X dr B) = gate B" for dr and B :: "'w app" by (simp add: idioms gate_defs)
  moreover have "\<exists>c. apply_sync_success X tk success A = (if c then save_history X (tk_draws tk) (snd read) else snd read)"
    unfolding apply_sync_success_def Let_def m prod.case A2_def [symmetric] A3_def [symmetric] h
      A4_def [symmetric] read_def [symmetric] by (cases read) auto
  ultimately show ?thesis by auto
qed

lemma sync_keeps [keeps]:
  assumes "window_ok A"
  shows "window_ok (poll_sync_result X tk r A)"
proof -
  have "window_ok (apply_sync_success X tk success B)" if "window_ok B" for success and B :: "'a app"
    using that sync_gate [of B X tk success] sync_ids [of B X tk success] by (simp add: window_ok_def)
  then show ?thesis using assms
    by (auto simp: poll_sync_result_def Let_def split: option.split received.split sum.split)
qed

section \<open>Signals\<close>

lemma ring_keeps: "window_ok A \<Longrightarrow> window_ok (ring tk p d i v A)"
  by (auto simp: ring_def idioms ok_defs)

lemma incoming_signals_keep: "window_ok A \<Longrightarrow> window_ok (apply_incoming_call_signals tk signals A)"
  by (induction signals) (simp_all add: ring_keeps)

lemma apply_signals_keep:
  assumes "window_ok A"
  shows "window_ok (apply_call_signals tk signals A)"
proof (cases "ap_active_call A")
  case None
  then show ?thesis using assms by (simp add: apply_call_signals_def incoming_signals_keep)
next
  case (Some call)
  have start: "window_ok (start_webrtc_offer B) \<and> ap_active_call (start_webrtc_offer B) \<noteq> None"
    "window_ok (start_webrtc_answer offer B) \<and> ap_active_call (start_webrtc_answer offer B) \<noteq> None"
    if "window_ok B" "ap_active_call B \<noteq> None" for B :: "'a app" and offer
    using that by (auto simp: start_webrtc_offer_def start_webrtc_answer_def idioms ok_defs)
  have apply_answer: "window_ok (apply_webrtc_answer answer B)" if "window_ok B" for B :: "'a app" and answer
    using that by (rule keeps)
  let ?sg = "scan_signals A signals \<lparr>sg_call = call, sg_start_offer = False, sg_remote_offer = None,
     sg_remote_answer = None, sg_close_status = None\<rparr>"
  define A1 where "A1 = A\<lparr>ap_active_call := Some (sg_call ?sg)\<rparr>"
  have A1: "window_ok A1 \<and> ap_active_call A1 \<noteq> None" using assms Some by (auto simp: A1_def ok_defs)
  define A2 where "A2 = (if sg_start_offer ?sg then start_webrtc_offer A1 else A1)"
  have A2: "window_ok A2 \<and> ap_active_call A2 \<noteq> None" using A1 start by (simp add: A2_def)
  define A3 where "A3 = (case sg_remote_offer ?sg of Some payload \<Rightarrow> start_webrtc_answer payload A2 | None \<Rightarrow> A2)"
  have A3: "window_ok A3 \<and> ap_active_call A3 \<noteq> None" using A2 start by (simp add: A3_def split: option.split)
  define A4 where "A4 = (case sg_remote_answer ?sg of Some payload \<Rightarrow> apply_webrtc_answer payload A3 | None \<Rightarrow> A3)"
  have A4: "window_ok A4" using A3 apply_answer by (simp add: A4_def split: option.split)
  have "apply_call_signals tk signals A = (case sg_close_status ?sg of Some status \<Rightarrow> close_call status A4 | None \<Rightarrow> A4)"
    unfolding apply_call_signals_def Some option.case Let_def A1_def [symmetric] A2_def [symmetric]
      A3_def [symmetric] A4_def [symmetric] by (rule refl)
  then show ?thesis using A4 by (simp add: keeps split: option.split)
qed

lemma signals_keep [keeps]:
  assumes "window_ok A"
  shows "window_ok (poll_call_signals tk r A)"
  using assms
  by (auto simp: poll_call_signals_def fetch_signals_def Let_def intro!: keeps apply_signals_keep
      split: option.split received.split sum.split)

section \<open>Sending, logging in and out\<close>

lemma ready_to_send_keeps:
  assumes "window_ok A" "\<And>auth peer. window_ok (go A auth peer)"
  shows "window_ok (ready_to_send go A)"
  using assms
  by (auto simp: ready_to_send_def selected_chat_session_def split: option.split)

lemma push_outgoing_ok:
  assumes "history_ok h" "tk_uuid tk \<notin> set (message_ids h)"
  shows "history_ok (push_message chat (outgoing_message tk s n z) h)"
  using assms by (intro push_message_ok [where i = "tk_uuid tk"]) (simp_all add: outgoing_message_def)

lemma sending_keeps [keeps]:
  assumes "window_ok A" "tk_uuid tk \<notin> set (message_ids (ap_history A))"
  shows "window_ok (send_current_message X tk A)" "window_ok (send_file X tk picked A)" "window_ok (start_call video tk A)"
proof -
  have pushed: "window_ok (on_history (push_message chat (outgoing_message tk s n z)) A)" for chat s n z
    using assms by (intro keeps_history push_outgoing_ok) (simp_all add: window_ok_def)
  show "window_ok (send_current_message X tk A)"
    using assms pushed unfolding send_current_message_def
    by (auto simp: Let_def intro!: ready_to_send_keeps)
  show "window_ok (send_file X tk picked A)"
    using assms pushed unfolding send_file_def
    by (auto simp: Let_def intro!: ready_to_send_keeps split: option.split)
  show "window_ok (start_call video tk A)"
    using assms unfolding start_call_def by (auto simp: Let_def intro!: ready_to_send_keeps)
qed

lemma login_keeps:
  assumes "window_ok A"
    and "case (r, ap_login_rx A) of
        (Received (Inr success), Some (JLogin create nickname password server invite language)) \<Rightarrow>
          ls_password success = password \<and> history_ok (ls_history success)
      | _ \<Rightarrow> True"
  shows "window_ok (poll_login_result X r A)"
proof (cases "ap_login_rx A")
  case (Some rx)
  then obtain create nickname password server invite language where
    rx: "rx = JLogin create nickname password server invite language" "6 \<le> length password"
    using assms(1) by (auto simp: ok_defs login_pending_def split: job.splits)
  have clear: "window_ok (A\<lparr>ap_login_rx := None\<rparr>)" using assms(1) by (auto simp: ok_defs)
  have "window_ok (apply_login X success (A\<lparr>ap_login_rx := None\<rparr>))" if "r = Received (Inr success)" for success
    using assms that rx Some
    by (auto simp: apply_login_def refresh_blocked_users_def run_block_action_def idioms ok_defs)
  then show ?thesis using clear assms(1) Some
    by (auto simp: poll_login_result_def Let_def split: received.split sum.split)
qed (use assms in \<open>simp add: poll_login_result_def\<close>)

lemma server_keeps:
  assumes "window_ok A"
  shows "window_ok (save_server_config X A)" "ap_auth A = None \<Longrightarrow> window_ok (apply_server_config X A)"
  using assms
  by (auto simp: save_server_config_def apply_server_config_def for_server_in_def idioms ok_defs split: prod.split)

lemma logout_keeps:
  assumes "window_ok A"
    and "history_ok (load_history (ce_vault (ae_client X)) (ae_os X) (ae_history X) None (cl_disk (ap_core A)))"
  shows "window_ok (logout X A)" "ap_auth (logout X A) = None"
  using assms by (auto simp: logout_def idioms ok_defs split: option.split)

lemma reset_keeps [keeps]: "window_ok A \<Longrightarrow> window_ok (reset_selected_chat_session X dr A)"
  by (auto simp: reset_selected_chat_session_def app_reset_session_def Let_def intro!: keeps split: option.split)

section \<open>Clicks and edits\<close>

lemma toggle_keeps [keeps]:
  assumes "window_ok A"
  shows "window_ok (toggle_chat X tk nick A)"
proof -
  have "window_ok (A\<lparr>ap_selected_chat := nick\<rparr>)" using assms by simp
  note mark_read_keeps [OF this]
  then have "mark_selected_chat_read auth (A\<lparr>ap_selected_chat := nick\<rparr>) = (b, B) \<Longrightarrow> window_ok B" for auth b B
    by (metis snd_conv)
  then show ?thesis using assms by (auto simp: toggle_chat_def Let_def split: option.split prod.split bool.split)
qed

text \<open>The password cannot be edited while someone is logged in.\<close>

lemma no_password_field:
  "ap_auth A \<noteq> None \<Longrightarrow> \<not> editable (window_view X A) FPassword"
proof -
  have plain: "\<not> editable (map f xs) FPassword" if "\<And>x. \<not> editable [f x] FPassword" for f :: "'b \<Rightarrow> widget" and xs
    using that by (induction xs) (auto simp: editable_def)
  have nested: "\<not> editable (concat (map f xs)) FPassword" if "\<And>x. \<not> editable (f x) FPassword" for f :: "'b \<Rightarrow> widget list" and xs
    using that by (induction xs) auto
  assume "ap_auth A \<noteq> None"
  then show ?thesis
    by (auto simp: window_view_def top_panel_def left_panel_def account_section_def security_section_def
        new_chat_section_def chats_section_def central_panel_def chat_header_def message_bubble_def
        settings_window_def appearance_settings_def profile_settings_def privacy_settings_def media_settings_def
        device_select_def create_account_window_def delete_chat_window_def update_window_def call_view_def Let_def
        plain nested split: option.split prod.split)
qed

lemma edits_keep:
  assumes "window_ok A"
  shows "window_ok (user_edits X fi A)"
proof -
  have "window_ok (edit_field X f s A)" if "f = FPassword \<longrightarrow> ap_auth A = None" for f s
    using assms that by (cases f) (auto simp: edit_field_def Let_def, simp add: ok_defs)
  moreover have "editable (window_view X A) f \<Longrightarrow> f = FPassword \<longrightarrow> ap_auth A = None" for f
    using no_password_field [of A X] by blast
  ultimately show ?thesis using assms by (simp add: user_edits_def split: option.split prod.split)
qed

lemma close_update_keeps:
  "window_ok A \<Longrightarrow> update_shown (ap_update_info A) b \<Longrightarrow> window_ok (A\<lparr>ap_update_window_open := b\<rparr>)"
  by (auto simp: ok_defs)

lemma clicks_keep:
  assumes "window_ok A" "tk_uuid (fi_tick fi) \<notin> set (message_ids (ap_history A))"
    and "history_ok (load_history (ce_vault (ae_client X)) (ae_os X) (ae_history X) None (cl_disk (ap_core A)))"
  shows "window_ok (user_clicks X fi A)"
proof -
  have devices: "window_ok (refresh_media_devices X A)" using assms(1) by (auto simp: refresh_media_devices_def ok_defs)
  have enter: "window_ok (send_current_message X (fi_tick fi) (A\<lparr>ap_message_input := s\<rparr>))" for s
    using assms(1,2) by (intro keeps) simp_all
  have apply_server: "window_ok (apply_server_config X (logout X A))"
    using logout_keeps [OF assms(1,3)] by (intro server_keeps)
  have "window_ok (on_click X (fi_tick fi) picked path c A)" for picked path c
    using assms
    by (cases c) (auto simp: on_click_def settings_click_def popup_click_def main_click_def show_url_def Let_def
        devices enter apply_server intro!: keeps logout_keeps server_keeps close_update_keeps
        split: option.split sum.split)
  then show ?thesis using assms(1) by (simp add: user_clicks_def split: option.split)
qed

section \<open>A frame\<close>

lemma tray_keeps: "window_ok A \<Longrightarrow> window_ok (poll_tray commands A)"
proof -
  have "window_ok (tray_step c B) = window_ok B" for c and B :: "'a app"
    by (cases c) (simp_all add: tray_step_def show_from_tray_def)
  then have "window_ok (fold tray_step commands B) = window_ok B" for B :: "'a app"
    by (induction commands arbitrary: B) simp_all
  then show "window_ok A \<Longrightarrow> window_ok (poll_tray commands A)" by (simp add: poll_tray_def)
qed

lemma tray_frame: "ap_login_rx (poll_tray commands A) = ap_login_rx A"
proof -
  have "ap_login_rx (fold tray_step commands B) = ap_login_rx B" for B :: "'a app"
    by (induction commands arbitrary: B)
      (simp_all add: tray_step_def show_from_tray_def idioms split: tray_command.split)
  then show ?thesis by (simp add: poll_tray_def)
qed

lemma polls_keep:
  assumes "window_ok A"
    and "case (fi_login fi, ap_login_rx A) of
        (Received (Inr success), Some (JLogin create nickname password server invite language)) \<Rightarrow>
          ls_password success = password \<and> history_ok (ls_history success)
      | _ \<Rightarrow> True"
  shows "window_ok (poll_phase X fi A)"
proof -
  have "window_ok (poll_channels X fi A)"
    unfolding poll_channels_def Let_def by (intro keeps login_keeps assms)
  then show ?thesis by (auto simp: poll_phase_def Let_def intro: keeps)
qed

lemma drawn_keeps: "window_ok A \<Longrightarrow> window_ok (drawn X shown A)"
  by (auto simp: drawn_def Let_def idioms ok_defs)

lemma frame_keeps:
  assumes "window_ok A" "sound_input X fi A"
  shows "window_ok (update_frame X fi A)"
proof -
  define B where "B = poll_tray (fi_tray fi) A"
  define D where "D = user_edits X fi (poll_phase X fi B)"
  have B: "window_ok B" using tray_keeps assms(1) by (simp add: B_def)
  have "window_ok D" unfolding D_def
    using assms(2) B tray_frame [of "fi_tray fi" A]
    by (intro edits_keep polls_keep) (simp_all add: sound_input_def B_def)
  then have "window_ok (user_clicks X fi D)"
    using assms(2) by (intro clicks_keep) (simp_all add: sound_input_def Let_def B_def D_def)
  then have "window_ok (drawn X b (user_clicks X fi D))" for b by (rule drawn_keeps)
  moreover have "window_ok (hide_to_tray (viewport CancelClose B))"
    using B by (simp add: hide_to_tray_def)
  ultimately show ?thesis by (simp add: update_frame_def Let_def B_def D_def)
qed

section \<open>All reachable states\<close>

lemma start_ok: "history_ok (ap_history (new_app X d w tray now)) \<Longrightarrow> window_ok (new_app X d w tray now)"
  by (auto simp: new_app_def check_for_updates_def idioms ok_defs split: prod.split)

lemma reachable_ok: "window_reaches X A \<Longrightarrow> window_ok A"
proof (induction rule: window_reaches.induct)
  case (start d w tray now)
  then show ?case by (rule start_ok)
next
  case (step A B)
  from step(2,3) show ?case by (induction rule: window_step.induct) (simp_all add: frame_keeps)
qed

text \<open>
  C29.  The window's invariant.  In every state the window can get into - whatever the threads
  report and do to the core, whatever the user types into and clicks on the widgets on display -
  every message identifier occurs once; someone is logged in exactly if the device's keys are
  there, and then the history is saved under the password, which has six bytes or more; a WebRTC
  session, or one being started, belongs to a call; every channel waits for a thread of its own
  kind; and the window of a mandatory update stays open.
\<close>

theorem window_invariant:
  assumes "window_reaches X A"
  shows "history_ok (ap_history A) \<and> (ap_auth A = None \<longleftrightarrow> ap_local_keys A = None) \<and>
    (ap_auth A = None \<or> password_for_local_storage A = Some (ap_password A) \<and> 6 \<le> length (ap_password A)) \<and>
    (ap_active_call A = None \<longrightarrow> ap_webrtc_session A = None \<and> ap_webrtc_rx A = None) \<and>
    channels_typed A \<and>
    (case ap_update_info A of None \<Rightarrow> True | Some info \<Rightarrow> ui_mandatory info \<longrightarrow> ap_update_window_open A)"
  using reachable_ok [OF assms]
  by (auto simp: ok_defs password_for_local_storage_def update_shown_def split: option.splits)

text \<open>
  C30.  Microphone and camera follow the call.  When a frame has polled its channels, the
  microphone is captured only in an accepted call in which it is not muted, and the camera only in
  an accepted video call in which it is not disabled.
\<close>

theorem capture_follows_call:
  "case ap_active_call (poll_phase X fi A) of
     None \<Rightarrow> \<not> ap_media_session (poll_phase X fi A) \<and> \<not> ap_video_capture_session (poll_phase X fi A)
   | Some call \<Rightarrow>
       (if ap_media_session (poll_phase X fi A) then ac_accepted call \<and> \<not> ac_microphone_muted call else True) \<and>
       (if ap_video_capture_session (poll_phase X fi A)
        then ac_video call \<and> ac_accepted call \<and> \<not> ac_camera_disabled call else True)"
proof -
  have follows: "case ap_active_call (sync_video_session (sync_media_session X B)) of
     None \<Rightarrow> \<not> ap_media_session (sync_video_session (sync_media_session X B)) \<and>
       \<not> ap_video_capture_session (sync_video_session (sync_media_session X B))
   | Some call \<Rightarrow>
       (if ap_media_session (sync_video_session (sync_media_session X B))
        then ac_accepted call \<and> \<not> ac_microphone_muted call else True) \<and>
       (if ap_video_capture_session (sync_video_session (sync_media_session X B))
        then ac_video call \<and> ac_accepted call \<and> \<not> ac_camera_disabled call else True)" for B :: "'a app"
    by (auto simp: sync_video_session_def sync_media_session_def set_signaling_status_def on_call_def
        split: option.split sum.split)
  have frame: "ap_active_call (sync_incoming tk B) = ap_active_call B"
    "ap_media_session (sync_incoming tk B) = ap_media_session B"
    "ap_video_capture_session (sync_incoming tk B) = ap_video_capture_session B" for tk and B :: "'a app"
    by (simp_all add: sync_incoming_def Let_def spawn_def split: option.split)
  show ?thesis unfolding poll_phase_def poll_channels_def Let_def
    by (simp only: if_distrib [of ap_active_call] if_distrib [of ap_media_session]
        if_distrib [of ap_video_capture_session] frame if_cancel follows)
qed

section \<open>A concrete run\<close>

definition nothing0 :: "unit frame_input" where
  "nothing0 = \<lparr>fi_tick = tick0, fi_tray = [], fi_close_requested = False, fi_login = Empty, fi_open_chat = Empty,
     fi_search = Empty, fi_block = Empty, fi_send = Empty, fi_sync = Empty, fi_read_ack = Empty, fi_save_file = Empty,
     fi_trust = Empty, fi_update = Empty, fi_call = Empty, fi_signals = Empty, fi_webrtc = Empty, fi_edit = None,
     fi_click = None, fi_picked = None, fi_save_path = None\<rparr>"

definition start0 :: "unit app" where
  "start0 = new_app app_env0 disk0 () False 0"

lemma start0_disk: "cl_disk (ap_core start0) = disk0" "ap_history start0 = default_history"
    "ap_auth start0 = None" "ap_login_rx start0 = None" "ap_active_call start0 = None" "ap_update_info start0 = None"
    "ap_media_session start0 = False" "ap_tray start0 = False"
    "ap_open_chat_rx start0 = None" "ap_search_rx start0 = None" "ap_block_rx start0 = None" "ap_send_rx start0 = None"
    "ap_sync_rx start0 = None" "ap_read_ack_rx start0 = None" "ap_save_file_rx start0 = None" "ap_trust_rx start0 = None"
    "ap_call_rx start0 = None" "ap_call_signal_rx start0 = None" "ap_webrtc_rx start0 = None" "ap_local_keys start0 = None"
  by (simp_all add: start0_def new_app_def Let_def check_for_updates_def idioms load_settings_def app_env0_def
      disk0_def local_default_def migrated_profile_file_def default_settings_def trim_def new_client_def
      load_history_def load_json_def ui_client0_def split_beta)

definition typing0 :: "unit frame_input" where
  "typing0 = nothing0\<lparr>fi_edit := Some (FPassword, ''secret'')\<rparr>"

lemma quiet_polls:
  "ap_login_rx A = None \<Longrightarrow> poll_login_result X v1 A = A" "ap_open_chat_rx A = None \<Longrightarrow> poll_open_chat_result X dr v2 A = A"
  "ap_search_rx A = None \<Longrightarrow> poll_search_result v3 A = A" "ap_block_rx A = None \<Longrightarrow> poll_block_result v4 A = A"
  "ap_send_rx A = None \<Longrightarrow> poll_send_result X dr v5 A = A" "ap_sync_rx A = None \<Longrightarrow> poll_sync_result X tk v6 A = A"
  "ap_read_ack_rx A = None \<Longrightarrow> poll_read_ack_result v7 A = A" "ap_save_file_rx A = None \<Longrightarrow> poll_save_file_result v8 A = A"
  "ap_trust_rx A = None \<Longrightarrow> poll_trust_result X dr v9 A = A" "ap_call_rx A = None \<Longrightarrow> poll_call_result v10 A = A"
  "ap_call_signal_rx A = None \<Longrightarrow> ap_auth A = None \<Longrightarrow> ap_active_call A = None \<Longrightarrow> poll_call_signals tk v11 A = A"
  "ap_webrtc_rx A = None \<Longrightarrow> poll_webrtc_result X v12 A = A"
  by (simp_all add: poll_login_result_def poll_open_chat_result_def poll_search_result_def
      poll_block_result_def poll_send_result_def poll_sync_result_def poll_read_ack_result_def
      poll_save_file_result_def poll_trust_result_def poll_call_result_def poll_call_signals_def poll_webrtc_result_def)

lemma quiet_update: "poll_update_result Empty A = A"
  by (cases "ap_update_rx A") (simp_all add: poll_update_result_def Let_def)

lemma typing0_fields: "fi_tick typing0 = tick0" "fi_tray typing0 = []" "fi_close_requested typing0 = False"
  "fi_login typing0 = Empty" "fi_open_chat typing0 = Empty" "fi_search typing0 = Empty" "fi_block typing0 = Empty"
  "fi_send typing0 = Empty" "fi_sync typing0 = Empty" "fi_read_ack typing0 = Empty" "fi_save_file typing0 = Empty"
  "fi_trust typing0 = Empty" "fi_update typing0 = Empty" "fi_call typing0 = Empty" "fi_signals typing0 = Empty"
  "fi_webrtc typing0 = Empty" "fi_edit typing0 = Some (FPassword, ''secret'')" "fi_click typing0 = None"
  by (simp_all add: typing0_def nothing0_def)

lemma idle0:
  "poll_phase app_env0 typing0 start0 =
     start0\<lparr>ap_media_session := False, ap_media_failed_call_id := None, ap_video_capture_session := False\<rparr>"
  by (simp add: poll_phase_def poll_channels_def Let_def typing0_fields quiet_polls quiet_update start0_disk
      sync_media_session_def sync_video_session_def)

lemma default_history_ok: "history_ok default_history"
  by (simp add: history_ok_def message_ids_def default_history_def)

lemma window_invariant_witness:
  "history_ok (ap_history (update_frame app_env0 typing0 start0)) \<and>
   ap_password (update_frame app_env0 typing0 start0) = ''secret''"
proof -
  let ?B = "start0\<lparr>ap_media_session := False, ap_media_failed_call_id := None, ap_video_capture_session := False\<rparr>"
  have "editable (window_view app_env0 ?B) FPassword"
    by (simp add: window_view_def left_panel_def account_section_def start0_disk)
  then have typed: "user_edits app_env0 typing0 ?B = ?B\<lparr>ap_password := ''secret''\<rparr>"
    by (simp add: user_edits_def typing0_fields edit_field_def)
  have tray: "poll_tray [] A = A" for A :: "unit app" by (simp add: poll_tray_def)
  have frame: "update_frame app_env0 typing0 start0 =
      drawn app_env0 (ap_settings_open start0) (?B\<lparr>ap_password := ''secret''\<rparr>)"
    unfolding update_frame_def Let_def typing0_fields tray idle0 typed by (simp add: user_clicks_def typing0_fields)
  have "load_history (ce_vault (ae_client app_env0)) (ae_os app_env0) (ae_history app_env0) None disk0 = default_history"
    by (simp add: load_history_def load_json_def disk0_def)
  then have "sound_input app_env0 typing0 start0"
    unfolding sound_input_def Let_def typing0_fields tray idle0 typed
    by (simp add: start0_disk default_history_ok) (simp add: message_ids_def default_history_def)
  moreover have "window_reaches app_env0 start0"
    unfolding start0_def by (rule window_reaches.start) (simp add: start0_disk [unfolded start0_def] default_history_ok)
  ultimately have "window_reaches app_env0 (update_frame app_env0 typing0 start0)"
    using window_reaches.step window_step.frame by blast
  from window_invariant [OF this] show ?thesis
    by (simp add: frame start0_disk drawn_def save_app_settings_def on_core_disk_def Let_def)
qed

end
