(* ===== verification/Audio_Math.thy ===== *)
theory Audio_Math
  imports Media_Frames
begin

text \<open>
  The sound of a call as numbers, \<open>client-ui/src/media.rs\<close>: the sample formats of the devices, the
  microphone's callback with noise suppression and gain control, the level meter, the resampling
  for the Opus encoder, the output conversions and the ringing tone.  The arithmetic is that of
  \<open>Float32\<close>; \<open>sin\<close> is a parameter.
\<close>

section \<open>Sample formats\<close>

datatype sample = F32 f32 | I16 "16 word" | U16 "16 word"

fun sample_level_signed :: "sample \<Rightarrow> f32" where
  "sample_level_signed (F32 x) = x"
| "sample_level_signed (I16 i) = f_div (f_of_int (sint i)) (f_of_nat 32767)"
| "sample_level_signed (U16 u) = f_div (f_sub (f_of_nat (unat u)) (f_of_nat 32768)) (f_of_nat 32768)"

fun sample_level :: "sample \<Rightarrow> f32" where
  "sample_level (F32 x) = f_abs x"
| "sample_level (I16 i) = f_abs (f_div (f_of_int (sint i)) (f_of_nat 32767))"
| "sample_level (U16 u) = f_abs (f_div (f_sub (f_of_nat (unat u)) (f_of_nat 32768)) (f_of_nat 32768))"

lemma sample_level_abs: "sample_level s = f_abs (sample_level_signed s)"
  by (cases s) simp_all

text \<open>The conversions to a device's format, clamped to the unit range first.\<close>

definition from_f32_i16 :: "f32 \<Rightarrow> 16 word" where
  "from_f32_i16 value = of_int (f_trunc (-32768) 32767 (f_mul (clamp_unit value) (f_of_nat 32767)))"

definition from_f32_u16 :: "f32 \<Rightarrow> 16 word" where
  "from_f32_u16 value =
     of_int (f_trunc 0 65535 (f_add (f_mul (clamp_unit value) (f_of_nat 32767)) (f_of_nat 32768)))"

section \<open>The microphone\<close>

text \<open>The level shown in the window, in thousandths: the highest magnitude of one callback.\<close>

definition peak_level :: "f32 list \<Rightarrow> u32" where
  "peak_level levels =
     (let peak = f_clamp 0 (f_of_nat 1) (foldl f_max 0 levels)
      in of_int (f_trunc 0 (2 ^ 32 - 1) (f_mul peak (f_of_nat 1000))))"

text \<open>A sum of \<open>f32\<close> starts at the negative zero.\<close>

definition mix_down :: "sample list \<Rightarrow> f32" where
  "mix_down chunk =
     f_div (foldl f_add (f_minus 0) (map sample_level_signed chunk)) (f_of_nat (max (length chunk) 1))"

record audio_processing_config =
  noise_suppression :: bool
  automatic_gain_control :: bool

definition agc_target :: "f32 \<Rightarrow> f32" where
  "agc_target level = f_clamp (f_lit 1 2) (f_of_nat 4) (f_div (f_lit 18 100) level)"

definition agc_step :: "f32 \<Rightarrow> f32 \<Rightarrow> f32" where
  "agc_step level gain =
     (if f_lt (f_lit 1 1000) level
      then f_clamp (f_lit 1 2) (f_of_nat 4)
        (f_add (f_mul gain (f_lit 995 1000)) (f_mul (agc_target level) (f_lit 5 1000)))
      else gain)"

text \<open>One mono sample: the noise gate, then the gain; the result and the gain that is kept.\<close>

definition process_sample :: "audio_processing_config \<Rightarrow> f32 \<Rightarrow> f32 \<Rightarrow> f32 \<times> f32" where
  "process_sample cfg gain pcm =
     (let pcm = (if noise_suppression cfg \<and> f_lt (f_abs pcm) (f_lit 12 1000) then 0 else pcm)
      in if automatic_gain_control cfg
         then let gain = agc_step (f_abs pcm) gain in (f_mul pcm gain, gain)
         else (pcm, gain))"

text \<open>The state of the input stream: the frame being filled, the gain, the level and what was sent.\<close>

record capture =
  cp_frame :: "f32 list"
  cp_gain :: f32
  cp_level :: u32
  cp_sent :: "bytes list"

definition capture_start :: capture where
  "capture_start = \<lparr>cp_frame = [], cp_gain = f_of_nat 1, cp_level = 0, cp_sent = []\<rparr>"

definition capture_chunk :: "audio_processing_config \<Rightarrow> u32 \<Rightarrow> sample list \<Rightarrow> capture \<Rightarrow> capture" where
  "capture_chunk cfg sample_rate chunk st =
     (let (pcm, gain) = process_sample cfg (cp_gain st) (mix_down chunk);
          (frame, sent) = capture_sample sample_rate pcm (cp_frame st, cp_sent st)
      in st\<lparr>cp_frame := frame, cp_gain := gain, cp_sent := sent\<rparr>)"

definition input_callback ::
  "audio_processing_config \<Rightarrow> u32 \<Rightarrow> nat \<Rightarrow> bool \<Rightarrow> sample list \<Rightarrow> capture \<Rightarrow> capture" where
  "input_callback cfg sample_rate channels sending data st =
     (let st = st\<lparr>cp_level := peak_level (map sample_level data)\<rparr>
      in if sending then fold (capture_chunk cfg sample_rate) (chunks_of (max channels 1) data) st else st)"

definition microphone_run ::
  "audio_processing_config \<Rightarrow> u32 \<Rightarrow> nat \<Rightarrow> bool \<Rightarrow> sample list list \<Rightarrow> capture" where
  "microphone_run cfg sample_rate channels sending datas =
     fold (input_callback cfg sample_rate channels sending) datas capture_start"

text \<open>\<open>microphone_level\<close> and \<open>remote_audio_level\<close> of the window.\<close>

definition shown_level :: "u32 \<Rightarrow> f32" where
  "shown_level level = f_div (f_of_nat (unat level)) (f_of_nat 1000)"

section \<open>Resampling for the encoder\<close>

text \<open>
  Linear interpolation to 960 samples at 48 kHz.  \<open>None\<close> is the panic of \<open>samples[lower]\<close>; the
  index \<open>upper\<close> is always inside.
\<close>

definition resample_at :: "f32 \<Rightarrow> f32 list \<Rightarrow> nat \<Rightarrow> f32 option" where
  "resample_at ratio samples index =
     (let source = f_mul (f_of_nat index) ratio;
          lower = nat (f_trunc 0 (2 ^ 64 - 1) (f_floor source));
          upper = min (lower + 1) (length samples - 1);
          mix = f_sub source (f_of_nat lower)
      in if lower < length samples
         then Some (clamp_unit (f_add (f_mul (samples ! lower) (f_sub (f_of_nat 1) mix)) (f_mul (samples ! upper) mix)))
         else None)"

definition resample_to_opus :: "u32 \<Rightarrow> f32 list \<Rightarrow> f32 list option" where
  "resample_to_opus sample_rate samples =
     (if sample_rate = 48000 \<and> length samples = OPUS_FRAME_SAMPLES then Some samples
      else if samples = [] then Some (replicate OPUS_FRAME_SAMPLES 0)
      else let ratio = f_div (f_of_nat (unat sample_rate)) (f_of_nat 48000)
           in those (map (resample_at ratio samples) [0..<OPUS_FRAME_SAMPLES]))"

section \<open>The ringing tone\<close>

text \<open>Four times a second the frequency changes between 740 and 920 Hz.\<close>

definition TAU :: f32 where "TAU = 0x40C90FDB"

definition tone_value :: "(f32 \<Rightarrow> f32) \<Rightarrow> u32 \<Rightarrow> u64 \<Rightarrow> f32" where
  "tone_value sine sample_rate index =
     (let t = f_div (f_of_nat (unat index)) (f_of_nat (unat sample_rate));
          frequency = (if f_trunc 0 (2 ^ 32 - 1) (f_mul t (f_of_nat 4)) mod 2 = 0 then f_of_nat 740 else f_of_nat 920)
      in f_mul (sine (f_mul (f_mul t frequency) TAU)) (f_lit 18 100))"

fun tone_frames :: "(f32 \<Rightarrow> f32) \<Rightarrow> (f32 \<Rightarrow> 'o) \<Rightarrow> u32 \<Rightarrow> 'o list list \<Rightarrow> u64 \<Rightarrow> 'o list \<times> u64" where
  "tone_frames sine from_f32 sample_rate [] index = ([], index)"
| "tone_frames sine from_f32 sample_rate (frame # frames) index =
     (let (out, index') = tone_frames sine from_f32 sample_rate frames (if index = - 1 then index else index + 1)
      in (replicate (length frame) (from_f32 (tone_value sine sample_rate index)) @ out, index'))"

text \<open>\<open>chunks_mut(0)\<close> panics.\<close>

definition tone_callback ::
  "(f32 \<Rightarrow> f32) \<Rightarrow> (f32 \<Rightarrow> 'o) \<Rightarrow> u32 \<Rightarrow> nat \<Rightarrow> 'o list \<Rightarrow> u64 \<Rightarrow> ('o list \<times> u64) option" where
  "tone_callback sine from_f32 sample_rate channels out index =
     (if channels = 0 then None else Some (tone_frames sine from_f32 sample_rate (chunks_of channels out) index))"

section \<open>Gain and level\<close>

definition f_le :: "f32 \<Rightarrow> f32 \<Rightarrow> bool" where
  "f_le x y \<longleftrightarrow> \<not> is_nan x \<and> \<not> is_nan y \<and> f_key x \<le> f_key y"

definition gain_ok :: "f32 \<Rightarrow> bool" where
  "gain_ok g \<longleftrightarrow> f_le (f_lit 1 2) g \<and> f_le g (f_of_nat 4)"

lemma literals:
  "f_lit (Suc 0) 2 = 0x3F000000" "f_of_nat 4 = 0x40800000" "f_of_nat (Suc 0) = 0x3F800000" "f_lit 995 1000 = 0x3F7EB852"
  "f_lit 5 1000 = 0x3BA3D70A" "f_lit 18 100 = 0x3E3851EC" "f_lit (Suc 0) 1000 = 0x3A83126F" "f_of_nat 1000 = 0x447A0000"
  "f_of_nat 48000 = 0x473B8000"
  by (simp_all add: f_eval)

lemma literal_keys:
  "f_key 0x3F000000 = 0x3F000000" "f_key 0x40800000 = 0x40800000" "f_key 0x3A83126F = 0x3A83126F"
  "f_key 0x3F800000 = 0x3F800000" "f_key 0 = 0"
  by (simp_all add: f_key_def f_neg_def f_mag_def)

lemma positive_key: "0 < f_key x \<Longrightarrow> \<not> f_neg x \<and> int (f_mag x) = f_key x"
  by (auto simp: f_key_def split: if_splits)

lemma clamp_gain: "\<not> is_nan x \<Longrightarrow> gain_ok (f_clamp (f_lit 1 2) (f_of_nat 4) x)"
  using f_clamp_range [of x "f_lit 1 2" "f_of_nat 4"]
  by (simp add: gain_ok_def f_le_def literals f_key_def f_neg_def f_mag_def is_nan_def INF_MAG_def)

lemma gain_ok_finite:
  assumes "gain_ok g"
  shows "\<not> is_nan g \<and> \<not> is_inf g \<and> \<not> f_neg g \<and> f_mag g \<noteq> 0"
proof -
  have "\<not> is_nan g" "0x3F000000 \<le> f_key g" "f_key g \<le> 0x40800000"
    using assms by (simp_all add: gain_ok_def f_le_def literals literal_keys)
  then show ?thesis using positive_key [of g] by (simp add: is_inf_def INF_MAG_def)
qed

lemma agc_step_ok:
  assumes "gain_ok g"
  shows "gain_ok (agc_step level g)"
proof (cases "f_lt (f_lit 1 1000) level")
  case True
  then have l: "\<not> is_nan level" "f_mag level \<noteq> 0"
    using positive_key [of level] by (auto simp: f_lt_def literals literal_keys)
  have lits: "\<not> is_inf (f_lit 18 100)" "\<not> is_inf (f_lit 995 1000)" "\<not> is_inf (f_lit 5 1000)"
    "\<not> f_neg (f_lit 995 1000)" "\<not> f_neg (f_lit 5 1000)"
    by (simp_all add: literals is_inf_def INF_MAG_def f_mag_def f_neg_def)
  have "gain_ok (agc_target level)"
    unfolding agc_target_def by (rule clamp_gain) (rule not_nan_div, use l lits not_nan_ops in simp_all)
  note t = gain_ok_finite [OF this] and g = gain_ok_finite [OF assms]
  have "\<not> is_nan (f_mul g (f_lit 995 1000))" "\<not> is_nan (f_mul (agc_target level) (f_lit 5 1000))"
    using t g lits not_nan_ops by (simp_all add: not_nan_mul)
  moreover have "\<not> f_neg (f_mul g (f_lit 995 1000))" "\<not> f_neg (f_mul (agc_target level) (f_lit 5 1000))"
    using t g lits not_nan_ops by (simp_all add: f_mul_def Let_def)
  ultimately have "\<not> is_nan (f_add (f_mul g (f_lit 995 1000)) (f_mul (agc_target level) (f_lit 5 1000)))"
    by (simp add: not_nan_add)
  from clamp_gain [OF this] show ?thesis by (simp only: agc_step_def True if_True)
qed (simp add: agc_step_def assms)

lemma process_sample_gain: "gain_ok g \<Longrightarrow> gain_ok (snd (process_sample cfg g pcm))"
  by (simp add: process_sample_def agc_step_ok Let_def)

text \<open>The level is between 0 and 1000.\<close>

lemma max_not_nan: "\<not> is_nan a \<Longrightarrow> \<not> is_nan (foldl f_max a xs)"
  by (induction xs arbitrary: a) (simp_all add: f_max_def)

lemma unit_units:
  assumes "\<not> is_nan x" "0 \<le> f_key x" "f_key x \<le> f_key (f_of_nat 1)"
  shows "\<not> is_inf x \<and> mag_units (f_mag x) \<le> 2 ^ 149"
proof -
  have k: "f_key x \<le> 0x3F800000" using assms(3) by (simp add: literals literal_keys)
  have "f_mag x \<le> 0x3F800000"
  proof (cases "0 < f_key x")
    case True
    then show ?thesis using positive_key [of x] k by simp
  next
    case False
    then have "f_mag x = 0" using assms(2) by (auto simp: f_key_def split: if_splits)
    then show ?thesis by simp
  qed
  then have "\<not> is_inf x" "mag_units (f_mag x) \<le> mag_units 0x3F800000"
    by (auto simp: is_inf_def INF_MAG_def intro: mag_units_mono)
  moreover have "mag_units 0x3F800000 = 2 ^ 149" by (simp add: mag_units_def)
  ultimately show ?thesis by simp
qed

lemma trunc_le:
  assumes "\<not> is_inf x" "0 \<le> hi" "mag_units (f_mag x) div 2 ^ 149 \<le> n"
  shows "f_trunc 0 hi x \<le> int n"
proof -
  have "int (mag_units (f_mag x) div 2 ^ 149) \<le> int n" using assms(3) by (rule zle_int [THEN iffD2])
  then show ?thesis using assms(1,2) by (auto simp: f_trunc_def Let_def simp del: of_nat_div)
qed

lemma thousand:
  "below (1000 * 2 ^ 149) (f_of_nat 1000)"
  using f_of_nat_exact [of 1000] by (simp add: below_def)

lemma peak_level_bound: "peak_level levels \<le> 1000"
proof -
  define p where "p = f_clamp 0 (f_of_nat 1) (foldl f_max 0 levels)"
  have "\<not> is_nan 0" by (simp add: is_nan_def f_mag_def)
  then have "\<not> is_nan (foldl f_max 0 levels)" by (rule max_not_nan)
  then have "\<not> is_nan p" "0 \<le> f_key p" "f_key p \<le> f_key (f_of_nat 1)"
    using f_clamp_range [of "foldl f_max 0 levels" 0 "f_of_nat 1"] \<open>\<not> is_nan 0\<close> not_nan_ops(3) [of 1]
    by (simp_all add: p_def literals literal_keys)
  then have p: "\<not> is_inf p" "mag_units (f_mag p) \<le> 2 ^ 149" "\<not> is_nan p" using unit_units by blast+
  then have "f_mag p < INF_MAG" by (simp add: is_inf_def is_nan_def)
  then have "below (2 ^ 149) p" using p(2) by (simp add: below_def)
  from below_mul [OF this thousand, of "1000 * 2 ^ 149"]
  have m: "below (slack (1000 * 2 ^ 149)) (f_mul p (f_of_nat 1000))" by (simp add: mult.commute)
  have "mag_units (f_mag (f_mul p (f_of_nat 1000))) div 2 ^ 149 \<le> slack (1000 * 2 ^ 149) div 2 ^ 149"
    using m by (intro div_le_mono) (simp add: below_def)
  also have "\<dots> = 1000" by (simp add: slack_def)
  finally have "f_trunc 0 (2 ^ 32 - 1) (f_mul p (f_of_nat 1000)) \<le> int 1000"
    using below_finite [OF m] by (intro trunc_le) simp_all
  moreover have "0 \<le> f_trunc 0 (2 ^ 32 - 1) (f_mul p (f_of_nat 1000))" by (simp add: f_trunc_def Let_def)
  ultimately obtain k where k: "f_trunc 0 (2 ^ 32 - 1) (f_mul p (f_of_nat 1000)) = int k" "k \<le> 1000"
    using nonneg_int_cases [of "f_trunc 0 (2 ^ 32 - 1) (f_mul p (f_of_nat 1000))"] by (metis of_nat_le_iff)
  then have "peak_level levels = of_int (int k)" by (simp only: peak_level_def Let_def p_def [symmetric])
  then show ?thesis using k(2) by (simp add: word_le_nat_alt unat_of_nat)
qed

section \<open>What the callbacks send\<close>

definition callback_ok :: "u32 \<Rightarrow> nat \<Rightarrow> capture \<Rightarrow> bool" where
  "callback_ok sample_rate n st \<longleftrightarrow> gain_ok (cp_gain st) \<and> cp_level st \<le> 1000 \<and>
     (\<exists>pcms. length pcms = n \<and> (cp_frame st, cp_sent st) = capture_samples sample_rate pcms)"

lemma capture_start_ok: "callback_ok r 0 capture_start"
  by (simp add: callback_ok_def capture_start_def capture_samples_def gain_ok_def f_le_def literals literal_keys
      is_nan_def f_mag_def INF_MAG_def)

lemma capture_chunk_ok: "callback_ok r n st \<Longrightarrow> callback_ok r (Suc n) (capture_chunk cfg r chunk st)"
proof -
  assume "callback_ok r n st"
  then obtain pcms where st: "gain_ok (cp_gain st)" "cp_level st \<le> 1000" "length pcms = n"
    "(cp_frame st, cp_sent st) = capture_samples r pcms" by (auto simp: callback_ok_def)
  obtain pcm gain where p: "process_sample cfg (cp_gain st) (mix_down chunk) = (pcm, gain)" by force
  have "gain_ok gain" using process_sample_gain [OF st(1), of cfg "mix_down chunk"] p by simp
  moreover have "capture_sample r pcm (cp_frame st, cp_sent st) = capture_samples r (pcms @ [pcm])"
    unfolding st(4) by (simp add: capture_samples_def)
  ultimately show ?thesis using st(2,3)
    by (auto simp: callback_ok_def capture_chunk_def p split: prod.splits intro!: exI [of _ "pcms @ [pcm]"])
qed

lemma capture_chunks_ok:
  "callback_ok r n st \<Longrightarrow> callback_ok r (n + length chunks) (fold (capture_chunk cfg r) chunks st)"
proof (induction chunks arbitrary: n st)
  case (Cons c cs)
  from Cons.IH [OF capture_chunk_ok [OF Cons.prems]] show ?case by simp
qed simp

lemma input_callback_ok:
  assumes "callback_ok r n st"
  shows "callback_ok r (n + length (chunks_of (max ch 1) data)) (input_callback cfg r ch True data st)"
proof -
  have "callback_ok r n (st\<lparr>cp_level := peak_level (map sample_level data)\<rparr>)"
    using assms peak_level_bound by (auto simp: callback_ok_def)
  from capture_chunks_ok [OF this, of "chunks_of (max ch 1) data" cfg] show ?thesis
    by (simp add: input_callback_def Let_def)
qed

lemma input_callback_quiet: "callback_ok r n st \<Longrightarrow> callback_ok r n (input_callback cfg r ch False data st)"
  using peak_level_bound by (auto simp: callback_ok_def input_callback_def)

definition mono_samples :: "nat \<Rightarrow> sample list list \<Rightarrow> nat" where
  "mono_samples channels datas = (\<Sum>data\<leftarrow>datas. length (chunks_of (max channels 1) data))"

lemma microphone_run_ok:
  "callback_ok r (if sending then mono_samples ch datas else 0) (microphone_run cfg r ch sending datas)"
proof (induction datas rule: rev_induct)
  case Nil
  show ?case using capture_start_ok by (simp add: microphone_run_def mono_samples_def)
next
  case (snoc data datas)
  have run: "microphone_run cfg r ch s (datas @ [data]) = input_callback cfg r ch s data (microphone_run cfg r ch s datas)" for s
    by (simp add: microphone_run_def)
  show ?case
  proof (cases sending)
    case True
    then show ?thesis using input_callback_ok [OF snoc.IH, of ch data cfg] by (simp add: run mono_samples_def)
  next
    case False
    then show ?thesis using input_callback_quiet [OF snoc.IH, of cfg ch data] by (simp add: run)
  qed
qed

text \<open>Every payload is a full frame of samples in the unit range; the rest is shorter than a frame.\<close>

lemma concat_length: "\<forall>f\<in>set fs. length f = n \<Longrightarrow> length (concat fs) = length fs * n"
  by (induction fs) simp_all

lemma microphone_run_sent:
  obtains fs where "cp_sent (microphone_run cfg r ch True datas) = map (encode_audio_frame r) fs"
    "\<forall>f\<in>set fs. length f = frame_samples r \<and> (\<forall>x\<in>set f. clamp_unit x = x)" "length fs = mono_samples ch datas div frame_samples r"
proof -
  let ?st = "microphone_run cfg r ch True datas"
  obtain pcms where p: "length pcms = mono_samples ch datas" "(cp_frame ?st, cp_sent ?st) = capture_samples r pcms"
    using microphone_run_ok [of r True ch datas cfg] by (auto simp: callback_ok_def)
  then obtain fs where fs: "cp_sent ?st = map (encode_audio_frame r) fs" "\<forall>f\<in>set fs. length f = frame_samples r"
    "concat fs @ cp_frame ?st = map clamp_unit pcms" "length (cp_frame ?st) < frame_samples r"
    using capture_samples_cut [of r pcms] by (auto simp: cut_into_def p(2) [symmetric])
  have "length fs * frame_samples r + length (cp_frame ?st) = mono_samples ch datas"
    using arg_cong [OF fs(3), of length] concat_length [OF fs(2)] p(1) by simp
  moreover have "(length fs * frame_samples r + length (cp_frame ?st)) div frame_samples r = length fs"
    using fs(4) by (subst div_mult_self3) simp_all
  ultimately have "mono_samples ch datas div frame_samples r = length fs" by simp
  moreover have "clamp_unit x = x" if "f \<in> set fs" "x \<in> set f" for f x
  proof -
    have "x \<in> set (map clamp_unit pcms)" using that unfolding fs(3) [symmetric] by auto
    then show ?thesis by auto
  qed
  ultimately show ?thesis using that [of fs] fs(1,2) by simp
qed

section \<open>The resampled frame\<close>

lemma f_mag_of_nat: "f_mag (f_of_nat n) = round_mag (n * 2 ^ 149) 1" "f_neg (f_of_nat n) = False"
  by (simp_all only: f_of_nat_def mag_round)

lemma below_of_nat: "n < 2 ^ 120 \<Longrightarrow> below (slack (n * 2 ^ 149)) (f_of_nat n)"
  unfolding f_of_nat_def by (rule below_round) simp_all

text \<open>The steps of the computation, each rounded once.\<close>

lemma cancel_scale: "0 < d \<Longrightarrow> k * (x * d) \<le> y * d * e + z * d \<Longrightarrow> k * x \<le> y * e + z" for d :: nat
proof -
  assume d: "0 < d" and "k * (x * d) \<le> y * d * e + z * d"
  then have "k * x * d \<le> (y * e + z) * d" by (simp add: algebra_simps)
  then show ?thesis using d by (simp only: mult_le_cancel2)
qed

lemma ratio_bounds:
  assumes "n < 2 ^ 32"
  defines "a \<equiv> mag_units (f_mag (f_of_nat n))" and "ratio \<equiv> f_div (f_of_nat n) (f_of_nat 48000)"
  shows "2 ^ 24 * a \<le> n * 2 ^ 149 * (2 ^ 24 + 1) + 2 ^ 23"
    and "2 ^ 24 * (48000 * mag_units (f_mag ratio)) \<le> a * (2 ^ 24 + 1) + 2 ^ 23 * 48000"
    and "below (2 ^ 180) ratio" and "\<not> f_neg ratio"
proof -
  show "2 ^ 24 * a \<le> n * 2 ^ 149 * (2 ^ 24 + 1) + 2 ^ 23"
    using round_mag_upper [of 1 "n * 2 ^ 149"] unfolding a_def f_mag_of_nat by (simp only: mult_1_right)
  have d: "mag_units (f_mag (f_of_nat 48000)) = 48000 * 2 ^ 149" "f_mag (f_of_nat 48000) \<noteq> 0"
    "\<not> is_nan (f_of_nat 48000)" "\<not> is_inf (f_of_nat 48000)"
    using f_of_nat_exact [of 48000] by (simp_all add: is_inf_def literals f_mag_def is_nan_def INF_MAG_def)
  have n: "below (slack (n * 2 ^ 149)) (f_of_nat n)" using assms(1) by (intro below_of_nat) simp
  then have r: "ratio = f_make False (round_mag (a * 2 ^ 149) (48000 * 2 ^ 149))"
    using below_finite [OF n] d by (simp add: ratio_def f_div_def f_mag_of_nat(2) a_def Let_def)
  show "\<not> f_neg ratio" unfolding r mag_round by simp
  have "2 ^ 24 * (mag_units (f_mag ratio) * (48000 * 2 ^ 149)) \<le> a * 2 ^ 149 * (2 ^ 24 + 1) + 2 ^ 23 * (48000 * 2 ^ 149)"
    unfolding r mag_round by (rule round_mag_upper) simp
  then have "2 ^ 24 * (48000 * mag_units (f_mag ratio) * 2 ^ 149) \<le> a * 2 ^ 149 * (2 ^ 24 + 1) + 2 ^ 23 * 48000 * 2 ^ 149"
    by (simp only: mult_ac)
  then show "2 ^ 24 * (48000 * mag_units (f_mag ratio)) \<le> a * (2 ^ 24 + 1) + 2 ^ 23 * 48000"
    by (rule cancel_scale [rotated]) simp
  have "a \<le> slack (2 ^ 181)"
    using n slack_mono [of "n * 2 ^ 149" "2 ^ 181"] assms(1) unfolding below_def a_def by simp
  then have "a * 2 ^ 149 \<le> 2 ^ 179 * (48000 * 2 ^ 149)" by (simp add: slack_def)
  then have "below (slack (2 ^ 179)) ratio" unfolding r by (intro below_round) simp_all
  then show "below (2 ^ 180) ratio" by (rule below_mono) (simp add: slack_def)
qed

lemma source_bounds:
  assumes "n < 2 ^ 32" "i < 960"
  defines "ratio \<equiv> f_div (f_of_nat n) (f_of_nat 48000)"
  shows "2 ^ 24 * mag_units (f_mag (f_mul (f_of_nat i) ratio)) \<le> i * mag_units (f_mag ratio) * (2 ^ 24 + 1) + 2 ^ 23"
    and "below (2 ^ 191) (f_mul (f_of_nat i) ratio)" and "\<not> f_neg (f_mul (f_of_nat i) ratio)"
proof -
  have i: "mag_units (f_mag (f_of_nat i)) = i * 2 ^ 149" "f_mag (f_of_nat i) < INF_MAG"
    using f_of_nat_exact [of i] assms(2) by simp_all
  then have bi: "below (960 * 2 ^ 149) (f_of_nat i)" using assms(2) by (simp add: below_def)
  have br: "below (2 ^ 180) ratio" and neg: "\<not> f_neg ratio" unfolding ratio_def by (rule ratio_bounds [OF assms(1)])+
  have s: "f_mul (f_of_nat i) ratio = f_make False (round_mag (i * mag_units (f_mag ratio) * 2 ^ 149) (2 ^ 149))"
    using below_finite [OF bi] below_finite [OF br] neg by (simp add: f_mul_def f_mag_of_nat(2) i mult_ac Let_def)
  show "\<not> f_neg (f_mul (f_of_nat i) ratio)" unfolding s mag_round by simp
  have "below (slack (960 * 2 ^ 180)) (f_mul (f_of_nat i) ratio)" by (rule below_mul [OF bi br]) simp_all
  then show "below (2 ^ 191) (f_mul (f_of_nat i) ratio)" by (rule below_mono) (simp add: slack_def)
  have "2 ^ 24 * (mag_units (f_mag (f_mul (f_of_nat i) ratio)) * 2 ^ 149)
      \<le> i * mag_units (f_mag ratio) * 2 ^ 149 * (2 ^ 24 + 1) + 2 ^ 23 * 2 ^ 149"
    unfolding s mag_round by (rule round_mag_upper) simp
  then show "2 ^ 24 * mag_units (f_mag (f_mul (f_of_nat i) ratio)) \<le> i * mag_units (f_mag ratio) * (2 ^ 24 + 1) + 2 ^ 23"
    by (rule cancel_scale [rotated]) simp
qed

text \<open>Four roundings of \<open>2 ^ -24\<close> do not make up for the missing 960th sample.\<close>

lemma rounding_slack:
  fixes a b c m n len :: nat
  assumes "2 ^ 24 * a \<le> n * 2 ^ 149 * (2 ^ 24 + 1) + 2 ^ 23" "2 ^ 24 * (48000 * b) \<le> a * (2 ^ 24 + 1) + 2 ^ 23 * 48000"
    "2 ^ 24 * c \<le> m * (2 ^ 24 + 1) + 2 ^ 23" "m \<le> 959 * b" "n \<le> 50 * len" "0 < len"
  shows "c < len * 2 ^ 149"
  using assms by simp

lemma lower_inside:
  assumes "n < 2 ^ 32" "i < 960" "n \<le> 50 * len" "0 < len"
  shows "nat (f_trunc 0 (2 ^ 64 - 1) (f_floor (f_mul (f_of_nat i) (f_div (f_of_nat n) (f_of_nat 48000))))) < len"
proof -
  define a where "a = mag_units (f_mag (f_of_nat n))"
  define b where "b = mag_units (f_mag (f_div (f_of_nat n) (f_of_nat 48000)))"
  define c where "c = mag_units (f_mag (f_mul (f_of_nat i) (f_div (f_of_nat n) (f_of_nat 48000))))"
  have "2 ^ 24 * a \<le> n * 2 ^ 149 * (2 ^ 24 + 1) + 2 ^ 23" "2 ^ 24 * (48000 * b) \<le> a * (2 ^ 24 + 1) + 2 ^ 23 * 48000"
    unfolding a_def b_def by (rule ratio_bounds [OF assms(1)])+
  moreover have "2 ^ 24 * c \<le> i * b * (2 ^ 24 + 1) + 2 ^ 23" unfolding b_def c_def by (rule source_bounds [OF assms(1,2)])
  moreover have "i * b \<le> 959 * b" using assms(2) by (intro mult_right_mono) simp_all
  ultimately have "c < len * 2 ^ 149" by (rule rounding_slack) (rule assms(3,4))+
  then have "c div 2 ^ 149 < len" by (simp add: div_less_iff_less_mult)
  moreover have "nat (f_trunc 0 (2 ^ 64 - 1) (f_floor (f_mul (f_of_nat i) (f_div (f_of_nat n) (f_of_nat 48000))))) \<le> c div 2 ^ 149"
    unfolding c_def using below_finite [OF source_bounds(2) [OF assms(1,2)]] source_bounds(3) [OF assms(1,2)]
    by (intro f_floor_trunc) simp_all
  ultimately show ?thesis by linarith
qed

text \<open>\<open>clamp(-1.0, 1.0)\<close> on the bits is the comparison with the two numbers.\<close>

lemma sign_bit: "and x 0x80000000 = (if f_neg x then 0x80000000 else 0)" for x :: f32
proof -
  have "unat x < 2 ^ 32" by (rule unat_u32)
  then have "unat x div 2 ^ 31 < 2" by (simp add: div_less_iff_less_mult)
  then have "odd (unat x div 2 ^ 31) \<longleftrightarrow> unat x div 2 ^ 31 = 1" by (auto simp: less_2_cases_iff)
  moreover have "unat x div 2 ^ 31 = 1 \<longleftrightarrow> f_neg x"
    using \<open>unat x div 2 ^ 31 < 2\<close> less_eq_div_iff_mult_less_eq [of "2 ^ 31" 1 "unat x"] by (auto simp: f_neg_def)
  ultimately have "bit x 31 \<longleftrightarrow> f_neg x"
    using bit_unsigned_iff [of x 31, where 'a = nat] by (simp add: bit_iff_odd)
  moreover have "and x (push_bit 31 1) = (if bit x 31 then push_bit 31 1 else 0)"
  proof (rule bit_word_eqI)
    fix n assume "n < LENGTH(32)"
    then have "n = 31 \<or> n < 31" by auto
    then show "bit (and x (push_bit 31 1)) n = bit (if bit x 31 then push_bit 31 1 else 0 :: f32) n"
      by (auto simp: bit_and_iff bit_push_bit_iff simp del: push_bit_of_1 push_bit_numeral)
  qed
  moreover have "push_bit 31 1 = (0x80000000 :: f32)" by simp
  ultimately show ?thesis by simp
qed

lemma mag_bits: "f_mag x = unat (and x 0x7FFFFFFF)"
proof -
  have "and x 0x7FFFFFFF = take_bit 31 x" by (simp add: take_bit_eq_mask mask_eq_exp_minus_1)
  then show ?thesis by (simp add: f_mag_def take_bit_eq_mod unat_mod)
qed

lemma clamp_unit_is_clamp: "clamp_unit x = f_clamp (f_minus (f_of_nat 1)) (f_of_nat 1) x"
proof -
  have one: "f_minus 0x3F800000 = 0xBF800000" "f_of_nat 1 = 0x3F800000"
    by (simp_all add: literals f_minus_def f_neg_def f_mag_def f_make_def)
  have keys: "f_key 0xBF800000 = - 0x3F800000" "f_key 0x3F800000 = 0x3F800000" "\<not> is_nan 0xBF800000" "\<not> is_nan 0x3F800000"
    by (simp_all add: f_key_def f_neg_def f_mag_def is_nan_def INF_MAG_def)
  have "0x3F800000 < and x 0x7FFFFFFF \<longleftrightarrow> 0x3F800000 < f_mag x" "and x 0x7FFFFFFF \<le> 0x7F800000 \<longleftrightarrow> f_mag x \<le> 0x7F800000"
    by (simp_all add: mag_bits word_less_nat_alt word_le_nat_alt)
  then show ?thesis unfolding one(2)
    by (auto simp: one(1) clamp_unit_def f_clamp_def f_lt_def keys Let_def sign_bit f_key_def [of x] is_nan_def [of x] INF_MAG_def)
qed

lemma clamped_below: "\<not> is_nan x \<Longrightarrow> below (2 ^ 149) (clamp_unit x)" "\<not> is_nan x \<Longrightarrow> \<not> is_nan (clamp_unit x)"
proof -
  assume x: "\<not> is_nan x"
  have m: "f_minus (f_of_nat 1) = 0xBF800000" by (simp add: literals f_minus_def f_neg_def f_mag_def f_make_def)
  have keys: "f_key 0xBF800000 = - 0x3F800000" "\<not> is_nan 0xBF800000" "\<not> is_nan (f_of_nat 1)"
    by (simp_all add: f_key_def f_neg_def f_mag_def is_nan_def INF_MAG_def literals)
  have r: "\<not> is_nan (clamp_unit x)" "- 0x3F800000 \<le> f_key (clamp_unit x)" "f_key (clamp_unit x) \<le> 0x3F800000"
    using f_clamp_range [OF x, of "0xBF800000" "f_of_nat 1"] keys
    unfolding clamp_unit_is_clamp m by (simp_all add: literals literal_keys)
  then have "f_mag (clamp_unit x) \<le> 0x3F800000" by (auto simp: f_key_def split: if_splits)
  then have "f_mag (clamp_unit x) < INF_MAG" "mag_units (f_mag (clamp_unit x)) \<le> mag_units 0x3F800000"
    by (auto simp: INF_MAG_def intro: mag_units_mono)
  moreover have "mag_units 0x3F800000 = 2 ^ 149" by (simp add: mag_units_def)
  ultimately show "below (2 ^ 149) (clamp_unit x)" by (simp add: below_def)
  show "\<not> is_nan (clamp_unit x)" by (rule r(1))
qed

lemma mix_not_nan:
  assumes "below (2 ^ 191) source" "lower < 2 ^ 43" "below (2 ^ 149) s" "below (2 ^ 149) t"
  defines "mix \<equiv> f_sub source (f_of_nat lower)"
  shows "\<not> is_nan (f_add (f_mul s (f_sub (f_of_nat 1) mix)) (f_mul t mix))"
proof -
  have "lower * 2 ^ 149 \<le> 2 ^ 43 * 2 ^ 149" using assms(2) by (intro mult_right_mono) simp_all
  then have "slack (lower * 2 ^ 149) \<le> slack (2 ^ 43 * 2 ^ 149)" by (rule slack_mono)
  also have "\<dots> \<le> 2 ^ 193" by (simp add: slack_def)
  finally have l: "below (2 ^ 193) (f_of_nat lower)"
    using assms(2) by (intro below_mono [OF below_of_nat]) simp_all
  have m: "below (2 ^ 195) mix"
    unfolding mix_def by (rule below_mono [OF below_sub [OF assms(1) l]]) (simp_all add: slack_def)
  have "below (2 ^ 149) (f_of_nat 1)" using f_of_nat_exact [of 1] by (simp add: below_def)
  then have n: "below (2 ^ 197) (f_sub (f_of_nat 1) mix)"
    by (rule below_mono [OF below_sub [OF _ m]]) (simp_all add: slack_def)
  have "below (2 ^ 198) (f_mul s (f_sub (f_of_nat 1) mix))"
    by (rule below_mono [OF below_mul [OF assms(3) n, of "2 ^ 197"]]) (simp_all add: slack_def)
  moreover have "below (2 ^ 196) (f_mul t mix)"
    by (rule below_mono [OF below_mul [OF assms(4) m, of "2 ^ 195"]]) (simp_all add: slack_def)
  ultimately have "below (slack (2 ^ 198 + 2 ^ 196)) (f_add (f_mul s (f_sub (f_of_nat 1) mix)) (f_mul t mix))"
    by (rule below_add) simp
  then show ?thesis using below_finite by blast
qed

lemma resample_at_some:
  fixes rate :: u32
  assumes "unat rate \<le> 50 * length samples" "samples \<noteq> []" "i < 960"
  shows "\<exists>x. resample_at (f_div (f_of_nat (unat rate)) (f_of_nat 48000)) samples i = Some x \<and> clamp_unit x = x \<and>
    ((\<forall>s\<in>set samples. \<not> is_nan s \<and> clamp_unit s = s) \<longrightarrow> \<not> is_nan x)"
proof -
  have r: "unat rate < 2 ^ 32" by (rule unat_u32)
  define source where "source = f_mul (f_of_nat i) (f_div (f_of_nat (unat rate)) (f_of_nat 48000))"
  define lower where "lower = nat (f_trunc 0 (2 ^ 64 - 1) (f_floor source))"
  have inside: "lower < length samples"
    unfolding lower_def source_def using assms by (intro lower_inside r) simp_all
  have b: "below (2 ^ 191) source" and neg: "\<not> f_neg source"
    unfolding source_def by (rule source_bounds [OF r assms(3)])+
  have "lower \<le> mag_units (f_mag source) div 2 ^ 149"
    unfolding lower_def using below_finite [OF b] neg by (intro f_floor_trunc) simp_all
  also have "\<dots> \<le> 2 ^ 191 div 2 ^ 149" using b by (intro div_le_mono) (simp add: below_def)
  finally have small: "lower < 2 ^ 43" by simp
  have upper: "min (lower + 1) (length samples - 1) < length samples" using assms(2) by (simp add: min_less_iff_disj)
  have below_sample: "below (2 ^ 149) (samples ! k)"
    if "\<forall>s\<in>set samples. \<not> is_nan s \<and> clamp_unit s = s" "k < length samples" for k
    using clamped_below(1) [of "samples ! k"] bspec [OF that(1) nth_mem [OF that(2)]] by simp
  show ?thesis unfolding resample_at_def Let_def source_def [symmetric] lower_def [symmetric]
    using inside mix_not_nan [OF b small below_sample below_sample] upper clamped_below(2) by auto
qed

lemma those_some: "(\<And>x. x \<in> set xs \<Longrightarrow> \<exists>y. f x = Some y \<and> P y) \<Longrightarrow>
    \<exists>ys. those (map f xs) = Some ys \<and> length ys = length xs \<and> (\<forall>y\<in>set ys. P y)"
proof (induction xs)
  case (Cons x xs)
  then obtain y ys where "f x = Some y" "P y" "those (map f xs) = Some ys" "length ys = length xs" "\<forall>y\<in>set ys. P y"
    by (metis list.set_intros)
  then show ?case by simp
qed simp

lemma resample_some:
  assumes "samples = [] \<or> unat rate \<le> 50 * length samples" "\<forall>s\<in>set samples. clamp_unit s = s"
  shows "\<exists>out. resample_to_opus rate samples = Some out \<and> length out = OPUS_FRAME_SAMPLES \<and> (\<forall>x\<in>set out. clamp_unit x = x) \<and>
    ((\<forall>s\<in>set samples. \<not> is_nan s) \<longrightarrow> (\<forall>x\<in>set out. \<not> is_nan x))"
proof (cases "samples = [] \<or> rate = 48000 \<and> length samples = OPUS_FRAME_SAMPLES")
  case True
  have "clamp_unit 0 = 0" "\<not> is_nan 0" by (simp_all add: clamp_unit_def is_nan_def f_mag_def)
  then show ?thesis using True assms(2) by (auto simp: resample_to_opus_def OPUS_FRAME_SAMPLES_def)
next
  case False
  let ?P = "\<lambda>x. clamp_unit x = x \<and> ((\<forall>s\<in>set samples. \<not> is_nan s) \<longrightarrow> \<not> is_nan x)"
  have "\<exists>x. resample_at (f_div (f_of_nat (unat rate)) (f_of_nat 48000)) samples i = Some x \<and> ?P x"
    if "i \<in> set [0..<OPUS_FRAME_SAMPLES]" for i
    using resample_at_some [of rate samples i] that False assms by (auto simp: OPUS_FRAME_SAMPLES_def)
  then obtain out where "those (map (resample_at (f_div (f_of_nat (unat rate)) (f_of_nat 48000)) samples) [0..<OPUS_FRAME_SAMPLES]) = Some out"
    "length out = OPUS_FRAME_SAMPLES" "\<forall>x\<in>set out. ?P x"
    using those_some [of "[0..<OPUS_FRAME_SAMPLES]" "resample_at (f_div (f_of_nat (unat rate)) (f_of_nat 48000)) samples" ?P]
    by auto
  moreover have "resample_to_opus rate samples = those (map (resample_at (f_div (f_of_nat (unat rate)) (f_of_nat 48000)) samples) [0..<OPUS_FRAME_SAMPLES])"
    using False by (auto simp: resample_to_opus_def Let_def)
  ultimately show ?thesis by auto
qed

section \<open>The microphone keeps its levels\<close>

text \<open>
  C37.  Whatever the sound card delivers - not-a-number and infinities among it - after every
  callback the automatic gain is a number between one half and four, and the level in thousandths
  is at most 1000.
\<close>

theorem microphone_levels:
  "f_le (f_lit 1 2) (cp_gain (microphone_run cfg r ch sending datas)) \<and>
   f_le (cp_gain (microphone_run cfg r ch sending datas)) (f_of_nat 4) \<and>
   cp_level (microphone_run cfg r ch sending datas) \<le> 1000"
  using microphone_run_ok [of r sending ch datas cfg] by (simp add: callback_ok_def gain_ok_def)

end
