(* ===== verification/Media_Threads.thy ===== *)
theory Media_Threads
  imports Audio_Math Ui_Text
begin

text \<open>
  The threads and callbacks of a call, \<open>WebRtcSession::new\<close>, \<open>run_camera_capture\<close> and the stream
  starters of \<open>client-ui/src/media.rs\<close>: what each does with one frame or packet, on the state they
  share behind mutexes.  Opus, H.264, the RTP tracks, the sample builder, the camera and the sound
  devices are parameters.  A panic ends its thread and is \<open>None\<close>.
\<close>

section \<open>What the threads share\<close>

text \<open>The last three fields are what went out on the tracks and on the data channel, which is
  absent, not open or open.\<close>

record call_media =
  cm_status :: string
  cm_queue :: "f32 list"
  cm_level :: u32
  cm_video :: "video_frame_info option"
  cm_channel :: "bool option"
  cm_audio_out :: "bytes list"
  cm_video_out :: "bytes list"
  cm_channel_out :: "bytes list"

definition new_call_media :: call_media where
  "new_call_media = \<lparr>cm_status = ''WebRTC starting'', cm_queue = [], cm_level = 0, cm_video = None, cm_channel = None,
     cm_audio_out = [], cm_video_out = [], cm_channel_out = []\<rparr>"

section \<open>A thread that works off a channel\<close>

text \<open>\<open>while let Ok(x) = rx.recv()\<close>: one step for each value received, until a step panics.\<close>

primrec thread_loop :: "('x \<Rightarrow> 's \<Rightarrow> 's option) \<Rightarrow> 'x list \<Rightarrow> 's \<Rightarrow> 's option" where
  "thread_loop step [] st = Some st"
| "thread_loop step (x # xs) st = Option.bind (step x st) (thread_loop step xs)"

text \<open>
  The contract of the one who fills the channel with the thread that empties it: on the values that
  may be sent, a step does not panic.  Then the thread outlives all of them.
\<close>

locale steady_thread =
  fixes step :: "'x \<Rightarrow> 's \<Rightarrow> 's option" and sendable :: "'x \<Rightarrow> bool" and work :: "'x \<Rightarrow> 's \<Rightarrow> 's"
  assumes step_works: "sendable x \<Longrightarrow> step x st = Some (work x st)"
begin

lemma loop_works: "\<forall>x\<in>set xs. sendable x \<Longrightarrow> thread_loop step xs st = Some (fold work xs st)"
  by (induction xs arbitrary: st) (simp_all add: step_works)

end

section \<open>Sending sound\<close>

text \<open>Opus turns a frame into a packet or fails; the track takes a sample or fails.\<close>

type_synonym 'e opus_encode = "'e \<Rightarrow> f32 list \<Rightarrow> bytes option \<times> 'e"

definition write_audio :: "(bytes list \<Rightarrow> bool) \<Rightarrow> bytes \<Rightarrow> call_media \<Rightarrow> call_media" where
  "write_audio track_ok packet cm =
     (if track_ok (cm_audio_out cm) then cm\<lparr>cm_audio_out := cm_audio_out cm @ [packet]\<rparr>
      else cm\<lparr>cm_status := ''WebRTC audio track send failed''\<rparr>)"

definition encode_opus_frame ::
  "'e opus_encode \<Rightarrow> (bytes list \<Rightarrow> bool) \<Rightarrow> f32 list \<Rightarrow> 'e \<times> call_media \<Rightarrow> 'e \<times> call_media" where
  "encode_opus_frame encode track_ok opus_frame st =
     (case encode (fst st) opus_frame of
        (None, e) \<Rightarrow> (e, (snd st)\<lparr>cm_status := ''Opus encode failed''\<rparr>)
      | (Some packet, e) \<Rightarrow> (e, write_audio track_ok packet (snd st)))"

definition send_audio_frame ::
  "'e opus_encode \<Rightarrow> (bytes list \<Rightarrow> bool) \<Rightarrow> bytes \<Rightarrow> 'e \<times> call_media \<Rightarrow> ('e \<times> call_media) option" where
  "send_audio_frame encode track_ok frame st =
     (case decode_audio_frame_with_rate frame of
        None \<Rightarrow> Some st
      | Some (sample_rate, samples) \<Rightarrow>
          (case resample_to_opus sample_rate samples of
             None \<Rightarrow> None
           | Some opus_frame \<Rightarrow> Some (encode_opus_frame encode track_ok opus_frame st)))"

text \<open>Without a runtime the thread ends silently, without an encoder it says so.\<close>

definition start_audio_sender :: "bool \<Rightarrow> 'e option \<Rightarrow> call_media \<Rightarrow> 'e option \<times> call_media" where
  "start_audio_sender runtime created cm =
     (if \<not> runtime then (None, cm)
      else case created of Some e \<Rightarrow> (Some e, cm) | None \<Rightarrow> (None, cm\<lparr>cm_status := ''Opus encoder failed''\<rparr>))"

definition audio_sender ::
  "'e opus_encode \<Rightarrow> (bytes list \<Rightarrow> bool) \<Rightarrow> bytes list \<Rightarrow> 'e \<times> call_media \<Rightarrow> ('e \<times> call_media) option" where
  "audio_sender encode track_ok = thread_loop (send_audio_frame encode track_ok)"

section \<open>Sending video\<close>

text \<open>\<open>yuv\<close> is \<open>RgbSliceU8::new\<close> with the conversion; \<open>None\<close> is its panic on dimensions that do not
  fit.  \<open>intra\<close> is \<open>force_intra_frame\<close>.\<close>

type_synonym ('h, 'y) h264_encode = "'h \<Rightarrow> 'y \<Rightarrow> (string + bytes) \<times> 'h"

definition write_video :: "(bytes list \<Rightarrow> bool) \<Rightarrow> video_frame_info \<Rightarrow> bytes \<Rightarrow> call_media \<Rightarrow> call_media" where
  "write_video track_ok frame bitstream cm =
     (let cm = (if track_ok (cm_video_out cm) then cm\<lparr>cm_video_out := cm_video_out cm @ [bitstream]\<rparr>
          else cm\<lparr>cm_status := ''WebRTC video track send failed''\<rparr>)
      in if cm_channel cm = Some True
         then cm\<lparr>cm_channel_out := cm_channel_out cm @
           [encode_h264_video_frame (vf_width frame) (vf_height frame) (vf_frames frame) bitstream]\<rparr>
         else cm)"

record 'h video_sender =
  vs_encoder :: "'h option"
  vs_encoded :: u64

definition sat_succ :: "u64 \<Rightarrow> u64" where "sat_succ n = (if n = - 1 then n else n + 1)"

definition send_video_frame ::
  "('h, 'y) h264_encode \<Rightarrow> ('h \<Rightarrow> 'h) \<Rightarrow> (u32 \<Rightarrow> u32 \<Rightarrow> bytes \<Rightarrow> 'y option) \<Rightarrow> (bytes list \<Rightarrow> bool) \<Rightarrow>
   video_frame_info \<Rightarrow> 'h video_sender \<times> call_media \<Rightarrow> ('h video_sender \<times> call_media) option" where
  "send_video_frame encode intra yuv track_ok frame st =
     (case vs_encoder (fst st) of
        None \<Rightarrow> Some st
      | Some h \<Rightarrow>
          let h = (if vs_encoded (fst st) mod 24 = 0 then intra h else h)
          in case yuv (vf_width frame) (vf_height frame) (vf_rgb frame) of
               None \<Rightarrow> None
             | Some y \<Rightarrow>
                 (case encode h y of
                    (Inr bitstream, h) \<Rightarrow>
                      Some (\<lparr>vs_encoder = Some h, vs_encoded = sat_succ (vs_encoded (fst st))\<rparr>,
                        write_video track_ok frame bitstream (snd st))
                  | (Inl err, h) \<Rightarrow>
                      Some ((fst st)\<lparr>vs_encoder := Some h\<rparr>, (snd st)\<lparr>cm_status := ''H264 encode failed: '' @ err\<rparr>)))"

definition video_sender_loop ::
  "('h, 'y) h264_encode \<Rightarrow> ('h \<Rightarrow> 'h) \<Rightarrow> (u32 \<Rightarrow> u32 \<Rightarrow> bytes \<Rightarrow> 'y option) \<Rightarrow> (bytes list \<Rightarrow> bool) \<Rightarrow>
   video_frame_info list \<Rightarrow> 'h video_sender \<times> call_media \<Rightarrow> ('h video_sender \<times> call_media) option" where
  "video_sender_loop encode intra yuv track_ok = thread_loop (send_video_frame encode intra yuv track_ok)"

text \<open>A failed encoder is reported once and every frame is dropped.\<close>

definition start_video_sender :: "bool \<Rightarrow> string + 'h \<Rightarrow> call_media \<Rightarrow> 'h video_sender option \<times> call_media" where
  "start_video_sender runtime created cm =
     (if \<not> runtime then (None, cm)
      else case created of
        Inr h \<Rightarrow> (Some \<lparr>vs_encoder = Some h, vs_encoded = 0\<rparr>, cm)
      | Inl err \<Rightarrow> (Some \<lparr>vs_encoder = None, vs_encoded = 0\<rparr>, cm\<lparr>cm_status := ''H264 encoder failed: '' @ err\<rparr>))"

section \<open>Receiving\<close>

text \<open>The decoder of the video track, the frames it has shown and the sample builder, which a
  packet makes release samples.\<close>

type_synonym 'd picture_decode = "'d \<Rightarrow> bytes \<Rightarrow> (nat \<times> nat \<times> bytes) option \<times> 'd"

definition video_track_sample ::
  "'d picture_decode \<Rightarrow> bytes \<Rightarrow> ('d \<times> u64) \<times> call_media \<Rightarrow> ('d \<times> u64) \<times> call_media" where
  "video_track_sample decode sample st =
     (let ((d, frames), cm) = st in
      case decode d sample of
        (None, d) \<Rightarrow> ((d, frames), cm)
      | (Some (width, height, rgb), d) \<Rightarrow>
          let frames = sat_succ frames
          in ((d, frames), cm\<lparr>cm_video := Some \<lparr>vf_width = of_nat width, vf_height = of_nat height, vf_frames = frames, vf_rgb = rgb\<rparr>\<rparr>))"

definition video_track_packet ::
  "'d picture_decode \<Rightarrow> ('b \<Rightarrow> 'p \<Rightarrow> bytes list \<times> 'b) \<Rightarrow> 'p \<Rightarrow> 'b \<times> ('d \<times> u64) \<times> call_media \<Rightarrow> 'b \<times> ('d \<times> u64) \<times> call_media" where
  "video_track_packet decode build packet st =
     (let (samples, b) = build (fst st) packet in (b, fold (video_track_sample decode) samples (snd st)))"

type_synonym 'o opus_decode = "'o \<Rightarrow> bytes \<Rightarrow> f32 list option \<times> 'o"

definition audio_track_packet :: "'o opus_decode \<Rightarrow> bytes \<Rightarrow> 'o \<times> call_media \<Rightarrow> 'o \<times> call_media" where
  "audio_track_packet decode packet st =
     (case decode (fst st) packet of
        (None, d) \<Rightarrow> (d, (snd st)\<lparr>cm_status := ''Opus decode failed''\<rparr>)
      | (Some samples, d) \<Rightarrow>
          (d, (snd st)\<lparr>cm_level := peak_level (map f_abs samples),
             cm_queue := enqueue_samples samples (cm_queue (snd st))\<rparr>))"

text \<open>The data channel's callback, on the same queue and picture.\<close>

definition channel_message :: "'d h264_decode \<Rightarrow> bytes \<Rightarrow> 'd option \<times> call_media \<Rightarrow> 'd option \<times> call_media" where
  "channel_message h264 data st =
     (let rc = on_data_message h264 data \<lparr>rc_decoder = fst st, rc_queue = cm_queue (snd st), rc_video = cm_video (snd st)\<rparr>
      in (rc_decoder rc, (snd st)\<lparr>cm_queue := rc_queue rc, cm_video := rc_video rc\<rparr>))"

text \<open>Which track it is, by the codec's MIME type without regard to case.\<close>

datatype track_kind = VideoTrack | AudioTrack | OtherTrack

definition eq_ignore_ascii_case :: "string \<Rightarrow> string \<Rightarrow> bool" where
  "eq_ignore_ascii_case s t \<longleftrightarrow> map ascii_lower s = map ascii_lower t"

definition on_track :: "string \<Rightarrow> bool \<Rightarrow> call_media \<Rightarrow> track_kind \<times> call_media" where
  "on_track mime_type decoder_created cm =
     (if eq_ignore_ascii_case mime_type ''video/H264'' then
        let cm = cm\<lparr>cm_status := ''WebRTC video track receiving''\<rparr>
        in if decoder_created then (VideoTrack, cm) else (OtherTrack, cm\<lparr>cm_status := ''H264 decoder failed''\<rparr>)
      else if \<not> eq_ignore_ascii_case mime_type ''audio/opus'' then (OtherTrack, cm)
      else if decoder_created then (AudioTrack, cm) else (OtherTrack, cm\<lparr>cm_status := ''Opus decoder failed''\<rparr>))"

text \<open>The state changes and the channel's events.\<close>

definition on_connection_state :: "string \<Rightarrow> call_media \<Rightarrow> call_media" where
  "on_connection_state state cm = cm\<lparr>cm_status := ''WebRTC '' @ state\<rparr>"

definition on_data_channel :: "call_media \<Rightarrow> call_media" where
  "on_data_channel cm = cm\<lparr>cm_channel := Some False\<rparr>"

definition on_channel_open :: "call_media \<Rightarrow> call_media" where
  "on_channel_open cm = cm\<lparr>cm_channel := Some True, cm_status := ''WebRTC data channel open''\<rparr>"

section \<open>The sound that leaves\<close>

lemma frame_samples_value: "frame_samples r = max (unat r div 50) 160"
proof -
  have "unat (r div 50) = unat r div 50" by (simp add: unat_div)
  then show ?thesis by (simp add: frame_samples_def max_def word_le_nat_alt)
qed

lemma frame_covers_rate:
  assumes "50 dvd unat r \<or> unat r \<le> 8000"
  shows "unat r \<le> 50 * frame_samples r"
  using assms by (auto simp: frame_samples_value)

text \<open>What the encoder gets for a payload that a microphone may send.\<close>

definition sound_sendable :: "bytes \<Rightarrow> bool" where
  "sound_sendable payload \<longleftrightarrow> (\<exists>r f. payload = encode_audio_frame r f \<and> unat r \<le> 50 * length f \<and> (\<forall>x\<in>set f. clamp_unit x = x))"

definition opus_frame :: "bytes \<Rightarrow> f32 list" where
  "opus_frame payload = (case decode_audio_frame_with_rate payload of
     Some (r, f) \<Rightarrow> the (resample_to_opus r f) | None \<Rightarrow> [])"

lemma sound_sendableI: "unat r \<le> 50 * length f \<Longrightarrow> \<forall>x\<in>set f. clamp_unit x = x \<Longrightarrow> sound_sendable (encode_audio_frame r f)"
  unfolding sound_sendable_def by blast

lemma sendable_frame:
  assumes "sound_sendable payload"
  shows "length (opus_frame payload) = OPUS_FRAME_SAMPLES" "\<forall>x\<in>set (opus_frame payload). clamp_unit x = x"
    "send_audio_frame encode track_ok payload st = Some (encode_opus_frame encode track_ok (opus_frame payload) st)"
proof -
  obtain r f where p: "payload = encode_audio_frame r f" and f: "unat r \<le> 50 * length f" "\<forall>x\<in>set f. clamp_unit x = x"
    using assms by (auto simp: sound_sendable_def)
  have "map clamp_unit f = f" using f(2) by (simp add: map_idI)
  moreover obtain g where "resample_to_opus r f = Some g" "length g = OPUS_FRAME_SAMPLES" "\<forall>x\<in>set g. clamp_unit x = x"
    using resample_some [of f r] f by auto
  ultimately show "length (opus_frame payload) = OPUS_FRAME_SAMPLES" "\<forall>x\<in>set (opus_frame payload). clamp_unit x = x"
    "send_audio_frame encode track_ok payload st = Some (encode_opus_frame encode track_ok (opus_frame payload) st)"
    by (simp_all add: send_audio_frame_def opus_frame_def p)
qed

interpretation sound: steady_thread "send_audio_frame encode track_ok" sound_sendable
    "\<lambda>payload. encode_opus_frame encode track_ok (opus_frame payload)"
  for encode :: "'e opus_encode" and track_ok
  by unfold_locales (rule sendable_frame(3))

text \<open>The video sender survives what the conversion accepts.\<close>

interpretation video: steady_thread "send_video_frame encode intra yuv track_ok"
    "\<lambda>p. yuv (vf_width p) (vf_height p) (vf_rgb p) \<noteq> None" "\<lambda>p st. the (send_video_frame encode intra yuv track_ok p st)"
  for encode :: "('h, 'y) h264_encode" and intra yuv track_ok
  by unfold_locales (auto simp: send_video_frame_def Let_def split: option.splits prod.splits sum.splits)

text \<open>
  C36.  Sound that is captured is sent: at a sample rate that is a multiple of 50 Hz, or at most
  8 kHz, the sender's thread never panics on what the microphone's callbacks gave it; it encodes
  one frame of 960 samples in the unit range for every full 20 ms of captured sound, in order.
\<close>

theorem captured_sound_is_encoded:
  assumes "50 dvd unat r \<or> unat r \<le> 8000"
  shows "\<exists>frames. audio_sender encode track_ok (cp_sent (microphone_run cfg r ch True datas)) st =
      Some (fold (encode_opus_frame encode track_ok) frames st) \<and>
    length frames = mono_samples ch datas div frame_samples r \<and>
    (\<forall>f\<in>set frames. length f = OPUS_FRAME_SAMPLES \<and> (\<forall>x\<in>set f. clamp_unit x = x))"
proof -
  obtain fs where fs: "cp_sent (microphone_run cfg r ch True datas) = map (encode_audio_frame r) fs"
    "\<forall>f\<in>set fs. length f = frame_samples r \<and> (\<forall>x\<in>set f. clamp_unit x = x)" "length fs = mono_samples ch datas div frame_samples r"
    by (rule microphone_run_sent)
  then have good: "\<forall>p\<in>set (cp_sent (microphone_run cfg r ch True datas)). sound_sendable p"
    using frame_covers_rate [OF assms] by (auto intro!: sound_sendableI)
  then have "audio_sender encode track_ok (cp_sent (microphone_run cfg r ch True datas)) st =
      Some (fold (encode_opus_frame encode track_ok) (map opus_frame (cp_sent (microphone_run cfg r ch True datas))) st)"
    by (simp add: audio_sender_def sound.loop_works fold_map comp_def)
  then show ?thesis using fs(1,3) good sendable_frame(1,2)
    by (intro exI [of _ "map opus_frame (cp_sent (microphone_run cfg r ch True datas))"]) auto
qed

lemma those_none: "f x = None \<Longrightarrow> x \<in> set xs \<Longrightarrow> those (map f xs) = None"
  by (induction xs) (auto split: option.splits)

text \<open>At 11025 Hz a frame of 20 ms has 220 samples and the last index is 220: the thread panics.\<close>

lemma sound_at_11025_panics: "send_audio_frame encode track_ok (encode_audio_frame 11025 (replicate 220 0)) st = None"
proof -
  let ?s = "replicate 220 (0 :: f32)"
  have "f_div (f_of_nat 11025) (f_of_nat 48000) = 0x3E6B3333" by (simp add: literals) (simp add: f_eval)
  moreover have "f_mul (f_of_nat 959) 0x3E6B3333 = 0x435C4533" by (simp add: f_eval)
  moreover have "nat (f_trunc 0 (2 ^ 64 - 1) (f_floor 0x435C4533)) = 220"
    by (simp add: f_floor_def f_trunc_def f_of_int_def f_eval)
  ultimately have "resample_at (f_div (f_of_nat 11025) (f_of_nat 48000)) ?s 959 = None" by (simp add: resample_at_def Let_def)
  then have "those (map (resample_at (f_div (f_of_nat 11025) (f_of_nat 48000)) ?s) [0..<OPUS_FRAME_SAMPLES]) = None"
    by (rule those_none) (simp add: OPUS_FRAME_SAMPLES_def)
  then have "resample_to_opus 11025 ?s = None" by (simp add: resample_to_opus_def Let_def)
  moreover have "clamp_unit 0 = 0" by (simp add: clamp_unit_def)
  ultimately show ?thesis by (simp add: send_audio_frame_def)
qed

lemma captured_sound_is_encoded_witness:
  "\<exists>frames. audio_sender (\<lambda>e f. (Some [], e)) (\<lambda>_. True)
      (cp_sent (microphone_run \<lparr>noise_suppression = True, automatic_gain_control = True\<rparr> 44100 1 True [replicate 1000 (I16 100)]))
      ((), new_call_media) = Some (fold (encode_opus_frame (\<lambda>e f. (Some [], e)) (\<lambda>_. True)) frames ((), new_call_media)) \<and>
    length frames = mono_samples 1 [replicate 1000 (I16 100)] div frame_samples 44100"
proof -
  have "50 dvd unat (44100 :: u32) \<or> unat (44100 :: u32) \<le> 8000" by simp
  from captured_sound_is_encoded [OF this, of "\<lambda>e f. (Some [], e)" "\<lambda>_. True"] show ?thesis by blast
qed

section \<open>All threads of a call\<close>

text \<open>The libraries and devices of one call.\<close>

record ('e, 'h, 'y, 'c, 'b, 'd, 'o) call_codecs =
  cc_opus_encode :: "'e opus_encode"
  cc_h264_encode :: "('h, 'y) h264_encode"
  cc_intra :: "'h \<Rightarrow> 'h"
  cc_yuv :: "u32 \<Rightarrow> u32 \<Rightarrow> bytes \<Rightarrow> 'y option"
  cc_audio_ok :: "bytes list \<Rightarrow> bool"
  cc_video_ok :: "bytes list \<Rightarrow> bool"
  cc_channel_decode :: "'c h264_decode"
  cc_build :: "'b \<Rightarrow> bytes \<Rightarrow> bytes list \<times> 'b"
  cc_video_decode :: "'d picture_decode"
  cc_opus_decode :: "'o opus_decode"

text \<open>A sender that has panicked is \<open>None\<close>; the speaker plays or waits.\<close>

record ('e, 'h, 'c, 'b, 'd, 'o) call_state =
  cs_media :: call_media
  cs_audio_sender :: "'e option"
  cs_video_sender :: "'h video_sender option"
  cs_channel_decoder :: "'c option"
  cs_video_track :: "'b \<times> 'd \<times> u64"
  cs_opus :: 'o
  cs_playing :: bool

inductive call_step ::
  "('e, 'h, 'y, 'c, 'b, 'd, 'o) call_codecs \<Rightarrow> ('e, 'h, 'c, 'b, 'd, 'o) call_state \<Rightarrow>
   ('e, 'h, 'c, 'b, 'd, 'o) call_state \<Rightarrow> bool"
  for C where
  audio_sent: "cs_audio_sender S = Some e \<Longrightarrow>
    send_audio_frame (cc_opus_encode C) (cc_audio_ok C) frame (e, cs_media S) = Some (e', cm) \<Longrightarrow>
    call_step C S (S\<lparr>cs_audio_sender := Some e', cs_media := cm\<rparr>)"
| audio_panic: "cs_audio_sender S = Some e \<Longrightarrow>
    send_audio_frame (cc_opus_encode C) (cc_audio_ok C) frame (e, cs_media S) = None \<Longrightarrow>
    call_step C S (S\<lparr>cs_audio_sender := None\<rparr>)"
| video_sent: "cs_video_sender S = Some v \<Longrightarrow>
    send_video_frame (cc_h264_encode C) (cc_intra C) (cc_yuv C) (cc_video_ok C) picture (v, cs_media S) = Some (v', cm) \<Longrightarrow>
    call_step C S (S\<lparr>cs_video_sender := Some v', cs_media := cm\<rparr>)"
| video_panic: "cs_video_sender S = Some v \<Longrightarrow>
    send_video_frame (cc_h264_encode C) (cc_intra C) (cc_yuv C) (cc_video_ok C) picture (v, cs_media S) = None \<Longrightarrow>
    call_step C S (S\<lparr>cs_video_sender := None\<rparr>)"
| video_packet: "video_track_packet (cc_video_decode C) (cc_build C) packet
      (fst (cs_video_track S), snd (cs_video_track S), cs_media S) = (b, d, cm) \<Longrightarrow>
    call_step C S (S\<lparr>cs_video_track := (b, d), cs_media := cm\<rparr>)"
| audio_packet: "audio_track_packet (cc_opus_decode C) packet (cs_opus S, cs_media S) = (d, cm) \<Longrightarrow>
    call_step C S (S\<lparr>cs_opus := d, cs_media := cm\<rparr>)"
| channel_data: "channel_message (cc_channel_decode C) data (cs_channel_decoder S, cs_media S) = (d, cm) \<Longrightarrow>
    call_step C S (S\<lparr>cs_channel_decoder := d, cs_media := cm\<rparr>)"
| track_started: "on_track mime ok (cs_media S) = (k, cm) \<Longrightarrow> call_step C S (S\<lparr>cs_media := cm\<rparr>)"
| connection_state: "call_step C S (S\<lparr>cs_media := on_connection_state state (cs_media S)\<rparr>)"
| data_channel: "call_step C S (S\<lparr>cs_media := on_data_channel (cs_media S)\<rparr>)"
| channel_open: "call_step C S (S\<lparr>cs_media := on_channel_open (cs_media S)\<rparr>)"
| channel_closed: "call_step C S (S\<lparr>cs_media := (cs_media S)\<lparr>cm_channel := Some False\<rparr>\<rparr>)"
| speaker: "playback_callback channels from_f32 (out :: sample list) (cs_playing S, cm_queue (cs_media S)) = (played, playing, queue) \<Longrightarrow>
    call_step C S (S\<lparr>cs_playing := playing, cs_media := (cs_media S)\<lparr>cm_queue := queue\<rparr>\<rparr>)"

text \<open>A fresh session after its sender threads have started.\<close>

definition call_start :: "bool option \<Rightarrow> bool \<Rightarrow> 'e option \<Rightarrow> bool \<Rightarrow> string + 'h \<Rightarrow> ('e, 'h, 'c, 'b, 'd, 'o) call_state \<Rightarrow> bool" where
  "call_start channel runtime1 opus runtime2 h264 S \<longleftrightarrow> \<not> cs_playing S \<and>
     (let (a, cm) = start_audio_sender runtime1 opus (new_call_media\<lparr>cm_channel := channel\<rparr>);
          (v, cm) = start_video_sender runtime2 h264 cm
      in cs_audio_sender S = a \<and> cs_video_sender S = v \<and> cs_media S = cm)"

definition media_ok :: "call_media \<Rightarrow> bool" where
  "media_ok cm \<longleftrightarrow> length (cm_queue cm) \<le> PLAYBACK_BUFFER_MAX \<and> cm_level cm \<le> 1000 \<and>
     (\<forall>m\<in>set (cm_channel_out cm). \<exists>w h n body. m = encode_h264_video_frame w h n body)"

named_theorems media_ok_intros

lemma media_ok_status [media_ok_intros]: "media_ok cm \<Longrightarrow> media_ok (cm\<lparr>cm_status := s\<rparr>)"
  by (simp add: media_ok_def)

lemma media_ok_channel [media_ok_intros]: "media_ok cm \<Longrightarrow> media_ok (cm\<lparr>cm_channel := c\<rparr>)"
  by (simp add: media_ok_def)

lemma media_ok_send_audio [media_ok_intros]:
  "media_ok cm \<Longrightarrow> send_audio_frame encode ok frame (e, cm) = Some (e', cm') \<Longrightarrow> media_ok cm'"
  by (auto simp: send_audio_frame_def encode_opus_frame_def write_audio_def media_ok_def
      split: option.splits prod.splits if_splits)

lemma media_ok_senders:
  "media_ok cm \<Longrightarrow> start_audio_sender runtime opus cm = (a, cm') \<Longrightarrow> media_ok cm'"
  "media_ok cm \<Longrightarrow> start_video_sender runtime h264 cm = (v, cm') \<Longrightarrow> media_ok cm'"
  by (auto simp: start_audio_sender_def start_video_sender_def media_ok_status split: if_splits option.splits sum.splits)

lemma media_ok_write_video: "media_ok cm \<Longrightarrow> media_ok (write_video ok frame bits cm)"
  by (auto simp: write_video_def media_ok_def Let_def)

lemma media_ok_send_video [media_ok_intros]:
  "media_ok cm \<Longrightarrow> send_video_frame encode intra yuv ok frame (v, cm) = Some (v', cm') \<Longrightarrow> media_ok cm'"
  by (auto simp: send_video_frame_def Let_def intro: media_ok_write_video media_ok_status
      split: option.splits prod.splits sum.splits)

lemma media_ok_video_sample: "media_ok (snd st) \<Longrightarrow> media_ok (snd (video_track_sample decode sample st))"
  by (auto simp: video_track_sample_def media_ok_def Let_def split: prod.splits option.splits)

lemma media_ok_video_packet [media_ok_intros]:
  assumes "media_ok cm" "video_track_packet decode build packet (b, d, cm) = (b', d', cm')"
  shows "media_ok cm'"
proof -
  have fold: "media_ok (snd (fold (video_track_sample decode) samples st))" if "media_ok (snd st)" for samples st
    using that by (induction samples arbitrary: st) (simp_all add: media_ok_video_sample)
  obtain samples b'' where "build b packet = (samples, b'')" by force
  then show ?thesis using assms fold [of "(d, cm)" samples] by (simp add: video_track_packet_def)
qed

lemma media_ok_audio_packet [media_ok_intros]:
  "media_ok cm \<Longrightarrow> audio_track_packet decode packet (d, cm) = (d', cm') \<Longrightarrow> media_ok cm'"
  using peak_level_bound enqueue_bound
  by (auto simp: audio_track_packet_def media_ok_def split: prod.splits option.splits)

lemma media_ok_channel_message [media_ok_intros]:
  assumes "media_ok cm" "channel_message h264 data (d, cm) = (d', cm')"
  shows "media_ok cm'"
  using assms queue_stays_bounded [of "\<lparr>rc_decoder = d, rc_queue = cm_queue cm, rc_video = cm_video cm\<rparr>" h264 "[data]"]
  by (auto simp: channel_message_def media_ok_def Let_def)

lemma media_ok_on_track [media_ok_intros]: "media_ok cm \<Longrightarrow> on_track mime ok cm = (k, cm') \<Longrightarrow> media_ok cm'"
  by (auto simp: on_track_def media_ok_def Let_def split: if_splits)

lemma playback_frames_shorter: "length (snd (snd (playback_frames n conv frames st))) \<le> length (snd st)"
proof (induction frames arbitrary: st)
  case (Cons f frames)
  have "length (snd (snd (playback_frame n st))) \<le> length (snd st)"
    by (auto simp: playback_frame_def pop_while_longer_eq Let_def split: prod.splits list.splits)
      (metis diff_le_self le_trans length_Cons length_drop Suc_leD)+
  then show ?case using Cons.IH [of "snd (playback_frame n st)"] by (auto simp: Let_def split: prod.splits)
qed simp

lemma media_ok_speaker [media_ok_intros]:
  "media_ok cm \<Longrightarrow> playback_callback ch conv out (p, cm_queue cm) = (o', p', q) \<Longrightarrow> media_ok (cm\<lparr>cm_queue := q\<rparr>)"
  using playback_frames_shorter [of "length out div max ch 1" conv "chunks_of (max ch 1) out" "(p, cm_queue cm)"]
  by (simp add: playback_callback_def media_ok_def)

lemma call_step_ok: "call_step C S T \<Longrightarrow> media_ok (cs_media S) \<Longrightarrow> media_ok (cs_media T)"
  by (induction rule: call_step.induct)
    (auto intro: media_ok_intros simp: on_connection_state_def on_data_channel_def on_channel_open_def)

text \<open>
  C38.  However the threads of a call interleave - the two senders, the receivers of both tracks, the
  data channel's callback, the speaker and the connection's events, with any bytes from the peer -
  at most two seconds of sound wait for the speaker, the peer's level is at most 1000, and what
  went out on the data channel are frames of the receiver's video format.
\<close>

theorem call_threads_invariant:
  assumes "call_start channel runtime1 opus runtime2 h264 S" "(call_step C)\<^sup>*\<^sup>* S T"
  shows "length (cm_queue (cs_media T)) \<le> PLAYBACK_BUFFER_MAX \<and> cm_level (cs_media T) \<le> 1000 \<and>
    (\<forall>m\<in>set (cm_channel_out (cs_media T)). \<exists>w h n body. m = encode_h264_video_frame w h n body)"
proof -
  have "media_ok (new_call_media\<lparr>cm_channel := channel\<rparr>)" by (simp add: new_call_media_def media_ok_def)
  then have "media_ok (cs_media S)" using assms(1)
    by (auto simp: call_start_def split: prod.splits dest!: media_ok_senders(2) [rotated] media_ok_senders(1) [rotated])
  with assms(2) have "media_ok (cs_media T)" by (induction rule: rtranclp_induct) (auto intro: call_step_ok)
  then show ?thesis by (simp add: media_ok_def)
qed

text \<open>A call on trivial codecs that receives one packet of sound.\<close>

definition unit_codecs :: "(unit, unit, unit, unit, unit, unit, unit) call_codecs" where
  "unit_codecs = \<lparr>cc_opus_encode = \<lambda>e f. (None, e), cc_h264_encode = \<lambda>h y. (Inr [], h), cc_intra = id,
     cc_yuv = \<lambda>w h rgb. Some (), cc_audio_ok = \<lambda>_. True, cc_video_ok = \<lambda>_. True,
     cc_channel_decode = \<lambda>d b. (None, d), cc_build = \<lambda>b p. ([], b), cc_video_decode = \<lambda>d b. (None, d),
     cc_opus_decode = \<lambda>d b. (Some [0x40000000], d)\<rparr>"

definition unit_call :: "(unit, unit, unit, unit, unit, unit) call_state" where
  "unit_call = \<lparr>cs_media = new_call_media, cs_audio_sender = Some (),
     cs_video_sender = Some \<lparr>vs_encoder = Some (), vs_encoded = 0\<rparr>, cs_channel_decoder = None,
     cs_video_track = ((), (), 0), cs_opus = (), cs_playing = False\<rparr>"

lemma unit_call_receives:
  "call_start None True (Some ()) True (Inr ()) unit_call"
  "call_step unit_codecs unit_call (unit_call\<lparr>cs_opus := (),
     cs_media := new_call_media\<lparr>cm_level := peak_level [f_abs 0x40000000], cm_queue := [0x40000000]\<rparr>\<rparr>)"
proof -
  show "call_start None True (Some ()) True (Inr ()) unit_call"
    by (simp add: call_start_def start_audio_sender_def start_video_sender_def unit_call_def new_call_media_def)
  have "enqueue_samples [0x40000000] [] = [0x40000000]" by (simp add: enqueue_samples_def pop_while_longer_eq playback_consts)
  then have "audio_track_packet (cc_opus_decode unit_codecs) [] (cs_opus unit_call, cs_media unit_call) =
      ((), new_call_media\<lparr>cm_level := peak_level [f_abs 0x40000000], cm_queue := [0x40000000]\<rparr>)"
    by (simp add: audio_track_packet_def unit_codecs_def unit_call_def new_call_media_def)
  from call_step.audio_packet [OF this] show "call_step unit_codecs unit_call (unit_call\<lparr>cs_opus := (),
     cs_media := new_call_media\<lparr>cm_level := peak_level [f_abs 0x40000000], cm_queue := [0x40000000]\<rparr>\<rparr>)" .
qed

lemma call_threads_invariant_witness:
  "length [0x40000000 :: f32] \<le> PLAYBACK_BUFFER_MAX \<and> peak_level [f_abs 0x40000000] \<le> 1000"
  using call_threads_invariant [OF unit_call_receives(1) r_into_rtranclp [where r = "call_step unit_codecs", OF unit_call_receives(2)]]
  by simp

end
