(* ===== verification/Media_Setup.thy ===== *)
theory Media_Setup
  imports Media_Threads App_Calls
begin

text \<open>
  How the streams of a call start, \<open>client-ui/src/media.rs\<close>: the sound devices, the negotiation of
  a WebRTC session and the camera's thread.  Devices, camera and peer connection are parameters.
\<close>

section \<open>Sound devices\<close>

datatype sample_format = SfF32 | SfI16 | SfU16 | SfOther string

text \<open>A host: its default device and the named ones, a device's default configuration, and building
  and starting a stream on it.\<close>

record ('d, 's, 'w) sound_host =
  sh_default :: "'d option"
  sh_devices :: "(string \<times> 'd) list"
  sh_config :: "'d \<Rightarrow> ('w, string, sample_format) comp"
  sh_build :: "'d \<Rightarrow> sample_format \<Rightarrow> ('w, string, 's) comp"
  sh_play :: "'s \<Rightarrow> ('w, string, unit) comp"

definition supported_format :: "sample_format \<Rightarrow> bool" where
  "supported_format f \<longleftrightarrow> f \<in> {SfF32, SfI16, SfU16}"

definition format_name :: "sample_format \<Rightarrow> string" where
  "format_name f = (case f of SfF32 \<Rightarrow> ''F32'' | SfI16 \<Rightarrow> ''I16'' | SfU16 \<Rightarrow> ''U16'' | SfOther s \<Rightarrow> s)"

definition start_stream :: "string \<Rightarrow> ('d, 's, 'w) sound_host \<Rightarrow> 'd option \<Rightarrow> ('w, string, 's) comp" where
  "start_stream kind H chosen =
     bindS (ok_or chosen (kind @ '' not found'')) (\<lambda>device.
     bindS (sh_config H device) (\<lambda>format.
     bindS (reject_if (\<not> supported_format format) (''unsupported '' @ kind @ '' sample format: '' @ format_name format)) (\<lambda>_.
     bindS (sh_build H device format) (\<lambda>stream.
     bindS (sh_play H stream) (\<lambda>_. returnS stream)))))"

definition start_microphone_capture_with_sender :: "('d, 's, 'w) sound_host \<Rightarrow> string \<Rightarrow> ('w, string, 's) comp" where
  "start_microphone_capture_with_sender H device_name =
     start_stream ''microphone'' H (select_device device_name (sh_default H) (sh_devices H))"

definition start_audio_playback :: "('d, 's, 'w) sound_host \<Rightarrow> string \<Rightarrow> ('w, string, 's) comp" where
  "start_audio_playback H device_name =
     start_stream ''speaker'' H (select_device device_name (sh_default H) (sh_devices H))"

text \<open>The tone falls back to the default device.\<close>

definition run_call_tone :: "('d, 's, 'w) sound_host \<Rightarrow> string \<Rightarrow> ('w, string, 's) comp" where
  "run_call_tone H device_name =
     start_stream ''speaker'' H
       (case select_device device_name (sh_default H) (sh_devices H) of Some d \<Rightarrow> Some d | None \<Rightarrow> sh_default H)"

section \<open>Negotiation\<close>

text \<open>
  The peer connection on a state \<open>'w\<close>: the runtime, the codecs, the connection and its tracks and
  channel, offers, answers, descriptions, the end of the gathering, and JSON.
\<close>

record ('w, 'sd) rtc_api =
  ra_runtime :: "('w, string, unit) comp"
  ra_register_codecs :: "('w, string, unit) comp"
  ra_new_peer :: "(string list \<times> string \<times> string) list \<Rightarrow> ('w, string, unit) comp"
  ra_add_track :: "string \<Rightarrow> ('w, string, unit) comp"
  ra_create_channel :: "string \<Rightarrow> ('w, string, unit) comp"
  ra_create_offer :: "('w, string, 'sd) comp"
  ra_create_answer :: "('w, string, 'sd) comp"
  ra_set_local :: "'sd \<Rightarrow> ('w, string, unit) comp"
  ra_set_remote :: "'sd \<Rightarrow> ('w, string, unit) comp"
  ra_gathered :: "'w \<Rightarrow> 'w"
  ra_local :: "'w \<Rightarrow> 'sd option"
  ra_to_json :: "'sd \<Rightarrow> string + string"
  ra_from_json :: "string \<Rightarrow> string + 'sd"

text \<open>\<open>WebRtcSession::new\<close>: only the caller creates the data channel.\<close>

definition session_new :: "('w, 'sd) rtc_api \<Rightarrow> bool \<Rightarrow> ice_config \<Rightarrow> ('w, string, call_media) comp" where
  "session_new R create_data_channel ice =
     bindS (ra_register_codecs R) (\<lambda>_.
     bindS (ra_new_peer R (rtc_config ice)) (\<lambda>_.
     bindS (ra_add_track R ''audio/opus'') (\<lambda>_.
     bindS (ra_add_track R ''video/H264'') (\<lambda>_.
     if create_data_channel
     then bindS (ra_create_channel R ''rsmsg-call'') (\<lambda>_. returnS (new_call_media\<lparr>cm_channel := Some False\<rparr>))
     else returnS new_call_media))))"

definition gathered_description :: "('w, 'sd) rtc_api \<Rightarrow> string \<Rightarrow> ('w, string, 'sd) comp" where
  "gathered_description R missing =
     bindS (modifyS (ra_gathered R)) (\<lambda>_.
     bindS (readS (ra_local R)) (\<lambda>local. ok_or local missing))"

definition create_offer :: "('w, 'sd) rtc_api \<Rightarrow> ice_config \<Rightarrow> ('w, string, call_media \<times> string) comp" where
  "create_offer R ice =
     bindS (ra_runtime R) (\<lambda>_.
     bindS (session_new R True ice) (\<lambda>session.
     bindS (ra_create_offer R) (\<lambda>offer.
     bindS (ra_set_local R offer) (\<lambda>_.
     bindS (gathered_description R ''missing local WebRTC offer'') (\<lambda>local.
     bindS (lift_result (ra_to_json R local)) (\<lambda>json. returnS (session, json)))))))"

definition create_answer :: "('w, 'sd) rtc_api \<Rightarrow> string \<Rightarrow> ice_config \<Rightarrow> ('w, string, call_media \<times> string) comp" where
  "create_answer R offer_payload ice =
     bindS (ra_runtime R) (\<lambda>_.
     bindS (session_new R False ice) (\<lambda>session.
     bindS (lift_result (ra_from_json R offer_payload)) (\<lambda>offer.
     bindS (ra_set_remote R offer) (\<lambda>_.
     bindS (ra_create_answer R) (\<lambda>answer.
     bindS (ra_set_local R answer) (\<lambda>_.
     bindS (gathered_description R ''missing local WebRTC answer'') (\<lambda>local.
     bindS (lift_result (ra_to_json R local)) (\<lambda>json. returnS (session, json)))))))))"

definition apply_answer :: "('w, 'sd) rtc_api \<Rightarrow> string \<Rightarrow> ('w, string, unit) comp" where
  "apply_answer R answer_payload =
     bindS (lift_result (ra_from_json R answer_payload)) (\<lambda>answer. ra_set_remote R answer)"

section \<open>The camera\<close>

text \<open>
  One turn of the loop: the stop flag is read, then a picture is taken or the camera fails; a
  picture carries the clock in milliseconds at the check of the interval and at its end.
\<close>

datatype camera_event = CameraStop | CameraError string | CameraPicture nat nat u32 u32 bytes

record camera =
  ca_latest :: "video_frame_info option"
  ca_status :: string
  ca_frames :: u64
  ca_last_sent :: nat
  ca_sent :: "(nat \<times> video_frame_info) list"

definition VIDEO_FRAME_DURATION :: nat where "VIDEO_FRAME_DURATION = 42"

definition camera_picture :: "bool \<Rightarrow> nat \<Rightarrow> nat \<Rightarrow> u32 \<Rightarrow> u32 \<Rightarrow> bytes \<Rightarrow> camera \<Rightarrow> camera" where
  "camera_picture video_tx check end_time image_width image_height raw ca =
     (let (width, height, rgb) = preview_rgb image_width image_height raw;
          frames = sat_succ (ca_frames ca);
          info = \<lparr>vf_width = width, vf_height = height, vf_frames = frames, vf_rgb = rgb\<rparr>;
          ca = ca\<lparr>ca_frames := frames, ca_latest := Some info\<rparr>
      in if VIDEO_FRAME_DURATION \<le> check - ca_last_sent ca
         then ca\<lparr>ca_sent := (if video_tx then ca_sent ca @ [(check, info)] else ca_sent ca), ca_last_sent := end_time\<rparr>
         else ca)"

primrec camera_loop :: "bool \<Rightarrow> camera_event list \<Rightarrow> (camera, string, unit) comp" where
  "camera_loop video_tx [] = returnS ()"
| "camera_loop video_tx (event # events) =
     (case event of
        CameraStop \<Rightarrow> returnS ()
      | CameraError err \<Rightarrow> failS err
      | CameraPicture check end_time w h raw \<Rightarrow>
          bindS (modifyS (camera_picture video_tx check end_time w h raw)) (\<lambda>_. camera_loop video_tx events))"

definition camera_index :: "string \<Rightarrow> (string \<times> nat) list \<Rightarrow> (camera, string, nat) comp" where
  "camera_index device_name cameras =
     (if device_name = SYSTEM_DEFAULT_DEVICE
      then returnS (case cameras of [] \<Rightarrow> 0 | camera # _ \<Rightarrow> snd camera)
      else ok_or (map_option snd (List.find (\<lambda>(name, _). name = device_name) cameras)) ''camera not found'')"

definition run_camera_capture ::
  "bool \<Rightarrow> string + (string \<times> nat) list \<Rightarrow> (nat \<Rightarrow> string + unit) \<Rightarrow> nat \<Rightarrow> string \<Rightarrow> bool \<Rightarrow> camera_event list \<Rightarrow>
   (camera, string, unit) comp" where
  "run_camera_capture backend cameras open_stream now device_name video_tx events =
     bindS (reject_if (\<not> backend) ''camera backend unavailable'') (\<lambda>_.
     bindS (lift_result cameras) (\<lambda>cameras.
     bindS (camera_index device_name cameras) (\<lambda>index.
     bindS (lift_result (open_stream index)) (\<lambda>_.
     bindS (modifyS (\<lambda>ca. ca\<lparr>ca_status := ''Camera capture active'', ca_frames := 0, ca_last_sent := now\<rparr>)) (\<lambda>_.
     camera_loop video_tx events)))))"

definition start_camera_capture ::
  "bool \<Rightarrow> string + (string \<times> nat) list \<Rightarrow> (nat \<Rightarrow> string + unit) \<Rightarrow> nat \<Rightarrow> string \<Rightarrow> bool \<Rightarrow> camera_event list \<Rightarrow> camera" where
  "start_camera_capture backend cameras open_stream now device_name video_tx events =
     (let ca = \<lparr>ca_latest = None, ca_status = ''Camera starting'', ca_frames = 0, ca_last_sent = 0, ca_sent = []\<rparr>
      in case run_camera_capture backend cameras open_stream now device_name video_tx events ca of
           (Inr _, ca) \<Rightarrow> ca
         | (Inl err, ca) \<Rightarrow> ca\<lparr>ca_status := ''Camera capture failed: '' @ err\<rparr>)"

section \<open>What the camera's pictures satisfy\<close>

lemma preview_pixel_length: "length (preview_pixel w h tw th rgb y x out) = length out"
  by (auto simp: preview_pixel_def Let_def)

lemma preview_pixels_length:
  "length (fold (\<lambda>y. fold (\<lambda>x. preview_pixel w h tw th rgb y x) xs) ys out) = length out"
proof -
  have "length (fold (\<lambda>x. preview_pixel w h tw th rgb y x) xs out) = length out" for y out
    by (induction xs arbitrary: out) (simp_all add: preview_pixel_length)
  then show ?thesis by (induction ys arbitrary: out) simp_all
qed

definition picture_fits :: "video_frame_info \<Rightarrow> bool" where
  "picture_fits p \<longleftrightarrow> even (unat (vf_width p)) \<and> even (unat (vf_height p)) \<and>
     length (vf_rgb p) = unat (vf_width p) * unat (vf_height p) * 3"

lemma preview_fits:
  assumes "length raw = unat w * unat h * 3" "preview_rgb w h raw = (tw, th, out)"
  shows "picture_fits \<lparr>vf_width = tw, vf_height = th, vf_frames = n, vf_rgb = out\<rparr>"
proof -
  have t: "(tw, th) = preview_target w h" "length out = unat tw * unat th * 3"
    using assms by (auto simp: preview_rgb_def preview_pixels_length Let_def split: prod.splits if_splits)
  obtain a b where "preview_target w h = (even_dimension a, even_dimension b)" by (simp only: preview_target_def Let_def)
  moreover have "even (unat (even_dimension v))" for v unfolding unat_even_dimension by simp
  ultimately show ?thesis using t by (simp add: picture_fits_def)
qed

text \<open>A well-behaved camera gives as many bytes as its resolution says, and its clock does not go back.\<close>

fun event_fits :: "camera_event \<Rightarrow> bool" where
  "event_fits (CameraPicture _ _ w h raw) \<longleftrightarrow> length raw = unat w * unat h * 3"
| "event_fits _ \<longleftrightarrow> True"

fun clock_ok :: "nat \<Rightarrow> camera_event list \<Rightarrow> bool" where
  "clock_ok now [] \<longleftrightarrow> True"
| "clock_ok now (CameraPicture check end_time _ _ _ # events) \<longleftrightarrow> now \<le> check \<and> check \<le> end_time \<and> clock_ok end_time events"
| "clock_ok now (_ # events) \<longleftrightarrow> clock_ok now events"

definition spaced :: "nat list \<Rightarrow> bool" where
  "spaced ts \<longleftrightarrow> sorted_wrt (\<lambda>a b. a + VIDEO_FRAME_DURATION \<le> b) ts"

definition camera_ok :: "nat \<Rightarrow> camera \<Rightarrow> bool" where
  "camera_ok now ca \<longleftrightarrow> (\<forall>(t, p)\<in>set (ca_sent ca). picture_fits p \<and> t \<le> ca_last_sent ca) \<and> ca_last_sent ca \<le> now \<and>
     spaced (map fst (ca_sent ca))"

lemma camera_picture_ok:
  assumes "camera_ok now ca" "length raw = unat w * unat h * 3" "now \<le> check" "check \<le> end_time"
  shows "camera_ok end_time (camera_picture b check end_time w h raw ca)"
proof -
  obtain tw th out where p: "preview_rgb w h raw = (tw, th, out)" by (metis prod_cases3)
  define info where "info = \<lparr>vf_width = tw, vf_height = th, vf_frames = sat_succ (ca_frames ca), vf_rgb = out\<rparr>"
  have fits: "picture_fits info" unfolding info_def by (rule preview_fits [OF assms(2) p])
  have old: "picture_fits q \<and> t \<le> ca_last_sent ca" if "(t, q) \<in> set (ca_sent ca)" for t q
    using assms(1) that by (auto simp: camera_ok_def)
  show ?thesis
  proof (cases "VIDEO_FRAME_DURATION \<le> check - ca_last_sent ca \<and> b")
    case True
    then have "ca_last_sent ca + VIDEO_FRAME_DURATION \<le> check" unfolding VIDEO_FRAME_DURATION_def by linarith
    then have "t + VIDEO_FRAME_DURATION \<le> check \<and> t \<le> end_time" if "(t, q) \<in> set (ca_sent ca)" for t q
      using old [OF that] assms(4) by simp
    then have "spaced (map fst (ca_sent ca) @ [check])" "\<forall>(t, q)\<in>set (ca_sent ca @ [(check, info)]). picture_fits q \<and> t \<le> end_time"
      using assms(1,4) old fits by (auto simp: spaced_def sorted_wrt_append camera_ok_def)
    then show ?thesis using True by (simp add: camera_ok_def camera_picture_def p info_def [symmetric] Let_def)
  next
    case False
    have "t \<le> end_time" if "(t, q) \<in> set (ca_sent ca)" for t q
      using old [OF that] assms(1,3,4) by (simp add: camera_ok_def)
    then show ?thesis using False assms(1,3,4) old
      by (auto simp: camera_ok_def camera_picture_def p Let_def)
  qed
qed

lemma camera_loop_ok:
  "camera_ok now ca \<Longrightarrow> clock_ok now events \<Longrightarrow> \<forall>e\<in>set events. event_fits e \<Longrightarrow>
    \<exists>now'. camera_ok now' (snd (camera_loop b events ca))"
proof (induction events arbitrary: now ca)
  case (Cons e events)
  show ?case
  proof (cases e)
    case (CameraPicture check end_time w h raw)
    then have "camera_ok end_time (camera_picture b check end_time w h raw ca)" "clock_ok end_time events"
      using camera_picture_ok [OF Cons.prems(1)] Cons.prems(2,3) by simp_all
    from Cons.IH [OF this] show ?thesis using Cons.prems(3) CameraPicture by simp
  qed (use Cons.prems in auto)
qed auto

text \<open>
  C39.  The pictures the camera's thread hands to the video sender can all be encoded: they have even
  dimensions and as many bytes as these say, so the sender's thread survives all of them, given
  that the encoder's conversion only rejects other pictures.  They come at least 42 ms apart, so
  at most 24 a second.
\<close>

theorem camera_pictures_are_encoded:
  assumes "clock_ok now events" "\<forall>e\<in>set events. event_fits e"
    and yuv: "\<And>p. picture_fits p \<Longrightarrow> yuv (vf_width p) (vf_height p) (vf_rgb p) \<noteq> None"
  defines "sent \<equiv> \<lambda>backend cameras open_stream device_name.
      ca_sent (start_camera_capture backend cameras open_stream now device_name True events)"
  shows "video_sender_loop encode intra yuv track_ok (map snd (sent backend cameras open_stream device_name)) st \<noteq> None \<and>
    sorted_wrt (\<lambda>s t. s + 42 \<le> t) (map fst (sent backend cameras open_stream device_name))"
proof -
  have "\<exists>now'. camera_ok now' (start_camera_capture backend cameras open_stream now device_name True events)"
  proof -
    define start where "start = \<lparr>ca_latest = None, ca_status = ''Camera starting'', ca_frames = 0, ca_last_sent = 0, ca_sent = []\<rparr>"
    have keep: "camera_ok n start" "camera_ok now (start\<lparr>ca_status := s, ca_frames := 0, ca_last_sent := now\<rparr>)" for n s
      by (simp_all add: camera_ok_def spaced_def start_def)
    have status: "camera_ok n (ca\<lparr>ca_status := s\<rparr>) = camera_ok n ca" for n ca s by (simp add: camera_ok_def)
    have "\<exists>now'. camera_ok now' (snd (run_camera_capture backend cameras open_stream now device_name True events start))"
      using camera_loop_ok [OF keep(2) assms(1,2)] keep(1)
      by (auto simp: run_camera_capture_def bindS_apply reject_if_def camera_index_def ok_or_def split: sum.splits option.splits)
    then show ?thesis by (auto simp: start_camera_capture_def start_def [symmetric] status Let_def split: prod.splits sum.splits)
  qed
  then have ok: "\<forall>p\<in>set (map snd (sent backend cameras open_stream device_name)). picture_fits p"
    "spaced (map fst (sent backend cameras open_stream device_name))" by (auto simp: camera_ok_def sent_def)
  then have "\<forall>p\<in>set (map snd (sent backend cameras open_stream device_name)). yuv (vf_width p) (vf_height p) (vf_rgb p) \<noteq> None"
    using yuv by blast
  then have "video_sender_loop encode intra yuv track_ok (map snd (sent backend cameras open_stream device_name)) st \<noteq> None"
    by (simp add: video_sender_loop_def video.loop_works)
  then show ?thesis using ok by (simp add: spaced_def VIDEO_FRAME_DURATION_def)
qed

lemma camera_pictures_are_encoded_witness:
  "video_sender_loop (\<lambda>h y. (Inr [], h)) id (\<lambda>w h rgb. Some ()) (\<lambda>_. True)
     (map snd (ca_sent (start_camera_capture True (Inr [(''cam'', 0)]) (\<lambda>_. Inr ()) 7 ''cam'' True
       [CameraPicture 50 51 2 2 (replicate 12 0), CameraStop])))
     (\<lparr>vs_encoder = Some (), vs_encoded = 0\<rparr>, new_call_media) \<noteq> None \<and>
   ca_frames (start_camera_capture True (Inr [(''cam'', 0)]) (\<lambda>_. Inr ()) 7 ''cam'' True
       [CameraPicture 50 51 2 2 (replicate 12 0), CameraStop]) = 1"
proof -
  have "clock_ok 7 [CameraPicture 50 51 2 2 (replicate 12 0), CameraStop]"
    "\<forall>e\<in>set [CameraPicture 50 51 2 2 (replicate 12 0), CameraStop]. event_fits e" by simp_all
  note run = camera_pictures_are_encoded [OF this, of "\<lambda>w h rgb. Some ()" "\<lambda>h y. (Inr [], h)" id "\<lambda>_. True" True
      "Inr [(''cam'', 0)]" "\<lambda>_. Inr ()" "''cam''"]
  have "ca_frames (start_camera_capture True (Inr [(''cam'', 0)]) (\<lambda>_. Inr ()) 7 ''cam'' True
       [CameraPicture 50 51 2 2 (replicate 12 0), CameraStop]) = 1"
    by (simp add: start_camera_capture_def run_camera_capture_def camera_index_def SYSTEM_DEFAULT_DEVICE_def bindS_apply
        camera_picture_def sat_succ_def Let_def split: prod.split)
  with run show ?thesis by blast
qed

section \<open>A negotiated session\<close>

text \<open>Only the caller's session has a channel, not open yet; everything else is fresh on both sides.\<close>

lemma session_new_media:
  "session_new R create ice w = (Inr cm, w') \<Longrightarrow>
    cm = (if create then new_call_media\<lparr>cm_channel := Some False\<rparr> else new_call_media)"
  by (auto simp: session_new_def comp_simps split: if_splits)

lemma offer_starts_call: "create_offer R ice w = (Inr (cm, json), w') \<Longrightarrow> cm = new_call_media\<lparr>cm_channel := Some False\<rparr>"
  by (auto simp: create_offer_def comp_simps dest: session_new_media)

lemma answer_starts_call: "create_answer R offer ice w = (Inr (cm, json), w') \<Longrightarrow> cm = new_call_media"
  by (auto simp: create_answer_def comp_simps dest: session_new_media)

text \<open>A stream is only built for the three formats the callbacks know.\<close>

lemma started_stream_supported:
  assumes "start_stream kind H chosen w = (Inr s, w')"
  shows "\<exists>d f w1 w2. chosen = Some d \<and> sh_config H d w = (Inr f, w1) \<and> supported_format f \<and> sh_build H d f w1 = (Inr s, w2)"
  using assms by (auto simp: start_stream_def comp_simps)

end
