(* ===== verification/Process_Shell.thy ===== *)
theory Process_Shell
  imports App_Window
begin

text \<open>
  What surrounds the programs: the desktop notification (\<open>notifications.rs\<close>), the tray icon and its
  menu (\<open>tray.rs\<close>), opening a URL (\<open>updater.rs\<close>), the width of a message bubble (\<open>message_ui.rs\<close>)
  and the arguments of the server (\<open>main.rs\<close>).  Running a command, the image library and the tray are
  parameters.
\<close>

datatype platform = Windows | MacOS | OtherUnix

section \<open>Notifications\<close>

abbreviation quote :: char where "quote \<equiv> CHR 0x22"
abbreviation backslash :: char where "backslash \<equiv> CHR 0x5C"

definition applescript_string :: "string \<Rightarrow> string" where
  "applescript_string value =
     (let escaped = replace_all [quote] [backslash, quote] (replace_all [backslash] [backslash, backslash] value)
      in quote # escaped @ [quote])"

text \<open>What the notifying thread does: \<open>osascript -e\<close> with a script, or the desktop's service.\<close>

datatype desktop_call = OsaScript string | DesktopNotification string string string

definition notify :: "platform \<Rightarrow> string \<Rightarrow> string \<Rightarrow> desktop_call" where
  "notify p title body =
     (if p = MacOS
      then OsaScript (''display notification '' @ applescript_string body @ '' with title '' @ applescript_string title)
      else DesktopNotification ''rsmsg'' title body)"

text \<open>How AppleScript reads a string literal after its opening quote: a backslash takes the next
  character as it is, but for the letters of tabulator, line feed and return.\<close>

fun read_literal :: "string \<Rightarrow> (string \<times> string) option" where
  "read_literal [] = None"
| "read_literal (c # s) =
     (if c = quote then Some ([], s)
      else if c = backslash then
        (case s of [] \<Rightarrow> None
         | d # t \<Rightarrow>
             if d \<in> {quote, backslash} then map_option (apfst ((#) d)) (read_literal t)
             else if d = CHR ''t'' then map_option (apfst ((#) (CHR 0x09))) (read_literal t)
             else if d = CHR ''n'' then map_option (apfst ((#) (CHR 0x0A))) (read_literal t)
             else if d = CHR ''r'' then map_option (apfst ((#) (CHR 0x0D))) (read_literal t)
             else None)
      else map_option (apfst ((#) c)) (read_literal s))"

definition read_after :: "string \<Rightarrow> string \<Rightarrow> (string \<times> string) option" where
  "read_after prefix s =
     (if take (length prefix + 1) s = prefix @ [quote] then read_literal (drop (length prefix + 1) s) else None)"

text \<open>The body and the title of a script that is one notification and nothing else.\<close>

definition read_notification :: "string \<Rightarrow> (string \<times> string) option" where
  "read_notification script =
     (case read_after ''display notification '' script of
        None \<Rightarrow> None
      | Some (body, rest) \<Rightarrow>
          (case read_after '' with title '' rest of
             Some (title, []) \<Rightarrow> Some (body, title)
           | _ \<Rightarrow> None))"

lemma replace_one: "replace_all [c] to s = concat (map (\<lambda>d. if d = c then to else [d]) s)"
proof (induction s)
  case Nil
  show ?case by (subst replace_all.simps) simp
next
  case (Cons d s)
  then show ?case by (subst replace_all.simps) simp
qed

lemma read_escaped:
  "read_literal (replace_all [quote] [backslash, quote] (replace_all [backslash] [backslash, backslash] s) @ quote # rest) =
     Some (s, rest)"
  unfolding replace_one by (induction s) simp_all

lemma read_after_literal: "read_after prefix (prefix @ applescript_string s @ rest) = Some (s, rest)"
  using read_escaped [of s rest] by (simp add: read_after_def applescript_string_def Let_def)

text \<open>
  C40.  No message can reach the script of its notification: on macOS, whatever characters the peer
  chose - quotes, backslashes, line ends - AppleScript reads back exactly the text and the title,
  and nothing is left over.
\<close>

theorem notification_script_reads:
  "notify MacOS title body = OsaScript script \<Longrightarrow> read_notification script = Some (body, title)"
proof -
  assume "notify MacOS title body = OsaScript script"
  then have "script = ''display notification '' @ applescript_string body @ '' with title '' @ applescript_string title"
    unfolding notify_def by simp
  then show ?thesis
    using read_after_literal [of "''display notification ''" body "'' with title '' @ applescript_string title"]
      read_after_literal [of "'' with title ''" title "[]"]
    by (simp add: read_notification_def)
qed

lemma notification_script_reads_witness:
  "\<exists>script. notify MacOS ''t'' [quote, backslash] = OsaScript script \<and> read_notification script = Some ([quote, backslash], ''t'')"
proof -
  have "notify MacOS ''t'' [quote, backslash] = OsaScript (''display notification '' @ applescript_string [quote, backslash] @
      '' with title '' @ applescript_string ''t'')" by (simp only: notify_def if_True refl)
  then show ?thesis using notification_script_reads by blast
qed

section \<open>The tray\<close>

datatype menu_effect = MenuSends tray_command | MenuExits | MenuIgnored

definition on_menu_event :: "platform \<Rightarrow> 'i \<Rightarrow> 'i \<Rightarrow> 'i \<Rightarrow> menu_effect" where
  "on_menu_event p show_id quit_id event_id =
     (if event_id = show_id then MenuSends TrayShow
      else if event_id = quit_id then (if p = Windows then MenuExits else MenuSends TrayQuit)
      else MenuIgnored)"

text \<open>The tray exists if both entries, the icon and the tray itself do; the handler of the menu is
  set before the icon is known.\<close>

definition app_tray_new :: "bool \<Rightarrow> bool \<Rightarrow> 'i option \<Rightarrow> ('i \<Rightarrow> 't option) \<Rightarrow> 't option \<times> bool" where
  "app_tray_new append_show append_quit icon build =
     (if \<not> append_show \<or> \<not> append_quit then (None, False)
      else (Option.bind icon build, True))"

text \<open>The logo through the image library, resized for the tray; the window falls back to a disc.\<close>

type_synonym rgba_image = "bytes \<times> u32 \<times> u32"

definition icon_rgba :: "'m option \<Rightarrow> (u32 \<Rightarrow> 'm \<Rightarrow> 'm) \<Rightarrow> ('m \<Rightarrow> rgba_image) \<Rightarrow> u32 option \<Rightarrow> rgba_image option" where
  "icon_rgba logo resize_exact into_rgba8 size_opt =
     map_option (\<lambda>image. into_rgba8 (case size_opt of Some n \<Rightarrow> resize_exact n image | None \<Rightarrow> image)) logo"

definition tray_icon :: "'m option \<Rightarrow> (u32 \<Rightarrow> 'm \<Rightarrow> 'm) \<Rightarrow> ('m \<Rightarrow> rgba_image) \<Rightarrow> (rgba_image \<Rightarrow> 'i option) \<Rightarrow> 'i option" where
  "tray_icon logo resize_exact into_rgba8 from_rgba =
     Option.bind (icon_rgba logo resize_exact into_rgba8 (Some 32)) from_rgba"

definition fallback_pixel :: "int \<Rightarrow> int \<Rightarrow> bytes" where
  "fallback_pixel y x =
     (let dx = x - 16; dy = y - 16
      in if dx * dx + dy * dy \<le> 15 * 15 then [233, 87, 43, 255] else [0, 0, 0, 0])"

definition fallback_icon_rgba :: rgba_image where
  "fallback_icon_rgba =
     (concat (map (\<lambda>y. concat (map (\<lambda>x. fallback_pixel (int y) (int x)) [0..<32])) [0..<32]), 32, 32)"

definition app_icon :: "'m option \<Rightarrow> (u32 \<Rightarrow> 'm \<Rightarrow> 'm) \<Rightarrow> ('m \<Rightarrow> rgba_image) \<Rightarrow> rgba_image" where
  "app_icon logo resize_exact into_rgba8 =
     (case icon_rgba logo resize_exact into_rgba8 None of Some icon \<Rightarrow> icon | None \<Rightarrow> fallback_icon_rgba)"

text \<open>The window's icon has four bytes for every pixel, if the library's pictures do.\<close>

lemma app_icon_size:
  assumes "\<And>m. into_rgba8 m = (rgba, w, h) \<Longrightarrow> length rgba = 4 * (unat w * unat h)"
    and "app_icon logo resize_exact into_rgba8 = (rgba, w, h)"
  shows "length rgba = 4 * (unat w * unat h)"
proof -
  have pixel: "length (fallback_pixel y x) = 4" for x y by (simp add: fallback_pixel_def Let_def)
  have "length (fst fallback_icon_rgba) = 4 * (32 * 32)"
    by (simp add: fallback_icon_rgba_def length_concat comp_def pixel sum_list_triv)
  then show ?thesis using assms
    by (auto simp: app_icon_def icon_rgba_def fallback_icon_rgba_def split: option.splits)
qed

section \<open>Opening a URL\<close>

text \<open>A command's outcome: it could not run, or its exit status.\<close>

definition open_command :: "platform \<Rightarrow> string \<Rightarrow> string list" where
  "open_command p url =
     (case p of Windows \<Rightarrow> [''cmd'', ''/C'', ''start'', '''', url] | MacOS \<Rightarrow> [''open'', url] | OtherUnix \<Rightarrow> [''xdg-open'', url])"

definition open_url :: "platform \<Rightarrow> (string list \<Rightarrow> string + bool) \<Rightarrow> string \<Rightarrow> string + unit" where
  "open_url p run url =
     (case run (open_command p url) of
        Inl err \<Rightarrow> Inl err
      | Inr success \<Rightarrow> if success then Inr () else Inl ''could not open update url'')"

section \<open>The width of a bubble\<close>

text \<open>\<open>str::lines\<close>: a line end is stripped with a carriage return before it; no empty last line.\<close>

definition strip_cr :: "string \<Rightarrow> string" where
  "strip_cr s = (if s \<noteq> [] \<and> last s = CHR 0x0D then butlast s else s)"

function str_lines :: "string \<Rightarrow> string list" where
  "str_lines s =
     (if s = [] then []
      else case dropWhile (\<lambda>c. c \<noteq> CHR 0x0A) s of
        [] \<Rightarrow> [s]
      | _ # rest \<Rightarrow> strip_cr (takeWhile (\<lambda>c. c \<noteq> CHR 0x0A) s) # str_lines rest)"
  by pat_completeness auto
termination str_lines
  by (relation "measure length")
    (auto, metis length_dropWhile_le length_Cons Suc_le_lessD)

declare str_lines.simps [simp del]

text \<open>\<open>clamp\<close> panics when its bounds are in the wrong order or not numbers.\<close>

definition estimate_bubble_width :: "string \<Rightarrow> string \<Rightarrow> f32 \<Rightarrow> f32 option" where
  "estimate_bubble_width txt meta max_width =
     (let counts = map (\<lambda>line. length (chars line)) (str_lines txt @ str_lines meta);
          longest = (if counts = [] then 1 else Max (set counts));
          width = f_add (f_mul (f_of_nat longest) (f_lit 75 10)) (f_of_nat 8)
      in if is_nan max_width \<or> f_lt max_width (f_of_nat 48) then None
         else Some (f_clamp (f_of_nat 48) max_width width))"

text \<open>A bubble that is drawn is at least 48 points wide and within the given width.\<close>

lemma bubble_width_bounds:
  assumes "estimate_bubble_width txt meta max_width = Some w"
  shows "\<not> is_nan w \<and> f_key (f_of_nat 48) \<le> f_key w \<and> f_key w \<le> f_key max_width"
proof -
  have "\<not> is_nan (f_of_nat 48)" by (simp add: not_nan_ops)
  moreover from this have m: "\<not> is_nan max_width" "f_key (f_of_nat 48) \<le> f_key max_width"
    using assms by (auto simp: estimate_bubble_width_def f_lt_def Let_def split: if_splits)
  moreover have "\<not> is_nan (f_add (f_mul (f_of_nat n) (f_lit 75 10)) (f_of_nat 8))" for n
  proof (rule not_nan_add)
    have lit: "\<not> is_inf (f_lit 75 10)" "f_mag (f_lit 75 10) \<noteq> 0" "\<not> f_neg (f_lit 75 10)"
      by (simp_all add: f_eval)
    show "\<not> is_nan (f_mul (f_of_nat n) (f_lit 75 10))"
      using lit not_nan_ops by (auto simp: f_mul_def is_inf_def INF_MAG_def Let_def)
    show "\<not> is_nan (f_of_nat 8)" by (simp add: not_nan_ops)
    have "\<not> is_inf (f_of_nat 8)" by (simp add: f_eval)
    then show "\<not> is_inf (f_mul (f_of_nat n) (f_lit 75 10)) \<or> \<not> is_inf (f_of_nat 8) \<or>
        f_neg (f_mul (f_of_nat n) (f_lit 75 10)) = f_neg (f_of_nat 8)" by simp
  qed
  ultimately show ?thesis using assms f_clamp_range
    by (auto simp: estimate_bubble_width_def Let_def split: if_splits)
qed

section \<open>The server's arguments\<close>

text \<open>The arguments after the program's name, and \<open>SERVER_ADDR\<close>.\<close>

fun bind_addr :: "string list \<Rightarrow> string option \<Rightarrow> string + string" where
  "bind_addr [] server_addr = Inr (case server_addr of Some addr \<Rightarrow> addr | None \<Rightarrow> ''127.0.0.1:3000'')"
| "bind_addr (arg # args) server_addr =
     (if arg = ''-ip''
      then (case args of [] \<Rightarrow> Inl ''-ip requires an address'' | addr # _ \<Rightarrow> Inr addr)
      else bind_addr args server_addr)"

text \<open>The first \<open>-ip\<close> decides.\<close>

lemma bind_addr_first:
  "''-ip'' \<notin> set before \<Longrightarrow> bind_addr (before @ ''-ip'' # addr # after) server_addr = Inr addr"
  by (induction before) auto

lemma bind_addr_error: "(\<exists>e. bind_addr args server_addr = Inl e) \<longleftrightarrow> (\<exists>before. args = before @ [''-ip''] \<and> ''-ip'' \<notin> set before)"
proof (induction args)
  case (Cons a args)
  show ?case
  proof (cases "a = ''-ip''")
    case True
    then show ?thesis by (auto simp: Cons_eq_append_conv split: list.splits)
  next
    case False
    then have "(\<exists>before. a # args = before @ [''-ip''] \<and> ''-ip'' \<notin> set before) \<longleftrightarrow>
        (\<exists>before. args = before @ [''-ip''] \<and> ''-ip'' \<notin> set before)"
      by (auto simp: Cons_eq_append_conv)
    then show ?thesis using False Cons.IH by simp
  qed
qed simp

end
