(* ===== verification/Spec2Isabelle.thy ===== *)
theory Spec2Isabelle
  imports Blocking Mail_Office Api_Types Ratchet_Cost App_Safety App_Reachable Media_Setup Process_Shell
begin

text \<open>
  \<^bold>\<open>Verification of rsmsg\<close>, a messenger in Rust: an HTTP and WebSocket server over PostgreSQL, a client
  library with end-to-end encryption, and a desktop window with audio and video calls.

  \<^bold>\<open>The parts and how they interact.\<close>  The crates are \<open>shared\<close> (the wire types), \<open>server\<close>,
  \<open>crypto\<close>, \<open>client-core\<close> and \<open>client-ui\<close>, all under \<open>src/crates\<close>.  The server
  is a router (\<open>router.rs\<close>) that lets every request pass the version gate and then calls a handler;
  the handler authorizes the device, calls the domain function, and this calls the repositories,
  one SQL statement each.  Besides the tables the server keeps in memory who is online, a queue of
  call signals and the attempts of the login limiter.  The client core keeps ratchet sessions with
  its peers and its password, talks to the server through its transport and stores keys and sessions
  in encrypted files.  The window (\<open>app.rs\<close>) is drawn sixty times a second; every slow operation runs
  on a thread that works on a clone of the core and reports back through a channel, which later
  frames poll.  Calls are set up by signals over the server and then run peer to peer.

  \<^bold>\<open>The server.\<close>
  \<^item> \<open>Prelude\<close>: machine words, fallible computations over a state (\<open>comp\<close>), lists of rows, and the
    locale \<open>step_order\<close>, with which a relation between states is lifted from statements to handlers.
  \<^item> \<open>Shared_Api\<close>: one record per type of \<open>shared/src/lib.rs\<close>.  \<open>Api_Core\<close>: \<open>ApiError\<close>, the
    server's state (\<open>AppState\<close> and the tables) and database errors.  A statement may fail whenever
    the state's list of faults says so; a transaction restores the tables on an error.
  \<^item> \<open>Repo_Accounts\<close>, \<open>Repo_Content\<close>: \<open>repository/*.rs\<close>, each statement as a change of the tables
    under the constraints of the migrations.  The locales \<open>block_policy\<close>, \<open>credential_store\<close> and
    \<open>mailbox\<close> are the contracts of the tables towards the domain functions.
  \<^item> \<open>Table_Invariants\<close>: the invariant of the tables, and the order in which they may change.
  \<^item> \<open>Auth_Devices\<close>, \<open>Login_Limiter\<close>, \<open>Users\<close>, \<open>Messaging\<close>, \<open>Blobs\<close>, \<open>Call_Signaling\<close>,
    \<open>Realtime\<close>, \<open>Version_Gate\<close>: the functions of \<open>auth.rs\<close>, \<open>domain/\<close>, \<open>handlers/\<close>, \<open>services/\<close>,
    \<open>login_rate_limit.rs\<close> and \<open>version_gate.rs\<close>, each with the outcome of its operations on success and on errors.
  \<^item> \<open>Router\<close>: the routes, a request as a whole, the process as a step relation (requests, turns of
    sessions, the statistics job, time) and what holds in all its reachable states.
  \<^item> \<open>Mail_Office\<close>: the abstract office of letters that the whole server refines.  \<open>Blocking\<close>: what a
    block of one user by another promises until its maker lifts it.

  \<^bold>\<open>The client.\<close>
  \<^item> \<open>Crypto_Engine\<close>: \<open>crypto/src/lib.rs\<close> over the primitives of the cipher, signature and key
    agreement crates, with their laws as \<open>primitive_laws\<close>.
  \<^item> \<open>Client_Vault\<close>, \<open>Client_Sessions\<close>: files, encrypted files, session and key store, configuration.
  \<^item> \<open>Transport\<close>: one definition per call of \<open>transport.rs\<close> over a network parameter.
  \<^item> \<open>Client_Core\<close>, \<open>Ratchet\<close>: \<open>core.rs\<close>, and what its sessions guarantee; the locale \<open>kdf_chain\<close> is the
    contract of a key derivation step.  \<open>Ratchet_Cost\<close>: how long its receiver skips.
  \<^item> \<open>End_To_End\<close>: clients whose network is the model of the server.  \<open>Api_Types\<close>: the types of
    the answers on both sides.

  \<^bold>\<open>The window.\<close>
  \<^item> \<open>media.rs\<close>: \<open>Media_Frames\<close> (frames as bytes, queue, preview), \<open>Float32\<close> (the arithmetic of
    \<open>f32\<close>), \<open>Audio_Math\<close> (samples, gain, levels, resampling), \<open>Media_Threads\<close> (the threads of a call
    on their shared state, and all interleavings; the locale \<open>steady_thread\<close> is the contract of a
    sender with those who fill its channel), \<open>Media_Setup\<close> (devices, camera, negotiation).
  \<^item> \<open>Ui_Text\<close>: \<open>message_ui.rs\<close>, \<open>localization.rs\<close>, \<open>settings.rs\<close>, \<open>updater.rs\<close>.
    \<open>Process_Shell\<close>: \<open>notifications.rs\<close>, \<open>tray.rs\<close>, what is left of the former, and the server's arguments.
  \<^item> \<open>App_State\<close>: the fields of \<open>MessengerApp\<close> and \<open>history.rs\<close>.  A thread that was started is a \<open>job\<close>;
    what a frame finds in a channel is an argument of the poll.  \<open>App_Account\<close>, \<open>App_Chat\<close>, \<open>App_Sync\<close>,
    \<open>App_Calls\<close>: the methods of \<open>MessengerApp\<close>.  \<open>App_Flows\<close>: what the threads do.
  \<^item> \<open>App_View\<close>: the texts and widgets of all panels and windows, and what a click does.
    \<open>App_Window\<close>: start, tray and frame.
  \<^item> \<open>App_Invariants\<close>, \<open>App_Safety\<close>, \<open>App_Reachable\<close>: histories and pinned identities, interleavings of
    threads and user, and the invariant of all reachable states.
  \<^item> \<open>Example_Env\<close>, \<open>App_Example\<close>: concrete parameters and states, on which the worked
    examples evaluate the definitions.

  \<^bold>\<open>What the lemmas show.\<close>  The properties are the theorems with a number.  For the server: what each
  operation does to the tables on every outcome, what stays true in all reachable states, who may
  change what, how long tokens, invites, prekeys, blocks and lockouts live, and that its mailboxes are those
  of the abstract office.  For the client: round
  trips of what is encrypted and stored, the ratchet on envelopes in order, replayed, skipped and
  reflected.  For both together: a text and a file from one device to the other, and that every
  successful answer has the type the client expects.  For the window: its invariant, what a
  synchronisation adds, which keys are used, when microphone and camera run.  For a call: that no
  captured sound or picture stops a sender, that the gain, the levels and the queue keep their
  bounds.  Lemmas without a number show the scenarios in which the code goes wrong.

  \<^bold>\<open>Bounds and fuel.\<close>  Only \<open>skip_loop\<close> counts its rounds; it is compared with \<open>skip_to\<close>, which
  terminates by itself, and the number it needs is proved.  Loops over a list are structural; \<open>skip_to\<close>,
  \<open>replace_all\<close>, \<open>pop_while_longer\<close> and the drains terminate by a measure.  Counters, sizes and
  dimensions keep their width of 32 or 64 bits and wrap as in a release build; the message counters
  are proved not to reach their limit where a theorem needs it.  The bound of the signal queue
  (2048), of blobs, chunks and bodies are the constants of the code.

  \<^bold>\<open>What is a parameter.\<close>  Third-party code: base64, uuid and hash functions (\<open>env\<close>, with their laws
  as predicates), ciphers (\<open>primitives\<close>), JSON (\<open>codec\<close>), the network (\<open>network\<close>), axum's own
  refusals (\<open>refuse\<close>, and \<open>ws_handshake\<close> for the headers of an upgrade), Opus, H.264 and the RTP packets (\<open>call_codecs\<close>), sound hosts, the camera's
  events, the peer connection (\<open>rtc_api\<close>), devices and dialogs (\<open>app_env\<close>), \<open>sin\<close>.  Random bytes and
  fresh identifiers are drawn from \<open>draws\<close>.

  \<^bold>\<open>What is not modelled, and why.\<close>
  \<^item> Concurrency inside the server: requests are steps one after the other, as transactions
    and mutexes serialise them; \<open>SKIP LOCKED\<close> then skips nothing.  Time stands still within a
    request and within a frame, and a frame uses one set of random draws.
  \<^item> A login is one step, although \<open>login_rate_limit.rs\<close> releases its mutex between \<open>allow\<close> and
    \<open>record_failure\<close>: how many logins sent at the same moment pass the check is not covered.
  \<^item> The limits of PostgreSQL (the size of a \<open>BYTEA\<close>, no zero byte in a text), and statements that fail
    after they took effect: a failed statement changes nothing.  Rows that are equal under
    \<open>ORDER BY\<close> come in the order of the table.
  \<^item> The width of numbers nothing is computed with: key ids and times in the DTOs are unbounded.
  \<^item> Memory: \<open>Vec::with_capacity\<close> in \<open>fetch_blob_bytes_with_progress\<close>, which aborts on a huge
    \<open>Content-Length\<close>, and programs that cannot be started because an argument holds a zero byte
    (\<open>notifications.rs\<close>).
  \<^item> Strings are their bytes, so that a slice inside a character is not noticed.  The slices of \<open>app.rs\<close> that
    shorten an id to eight bytes (\<open>peer_name\<close>) would panic on an id that is not ASCII, which no
    uuid of the server is.
  \<^item> The threads of the window share one core; their jobs may change it arbitrarily between frames, and
    what they report is arbitrary too.  A frame has at most one edit and one click.
  \<^item> The layout of the window (sizes, colours, repaints) and, in the call window, the labels of the
    connection, the video and the speaking peer: pure output.  Reading RTCP, whose packets are
    discarded.
  \<^item> Logging, the connection pool and the socket of the server's \<open>main\<close>, and the window options of the
    client's.
  \<^item> The payload of a NaN, which Rust leaves open, and the sign of a zero that \<open>f32::max\<close> returns.
\<close>

end
